(* ===== verification/Prelude.thy ===== *)
theory Prelude
  imports Complex_Main "HOL-Library.AList" "HOL-Library.List_Lexorder" "HOL-Library.Char_ord"
    "HOL-Library.Multiset"
begin

text \<open>
  Shared vocabulary of the development.  A Python exception is a value of type \<open>exn\<close>, a
  fallible operation returns a \<open>result\<close> (\<open>Inl\<close> the exception, \<open>Inr\<close> the value), and a
  Python dict is an association list in insertion order with distinct keys
  (\<open>AList.update\<close> overwrites in place or appends, as \<open>d[k] = v\<close> does).  The theory also holds
  the collections of automation rules and the generic list and dict lemmas.
\<close>

named_theorems result_simps \<open>inversion of the error monad\<close>
named_theorems dict_simps \<open>lookup and keys of updated dicts\<close>

section \<open>Exceptions and results\<close>

text \<open>The exception classes the modelled code raises, with their messages.\<close>

datatype exn =
    ValueError string
  | KeyError string
  | RuntimeError string
  | ArithmeticError string
  | OverflowError string
  | DuplicateFillError string
  | InsufficientPositionError string
  | InvalidOrderTransition string
  | DuplicateIntentConflict string
  | EventHeadConflict string
  | SafetyIntegrityError string
  | SafetyStateChangedError string
  | SafetyAlreadyUsedError string
  | KillSwitchError string
  | ApprovalError string
  | LiveOrderError string
  | IntegrityError string

type_synonym 'a result = "exn + 'a"

definition rbind :: "'a result \<Rightarrow> ('a \<Rightarrow> 'b result) \<Rightarrow> 'b result" where
  "rbind r f = (case r of Inl e \<Rightarrow> Inl e | Inr x \<Rightarrow> f x)"

definition require :: "bool \<Rightarrow> exn \<Rightarrow> unit result" where
  "require c e = (if c then Inr () else Inl e)"

fun is_ok :: "'a result \<Rightarrow> bool" where
  "is_ok (Inr _) = True"
| "is_ok (Inl _) = False"

text \<open>Validate a sequence element by element, stopping at the first exception.\<close>

fun traverse :: "('a \<Rightarrow> 'b result) \<Rightarrow> 'a list \<Rightarrow> 'b list result" where
  "traverse f [] = Inr []"
| "traverse f (x # xs) = rbind (f x) (\<lambda>y. rbind (traverse f xs) (\<lambda>ys. Inr (y # ys)))"

text \<open>A loop that threads a state and stops at the first exception.\<close>

fun fold_result :: "('a \<Rightarrow> 's \<Rightarrow> 's result) \<Rightarrow> 'a list \<Rightarrow> 's \<Rightarrow> 's result" where
  "fold_result f [] s = Inr s"
| "fold_result f (x # xs) s = rbind (f x s) (fold_result f xs)"

lemma rbind_Inr [simp]: "rbind (Inr x) f = f x"
  by (simp add: rbind_def)

lemma rbind_Inl [simp]: "rbind (Inl e) f = Inl e"
  by (simp add: rbind_def)

lemma rbind_eq_Inr [result_simps]: "rbind r f = Inr y \<longleftrightarrow> (\<exists>x. r = Inr x \<and> f x = Inr y)"
  by (cases r) auto

lemma rbind_eq_Inl [result_simps]:
  "rbind r f = Inl e \<longleftrightarrow> r = Inl e \<or> (\<exists>x. r = Inr x \<and> f x = Inl e)"
  by (cases r) auto

lemma require_eq_Inr [result_simps]: "require c e = Inr u \<longleftrightarrow> c"
  by (simp add: require_def)

lemma require_eq_Inl [result_simps]: "require c e = Inl e' \<longleftrightarrow> \<not> c \<and> e' = e"
  by (auto simp: require_def)

lemma require_True [simp]: "require True e = Inr ()"
  by (simp add: require_def)

lemma require_False [simp]: "require False e = Inl e"
  by (simp add: require_def)

lemma is_ok_iff: "is_ok r \<longleftrightarrow> (\<exists>x. r = Inr x)"
  by (cases r) auto

lemma rbind_cong [fundef_cong]:
  "r = r' \<Longrightarrow> (\<And>x. r' = Inr x \<Longrightarrow> f x = g x) \<Longrightarrow> rbind r f = rbind r' g"
  by (cases r') auto

lemma traverse_Inr_iff:
  "traverse f xs = Inr ys \<longleftrightarrow> list_all2 (\<lambda>x y. f x = Inr y) xs ys"
  by (induction xs arbitrary: ys) (auto simp: result_simps list_all2_Cons1)

lemma traverse_length: "traverse f xs = Inr ys \<Longrightarrow> length ys = length xs"
  by (auto simp: traverse_Inr_iff dest: list_all2_lengthD)

lemma traverse_total: "(\<And>x. x \<in> set xs \<Longrightarrow> \<exists>y. f x = Inr y) \<Longrightarrow> \<exists>ys. traverse f xs = Inr ys"
proof (induction xs)
  case (Cons x xs)
  then obtain y ys where "f x = Inr y" "traverse f xs = Inr ys"
    by fastforce
  then show ?case
    by simp
qed simp

lemma fold_result_append:
  "fold_result f (xs @ ys) s = rbind (fold_result f xs s) (fold_result f ys)"
proof (induction xs arbitrary: s)
  case (Cons x xs)
  then show ?case
    by (cases "f x s") simp_all
qed simp

text \<open>An invariant every step keeps is kept by the loop.\<close>

lemma fold_result_inv:
  assumes "\<And>x s s'. x \<in> set xs \<Longrightarrow> P s \<Longrightarrow> f x s = Inr s' \<Longrightarrow> P s'"
  shows "P s \<Longrightarrow> fold_result f xs s = Inr s' \<Longrightarrow> P s'"
  using assms
proof (induction xs arbitrary: s)
  case (Cons x xs)
  then show ?case
    by (auto simp: result_simps)
qed simp

section \<open>Lengths\<close>

text \<open>Evaluation counts lengths in integers; large natural numbers are slow to compare.\<close>

fun ilen :: "'a list \<Rightarrow> int" where
  "ilen [] = 0"
| "ilen (x # xs) = 1 + ilen xs"

lemma ilen_length [code_unfold]: "int (length xs) = ilen xs"
  by (induction xs) simp_all

section \<open>Dicts\<close>

type_synonym ('k, 'v) dict = "('k \<times> 'v) list"

definition dict_ok :: "('k, 'v) dict \<Rightarrow> bool" where
  "dict_ok d \<longleftrightarrow> distinct (map fst d)"

abbreviation dget :: "('k, 'v) dict \<Rightarrow> 'k \<Rightarrow> 'v option" where
  "dget d k \<equiv> map_of d k"

abbreviation dset :: "'k \<Rightarrow> 'v \<Rightarrow> ('k, 'v) dict \<Rightarrow> ('k, 'v) dict" where
  "dset k v d \<equiv> AList.update k v d"

abbreviation ddel :: "'k \<Rightarrow> ('k, 'v) dict \<Rightarrow> ('k, 'v) dict" where
  "ddel k d \<equiv> AList.delete k d"

abbreviation dkeys :: "('k, 'v) dict \<Rightarrow> 'k list" where
  "dkeys d \<equiv> map fst d"

text \<open>\<open>sorted(d.items())\<close>: keys are distinct, so only keys are compared.\<close>

definition sorted_items :: "('k::linorder, 'v) dict \<Rightarrow> ('k \<times> 'v) list" where
  "sorted_items d = sort_key fst d"

lemma dget_dset [simp, dict_simps]: "dget (dset k v d) j = (if j = k then Some v else dget d j)"
  by (simp add: update_conv')

lemma dget_ddel [simp, dict_simps]: "dget (ddel k d) j = (if j = k then None else dget d j)"
  by (simp add: delete_conv')

text \<open>Sums over the entries of a dict.\<close>

definition dict_sum :: "('v \<Rightarrow> 'a::ab_group_add) \<Rightarrow> ('k, 'v) dict \<Rightarrow> 'a" where
  "dict_sum g d = sum_list (map (g \<circ> snd) d)"

lemma dict_sum_dset:
  "dict_sum g (dset k v d) = dict_sum g d - (case dget d k of None \<Rightarrow> 0 | Some w \<Rightarrow> g w) + g v"
  by (induction d) (auto simp: dict_sum_def algebra_simps)

lemma dict_sum_ddel:
  "distinct (map fst d) \<Longrightarrow> dict_sum g (ddel k d) = dict_sum g d - (case dget d k of None \<Rightarrow> 0 | Some w \<Rightarrow> g w)"
proof (induction d)
  case (Cons x d)
  show ?case
  proof (cases "fst x = k")
    case True
    with Cons.prems have "ddel k d = d"
      by (intro delete_id) auto
    with True show ?thesis
      by (cases x) (simp add: dict_sum_def)
  next
    case False
    with Cons show ?thesis
      by (cases x) (simp add: dict_sum_def algebra_simps)
  qed
qed (simp add: dict_sum_def)

lemma dict_ok_Nil [simp]: "dict_ok []"
  by (simp add: dict_ok_def)

lemma dict_ok_dset [simp]: "dict_ok d \<Longrightarrow> dict_ok (dset k v d)"
  by (simp add: dict_ok_def distinct_update)

lemma dict_ok_ddel [simp]: "dict_ok d \<Longrightarrow> dict_ok (ddel k d)"
  by (simp add: dict_ok_def distinct_delete)

lemma dkeys_dset [simp, dict_simps]: "set (dkeys (dset k v d)) = insert k (set (dkeys d))"
  by (metis dom_map_of_conv_image_fst image_set fun_upd_same dom_fun_upd option.distinct(1)
      update_conv')

lemma dkeys_ddel [simp, dict_simps]: "set (dkeys (ddel k d)) = set (dkeys d) - {k}"
  by (induction d) auto

lemma update_absent: "k \<notin> set (dkeys d) \<Longrightarrow> dset k v d = d @ [(k, v)]"
  by (induction d) auto

text \<open>A dict rebuilt from the items of a dict is that dict.\<close>

lemma rebuild_dict:
  assumes "distinct (dkeys d @ map fst xs)"
  shows "foldl (\<lambda>a (k, v). dset k v a) d xs = d @ xs"
  using assms
proof (induction xs arbitrary: d)
  case (Cons x xs)
  obtain k v where x: "x = (k, v)"
    by (metis surj_pair)
  with Cons.prems have "dset k v d = d @ [(k, v)]"
    by (simp add: update_absent)
  with Cons x show ?case
    by simp
qed simp

text \<open>The same keys in the form the simplifier normalises to.\<close>

lemma image_dset [simp]: "fst ` set (dset k v d) = insert k (fst ` set d)"
  using dkeys_dset [of k v d] by (simp only: set_map)

lemma image_ddel [simp]: "fst ` set (ddel k d) = fst ` set d - {k}"
  using dkeys_ddel [of k d] by (simp only: set_map)

lemma dset_ddel_absent: "k \<notin> set (dkeys d) \<Longrightarrow> ddel k d = d"
  by (induction d) auto

lemma dget_None_iff: "dget d k = None \<longleftrightarrow> k \<notin> set (dkeys d)"
  by (simp add: map_of_eq_None_iff)

lemma dget_Some_iff: "dict_ok d \<Longrightarrow> dget d k = Some v \<longleftrightarrow> (k, v) \<in> set d"
  by (auto simp: dict_ok_def dest: map_of_SomeD)

lemma dget_SomeD: "dget d k = Some v \<Longrightarrow> k \<in> set (dkeys d)"
  by (metis dget_None_iff option.distinct(1))

lemma sort_key_sorted: "sorted (map f xs) \<Longrightarrow> sort_key f xs = xs"
  by (rule properties_for_sort_key) simp_all

lemma set_sorted_items [simp]: "set (sorted_items d) = set d"
  by (simp add: sorted_items_def)

lemma dict_ok_sorted_items [simp]: "dict_ok (sorted_items d) \<longleftrightarrow> dict_ok d"
proof -
  have "mset (map fst (sorted_items d)) = mset (map fst d)"
    by (metis mset_map mset_sort sorted_items_def)
  then show ?thesis
    unfolding dict_ok_def by (metis mset_eq_imp_distinct_iff)
qed

lemma dget_sorted_items [simp]:
  assumes "dict_ok d"
  shows "dget (sorted_items d) k = dget d k"
proof (cases "dget d k")
  case None
  then have "dget (sorted_items d) k = None"
    by (simp add: map_of_eq_None_iff)
  with None show ?thesis
    by simp
next
  case (Some v)
  with assms have "(k, v) \<in> set (sorted_items d)"
    by (simp add: dget_Some_iff)
  moreover from assms have "dict_ok (sorted_items d)"
    by simp
  ultimately have "dget (sorted_items d) k = Some v"
    using dget_Some_iff by metis
  with Some show ?thesis
    by simp
qed

end
