(* ===== verification/Decimals.thy ===== *)
theory Decimals
  imports Prelude
begin

text \<open>
  Python's \<open>decimal.Decimal\<close> under the default context: 28 significant digits, rounding half
  to even.  A finite Decimal is represented by its numeric value, a rational, so that HOL
  equality is Python's \<open>==\<close>.  Every arithmetic operation computes the exact result and rounds
  it once (\<open>rnd\<close>); comparisons, \<open>min\<close>, \<open>max\<close> and \<open>to_integral_value\<close> do not round to the
  context.  The exponent range of the context (\<open>Emax\<close> = 999999) is not modelled, and the
  special values NaN and Infinity have no representative: the fields of the modelled records
  reject them.
\<close>

named_theorems dec_simps \<open>evaluation of rounded operations on exact values\<close>

section \<open>Digits and powers of ten\<close>

type_synonym dec = rat

function ndigits :: "int \<Rightarrow> int" where
  "ndigits n = (if n < 10 then 1 else 1 + ndigits (n div 10))"
  by pat_completeness auto
termination
  by (relation "measure nat") auto

declare ndigits.simps [simp del]

definition pow10 :: "int \<Rightarrow> rat" where
  "pow10 e = (if 0 \<le> e then 10 ^ nat e else 1 / 10 ^ nat (- e))"

text \<open>The adjusted exponent: \<open>10 ^ e \<le> \<bar>x\<bar> < 10 ^ (e + 1)\<close> for \<open>x \<noteq> 0\<close>.\<close>

definition adjusted :: "rat \<Rightarrow> int" where
  "adjusted x = (let (n, d) = quotient_of \<bar>x\<bar>; e = ndigits n - ndigits d
                 in if pow10 e \<le> \<bar>x\<bar> then e else e - 1)"

definition round_half_even :: "rat \<Rightarrow> int" where
  "round_half_even x = (let f = \<lfloor>x\<rfloor>; r = x - of_int f
     in if r < 1 / 2 then f else if 1 / 2 < r then f + 1 else if even f then f else f + 1)"

text \<open>Rounding a nonzero value to 28 significant digits.\<close>

definition rnd :: "rat \<Rightarrow> dec" where
  "rnd x = (if x = 0 then 0
            else let q = pow10 (adjusted x - 27) in of_int (round_half_even (x / q)) * q)"

section \<open>The operations of the context\<close>

definition dadd :: "dec \<Rightarrow> dec \<Rightarrow> dec" where "dadd x y = rnd (x + y)"
definition dsub :: "dec \<Rightarrow> dec \<Rightarrow> dec" where "dsub x y = rnd (x - y)"
definition dmul :: "dec \<Rightarrow> dec \<Rightarrow> dec" where "dmul x y = rnd (x * y)"
definition ddiv :: "dec \<Rightarrow> dec \<Rightarrow> dec" where "ddiv x y = rnd (x / y)"
definition dneg :: "dec \<Rightarrow> dec" where "dneg x = rnd (- x)"
definition dabs :: "dec \<Rightarrow> dec" where "dabs x = rnd \<bar>x\<bar>"

text \<open>\<open>ddiv\<close> is only used where the code has established a nonzero divisor; elsewhere the
  division that can raise is \<open>ddiv_r\<close>.\<close>

definition ddiv_r :: "dec \<Rightarrow> dec \<Rightarrow> dec result" where
  "ddiv_r x y = (if y = 0 then Inl (ArithmeticError ''division by zero'') else Inr (ddiv x y))"

text \<open>\<open>sum(values, Decimal("0"))\<close>: a left fold, rounding after every step.\<close>

definition dsum :: "dec list \<Rightarrow> dec" where
  "dsum xs = foldl dadd 0 xs"

text \<open>\<open>to_integral_value\<close> with the rounding modes the code names; the default is half even.\<close>

definition integral_floor :: "dec \<Rightarrow> dec" where "integral_floor x = of_int \<lfloor>x\<rfloor>"
definition integral_ceiling :: "dec \<Rightarrow> dec" where "integral_ceiling x = of_int \<lceil>x\<rceil>"
definition integral_down :: "dec \<Rightarrow> dec" where
  "integral_down x = (if 0 \<le> x then of_int \<lfloor>x\<rfloor> else of_int \<lceil>x\<rceil>)"
definition integral_even :: "dec \<Rightarrow> dec" where "integral_even x = of_int (round_half_even x)"

text \<open>
  \<open>x % y\<close>: the remainder of the truncated quotient, with the sign of \<open>x\<close>.  It raises when the
  divisor is zero or the integer quotient needs more than 28 digits.
\<close>

definition dmod_r :: "dec \<Rightarrow> dec \<Rightarrow> dec result" where
  "dmod_r x y = (if y = 0 then Inl (ArithmeticError ''division by zero'')
     else let q = integral_down (x / y)
       in if 10 ^ 28 \<le> \<bar>q\<bar> then Inl (ArithmeticError ''division impossible'')
          else Inr (rnd (x - q * y)))"

text \<open>Values with at most 28 significant digits: the results of the context's operations.\<close>

definition representable :: "rat \<Rightarrow> bool" where
  "representable x \<longleftrightarrow> rnd x = x"

section \<open>Facts about digits and powers\<close>

lemma ndigits_pos: "0 < ndigits n"
proof (induction n rule: ndigits.induct)
  case (1 n)
  then show ?case by (subst ndigits.simps) auto
qed

lemma pow10_pos [simp]: "0 < pow10 e"
  by (simp add: pow10_def)

lemma pow10_nonneg [simp]: "0 \<le> pow10 e"
  by (simp add: less_imp_le)

lemma pow10_nonzero [simp]: "pow10 e \<noteq> 0"
  using pow10_pos [of e] by linarith

lemma pow10_0 [simp]: "pow10 0 = 1"
  by (simp add: pow10_def)

lemma pow10_powi: "pow10 e = 10 powi e"
  by (simp add: pow10_def power_int_def inverse_eq_divide power_one_over)

lemma pow10_add: "pow10 (a + b) = pow10 a * pow10 b"
  by (simp add: pow10_powi power_int_add)

lemma pow10_Suc: "pow10 (a + 1) = 10 * pow10 a"
  by (simp add: pow10_add) (simp add: pow10_def)

lemma pow10_mono: "a \<le> b \<Longrightarrow> pow10 a \<le> pow10 b"
  by (simp add: pow10_powi power_int_increasing)

lemma pow10_less: "a < b \<Longrightarrow> pow10 a < pow10 b"
  by (simp add: pow10_powi power_int_strict_increasing)

lemma pow10_less_iff: "pow10 a < pow10 b \<longleftrightarrow> a < b"
  using pow10_less [of a b] pow10_mono [of b a] by linarith

lemma pow10_nat: "pow10 (int n) = 10 ^ n"
  by (simp add: pow10_def)

lemma ndigits_bounds:
  assumes "0 < n"
  shows "pow10 (ndigits n - 1) \<le> of_int n \<and> of_int n < pow10 (ndigits n)"
  using assms
proof (induction n rule: ndigits.induct)
  case (1 n)
  show ?case
  proof (cases "n < 10")
    case True
    then have "ndigits n = 1" by (subst ndigits.simps) simp
    with "1.prems" True show ?thesis by (simp add: pow10_def)
  next
    case False
    let ?m = "n div 10"
    have nd: "ndigits n = 1 + ndigits ?m" using False by (subst ndigits.simps) simp
    from False have m: "pow10 (ndigits ?m - 1) \<le> of_int ?m" "of_int ?m < pow10 (ndigits ?m)"
      using "1.IH" by auto
    have p: "pow10 (ndigits ?m) = of_int (10 ^ nat (ndigits ?m))"
      using ndigits_pos [of ?m] by (simp add: pow10_def)
    have split: "n = 10 * ?m + n mod 10" "0 \<le> n mod 10" "n mod 10 < 10" by auto
    have lo: "pow10 (ndigits ?m) \<le> of_int n"
    proof -
      have "pow10 (ndigits ?m) = 10 * pow10 (ndigits ?m - 1)"
        using pow10_Suc [of "ndigits ?m - 1"] by simp
      also have "\<dots> \<le> 10 * of_int ?m" using m(1) by simp
      also have "\<dots> = of_int (10 * ?m)" by simp
      also have "\<dots> \<le> of_int n" using split by (simp only: of_int_le_iff)
      finally show ?thesis .
    qed
    from m(2) have "?m < 10 ^ nat (ndigits ?m)"
      by (simp only: p of_int_less_iff)
    then have "n < 10 * 10 ^ nat (ndigits ?m)" using split by linarith
    then have "of_int n < (of_int (10 * 10 ^ nat (ndigits ?m)) :: rat)"
      by (simp only: of_int_less_iff)
    then have "of_int n < 10 * pow10 (ndigits ?m)" unfolding p by simp
    with lo nd show ?thesis using pow10_Suc [of "ndigits ?m"] by (simp add: add.commute)
  qed
qed

lemma adjusted_bounds:
  assumes "x \<noteq> 0"
  shows "pow10 (adjusted x) \<le> \<bar>x\<bar> \<and> \<bar>x\<bar> < pow10 (adjusted x + 1)"
proof -
  obtain n d where q: "quotient_of \<bar>x\<bar> = (n, d)" by (cases "quotient_of \<bar>x\<bar>")
  then have d: "0 < d" and x: "\<bar>x\<bar> = of_int n / of_int d"
    using quotient_of_denom_pos quotient_of_div by auto
  have "0 < \<bar>x\<bar>" using assms by simp
  with d x have n: "0 < n"
    by (simp add: zero_less_divide_iff)
  let ?e = "ndigits n - ndigits d"
  have bn: "pow10 (ndigits n - 1) \<le> of_int n" "of_int n < pow10 (ndigits n)"
    and bd: "pow10 (ndigits d - 1) \<le> of_int d" "of_int d < pow10 (ndigits d)"
    using ndigits_bounds [OF n] ndigits_bounds [OF d] by auto
  have up: "\<bar>x\<bar> < pow10 (?e + 1)"
  proof -
    have "of_int n < pow10 (?e + 1) * pow10 (ndigits d - 1)"
      using bn(2) by (simp flip: pow10_add)
    also have "\<dots> \<le> pow10 (?e + 1) * of_int d"
      using bd(1) by (simp add: mult_left_mono)
    finally show ?thesis using d by (simp add: x divide_simps)
  qed
  have lo: "pow10 (?e - 1) \<le> \<bar>x\<bar>"
  proof -
    have "pow10 (?e - 1) * of_int d \<le> pow10 (?e - 1) * pow10 (ndigits d)"
      using bd(2) by (simp add: mult_left_mono)
    also have "\<dots> = pow10 (ndigits n - 1)" by (simp flip: pow10_add)
    also have "\<dots> \<le> of_int n" by (rule bn(1))
    finally show ?thesis using d by (simp add: x divide_simps)
  qed
  show ?thesis
    unfolding adjusted_def q using up lo by (auto simp: Let_def)
qed

lemma adjusted_unique:
  assumes "pow10 e \<le> \<bar>x\<bar>" "\<bar>x\<bar> < pow10 (e + 1)"
  shows "adjusted x = e"
proof -
  from assms(1) have "x \<noteq> 0" using pow10_pos [of e] by (metis abs_zero linorder_not_less)
  note b = adjusted_bounds [OF this]
  have "pow10 e < pow10 (adjusted x + 1)" "pow10 (adjusted x) < pow10 (e + 1)"
    using b assms by auto
  then show ?thesis by (simp add: pow10_less_iff)
qed

lemma adjusted_mono:
  assumes "0 < x" "x \<le> y"
  shows "adjusted x \<le> adjusted y"
proof -
  have "pow10 (adjusted x) \<le> x" "y < pow10 (adjusted y + 1)"
    using adjusted_bounds [of x] adjusted_bounds [of y] assms by auto
  with assms have "pow10 (adjusted x) < pow10 (adjusted y + 1)" by linarith
  then show ?thesis by (simp add: pow10_less_iff)
qed

lemma adjusted_neg [simp]: "adjusted (- x) = adjusted x"
  by (simp add: adjusted_def)

section \<open>Rounding half to even\<close>

lemma round_half_even_int [simp]: "round_half_even (of_int n) = n"
  by (simp add: round_half_even_def)

lemma round_half_even_cases:
  "round_half_even x = \<lfloor>x\<rfloor> \<and> x - of_int \<lfloor>x\<rfloor> \<le> 1 / 2 \<or>
   round_half_even x = \<lfloor>x\<rfloor> + 1 \<and> 1 / 2 \<le> x - of_int \<lfloor>x\<rfloor>"
  by (auto simp: round_half_even_def Let_def)

lemma round_half_even_error: "\<bar>of_int (round_half_even x) - x\<bar> \<le> 1 / 2"
proof -
  have "of_int \<lfloor>x\<rfloor> \<le> x" "x < of_int \<lfloor>x\<rfloor> + 1" by linarith+
  then show ?thesis using round_half_even_cases [of x] by auto
qed

lemma round_half_even_mono:
  assumes "x \<le> y"
  shows "round_half_even x \<le> round_half_even y"
proof (cases "\<lfloor>x\<rfloor> = \<lfloor>y\<rfloor>")
  case True
  then show ?thesis using assms by (auto simp: round_half_even_def Let_def)
next
  case False
  then have "\<lfloor>x\<rfloor> + 1 \<le> \<lfloor>y\<rfloor>" using floor_mono [OF assms] by linarith
  then show ?thesis using round_half_even_cases [of x] round_half_even_cases [of y] by linarith
qed

lemma round_half_even_minus: "round_half_even (- x) = - round_half_even x"
proof (cases "x = of_int \<lfloor>x\<rfloor>")
  case True
  then obtain n where "x = of_int n" by blast
  then show ?thesis
    using round_half_even_int [of n] round_half_even_int [of "- n"] by (simp add: round_half_even_def)
next
  case False
  then have f: "\<lfloor>- x\<rfloor> = - \<lfloor>x\<rfloor> - 1"
    by (metis ceiling_def ceiling_altdef minus_diff_eq minus_add_distrib minus_minus
        diff_conv_add_uminus)
  show ?thesis
    by (simp add: round_half_even_def f Let_def)
qed

lemma round_half_even_bounds:
  assumes "of_int a \<le> x" "x \<le> of_int b"
  shows "a \<le> round_half_even x \<and> round_half_even x \<le> b"
  using round_half_even_mono [OF assms(1)] round_half_even_mono [OF assms(2)] by simp

section \<open>Rounding to the context\<close>

lemma rnd_0 [simp]: "rnd 0 = 0"
  by (simp add: rnd_def)

lemma rnd_minus [simp]: "rnd (- x) = - rnd x"
  by (simp add: rnd_def Let_def round_half_even_minus)

text \<open>The rounded value of a positive number stays within its decade.\<close>

lemma rnd_decade:
  assumes "0 < x"
  shows "pow10 (adjusted x) \<le> rnd x \<and> rnd x \<le> pow10 (adjusted x + 1)"
proof -
  let ?e = "adjusted x" and ?q = "pow10 (adjusted x - 27)"
  have b: "pow10 ?e \<le> x" "x < pow10 (?e + 1)"
    using adjusted_bounds [of x] assms by auto
  have d27: "pow10 ?e = of_int (10 ^ 27) * ?q" "pow10 (?e + 1) = of_int (10 ^ 28) * ?q"
    using pow10_add [of 27 "?e - 27"] pow10_add [of 28 "?e - 27"]
    by (simp_all add: pow10_def add.commute)
  have "of_int (10 ^ 27) \<le> x / ?q" "x / ?q \<le> of_int (10 ^ 28)"
    using b unfolding d27 by (simp_all add: pos_le_divide_eq pos_divide_le_eq)
  then have r: "10 ^ 27 \<le> round_half_even (x / ?q)" "round_half_even (x / ?q) \<le> 10 ^ 28"
    using round_half_even_bounds by blast+
  have rx: "rnd x = of_int (round_half_even (x / ?q)) * ?q"
    using assms by (simp add: rnd_def Let_def)
  have "of_int (10 ^ 27) * ?q \<le> rnd x" "rnd x \<le> of_int (10 ^ 28) * ?q"
    unfolding rx using r by (simp_all only: mult_right_mono of_int_le_iff pow10_nonneg)
  then show ?thesis unfolding d27 by simp
qed

lemma rnd_pos [simp]: "0 < x \<Longrightarrow> 0 < rnd x"
  using rnd_decade [of x] pow10_pos [of "adjusted x"] by linarith

lemma rnd_neg: "x < 0 \<Longrightarrow> rnd x < 0"
  using rnd_pos [of "- x"] by simp

lemma rnd_nonneg [simp]: "0 \<le> x \<Longrightarrow> 0 \<le> rnd x"
  by (cases "x = 0") (auto simp: less_imp_le)

lemma rnd_eq_0_iff [simp]: "rnd x = 0 \<longleftrightarrow> x = 0"
  by (metis less_irrefl linorder_less_linear rnd_0 rnd_neg rnd_pos)

lemma rnd_pos_iff [simp]: "0 < rnd x \<longleftrightarrow> 0 < x"
  using rnd_pos [of x] rnd_neg [of x] by (cases x "0 :: rat" rule: linorder_cases) auto

lemma rnd_nonneg_iff [simp]: "0 \<le> rnd x \<longleftrightarrow> 0 \<le> x"
  using rnd_pos [of x] rnd_neg [of x] by (cases x "0 :: rat" rule: linorder_cases) auto

lemma rnd_mono_pos:
  assumes "0 < x" "x \<le> y"
  shows "rnd x \<le> rnd y"
proof (cases "adjusted x = adjusted y")
  case True
  let ?q = "pow10 (adjusted y - 27)"
  have "round_half_even (x / ?q) \<le> round_half_even (y / ?q)"
    using assms by (intro round_half_even_mono divide_right_mono) auto
  then show ?thesis
    using assms True by (simp add: rnd_def Let_def mult_right_mono)
next
  case False
  then have "adjusted x + 1 \<le> adjusted y"
    using adjusted_mono [OF assms] by linarith
  then have "pow10 (adjusted x + 1) \<le> pow10 (adjusted y)" by (rule pow10_mono)
  then show ?thesis using rnd_decade [of x] rnd_decade [of y] assms by linarith
qed

lemma rnd_mono: "x \<le> y \<Longrightarrow> rnd x \<le> rnd y"
proof (cases "0 < x")
  case True
  then show "x \<le> y \<Longrightarrow> rnd x \<le> rnd y" by (rule rnd_mono_pos)
next
  case False
  assume le: "x \<le> y"
  show ?thesis
  proof (cases "0 \<le> y")
    case True
    then have "0 \<le> rnd y" by simp
    moreover have "rnd x \<le> 0" using False rnd_nonneg [of "- x"] by simp
    ultimately show ?thesis by linarith
  next
    case False
    then have "rnd (- y) \<le> rnd (- x)" using le by (intro rnd_mono_pos) auto
    then show ?thesis by simp
  qed
qed

text \<open>A number with at most 28 significant digits is a fixed point.\<close>

lemma rnd_exact:
  assumes "\<bar>c\<bar> < 10 ^ 28"
  shows "rnd (of_int c * pow10 k) = of_int c * pow10 k"
proof (cases "c = 0")
  case False
  let ?x = "of_int c * pow10 k" and ?a = "adjusted (of_int c * pow10 k)"
  have nz: "?x \<noteq> 0" using False by simp
  have "pow10 ?a \<le> \<bar>?x\<bar>" using adjusted_bounds [OF nz] by simp
  also have "\<dots> = of_int \<bar>c\<bar> * pow10 k" by (simp add: abs_mult)
  also have "\<dots> < of_int (10 ^ 28) * pow10 k"
    using assms by (intro mult_strict_right_mono) (simp_all only: of_int_less_iff pow10_pos)
  also have "\<dots> = pow10 (k + 28)" using pow10_add [of k 28] by (simp add: pow10_def)
  finally have "?a < k + 28" by (simp add: pow10_less_iff)
  then have j: "k = (?a - 27) + int (nat (k - (?a - 27)))" (is "_ = _ + int ?j")
    by simp
  have "?x / pow10 (?a - 27) = of_int c * (pow10 k / pow10 (?a - 27))" by simp
  also have "pow10 k / pow10 (?a - 27) = of_int (10 ^ ?j)"
  proof -
    have "pow10 k = pow10 (?a - 27) * 10 ^ ?j"
      using j pow10_add pow10_nat by metis
    then have "pow10 k / pow10 (?a - 27) = 10 ^ ?j"
      by (metis nonzero_mult_div_cancel_left pow10_nonzero)
    then show ?thesis by simp
  qed
  finally have e: "?x / pow10 (?a - 27) = of_int (c * 10 ^ ?j)" by simp
  have "rnd ?x = of_int (round_half_even (?x / pow10 (?a - 27))) * pow10 (?a - 27)"
    using nz by (simp only: rnd_def Let_def if_False)
  also have "\<dots> = ?x / pow10 (?a - 27) * pow10 (?a - 27)"
    by (simp only: e round_half_even_int)
  finally show ?thesis by simp
qed simp

text \<open>The relative error of one rounding is at most half a unit in the 28th digit.\<close>

lemma rnd_error: "\<bar>rnd x - x\<bar> \<le> \<bar>x\<bar> * (5 / 10 ^ 28)"
proof (cases "x = 0")
  case False
  let ?q = "pow10 (adjusted x - 27)"
  have "rnd x - x = (of_int (round_half_even (x / ?q)) - x / ?q) * ?q"
    using False by (simp add: rnd_def Let_def field_simps)
  then have "\<bar>rnd x - x\<bar> \<le> 1 / 2 * ?q"
    using round_half_even_error [of "x / ?q"] by (simp add: abs_mult mult_right_mono)
  also have "?q = pow10 (adjusted x) / 10 ^ 27"
    using pow10_add [of "adjusted x - 27" 27] by (simp add: pow10_def [of 27])
  also have "1 / 2 * (pow10 (adjusted x) / 10 ^ 27) \<le> 1 / 2 * (\<bar>x\<bar> / 10 ^ 27)"
    using adjusted_bounds [OF False] by (simp add: divide_right_mono)
  finally show ?thesis by simp
qed simp

section \<open>Representable values\<close>

lemma representable_0 [simp]: "representable 0"
  by (simp add: representable_def)

lemma representableI: "\<bar>c\<bar> < 10 ^ 28 \<Longrightarrow> x = of_int c * pow10 k \<Longrightarrow> representable x"
  by (simp add: representable_def rnd_exact)

lemma representable_int: "\<bar>c\<bar> < 10 ^ 28 \<Longrightarrow> representable (of_int c)"
  using representableI [of c "of_int c" 0] by simp

lemma rnd_form: "\<exists>c k. \<bar>c\<bar> < 10 ^ 28 \<and> rnd x = of_int c * pow10 k"
proof (cases "x = 0")
  case False
  let ?q = "pow10 (adjusted x - 27)"
  let ?c = "round_half_even (x / ?q)"
  have "\<bar>x\<bar> / ?q \<le> of_int (10 ^ 28)"
    using adjusted_bounds [OF False] pow10_add [of 28 "adjusted x - 27"]
    by (simp add: pos_divide_le_eq pow10_def [of 28] add.commute)
  then have "of_int (- (10 ^ 28)) \<le> x / ?q" "x / ?q \<le> of_int (10 ^ 28)"
    by (auto simp: abs_le_iff pos_le_divide_eq pos_divide_le_eq split: abs_split)
  then have c: "\<bar>?c\<bar> \<le> 10 ^ 28"
    using round_half_even_bounds [of "- (10 ^ 28)" "x / ?q" "10 ^ 28"] by (simp add: abs_le_iff)
  have rx: "rnd x = of_int ?c * ?q" using False by (simp add: rnd_def Let_def)
  show ?thesis
  proof (cases "\<bar>?c\<bar> = 10 ^ 28")
    case True
    then have "?c = sgn ?c * 10 ^ 28" by (metis abs_mult_sgn mult.commute)
    then have "rnd x = of_int (sgn ?c) * (10 ^ 28 * ?q)"
      unfolding rx by (metis (no_types, lifting) mult.assoc of_int_mult of_int_numeral of_int_power)
    also have "10 ^ 28 * ?q = pow10 (adjusted x + 1)"
      using pow10_add [of 28 "adjusted x - 27"] by (simp add: pow10_def [of 28] add.commute)
    finally show ?thesis by (intro exI [of _ "sgn ?c"] exI [of _ "adjusted x + 1"]) (auto simp: sgn_if)
  next
    case False
    with c have "\<bar>?c\<bar> < 10 ^ 28" by simp
    then show ?thesis using rx by blast
  qed
qed (intro exI [of _ 0], simp)

lemma representable_rnd [simp]: "representable (rnd x)"
  using rnd_form [of x] representableI by metis

lemma representable_scaled: "representable x \<Longrightarrow> representable (x * pow10 n)"
proof -
  assume "representable x"
  then obtain c k where c: "\<bar>c\<bar> < 10 ^ 28" "x = of_int c * pow10 k"
    using rnd_form [of x] by (auto simp: representable_def)
  then have "x * pow10 n = of_int c * pow10 (k + n)"
    by (simp add: pow10_add)
  with c(1) show ?thesis
    by (rule representableI)
qed

lemma rnd_rnd [simp]: "rnd (rnd x) = rnd x"
  using representable_rnd unfolding representable_def .

lemma rnd_le: "x \<le> y \<Longrightarrow> representable y \<Longrightarrow> rnd x \<le> y"
  using rnd_mono [of x y] by (simp add: representable_def)

lemma rnd_ge: "x \<le> y \<Longrightarrow> representable x \<Longrightarrow> x \<le> rnd y"
  using rnd_mono [of x y] by (simp add: representable_def)

lemma representable_minus [simp]: "representable (- x) \<longleftrightarrow> representable x"
  by (simp add: representable_def)

lemmas dec_ops = dadd_def dsub_def dmul_def ddiv_def dneg_def dabs_def

lemma dec_representable [simp]:
  "representable (dadd x y)" "representable (dsub x y)" "representable (dmul x y)"
  "representable (ddiv x y)" "representable (dneg x)" "representable (dabs x)"
  by (simp_all add: dec_ops)

lemma dmul_pos [simp]: "0 < x \<Longrightarrow> 0 < y \<Longrightarrow> 0 < dmul x y"
  by (simp add: dmul_def)

lemma dmul_nonneg [simp]: "0 \<le> x \<Longrightarrow> 0 \<le> y \<Longrightarrow> 0 \<le> dmul x y"
  by (simp add: dmul_def)

lemma ddiv_pos [simp]: "0 < x \<Longrightarrow> 0 < y \<Longrightarrow> 0 < ddiv x y"
  by (simp add: ddiv_def)

lemma ddiv_nonneg [simp]: "0 \<le> x \<Longrightarrow> 0 \<le> y \<Longrightarrow> 0 \<le> ddiv x y"
  by (simp add: ddiv_def)

lemma dadd_pos: "0 < x \<Longrightarrow> 0 \<le> y \<Longrightarrow> 0 < dadd x y"
  by (simp add: dadd_def)

lemma dadd_nonneg [simp]: "0 \<le> x \<Longrightarrow> 0 \<le> y \<Longrightarrow> 0 \<le> dadd x y"
  by (simp add: dadd_def)

lemma dsub_nonneg_iff [simp]: "0 \<le> dsub x y \<longleftrightarrow> y \<le> x"
  by (simp add: dsub_def)

lemma dsub_pos_iff [simp]: "0 < dsub x y \<longleftrightarrow> y < x"
  by (simp add: dsub_def)

lemma dsub_eq_0_iff [simp]: "dsub x y = 0 \<longleftrightarrow> x = y"
  by (simp add: dsub_def)

lemma dabs_nonneg [simp]: "0 \<le> dabs x"
  by (simp add: dabs_def)

lemma dmul_0 [simp]: "dmul x 0 = 0" "dmul 0 x = 0"
  by (simp_all add: dmul_def)

lemma dsum_Nil [simp]: "dsum [] = 0"
  by (simp add: dsum_def)

lemma dsum_snoc: "dsum (xs @ [x]) = dadd (dsum xs) x"
  by (simp add: dsum_def)

lemma foldl_dadd_nonneg: "0 \<le> a \<Longrightarrow> \<forall>x \<in> set xs. 0 \<le> x \<Longrightarrow> 0 \<le> foldl dadd a xs"
  by (induction xs arbitrary: a) auto

lemma dsum_nonneg: "\<forall>x \<in> set xs. 0 \<le> x \<Longrightarrow> 0 \<le> dsum xs"
  by (simp add: dsum_def foldl_dadd_nonneg)

lemma dsum_representable [simp]: "representable (dsum xs)"
  by (cases xs rule: rev_cases) (simp_all add: dsum_snoc)

section \<open>Evaluation\<close>

text \<open>Values with at most six decimal places and twenty digits need no rounding; the evaluator takes
  this short cut.\<close>

definition rnd_full :: "rat \<Rightarrow> dec" where
  "rnd_full x = rnd x"

text \<open>The same computations with their intermediate values passed as arguments, so that a
  call-by-value evaluator computes each of them once.\<close>

definition pick_even :: "int \<Rightarrow> rat \<Rightarrow> int" where
  "pick_even f r = (if r < 1 / 2 then f else if 1 / 2 < r then f + 1 else if even f then f else f + 1)"

definition split_floor :: "int \<Rightarrow> rat \<Rightarrow> int" where
  "split_floor f x = pick_even f (x - of_int f)"

lemma round_half_even_code [code]: "round_half_even x = split_floor \<lfloor>x\<rfloor> x"
  by (simp add: round_half_even_def split_floor_def pick_even_def Let_def)

definition pick_exponent :: "int \<Rightarrow> rat \<Rightarrow> int" where
  "pick_exponent e a = (if pow10 e \<le> a then e else e - 1)"

definition digit_exponent :: "int \<times> int \<Rightarrow> int" where
  "digit_exponent q = ndigits (fst q) - ndigits (snd q)"

lemma adjusted_code [code]: "adjusted x = pick_exponent (digit_exponent (quotient_of \<bar>x\<bar>)) \<bar>x\<bar>"
  by (simp add: adjusted_def pick_exponent_def digit_exponent_def Let_def split: prod.split)

definition rnd_scaled :: "rat \<Rightarrow> rat \<Rightarrow> dec" where
  "rnd_scaled q x = of_int (round_half_even (x / q)) * q"

lemma rnd_full_code [code]:
  "rnd_full x = (if x = 0 then 0 else rnd_scaled (pow10 (adjusted x - 27)) x)"
  by (simp add: rnd_full_def rnd_def rnd_scaled_def Let_def)

lemma rnd_short:
  assumes "quotient_of x = (n, d)" "1000000 mod d = 0" "\<bar>n\<bar> < 10 ^ 20"
  shows "rnd x = x"
proof -
  have d: "0 < d" "x = of_int n / of_int d"
    using assms(1) quotient_of_denom_pos quotient_of_div by blast+
  obtain m where m: "1000000 = d * m"
    using assms(2) by (metis dvd_def mod_eq_0_iff_dvd)
  have "0 < d * m"
    unfolding m [symmetric] by simp
  with d(1) have "0 < m"
    by (simp only: zero_less_mult_iff) linarith
  moreover have "m dvd 1000000"
    by (metis m dvd_triv_right)
  ultimately have m0: "0 < m" "m \<le> 1000000"
    by (auto intro: zdvd_imp_le)
  have "x = of_int (n * m) * pow10 (- 6)"
  proof -
    have "rat_of_int d * rat_of_int m = 1000000"
      by (metis m of_int_mult of_int_numeral)
    then have "x * 1000000 = x * of_int d * of_int m"
      by (simp add: mult.assoc)
    also have "x * of_int d = of_int n"
      using d by simp
    finally show ?thesis
      by (simp add: pow10_def field_simps)
  qed
  moreover have "\<bar>n * m\<bar> < 10 ^ 28"
  proof -
    have "\<bar>n * m\<bar> \<le> \<bar>n\<bar> * 1000000"
      using m0 by (simp add: abs_mult mult_left_mono)
    with assms(3) show ?thesis
      by simp
  qed
  ultimately show ?thesis
    using rnd_exact by metis
qed

lemma rnd_whole:
  assumes "quotient_of x = (n, 1)" "\<bar>n\<bar> < 10 ^ 28"
  shows "rnd x = x"
proof -
  have "x = of_int n * pow10 0"
    using quotient_of_div [OF assms(1)] by simp
  then show ?thesis
    using rnd_exact [OF assms(2)] by metis
qed

lemma rnd_code [code]:
  "rnd x = (case quotient_of x of (n, d) \<Rightarrow>
     if 1000000 mod d = 0 \<and> \<bar>n\<bar> < 100000000000000000000 then x
     else if d = 1 \<and> \<bar>n\<bar> < 10000000000000000000000000000 then x else rnd_full x)"
  by (auto simp: rnd_full_def split: prod.split intro: rnd_short rnd_whole)

end
