(* ===== verification/Domain.thy ===== *)
theory Domain
  imports Decimals
begin

text \<open>
  The records of \<open>domain/models.py\<close> and the enums of \<open>domain/enums.py\<close>, with the
  validators that pydantic runs when a record is constructed, the clock of
  \<open>domain/clock.py\<close>, the freshness gate of \<open>data/freshness.py\<close> and the fixed limits of
  \<open>config.py\<close>.  A datetime stored in a record is an instant: \<open>FrozenModel\<close> rejects naive
  values and normalises to UTC, so an instant is an integer number of microseconds.  A
  datetime that arrives as an argument may still be naive and has type \<open>pydt\<close>.  The fields
  of type \<open>Decimal\<close> reject NaN and Infinity, so they hold \<open>dec\<close> values and the
  \<open>is_finite()\<close> conjuncts of the code hold by type, as its \<open>isinstance\<close> checks do.
\<close>

section \<open>Text\<close>

text \<open>\<open>str.strip()\<close> on the Latin-1 range, and ASCII \<open>str.lower()\<close>.\<close>

definition py_space :: "char \<Rightarrow> bool" where
  "py_space c = (let n = (of_char c :: nat) in
     n = 32 \<or> (9 \<le> n \<and> n \<le> 13) \<or> (28 \<le> n \<and> n \<le> 31) \<or> n = 133 \<or> n = 160)"

definition strip :: "string \<Rightarrow> string" where
  "strip s = rev (dropWhile py_space (rev (dropWhile py_space s)))"

definition lower_char :: "char \<Rightarrow> char" where
  "lower_char c = (let n = (of_char c :: nat) in
     if 65 \<le> n \<and> n \<le> 90 then char_of (n + 32) else c)"

definition lower :: "string \<Rightarrow> string" where
  "lower s = map lower_char s"

definition is_upper :: "char \<Rightarrow> bool" where
  "is_upper c = (let n = (of_char c :: nat) in 65 \<le> n \<and> n \<le> 90)"

definition is_lower :: "char \<Rightarrow> bool" where
  "is_lower c = (let n = (of_char c :: nat) in 97 \<le> n \<and> n \<le> 122)"

definition is_digit :: "char \<Rightarrow> bool" where
  "is_digit c = (let n = (of_char c :: nat) in 48 \<le> n \<and> n \<le> 57)"

definition is_alnum :: "char \<Rightarrow> bool" where
  "is_alnum c = (is_upper c \<or> is_lower c \<or> is_digit c)"

text \<open>\<open>^[first][rest]{0,n}$\<close> under \<open>fullmatch\<close>.\<close>

fun matches :: "(char \<Rightarrow> bool) \<Rightarrow> (char \<Rightarrow> bool) \<Rightarrow> nat \<Rightarrow> string \<Rightarrow> bool" where
  "matches first rest n [] = False"
| "matches first rest n (c # cs) = (first c \<and> list_all rest cs \<and> length cs \<le> n)"

definition is_sha256_text :: "string \<Rightarrow> bool" where
  "is_sha256_text s = (length s = 64 \<and>
     list_all (\<lambda>c. is_digit c \<or> c \<in> set ''abcdef'') s)"

section \<open>Instants and clocks\<close>

type_synonym instant = int

datatype pydt = Naive int | Aware int

fun aware_utc :: "exn \<Rightarrow> pydt \<Rightarrow> instant result" where
  "aware_utc e (Naive _) = Inl e"
| "aware_utc e (Aware t) = Inr t"

definition require_aware_datetimes :: "pydt \<Rightarrow> instant result" where
  "require_aware_datetimes v = aware_utc (ValueError ''datetime fields must be timezone-aware'') v"

definition seconds :: "int \<Rightarrow> int" where
  "seconds n = n * 1000000"

record frozen_clock =
  clock_instant :: instant

definition frozen_clock_init :: "pydt \<Rightarrow> frozen_clock result" where
  "frozen_clock_init t = rbind (aware_utc (ValueError ''FrozenClock requires an aware datetime'') t)
     (\<lambda>u. Inr \<lparr>clock_instant = u\<rparr>)"

definition frozen_clock_now :: "frozen_clock \<Rightarrow> instant" where
  "frozen_clock_now c = clock_instant c"

definition frozen_clock_advance :: "int \<Rightarrow> frozen_clock \<Rightarrow> frozen_clock result" where
  "frozen_clock_advance delta c =
     (if delta < 0 then Inl (ValueError ''FrozenClock cannot move backward'')
      else Inr (c\<lparr>clock_instant := clock_instant c + delta\<rparr>))"

section \<open>Enums\<close>

datatype asset_class = EQUITY | CRYPTO_SPOT | FUTURE | OPTION | FOREX | COMMODITY

datatype horizon = INTRADAY | SWING

datatype operating_mode = RESEARCH | BACKTEST | PAPER | LIVE_SMALL

datatype side = BUY | SELL

datatype signal_direction = LONG | SHORT | FLAT

datatype order_type = MARKET | LIMIT | STOP | STOP_LIMIT

datatype order_status =
    PROPOSED | RISK_APPROVED | CONFIRMED | SUBMITTING | ACKNOWLEDGED | PARTIALLY_FILLED
  | FILLED | REJECTED | CANCELLED | EXPIRED | UNKNOWN

fun asset_class_value :: "asset_class \<Rightarrow> string" where
  "asset_class_value EQUITY = ''equity''"
| "asset_class_value CRYPTO_SPOT = ''crypto_spot''"
| "asset_class_value FUTURE = ''future''"
| "asset_class_value OPTION = ''option''"
| "asset_class_value FOREX = ''forex''"
| "asset_class_value COMMODITY = ''commodity''"

fun side_value :: "side \<Rightarrow> string" where
  "side_value BUY = ''buy''"
| "side_value SELL = ''sell''"

fun order_type_value :: "order_type \<Rightarrow> string" where
  "order_type_value MARKET = ''market''"
| "order_type_value LIMIT = ''limit''"
| "order_type_value STOP = ''stop''"
| "order_type_value STOP_LIMIT = ''stop_limit''"

fun order_status_value :: "order_status \<Rightarrow> string" where
  "order_status_value PROPOSED = ''proposed''"
| "order_status_value RISK_APPROVED = ''risk_approved''"
| "order_status_value CONFIRMED = ''confirmed''"
| "order_status_value SUBMITTING = ''submitting''"
| "order_status_value ACKNOWLEDGED = ''acknowledged''"
| "order_status_value PARTIALLY_FILLED = ''partially_filled''"
| "order_status_value FILLED = ''filled''"
| "order_status_value REJECTED = ''rejected''"
| "order_status_value CANCELLED = ''cancelled''"
| "order_status_value EXPIRED = ''expired''"
| "order_status_value UNKNOWN = ''unknown''"

lemma order_status_value_inj: "order_status_value a = order_status_value b \<longleftrightarrow> a = b"
  by (cases a; cases b) simp_all

section \<open>Market records\<close>

record gate_result =
  gr_name :: string
  gr_passed :: bool
  gr_reason_code :: string

record instrument =
  ins_symbol :: string
  ins_venue :: string
  ins_asset_class :: asset_class
  ins_quote_currency :: string
  ins_timezone :: string
  ins_price_tick :: dec
  ins_quantity_step :: dec
  ins_minimum_notional :: dec
  ins_session_calendar :: "string option"

definition validate_instrument :: "instrument \<Rightarrow> instrument result" where
  "validate_instrument i =
     (if ins_price_tick i \<le> 0 \<or> ins_quantity_step i \<le> 0 \<or> ins_minimum_notional i \<le> 0
      then Inl (ValueError ''precision and minimum notional must be positive'') else Inr i)"

record bar =
  bar_at :: instant
  bar_open :: dec
  bar_high :: dec
  bar_low :: dec
  bar_close :: dec
  bar_volume :: dec

definition validate_bar :: "bar \<Rightarrow> bar result" where
  "validate_bar b =
     (if bar_volume b < 0 then Inl (ValueError ''volume must be nonnegative'') else Inr b)"

record market_snapshot =
  ms_instrument_id :: string
  ms_observed_at :: instant
  ms_source_at :: instant
  ms_bars :: "bar list"
  ms_provider :: string
  ms_max_age_seconds :: int

definition validate_market_snapshot :: "market_snapshot \<Rightarrow> market_snapshot result" where
  "validate_market_snapshot m =
     (if ms_max_age_seconds m < 0 then Inl (ValueError ''max_age_seconds must be nonnegative'')
      else Inr m)"

definition is_stale :: "market_snapshot \<Rightarrow> instant \<Rightarrow> bool" where
  "is_stale m now = (now - ms_source_at m > seconds (ms_max_age_seconds m))"

definition is_stale_r :: "market_snapshot \<Rightarrow> pydt \<Rightarrow> bool result" where
  "is_stale_r m now = rbind (aware_utc (ValueError ''now must be timezone-aware'') now)
     (\<lambda>t. Inr (is_stale m t))"

definition freshness_check :: "market_snapshot \<Rightarrow> pydt \<Rightarrow> gate_result result" where
  "freshness_check m now = rbind (aware_utc (ValueError ''now must be timezone-aware'') now)
     (\<lambda>t. if is_stale m t
       then Inr \<lparr>gr_name = ''market_data_fresh'', gr_passed = False, gr_reason_code = ''STALE_DATA''\<rparr>
       else Inr \<lparr>gr_name = ''market_data_fresh'', gr_passed = True, gr_reason_code = ''FRESH_DATA''\<rparr>)"

section \<open>Research and signals\<close>

record evidence =
  ev_uri :: string
  ev_title :: string
  ev_published_at :: instant

record research_packet =
  rp_instrument_id :: string
  rp_as_of :: instant
  rp_thesis :: string
  rp_bear_case :: string
  rp_catalysts :: "string list"
  rp_risks :: "string list"
  rp_evidence :: "evidence list"
  rp_confidence :: dec
  rp_model_id :: string
  rp_prompt_version :: string
  rp_configuration_hash :: string

definition validate_research_packet :: "research_packet \<Rightarrow> research_packet result" where
  "validate_research_packet r =
     (if \<not> (0 \<le> rp_confidence r \<and> rp_confidence r \<le> 1)
      then Inl (ValueError ''confidence must be between 0 and 1'') else Inr r)"

record signal =
  sig_strategy_id :: string
  sig_strategy_version :: string
  sig_instrument_id :: string
  sig_direction :: signal_direction
  sig_strength :: dec
  sig_horizon :: horizon
  sig_entry_price :: dec
  sig_invalidation_price :: dec
  sig_take_profit :: dec
  sig_research_required :: bool
  sig_evidence_uris :: "string list"

definition validate_signal :: "signal \<Rightarrow> signal result" where
  "validate_signal s =
     (if \<not> (- 1 \<le> sig_strength s \<and> sig_strength s \<le> 1)
      then Inl (ValueError ''strength must be between -1 and 1'')
      else if sig_direction s = LONG \<and>
          \<not> (sig_invalidation_price s < sig_entry_price s \<and> sig_entry_price s < sig_take_profit s)
      then Inl (ValueError ''long signals require invalidation < entry < take_profit'')
      else if sig_direction s = SHORT \<and>
          \<not> (sig_invalidation_price s > sig_entry_price s \<and> sig_entry_price s > sig_take_profit s)
      then Inl (ValueError ''short signals require invalidation > entry > take_profit'')
      else Inr s)"

section \<open>Orders\<close>

record order_intent =
  oi_intent_id :: string
  oi_instrument_id :: string
  oi_side :: side
  oi_quantity :: "dec option"
  oi_notional :: "dec option"
  oi_order_type :: order_type
  oi_limit_price :: "dec option"
  oi_stop_loss :: "dec option"
  oi_take_profit :: "dec option"
  oi_time_in_force :: string
  oi_product :: string
  oi_session :: string
  oi_snapshot_hash :: string
  oi_created_at :: instant
  oi_expires_at :: instant
  oi_trigger_price :: "dec option"

fun positive_opt :: "dec option \<Rightarrow> bool" where
  "positive_opt None = True"
| "positive_opt (Some v) = (0 < v)"

text \<open>The (limit, trigger) fields each order type must carry.\<close>

fun expected_price_fields :: "order_type \<Rightarrow> bool \<times> bool" where
  "expected_price_fields MARKET = (False, False)"
| "expected_price_fields LIMIT = (True, False)"
| "expected_price_fields STOP = (False, True)"
| "expected_price_fields STOP_LIMIT = (True, True)"

definition stop_limit_ok :: "order_intent \<Rightarrow> bool" where
  "stop_limit_ok i = (case (oi_limit_price i, oi_trigger_price i) of
       (Some l, Some t) \<Rightarrow> (case oi_side i of BUY \<Rightarrow> \<not> l < t | SELL \<Rightarrow> \<not> l > t)
     | _ \<Rightarrow> True)"

definition exits_ordered :: "order_intent \<Rightarrow> bool" where
  "exits_ordered i = (case (oi_stop_loss i, oi_take_profit i) of
       (Some s, Some t) \<Rightarrow> (case oi_side i of BUY \<Rightarrow> s < t | SELL \<Rightarrow> t < s)
     | _ \<Rightarrow> True)"

definition validate_order_intent :: "order_intent \<Rightarrow> order_intent result" where
  "validate_order_intent i =
     (if \<not> (positive_opt (oi_limit_price i) \<and> positive_opt (oi_trigger_price i)
            \<and> positive_opt (oi_stop_loss i) \<and> positive_opt (oi_take_profit i))
      then Inl (ValueError ''order prices must be finite and positive'')
      else if (oi_quantity i = None) = (oi_notional i = None)
      then Inl (ValueError ''exactly one of quantity or notional must be populated'')
      else if (oi_limit_price i \<noteq> None, oi_trigger_price i \<noteq> None)
              \<noteq> expected_price_fields (oi_order_type i)
      then Inl (ValueError ''order type requires its exact limit/trigger price fields'')
      else if oi_order_type i = STOP_LIMIT \<and> \<not> stop_limit_ok i
      then Inl (ValueError (if oi_side i = BUY
             then ''buy stop-limit requires limit at or above trigger''
             else ''sell stop-limit requires limit at or below trigger''))
      else if \<not> exits_ordered i
      then Inl (ValueError (if oi_side i = BUY
             then ''buy intent requires stop_loss below take_profit''
             else ''sell intent requires stop_loss above take_profit''))
      else Inr i)"

record position =
  pos_instrument_id :: string
  pos_quantity :: dec
  pos_average_price :: dec
  pos_market_price :: dec
  pos_unrealized_pnl :: dec

record portfolio_snapshot =
  ps_currency :: string
  ps_cash :: dec
  ps_equity :: dec
  ps_peak_equity :: dec
  ps_gross_exposure :: dec
  ps_daily_pnl :: dec
  ps_realized_pnl :: dec
  ps_positions :: "position list"
  ps_observed_at :: instant

record risk_decision =
  rd_approved :: bool
  rd_reason_codes :: "string list"
  rd_approved_quantity :: "dec option"
  rd_approved_notional :: "dec option"
  rd_portfolio_hash :: string
  rd_decided_at :: instant
  rd_expires_at :: instant

record broker_order =
  bo_order_id :: string
  bo_client_order_id :: string
  bo_broker :: string
  bo_instrument_id :: string
  bo_status :: order_status
  bo_requested_quantity :: "dec option"
  bo_requested_notional :: "dec option"
  bo_filled_quantity :: dec
  bo_average_fill_price :: "dec option"
  bo_submitted_at :: instant
  bo_updated_at :: instant

record fill =
  fl_fill_id :: string
  fl_order_id :: string
  fl_instrument_id :: string
  fl_side :: side
  fl_quantity :: dec
  fl_price :: dec
  fl_fee :: dec
  fl_filled_at :: instant

section \<open>Fixed limits\<close>

definition safe_max_trade_risk_fraction :: dec where "safe_max_trade_risk_fraction = 5 / 1000"
definition safe_max_position_fraction :: dec where "safe_max_position_fraction = 10 / 100"
definition safe_max_gross_exposure_fraction :: dec where
  "safe_max_gross_exposure_fraction = 50 / 100"
definition safe_max_daily_loss_fraction :: dec where "safe_max_daily_loss_fraction = 2 / 100"
definition safe_max_drawdown_fraction :: dec where "safe_max_drawdown_fraction = 10 / 100"

lemmas safe_limits = safe_max_trade_risk_fraction_def safe_max_position_fraction_def
  safe_max_gross_exposure_fraction_def safe_max_daily_loss_fraction_def
  safe_max_drawdown_fraction_def

record risk_settings =
  rs_max_trade_risk_fraction :: dec
  rs_max_position_fraction :: dec
  rs_max_gross_exposure_fraction :: dec
  rs_max_daily_loss_fraction :: dec
  rs_max_drawdown_fraction :: dec

text \<open>The bounds pydantic puts on every fraction: \<open>gt = 0\<close>, \<open>le = 1\<close>.\<close>

definition validate_risk_settings :: "risk_settings \<Rightarrow> risk_settings result" where
  "validate_risk_settings r =
     (if \<forall>v \<in> set [rs_max_trade_risk_fraction r, rs_max_position_fraction r,
          rs_max_gross_exposure_fraction r, rs_max_daily_loss_fraction r,
          rs_max_drawdown_fraction r]. 0 < v \<and> v \<le> 1
      then Inr r else Inl (ValueError ''risk fractions must be in (0, 1]''))"

text \<open>\<open>Settings.risk\<close>: live-small can never relax the fixed limits.\<close>

definition settings_risk :: "operating_mode \<Rightarrow> risk_settings \<Rightarrow> risk_settings" where
  "settings_risk mode r =
     (if mode = LIVE_SMALL then
        \<lparr>rs_max_trade_risk_fraction = min (rs_max_trade_risk_fraction r) safe_max_trade_risk_fraction,
         rs_max_position_fraction = min (rs_max_position_fraction r) safe_max_position_fraction,
         rs_max_gross_exposure_fraction =
           min (rs_max_gross_exposure_fraction r) safe_max_gross_exposure_fraction,
         rs_max_daily_loss_fraction = min (rs_max_daily_loss_fraction r) safe_max_daily_loss_fraction,
         rs_max_drawdown_fraction = min (rs_max_drawdown_fraction r) safe_max_drawdown_fraction\<rparr>
      else r)"

text \<open>Reporting only: the multiple of the starting capital the aspirational target asks for.  The
  settings bound both capitals to be positive.\<close>

record target_progress =
  tp_starting_capital :: dec
  tp_current_equity :: dec
  tp_aspirational_target :: dec
  tp_required_multiple :: dec
  tp_achieved_multiple :: dec
  tp_remaining_gap :: dec

definition required_multiple :: "dec \<Rightarrow> dec \<Rightarrow> dec" where
  "required_multiple aspirational_target starting_capital = ddiv aspirational_target starting_capital"

definition make_target_progress :: "dec \<Rightarrow> dec \<Rightarrow> dec \<Rightarrow> target_progress" where
  "make_target_progress aspirational_target starting_capital current_equity =
     \<lparr>tp_starting_capital = starting_capital, tp_current_equity = current_equity,
      tp_aspirational_target = aspirational_target,
      tp_required_multiple = required_multiple aspirational_target starting_capital,
      tp_achieved_multiple = ddiv current_equity starting_capital,
      tp_remaining_gap = dsub aspirational_target current_equity\<rparr>"

section \<open>What the validators establish\<close>

lemma validate_instrument_Inr:
  "validate_instrument i = Inr j \<longleftrightarrow>
     j = i \<and> 0 < ins_price_tick i \<and> 0 < ins_quantity_step i \<and> 0 < ins_minimum_notional i"
  by (auto simp: validate_instrument_def)

lemma aware_utc_Inr [result_simps]: "aware_utc e v = Inr t \<longleftrightarrow> v = Aware t"
  by (cases v) auto

lemma validate_order_intent_size:
  "validate_order_intent i = Inr j \<Longrightarrow> (oi_quantity i \<noteq> None) = (oi_notional i = None)"
  by (auto simp: validate_order_intent_def split: if_splits)

end
