(* ===== verification/OrderMachine.thy ===== *)
theory OrderMachine
  imports Domain "HOL-Library.Sublist"
begin

text \<open>
  The order state machine of \<open>execution/state_machine.py\<close>: the table of allowed edges, the
  guarded \<open>transition\<close> over an order or a bare status, and the step relation it induces on
  orders with their audit trail.  The \<open>emit\<close> callback is an argument that updates an
  arbitrary state \<open>'w\<close> and may itself raise; a successful transition calls it exactly once,
  before the new state is returned.
\<close>

section \<open>Transitions\<close>

record order_transition_event =
  te_prior_status :: order_status
  te_new_status :: order_status
  te_client_intent_id :: string
  te_broker_order_id :: string
  te_occurred_at :: instant

fun allowed :: "order_status \<Rightarrow> order_status list" where
  "allowed PROPOSED = [RISK_APPROVED, REJECTED, EXPIRED]"
| "allowed RISK_APPROVED = [CONFIRMED, REJECTED, CANCELLED, EXPIRED]"
| "allowed CONFIRMED = [SUBMITTING, CANCELLED, EXPIRED]"
| "allowed SUBMITTING = [ACKNOWLEDGED, REJECTED, CANCELLED, EXPIRED, UNKNOWN]"
| "allowed ACKNOWLEDGED = [PARTIALLY_FILLED, FILLED, REJECTED, CANCELLED, EXPIRED, UNKNOWN]"
| "allowed PARTIALLY_FILLED = [PARTIALLY_FILLED, FILLED, REJECTED, CANCELLED, EXPIRED, UNKNOWN]"
| "allowed UNKNOWN = [ACKNOWLEDGED, REJECTED, CANCELLED, EXPIRED]"
| "allowed FILLED = []"
| "allowed REJECTED = []"
| "allowed CANCELLED = []"
| "allowed EXPIRED = []"

text \<open>The \<open>current\<close> argument is an order or a bare status.\<close>

datatype order_ref = Order broker_order | Status order_status

fun ref_status :: "order_ref \<Rightarrow> order_status" where
  "ref_status (Order b) = bo_status b"
| "ref_status (Status s) = s"

fun ref_client_id :: "order_ref \<Rightarrow> string option \<Rightarrow> string option" where
  "ref_client_id (Order b) _ = Some (bo_client_order_id b)"
| "ref_client_id (Status _) c = c"

fun ref_broker_id :: "order_ref \<Rightarrow> string option \<Rightarrow> string option" where
  "ref_broker_id (Order b) _ = Some (bo_order_id b)"
| "ref_broker_id (Status _) c = c"

fun ref_update :: "order_ref \<Rightarrow> order_status \<Rightarrow> instant \<Rightarrow> order_ref" where
  "ref_update (Order b) s t = Order (b\<lparr>bo_status := s, bo_updated_at := t\<rparr>)"
| "ref_update (Status _) s t = Status s"

fun ref_precedes :: "instant \<Rightarrow> order_ref \<Rightarrow> bool" where
  "ref_precedes t (Order b) = (t < bo_updated_at b)"
| "ref_precedes t (Status _) = False"

definition utc_timestamp :: "pydt \<Rightarrow> instant result" where
  "utc_timestamp v = aware_utc (ValueError ''transition timestamp must be timezone-aware'') v"

definition transition_ref ::
  "order_ref \<Rightarrow> order_status \<Rightarrow> pydt option \<Rightarrow> (order_transition_event \<Rightarrow> 'w \<Rightarrow> 'w result) option \<Rightarrow>
   string option \<Rightarrow> string option \<Rightarrow> 'w \<Rightarrow> (order_ref \<times> 'w) result" where
  "transition_ref current new at_time emit client_id broker_id w =
     (if new \<notin> set (allowed (ref_status current))
      then Inl (InvalidOrderTransition (''invalid order transition: '' @
             order_status_value (ref_status current) @ '' -> '' @ order_status_value new))
      else case (at_time, emit, ref_client_id current client_id, ref_broker_id current broker_id) of
        (Some t, Some f, Some (c # cs), Some (b # bs)) \<Rightarrow>
          rbind (utc_timestamp t) (\<lambda>occurred.
          if ref_precedes occurred current
          then Inl (ValueError ''transition timestamp must not precede the current order timestamp'')
          else rbind (f \<lparr>te_prior_status = ref_status current, te_new_status = new,
                 te_client_intent_id = c # cs, te_broker_order_id = b # bs,
                 te_occurred_at = occurred\<rparr> w)
               (\<lambda>w'. Inr (ref_update current new occurred, w')))
      | _ \<Rightarrow> Inl (ValueError ''successful transition requires complete audit context''))"

text \<open>\<open>transition\<close> at type \<open>BrokerOrder\<close>.\<close>

definition transition ::
  "broker_order \<Rightarrow> order_status \<Rightarrow> pydt \<Rightarrow> (order_transition_event \<Rightarrow> 'w \<Rightarrow> 'w result) \<Rightarrow> 'w \<Rightarrow>
   (broker_order \<times> 'w) result" where
  "transition order new at_time emit w =
     rbind (transition_ref (Order order) new (Some at_time) (Some emit) None None w)
       (\<lambda>(r, w'). case r of Order order' \<Rightarrow> Inr (order', w')
                  | Status _ \<Rightarrow> Inl (RuntimeError ''unreachable''))"

section \<open>Behaviour of one transition\<close>

definition transition_event :: "broker_order \<Rightarrow> order_status \<Rightarrow> instant \<Rightarrow> order_transition_event" where
  "transition_event b s t = \<lparr>te_prior_status = bo_status b, te_new_status = s,
     te_client_intent_id = bo_client_order_id b, te_broker_order_id = bo_order_id b,
     te_occurred_at = t\<rparr>"

lemma transition_Inr_iff:
  "transition b s at_time emit w = Inr (b', w') \<longleftrightarrow>
     s \<in> set (allowed (bo_status b)) \<and> bo_client_order_id b \<noteq> [] \<and> bo_order_id b \<noteq> [] \<and>
     (\<exists>t. at_time = Aware t \<and> bo_updated_at b \<le> t \<and> emit (transition_event b s t) w = Inr w' \<and>
          b' = b\<lparr>bo_status := s, bo_updated_at := t\<rparr>)"
  unfolding transition_def transition_ref_def utc_timestamp_def transition_event_def
  by (cases at_time; auto simp: result_simps split: list.splits if_splits order_ref.splits)

lemma transition_invalid:
  assumes "s \<notin> set (allowed (bo_status b))"
  shows "transition b s at_time emit w = Inl (InvalidOrderTransition (''invalid order transition: '' @
           order_status_value (bo_status b) @ '' -> '' @ order_status_value s))"
  using assms by (simp add: transition_def transition_ref_def)

lemma terminal_allowed: "allowed s = [] \<longleftrightarrow> s \<in> {FILLED, REJECTED, CANCELLED, EXPIRED}"
  by (cases s) simp_all

section \<open>Reachable orders and their audit trail\<close>

text \<open>The audit sink of the callers: the event is appended to the trail.\<close>

definition record_event ::
  "order_transition_event \<Rightarrow> order_transition_event list \<Rightarrow> order_transition_event list result" where
  "record_event e trail = Inr (trail @ [e])"

inductive order_step ::
  "broker_order \<times> order_transition_event list \<Rightarrow> broker_order \<times> order_transition_event list \<Rightarrow> bool" where
  step: "transition b s at_time record_event trail = Inr (b', trail') \<Longrightarrow>
     order_step (b, trail) (b', trail')"

inductive_cases order_stepE: "order_step (b, trail) (b', trail')"
inductive_simps order_step_simps: "order_step (b, trail) (b', trail')"

inductive reachable_order ::
  "broker_order \<Rightarrow> broker_order \<Rightarrow> order_transition_event list \<Rightarrow> bool" for b0 where
  start: "reachable_order b0 b0 []"
| step: "reachable_order b0 b trail \<Longrightarrow> order_step (b, trail) (b', trail') \<Longrightarrow>
     reachable_order b0 b' trail'"

lemma order_step_iff:
  "order_step (b, trail) (b', trail') \<longleftrightarrow>
     (\<exists>s t. s \<in> set (allowed (bo_status b)) \<and> bo_client_order_id b \<noteq> [] \<and> bo_order_id b \<noteq> [] \<and>
        bo_updated_at b \<le> t \<and> trail' = trail @ [transition_event b s t] \<and>
        b' = b\<lparr>bo_status := s, bo_updated_at := t\<rparr>)"
  by (auto simp: order_step_simps transition_Inr_iff record_event_def)

text \<open>Replaying a trail: each event leaves from the status the previous one reached.\<close>

fun replay_status :: "order_status \<Rightarrow> order_transition_event list \<Rightarrow> order_status option" where
  "replay_status s [] = Some s"
| "replay_status s (e # es) =
     (if te_prior_status e = s \<and> te_new_status e \<in> set (allowed s)
      then replay_status (te_new_status e) es else None)"

lemma replay_status_snoc:
  "replay_status s (es @ [e]) = (case replay_status s es of None \<Rightarrow> None
     | Some u \<Rightarrow> if te_prior_status e = u \<and> te_new_status e \<in> set (allowed u)
                 then Some (te_new_status e) else None)"
  by (induction es arbitrary: s) auto

text \<open>The statuses an order must have passed to be in a given status.\<close>

fun milestones :: "order_status \<Rightarrow> order_status list" where
  "milestones RISK_APPROVED = [RISK_APPROVED]"
| "milestones CONFIRMED = [RISK_APPROVED, CONFIRMED]"
| "milestones SUBMITTING = [RISK_APPROVED, CONFIRMED, SUBMITTING]"
| "milestones ACKNOWLEDGED = [RISK_APPROVED, CONFIRMED, SUBMITTING, ACKNOWLEDGED]"
| "milestones PARTIALLY_FILLED = [RISK_APPROVED, CONFIRMED, SUBMITTING, ACKNOWLEDGED]"
| "milestones FILLED = [RISK_APPROVED, CONFIRMED, SUBMITTING, ACKNOWLEDGED]"
| "milestones UNKNOWN = [RISK_APPROVED, CONFIRMED, SUBMITTING]"
| "milestones _ = []"

lemma milestones_step:
  "s' \<in> set (allowed s) \<Longrightarrow> subseq (milestones s') (milestones s @ [s'])"
  by (cases s) (auto intro: subseq_append_iff [THEN iffD2])

lemma milestones_extend:
  assumes "subseq (milestones s) xs" "s' \<in> set (allowed s)"
  shows "subseq (milestones s') (xs @ [s'])"
proof -
  have "subseq (milestones s @ [s']) (xs @ [s'])"
    using assms(1) by (simp add: subseq_append)
  with milestones_step [OF assms(2)] show ?thesis
    by (rule subseq_order.order_trans)
qed

section \<open>Trail invariant\<close>

definition trail_ok :: "broker_order \<Rightarrow> broker_order \<Rightarrow> order_transition_event list \<Rightarrow> bool" where
  "trail_ok b0 b trail \<longleftrightarrow>
     replay_status (bo_status b0) trail = Some (bo_status b) \<and>
     b = b0\<lparr>bo_status := bo_status b, bo_updated_at := bo_updated_at b\<rparr> \<and>
     sorted (bo_updated_at b0 # map te_occurred_at trail) \<and>
     bo_updated_at b = last (bo_updated_at b0 # map te_occurred_at trail) \<and>
     (\<forall>e \<in> set trail. te_client_intent_id e = bo_client_order_id b0 \<and>
        te_broker_order_id e = bo_order_id b0)"

lemma sorted_snoc_last: "sorted (x # xs) \<Longrightarrow> last (x # xs) \<le> y \<Longrightarrow> sorted (x # xs @ [y::int])"
  by (cases xs rule: rev_cases) (auto simp: sorted_append)

lemma trail_ok_step:
  assumes ok: "trail_ok b0 b trail" and st: "order_step (b, trail) (b', trail')"
  shows "trail_ok b0 b' trail'"
proof -
  from st obtain s t where s: "s \<in> set (allowed (bo_status b))" and t: "bo_updated_at b \<le> t"
    and tr: "trail' = trail @ [transition_event b s t]"
    and b': "b' = b\<lparr>bo_status := s, bo_updated_at := t\<rparr>"
    by (auto simp: order_step_iff)
  from ok have same: "b = b0\<lparr>bo_status := bo_status b, bo_updated_at := bo_updated_at b\<rparr>"
    unfolding trail_ok_def by blast
  have ids: "bo_client_order_id b = bo_client_order_id b0" "bo_order_id b = bo_order_id b0"
    by (subst same, simp)+
  have upd: "b' = b0\<lparr>bo_status := s, bo_updated_at := t\<rparr>"
    unfolding b' by (subst same) simp
  have "sorted (bo_updated_at b0 # map te_occurred_at trail @ [t])"
    using ok t by (intro sorted_snoc_last) (auto simp: trail_ok_def simp del: last.simps)
  then show ?thesis
    using ok s by (auto simp: trail_ok_def tr upd replay_status_snoc transition_event_def ids)
qed

lemma trail_ok_reachable: "reachable_order b0 b trail \<Longrightarrow> trail_ok b0 b trail"
proof (induction rule: reachable_order.induct)
  case start
  show ?case by (simp add: trail_ok_def)
next
  case (step b trail b' trail')
  then show ?case by (blast intro: trail_ok_step)
qed

lemma milestones_reachable:
  assumes "reachable_order b0 b trail" "bo_status b0 = PROPOSED"
  shows "subseq (milestones (bo_status b)) (map te_new_status trail)"
  using assms
proof (induction rule: reachable_order.induct)
  case (step b trail b' trail')
  then show ?case
    by (auto simp: order_step_iff transition_event_def intro: milestones_extend)
qed simp

section \<open>Driving an order through a sequence of transitions\<close>

fun drive ::
  "broker_order \<times> order_transition_event list \<Rightarrow> (order_status \<times> pydt) list \<Rightarrow>
   (broker_order \<times> order_transition_event list) result" where
  "drive st [] = Inr st"
| "drive (b, trail) ((s, t) # rest) =
     rbind (transition b s t record_event trail) (\<lambda>st. drive st rest)"

lemma drive_reachable:
  "reachable_order b0 (fst st) (snd st) \<Longrightarrow> drive st moves = Inr (b', trail') \<Longrightarrow>
     reachable_order b0 b' trail'"
proof (induction moves arbitrary: st)
  case (Cons move moves)
  obtain b trail s t where st: "st = (b, trail)" "move = (s, t)"
    by (metis surj_pair)
  with Cons.prems(2) obtain b1 trail1 where one: "transition b s t record_event trail = Inr (b1, trail1)"
      and rest: "drive (b1, trail1) moves = Inr (b', trail')"
    by (auto simp: rbind_eq_Inr)
  have "reachable_order b0 b1 trail1"
    using Cons.prems(1) one st by (auto intro: reachable_order.step order_step.step)
  then show ?case
    using Cons.IH [of "(b1, trail1)"] rest by simp
qed simp

definition demo_order :: broker_order where
  "demo_order = \<lparr>bo_order_id = ''b-1'', bo_client_order_id = ''i-1'', bo_broker = ''paper'',
     bo_instrument_id = ''X'', bo_status = PROPOSED, bo_requested_quantity = Some 2,
     bo_requested_notional = None, bo_filled_quantity = 0, bo_average_fill_price = None,
     bo_submitted_at = 0, bo_updated_at = 0\<rparr>"

definition demo_moves :: "(order_status \<times> pydt) list" where
  "demo_moves = [(RISK_APPROVED, Aware 1), (CONFIRMED, Aware 2), (SUBMITTING, Aware 2),
     (UNKNOWN, Aware 5), (ACKNOWLEDGED, Aware 6), (FILLED, Aware 9)]"

definition demo_final :: "broker_order \<times> order_transition_event list" where
  "demo_final = (case drive (demo_order, []) demo_moves of Inr st \<Rightarrow> st | Inl _ \<Rightarrow> (demo_order, []))"

lemma demo_final_reachable: "reachable_order demo_order (fst demo_final) (snd demo_final)"
proof -
  have "drive (demo_order, []) demo_moves = Inr demo_final"
    by code_simp
  then show ?thesis
    using drive_reachable [of demo_order "(demo_order, [])" demo_moves "fst demo_final" "snd demo_final"]
    by (simp add: reachable_order.start)
qed

section \<open>Properties\<close>

text \<open>Every status an order reaches is explained by its audit trail: replaying the trail from the
  initial status along allowed edges gives the current status, the events carry the order's two
  identifiers and non-decreasing times, and the transitions changed nothing but the status and
  the update time, which is that of the last event.\<close>

lemma order_audit_trail:
  assumes "reachable_order b0 b trail"
  shows "replay_status (bo_status b0) trail = Some (bo_status b) \<and>
     b = b0\<lparr>bo_status := bo_status b, bo_updated_at := bo_updated_at b\<rparr> \<and>
     sorted (bo_updated_at b0 # map te_occurred_at trail) \<and>
     bo_updated_at b = last (bo_updated_at b0 # map te_occurred_at trail) \<and>
     (\<forall>e \<in> set trail. te_client_intent_id e = bo_client_order_id b0 \<and>
        te_broker_order_id e = bo_order_id b0)"
  using trail_ok_reachable [OF assms] unfolding trail_ok_def .

lemma order_audit_trail_demo:
  "replay_status PROPOSED (snd demo_final) = Some FILLED \<and> length (snd demo_final) = 6 \<and>
   sorted (bo_updated_at demo_order # map te_occurred_at (snd demo_final))"
proof -
  have "bo_status (fst demo_final) = FILLED" "bo_status demo_order = PROPOSED"
    "length (snd demo_final) = 6"
    by code_simp+
  then show ?thesis
    using order_audit_trail [OF demo_final_reachable] by metis
qed

text \<open>C1: an order that started as a proposal is never filled, fully or in part, unless it was risk
  approved, confirmed, submitted and acknowledged before, in this order.\<close>

theorem fill_only_through_gates:
  assumes "reachable_order b0 b trail" and "bo_status b0 = PROPOSED"
    and "bo_status b = FILLED \<or> bo_status b = PARTIALLY_FILLED"
  shows "subseq [RISK_APPROVED, CONFIRMED, SUBMITTING, ACKNOWLEDGED] (map te_new_status trail)"
  using milestones_reachable [OF assms(1,2)] assms(3) by auto

theorem fill_only_through_gates_witness:
  "bo_status (fst demo_final) = FILLED \<and>
   subseq [RISK_APPROVED, CONFIRMED, SUBMITTING, ACKNOWLEDGED] (map te_new_status (snd demo_final))"
proof -
  have fin: "bo_status (fst demo_final) = FILLED" and ini: "bo_status demo_order = PROPOSED"
    by code_simp+
  show ?thesis
    using fill_only_through_gates [OF demo_final_reachable ini] fin by blast
qed

text \<open>An order can move on exactly while it is not filled, rejected, cancelled or expired; from
  those four statuses every transition raises the invalid-transition error, whatever time and
  audit sink the caller passes, and from every other status some transition succeeds when the
  order carries both identifiers.\<close>

lemma terminal_statuses_absorbing:
  assumes "bo_client_order_id b \<noteq> []" and "bo_order_id b \<noteq> []"
  shows "(if bo_status b \<in> {FILLED, REJECTED, CANCELLED, EXPIRED}
     then \<forall>s t. transition b s t emit (w :: 'w) = Inl (InvalidOrderTransition
            (''invalid order transition: '' @ order_status_value (bo_status b) @ '' -> '' @
             order_status_value s))
     else \<exists>b' trail. order_step (b, []) (b', trail))"
proof (cases "allowed (bo_status b)")
  case Nil
  then show ?thesis
    using terminal_allowed [of "bo_status b"] by (simp add: transition_invalid)
next
  case (Cons s ss)
  then have "s \<in> set (allowed (bo_status b))"
    by simp
  then have "order_step (b, []) (b\<lparr>bo_status := s, bo_updated_at := bo_updated_at b\<rparr>,
      [] @ [transition_event b s (bo_updated_at b)])"
    using assms order_step_iff by blast
  then show ?thesis
    using Cons terminal_allowed [of "bo_status b"] by (metis list.distinct(1))
qed

lemma terminal_statuses_absorbing_demo:
  "(\<exists>b' trail. order_step (demo_order, []) (b', trail)) \<and>
   transition (demo_order\<lparr>bo_status := FILLED\<rparr>) CANCELLED (Aware 3) record_event [] =
     Inl (InvalidOrderTransition ''invalid order transition: filled -> cancelled'')"
proof -
  have "bo_client_order_id demo_order \<noteq> []" "bo_order_id demo_order \<noteq> []"
    "bo_status demo_order = PROPOSED"
    by code_simp+
  then show ?thesis
    using terminal_statuses_absorbing [of demo_order record_event "[]"]
      terminal_statuses_absorbing [of "demo_order\<lparr>bo_status := FILLED\<rparr>" record_event "[]"]
    by simp
qed

end
