(* ===== verification/Canonical.thy ===== *)
theory Canonical
  imports Decimals
begin

text \<open>
  The exact decimal encodings that the identities of the program hash.  \<open>canonical_decimal\<close>
  (\<open>execution/canonical.py\<close>) and \<open>paper_decimal_text\<close> (\<open>_canonical_decimal_text\<close> of
  \<open>execution/paper.py\<close>) work on the sign, digits and exponent that \<open>Decimal.as_tuple()\<close>
  returns; \<open>dec_text\<close> is the same text as a function of the numeric value.  The theory shows
  that the two routines agree, that they compute \<open>dec_text\<close> of the value they encode, and that
  the text determines the value.
\<close>

section \<open>Digits as text\<close>

definition digit_char :: "int \<Rightarrow> char" where
  "digit_char d = char_of (48 + nat d)"

definition char_digit :: "char \<Rightarrow> int" where
  "char_digit c = int (of_char c) - 48"

definition digits_text :: "int list \<Rightarrow> string" where
  "digits_text ds = map digit_char ds"

definition digits_value :: "int list \<Rightarrow> int" where
  "digits_value ds = foldl (\<lambda>a d. 10 * a + d) 0 ds"

definition digits_ok :: "int list \<Rightarrow> bool" where
  "digits_ok ds \<longleftrightarrow> list_all (\<lambda>d. 0 \<le> d \<and> d < 10) ds"

function int_digits :: "int \<Rightarrow> int list" where
  "int_digits n = (if n < 10 then [n] else int_digits (n div 10) @ [n mod 10])"
  by pat_completeness auto
termination
  by (relation "measure nat") auto

declare int_digits.simps [simp del]

definition int_text :: "int \<Rightarrow> string" where
  "int_text n = (if n < 0 then CHR ''-'' # digits_text (int_digits (- n))
                 else digits_text (int_digits n))"

text \<open>The digits of a fraction below one, at most \<open>fuel\<close> of them.\<close>

function frac_digits :: "int \<Rightarrow> rat \<Rightarrow> int list" where
  "frac_digits fuel x = (if fuel \<le> 0 \<or> x = 0 then []
     else let y = 10 * x in \<lfloor>y\<rfloor> # frac_digits (fuel - 1) (y - of_int \<lfloor>y\<rfloor>))"
  by pat_completeness auto
termination
  by (relation "measure (\<lambda>(fuel, x). nat fuel)") auto

declare frac_digits.simps [simp del]

definition max_decimal_places :: int where
  "max_decimal_places = 4096"

definition dec_text :: "rat \<Rightarrow> string" where
  "dec_text x = (let a = \<bar>x\<bar>; i = \<lfloor>a\<rfloor>; f = a - of_int i in
     (if x < 0 then ''-'' else []) @ digits_text (int_digits i) @
     (if f = 0 then [] else CHR ''.'' # digits_text (frac_digits max_decimal_places f)))"

section \<open>The two encoders\<close>

type_synonym raw_decimal = "bool \<times> int list \<times> int"

definition max_decimal_digits :: nat where "max_decimal_digits = 1024"
definition max_decimal_exponent :: int where "max_decimal_exponent = 4096"
definition max_decimal_text :: int where "max_decimal_text = 4096"

text \<open>The trailing-zero loop: digits without trailing zeros and the raised exponent.\<close>

function strip_zeros :: "int list \<Rightarrow> int \<Rightarrow> int list \<times> int" where
  "strip_zeros ds e = (if ds \<noteq> [] \<and> last ds = 0 then strip_zeros (butlast ds) (e + 1) else (ds, e))"
  by pat_completeness auto
termination
  by (relation "measure (\<lambda>(ds, e). length ds)") auto

declare strip_zeros.simps [simp del]

definition place_point :: "string \<Rightarrow> int \<Rightarrow> string" where
  "place_point body e =
     (if 0 \<le> e then body @ replicate (nat e) CHR ''0''
      else let p = int (length body) + e in
        if 0 < p then take (nat p) body @ ''.'' @ drop (nat p) body
        else ''0.'' @ replicate (nat (- p)) CHR ''0'' @ body)"

definition canonical_decimal :: "raw_decimal \<Rightarrow> string result" where
  "canonical_decimal v = (case v of (sign, raw_digits, e) \<Rightarrow>
     if length raw_digits > max_decimal_digits \<or> \<bar>e\<bar> > max_decimal_exponent
     then Inl (ValueError ''numeric field exceeds bounded encoding'')
     else if \<not> list_ex (\<lambda>d. d \<noteq> 0) raw_digits then Inr ''0''
     else let (ds, e') = strip_zeros raw_digits e;
              required = int (length ds) + max e' 0 + max (- (int (length ds) + e')) 0 + 2
       in if required > max_decimal_text \<or> \<bar>e'\<bar> > max_decimal_exponent
          then Inl (ValueError ''numeric field exceeds bounded encoding'')
          else Inr ((if sign then ''-'' else []) @ place_point (digits_text ds) e'))"

text \<open>The bounds of \<open>execution/paper.py\<close>; its loop counts down an index and keeps one digit.\<close>

definition paper_max_digits :: nat where "paper_max_digits = 34"
definition paper_max_adjusted :: int where "paper_max_adjusted = 64"
definition paper_max_text :: int where "paper_max_text = 96"

fun last_index :: "int list \<Rightarrow> nat \<Rightarrow> nat" where
  "last_index ds 0 = 0"
| "last_index ds (Suc n) = (if 1 < Suc n \<and> ds ! n = 0 then last_index ds n else Suc n)"

definition paper_decimal_text :: "raw_decimal \<Rightarrow> string option" where
  "paper_decimal_text v = (case v of (sign, raw_digits, raw_exponent) \<Rightarrow>
     if raw_digits = [] then None
     else let k = last_index raw_digits (length raw_digits); ds = take k raw_digits in
     if \<not> list_ex (\<lambda>d. d \<noteq> 0) ds then Some ''0''
     else let e = raw_exponent + int (length raw_digits) - int k in
     if length ds > paper_max_digits then None
     else let adj = int (length ds) + e - 1 in
     if \<bar>adj\<bar> > paper_max_adjusted then None
     else let p = int (length ds) + e;
              body_length = (if 0 \<le> e then int (length ds) + e
                else if 0 < p then int (length ds) + 1 else 2 - p + int (length ds))
       in if body_length + (if sign then 1 else 0) > paper_max_text then None
       else let coefficient = digits_text ds;
                body = (if 0 \<le> e then coefficient @ replicate (nat e) CHR ''0''
                  else if 0 < p then take (nat p) coefficient @ ''.'' @ drop (nat p) coefficient
                  else ''0.'' @ replicate (nat (- p)) CHR ''0'' @ coefficient)
       in Some ((if sign then ''-'' else []) @ body))"

section \<open>The two encoders agree\<close>

lemma last_index_take:
  assumes "n \<le> length ds" "list_ex (\<lambda>d. d \<noteq> 0) (take n ds)"
  shows "strip_zeros (take n ds) e =
     (take (last_index ds n) ds, e + int n - int (last_index ds n)) \<and>
     0 < last_index ds n \<and> last_index ds n \<le> n \<and> ds ! (last_index ds n - 1) \<noteq> 0"
  using assms
proof (induction n arbitrary: e)
  case (Suc n)
  have tk: "take (Suc n) ds = take n ds @ [ds ! n]"
    using Suc.prems(1) by (simp add: take_Suc_conv_app_nth)
  show ?case
  proof (cases "ds ! n = 0")
    case True
    then have ex: "list_ex (\<lambda>d. d \<noteq> 0) (take n ds)"
      using Suc.prems(2) tk by simp
    then have "0 < n"
      by (cases n) auto
    moreover have "strip_zeros (take (Suc n) ds) e = strip_zeros (take n ds) (e + 1)"
      using True tk by (subst strip_zeros.simps) simp
    ultimately show ?thesis
      using Suc.IH [of "e + 1"] Suc.prems(1) ex True by simp
  next
    case False
    then have "strip_zeros (take (Suc n) ds) e = (take (Suc n) ds, e)"
      using tk by (subst strip_zeros.simps) simp
    with False show ?thesis
      by simp
  qed
qed simp

lemma last_index_ex:
  "n \<le> length ds \<Longrightarrow> list_ex (\<lambda>d. d \<noteq> 0) (take n ds) \<Longrightarrow>
     list_ex (\<lambda>d. d \<noteq> 0) (take (last_index ds n) ds)"
  using last_index_take [of n ds 0]
  by (auto simp: list_ex_iff in_set_conv_nth intro!: bexI [of _ "ds ! (last_index ds n - 1)"])
     (metis (no_types, lifting) One_nat_def diff_less dual_order.trans less_numeral_extra(1) nth_take
       order_less_le_trans Suc_pred lessI)

lemma last_index_no_ex:
  "n \<le> length ds \<Longrightarrow> \<not> list_ex (\<lambda>d. d \<noteq> 0) (take n ds) \<Longrightarrow> last_index ds n \<le> 1"
proof (induction n)
  case (Suc n)
  then have "take (Suc n) ds = take n ds @ [ds ! n]"
    by (simp add: take_Suc_conv_app_nth)
  then show ?case
    using Suc by simp
qed simp

lemma length_digits_text [simp]: "length (digits_text ds) = length ds"
  by (simp add: digits_text_def)

lemma paper_refines_canonical:
  assumes "paper_decimal_text (sign, ds, e) = Some t"
    and "length ds \<le> max_decimal_digits" and "\<bar>e\<bar> \<le> max_decimal_exponent"
  shows "canonical_decimal (sign, ds, e) = Inr t"
proof (cases "list_ex (\<lambda>d. d \<noteq> 0) ds")
  case False
  then have "\<not> list_ex (\<lambda>d. d \<noteq> 0) (take k ds)" for k
    by (auto simp: list_ex_iff dest: in_set_takeD)
  with False assms show ?thesis
    by (auto simp: paper_decimal_text_def canonical_decimal_def Let_def split: if_splits)
next
  case True
  define k where "k = last_index ds (length ds)"
  from True have sz: "strip_zeros ds e = (take k ds, e + int (length ds) - int k)"
    and k: "0 < k" "k \<le> length ds" and ex: "list_ex (\<lambda>d. d \<noteq> 0) (take k ds)"
    using last_index_take [of "length ds" ds e] last_index_ex [of "length ds" ds]
    by (simp_all add: k_def)
  let ?e = "e + int (length ds) - int k"
  let ?ds = "take k ds"
  from True have "ds \<noteq> []"
    by auto
  with assms(1) ex have len: "length ?ds \<le> 34" and adj: "\<bar>int (length ?ds) + ?e - 1\<bar> \<le> 64"
    and t: "t = (if sign then ''-'' else []) @ place_point (digits_text ?ds) ?e"
    by (auto simp: paper_decimal_text_def k_def [symmetric] Let_def paper_max_digits_def
        paper_max_adjusted_def place_point_def min_absorb2 k split: if_splits)
  from len adj have
    "int (length ?ds) + max ?e 0 + max (- (int (length ?ds) + ?e)) 0 + 2 \<le> max_decimal_text"
    "\<bar>?e\<bar> \<le> max_decimal_exponent"
    by (auto simp: max_decimal_text_def max_decimal_exponent_def)
  then show ?thesis
    using True assms(2,3) sz t by (simp add: canonical_decimal_def not_less algebra_simps)
qed

section \<open>Digits and values\<close>

lemma digits_value_Nil [simp]: "digits_value [] = 0"
  by (simp add: digits_value_def)

lemma digits_value_snoc [simp]: "digits_value (ds @ [d]) = 10 * digits_value ds + d"
  by (simp add: digits_value_def)

lemma digits_value_append:
  "digits_value (xs @ ys) = digits_value xs * 10 ^ length ys + digits_value ys"
  by (induction ys rule: rev_induct)
     (simp_all add: algebra_simps del: append_assoc add: append_assoc [symmetric])

lemma digits_value_Cons: "digits_value (d # ds) = d * 10 ^ length ds + digits_value ds"
  using digits_value_append [of "[d]" ds] by (simp add: digits_value_def)

lemma digits_value_zeros [simp]: "digits_value (replicate n 0 @ ds) = digits_value ds"
  by (induction n) (simp_all add: digits_value_Cons)

lemma digits_ok_simps [simp]:
  "digits_ok []" "digits_ok (d # ds) \<longleftrightarrow> 0 \<le> d \<and> d < 10 \<and> digits_ok ds"
  "digits_ok (xs @ ys) \<longleftrightarrow> digits_ok xs \<and> digits_ok ys"
  by (simp_all add: digits_ok_def)

lemma digits_value_bounds: "digits_ok ds \<Longrightarrow> 0 \<le> digits_value ds \<and> digits_value ds < 10 ^ length ds"
proof (induction ds)
  case (Cons d ds)
  then have "d * 10 ^ length ds \<le> 9 * 10 ^ length ds"
    by (intro mult_right_mono) auto
  moreover from Cons have "0 \<le> d * 10 ^ length ds" "0 \<le> digits_value ds"
    "digits_value ds < 10 ^ length ds"
    by auto
  ultimately have "0 \<le> d * 10 ^ length ds + digits_value ds"
    "d * 10 ^ length ds + digits_value ds < 10 * 10 ^ length ds"
    by linarith+
  then show ?case
    by (simp add: digits_value_Cons)
qed simp

lemma digits_value_int_digits [simp]: "0 \<le> n \<Longrightarrow> digits_value (int_digits n) = n"
proof (induction n rule: int_digits.induct)
  case (1 n)
  show ?case
    using 1 by (subst int_digits.simps) (auto simp: digits_value_Cons)
qed

lemma digits_ok_int_digits [simp]: "0 \<le> n \<Longrightarrow> digits_ok (int_digits n)"
proof (induction n rule: int_digits.induct)
  case (1 n)
  show ?case
    using 1 by (subst int_digits.simps) auto
qed

lemma int_digits_not_Nil [simp]: "int_digits n \<noteq> []"
  by (subst int_digits.simps) simp

lemma int_digits_digits_value:
  "digits_ok ds \<Longrightarrow> ds \<noteq> [] \<Longrightarrow> hd ds \<noteq> 0 \<or> length ds = 1 \<Longrightarrow> int_digits (digits_value ds) = ds"
proof (induction ds rule: rev_induct)
  case (snoc d ds)
  show ?case
  proof (cases "ds = []")
    case True
    with snoc.prems show ?thesis
      by (subst int_digits.simps) (simp add: digits_value_Cons)
  next
    case False
    then obtain c cs where ds: "ds = c # cs"
      by (cases ds) auto
    with snoc.prems have "1 \<le> c" "digits_ok ds"
      by auto
    then have "1 * 10 ^ length cs \<le> c * 10 ^ length cs"
      by (intro mult_right_mono) auto
    moreover have "(1::int) \<le> 10 ^ length cs"
      by simp
    moreover have "0 \<le> digits_value cs"
      using digits_value_bounds [of cs] ds \<open>digits_ok ds\<close> by simp
    ultimately have "1 \<le> c * 10 ^ length cs + digits_value cs"
      by linarith
    then have "1 \<le> digits_value ds"
      by (simp add: ds digits_value_Cons)
    moreover have "(10 * digits_value ds + d) div 10 = digits_value ds"
      "(10 * digits_value ds + d) mod 10 = d"
      using snoc.prems by auto
    ultimately show ?thesis
      using snoc False by (subst int_digits.simps) auto
  qed
qed simp

lemma char_digit_char [simp]: "0 \<le> d \<Longrightarrow> d < 10 \<Longrightarrow> char_digit (digit_char d) = d"
  by (simp add: char_digit_def digit_char_def)

lemma char_digits_text [simp]: "digits_ok ds \<Longrightarrow> map char_digit (digits_text ds) = ds"
  by (induction ds) (auto simp: digits_text_def)

section \<open>The fraction\<close>

lemma frac_digits_ok: "0 \<le> x \<Longrightarrow> x < 1 \<Longrightarrow> digits_ok (frac_digits n x)"
proof (induction n x rule: frac_digits.induct)
  case (1 n x)
  then have "0 \<le> \<lfloor>10 * x\<rfloor>" "\<lfloor>10 * x\<rfloor> < 10"
    by (auto simp: floor_less_iff)
  moreover have "0 \<le> 10 * x - of_int \<lfloor>10 * x\<rfloor>" "10 * x - of_int \<lfloor>10 * x\<rfloor> < 1"
    using floor_correct [of "10 * x"] by linarith+
  ultimately show ?case
    using 1 by (subst frac_digits.simps) (auto simp: Let_def)
qed

text \<open>A fraction with at most \<open>fuel\<close> decimal places is read back exactly.\<close>

lemma frac_digits_value:
  "0 \<le> x \<Longrightarrow> x < 1 \<Longrightarrow> x * 10 ^ n \<in> \<int> \<Longrightarrow>
     rat_of_int (digits_value (frac_digits (int n) x)) / 10 ^ length (frac_digits (int n) x) = x"
proof (induction n arbitrary: x)
  case 0
  then have "x = 0"
    by (auto elim!: Ints_cases)
  then show ?case
    by (subst frac_digits.simps) simp
next
  case (Suc n)
  show ?case
  proof (cases "x = 0")
    case True
    then show ?thesis
      by (subst frac_digits.simps) simp
  next
    case False
    let ?y = "10 * x - of_int \<lfloor>10 * x\<rfloor>"
    have "0 \<le> ?y" "?y < 1"
      using floor_correct [of "10 * x"] by linarith+
    moreover have "?y * 10 ^ n \<in> \<int>"
      using Suc.prems(3) by (simp add: algebra_simps Ints_diff)
    ultimately have "rat_of_int (digits_value (frac_digits (int n) ?y)) = ?y * 10 ^ length (frac_digits (int n) ?y)"
      using Suc.IH [of ?y] by (simp add: field_simps)
    moreover have "frac_digits (int (Suc n)) x = \<lfloor>10 * x\<rfloor> # frac_digits (int n) ?y"
      using False by (subst frac_digits.simps) (simp add: Let_def)
    ultimately show ?thesis
      by (simp add: digits_value_Cons field_simps)
  qed
qed

text \<open>Conversely, digits that do not end in a zero are the digits of their fraction.\<close>

lemma frac_digits_of_digits:
  "digits_ok ds \<Longrightarrow> ds = [] \<or> last ds \<noteq> 0 \<Longrightarrow> int (length ds) \<le> n \<Longrightarrow>
     frac_digits n (rat_of_int (digits_value ds) / 10 ^ length ds) = ds"
proof (induction ds arbitrary: n)
  case Nil
  then show ?case
    by (subst frac_digits.simps) simp
next
  case (Cons d ds)
  let ?v = "rat_of_int (digits_value ds) / 10 ^ length ds"
  let ?x = "rat_of_int (digits_value (d # ds)) / 10 ^ length (d # ds)"
  from Cons.prems(1) have b: "0 \<le> digits_value ds" "digits_value ds < 10 ^ length ds"
    using digits_value_bounds [of ds] by auto
  then have "rat_of_int (digits_value ds) < rat_of_int (10 ^ length ds)"
    by (simp only: of_int_less_iff)
  with b(1) have v: "0 \<le> ?v" "?v < 1"
    by simp_all
  have x: "10 * ?x = of_int d + ?v"
    by (simp add: digits_value_Cons add_divide_distrib)
  then have fl: "\<lfloor>10 * ?x\<rfloor> = d"
    using v by (simp add: floor_eq_iff)
  have "?x \<noteq> 0"
  proof
    assume "?x = 0"
    with x have "of_int d + ?v = 0"
      by simp
    moreover from Cons.prems(1) have "0 \<le> rat_of_int d"
      by simp
    ultimately have "rat_of_int d = 0" "?v = 0"
      using v(1) by linarith+
    then have "d = 0" "digits_value ds = 0"
      by simp_all
    then have "ds \<noteq> []"
      using Cons.prems(2) by auto
    then obtain cs c where "ds = cs @ [c]"
      by (metis rev_exhaust)
    with \<open>digits_value ds = 0\<close> Cons.prems have "10 * digits_value cs + c = 0" "0 \<le> c" "c \<noteq> 0"
      "0 \<le> digits_value cs"
      using digits_value_bounds [of cs] by auto
    then show False
      by linarith
  qed
  then have "frac_digits n ?x = d # frac_digits (n - 1) ?v"
    using Cons.prems(3) fl x by (subst frac_digits.simps) (simp add: Let_def)
  moreover have "frac_digits (n - 1) ?v = ds"
    using Cons.prems by (intro Cons.IH) auto
  ultimately show ?case
    by simp
qed

section \<open>Reading a text back\<close>

definition unsigned_value :: "string \<Rightarrow> rat" where
  "unsigned_value s = (let i = takeWhile (\<lambda>c. c \<noteq> CHR ''.'') s;
     f = drop 1 (dropWhile (\<lambda>c. c \<noteq> CHR ''.'') s) in
     of_int (digits_value (map char_digit i)) +
     of_int (digits_value (map char_digit f)) / 10 ^ length f)"

definition text_value :: "string \<Rightarrow> rat" where
  "text_value s = (if s \<noteq> [] \<and> hd s = CHR ''-'' then - unsigned_value (tl s) else unsigned_value s)"

definition decimal_places_ok :: "rat \<Rightarrow> bool" where
  "decimal_places_ok x \<longleftrightarrow> x * 10 ^ nat max_decimal_places \<in> \<int>"

lemma digit_char_neq:
  assumes "0 \<le> d" "d < 10"
  shows "digit_char d \<noteq> CHR ''.''" "digit_char d \<noteq> CHR ''-''"
proof -
  have "char_digit (digit_char d) = d"
    using assms by simp
  then show "digit_char d \<noteq> CHR ''.''" "digit_char d \<noteq> CHR ''-''"
    using assms by (auto simp: char_digit_def)
qed

lemma digits_text_no_mark:
  "digits_ok ds \<Longrightarrow> CHR ''.'' \<notin> set (digits_text ds) \<and> CHR ''-'' \<notin> set (digits_text ds)"
  by (induction ds) (auto simp: digits_text_def digit_char_neq dest: digit_char_neq)

lemma split_mark:
  assumes "p \<notin> set i"
  shows "takeWhile (\<lambda>c. c \<noteq> p) i = i" "dropWhile (\<lambda>c. c \<noteq> p) i = []"
    "takeWhile (\<lambda>c. c \<noteq> p) (i @ p # f) = i" "dropWhile (\<lambda>c. c \<noteq> p) (i @ p # f) = p # f"
  using assms by (induction i) auto

lemma unsigned_value_int:
  "digits_ok is \<Longrightarrow> unsigned_value (digits_text is) = of_int (digits_value is)"
  using digits_text_no_mark [of "is"] by (simp add: unsigned_value_def split_mark)

lemma unsigned_value_frac:
  "digits_ok is \<Longrightarrow> digits_ok fs \<Longrightarrow>
     unsigned_value (digits_text is @ CHR ''.'' # digits_text fs) =
       of_int (digits_value is) + of_int (digits_value fs) / 10 ^ length fs"
  using digits_text_no_mark [of "is"] by (simp add: unsigned_value_def split_mark)

lemma text_value_sign:
  assumes "digits_ok is" "is \<noteq> []"
  shows "text_value (''-'' @ digits_text is @ r) = - unsigned_value (digits_text is @ r)"
    "text_value (digits_text is @ r) = unsigned_value (digits_text is @ r)"
proof -
  obtain d ds where "is = d # ds"
    using assms(2) by (cases "is") auto
  with assms(1) have "hd (digits_text is @ r) \<noteq> CHR ''-''"
    by (simp add: digits_text_def digit_char_neq)
  then show "text_value (''-'' @ digits_text is @ r) = - unsigned_value (digits_text is @ r)"
    "text_value (digits_text is @ r) = unsigned_value (digits_text is @ r)"
    by (auto simp: text_value_def)
qed

lemma text_value_dec_text:
  assumes "decimal_places_ok x"
  shows "text_value (dec_text x) = x"
proof -
  let ?i = "\<lfloor>\<bar>x\<bar>\<rfloor>" and ?f = "\<bar>x\<bar> - of_int \<lfloor>\<bar>x\<bar>\<rfloor>"
  let ?fs = "frac_digits max_decimal_places ?f"
  let ?rest = "if ?f = 0 then [] else CHR ''.'' # digits_text ?fs"
  have f: "0 \<le> ?f" "?f < 1" and i: "0 \<le> ?i"
    using floor_correct [of "\<bar>x\<bar>"] by (linarith, linarith, simp)
  let ?n = "nat max_decimal_places"
  have n: "int ?n = max_decimal_places"
    by (simp add: max_decimal_places_def)
  have "\<bar>x * 10 ^ ?n\<bar> \<in> \<int>"
    using assms unfolding decimal_places_ok_def by (rule Ints_abs)
  then have "\<bar>x\<bar> * 10 ^ ?n \<in> \<int>"
    by (simp add: abs_mult)
  then have "?f * 10 ^ ?n \<in> \<int>"
    unfolding left_diff_distrib by (rule Ints_diff) simp
  then have "of_int (digits_value ?fs) / 10 ^ length ?fs = ?f"
    using frac_digits_value [OF f, of ?n] by (simp only: n)
  then have u: "unsigned_value (digits_text (int_digits ?i) @ ?rest) = \<bar>x\<bar>"
    using i f by (auto simp: unsigned_value_int unsigned_value_frac frac_digits_ok)
  have "dec_text x = (if x < 0 then ''-'' else []) @ digits_text (int_digits ?i) @ ?rest"
    by (simp only: dec_text_def Let_def)
  then show ?thesis
    using u text_value_sign [OF digits_ok_int_digits [OF i] int_digits_not_Nil, of ?rest]
    by (cases "x < 0") (simp_all only: if_True if_False append_Nil abs_if minus_minus)
qed

lemma dec_text_inj:
  "decimal_places_ok x \<Longrightarrow> decimal_places_ok y \<Longrightarrow> dec_text x = dec_text y \<Longrightarrow> x = y"
  by (metis text_value_dec_text)

section \<open>The encoders compute the text of the value\<close>

definition raw_value :: "raw_decimal \<Rightarrow> rat" where
  "raw_value v = (case v of (sign, ds, e) \<Rightarrow>
     (if sign then - 1 else 1) * of_int (digits_value ds) * pow10 e)"

text \<open>What \<open>Decimal.as_tuple()\<close> returns: decimal digits without leading zeros.\<close>

definition raw_ok :: "raw_decimal \<Rightarrow> bool" where
  "raw_ok v = (case v of (sign, ds, e) \<Rightarrow>
     digits_ok ds \<and> ds \<noteq> [] \<and> (hd ds \<noteq> 0 \<or> length ds = 1))"

lemma strip_zeros_value:
  "ds \<noteq> [] \<Longrightarrow> list_ex (\<lambda>d. d \<noteq> 0) ds \<Longrightarrow> digits_ok ds \<Longrightarrow> strip_zeros ds e = (ds', e') \<Longrightarrow>
     ds' \<noteq> [] \<and> last ds' \<noteq> 0 \<and> digits_ok ds' \<and> hd ds' = hd ds \<and>
     of_int (digits_value ds') * pow10 e' = of_int (digits_value ds) * pow10 e"
proof (induction ds e rule: strip_zeros.induct)
  case (1 ds e)
  then obtain cs c where ds: "ds = cs @ [c]"
    by (metis rev_exhaust)
  show ?case
  proof (cases "c = 0")
    case True
    with 1(3) ds have "cs \<noteq> []" "list_ex (\<lambda>d. d \<noteq> 0) cs"
      by auto
    with 1 ds True show ?thesis
      by (auto simp: strip_zeros.simps [of "cs @ [0]"] pow10_Suc hd_append)
  next
    case False
    with 1 ds show ?thesis
      by (auto simp: strip_zeros.simps [of "cs @ [c]"])
  qed
qed

lemma digits_value_pos:
  assumes "digits_ok ds" "ds \<noteq> []" "last ds \<noteq> 0"
  shows "0 < digits_value ds"
proof -
  obtain cs c where ds: "ds = cs @ [c]"
    using assms(2) by (metis rev_exhaust)
  with assms have "0 \<le> digits_value cs" "0 < c"
    using digits_value_bounds [of cs] by auto
  then show ?thesis
    by (simp add: ds)
qed

lemma dec_text_int:
  assumes "digits_ok is" "is \<noteq> []" "hd is \<noteq> 0 \<or> length is = 1"
  shows "dec_text (of_int (digits_value is)) = digits_text is"
  using assms digits_value_bounds [of "is"] int_digits_digits_value [of "is"]
  by (simp add: dec_text_def)

lemma dec_text_parts:
  assumes "is": "digits_ok is" "is \<noteq> []" "hd is \<noteq> 0 \<or> length is = 1"
    and fs: "digits_ok fs" "fs \<noteq> []" "last fs \<noteq> 0" and len: "int (length fs) \<le> max_decimal_places"
  shows "dec_text (of_int (digits_value is) + of_int (digits_value fs) / 10 ^ length fs) =
     digits_text is @ CHR ''.'' # digits_text fs"
proof -
  let ?f = "rat_of_int (digits_value fs) / 10 ^ length fs"
  let ?x = "rat_of_int (digits_value is) + ?f"
  have pos: "0 < digits_value fs" and "digits_value fs < 10 ^ length fs"
    using fs digits_value_pos digits_value_bounds by auto
  then have "0 < rat_of_int (digits_value fs)" and "rat_of_int (digits_value fs) < rat_of_int (10 ^ length fs)"
    by (simp_all only: of_int_less_iff of_int_0_less_iff)
  then have f: "0 < ?f" "?f < 1"
    by simp_all
  moreover have "0 \<le> rat_of_int (digits_value is)"
    using "is"(1) digits_value_bounds by simp
  ultimately have x: "0 < ?x" "\<bar>?x\<bar> = ?x" "\<lfloor>?x\<rfloor> = digits_value is"
    by (auto simp: floor_eq_iff)
  have d: "frac_digits max_decimal_places ?f = fs"
    using fs len by (intro frac_digits_of_digits) auto
  show ?thesis
    using "is" int_digits_digits_value [of "is"] x(1) f(1) d pos
    unfolding dec_text_def Let_def x(2,3) by simp
qed

lemma dec_text_minus: "0 < x \<Longrightarrow> dec_text (- x) = CHR ''-'' # dec_text x"
  by (simp add: dec_text_def Let_def)

lemma digits_text_append: "digits_text (xs @ ys) = digits_text xs @ digits_text ys"
  by (simp add: digits_text_def)

lemma digit_char_0 [simp]: "digit_char 0 = CHR ''0''"
  by code_simp

lemma digits_text_zeros: "digits_text (replicate n 0) = replicate n CHR ''0''"
  by (simp add: digits_text_def)

lemma digits_text_take: "take n (digits_text ds) = digits_text (take n ds)"
  by (simp add: digits_text_def take_map)

lemma digits_text_drop: "drop n (digits_text ds) = digits_text (drop n ds)"
  by (simp add: digits_text_def drop_map)

lemma digits_ok_sub: "digits_ok ds \<Longrightarrow> digits_ok (take n ds)" "digits_ok ds \<Longrightarrow> digits_ok (drop n ds)"
  by (auto simp: digits_ok_def list_all_iff dest: in_set_takeD in_set_dropD)

lemma digits_ok_zeros [simp]: "digits_ok (replicate n 0)"
  by (simp add: digits_ok_def list_all_iff)

lemma place_point_text:
  assumes ds: "digits_ok ds" "ds \<noteq> []" "hd ds \<noteq> 0" "last ds \<noteq> 0" and e: "- e \<le> max_decimal_places"
  shows "place_point (digits_text ds) e = dec_text (of_int (digits_value ds) * pow10 e)"
proof (cases "0 \<le> e")
  case True
  let ?is = "ds @ replicate (nat e) 0"
  have "digits_value (replicate n 0) = 0" for n
    using digits_value_zeros [of n "[]"] by simp
  then have "rat_of_int (digits_value ds) * pow10 e = of_int (digits_value ?is)"
    using True by (simp add: digits_value_append pow10_def)
  moreover have "dec_text (of_int (digits_value ?is)) = digits_text ?is"
    using ds by (intro dec_text_int) auto
  ultimately show ?thesis
    using True by (simp add: place_point_def digits_text_append digits_text_zeros)
next
  case False
  define k where "k = nat (- e)"
  have pw: "pow10 e = 1 / 10 ^ k" and k: "int k \<le> max_decimal_places" "e = - int k" "0 < k"
    using False e by (simp_all add: pow10_def k_def)
  show ?thesis
  proof (cases "k < length ds")
    case True
    define n where "n = length ds - k"
    have n: "0 < n" "n < length ds" and pt: "nat (int (length ds) + e) = n" "0 < int (length ds) + e"
      using True k by (simp_all add: n_def)
    have "digits_value ds = digits_value (take n ds) * 10 ^ k + digits_value (drop n ds)"
      using digits_value_append [of "take n ds" "drop n ds"] True by (simp add: n_def)
    then have v: "rat_of_int (digits_value ds) * pow10 e =
        of_int (digits_value (take n ds)) + of_int (digits_value (drop n ds)) / 10 ^ length (drop n ds)"
      using True by (simp add: pw n_def field_simps)
    have "dec_text (rat_of_int (digits_value ds) * pow10 e) =
        digits_text (take n ds) @ CHR ''.'' # digits_text (drop n ds)"
      unfolding v using ds n k True
      by (intro dec_text_parts) (auto simp: digits_ok_sub n_def)
    then show ?thesis
      using False pt by (simp add: place_point_def digits_text_take digits_text_drop)
  next
    case short: False
    let ?fs = "replicate (k - length ds) 0 @ ds"
    have pt: "nat (- (int (length ds) + e)) = k - length ds" "\<not> 0 < int (length ds) + e"
      using short k by simp_all
    have v: "rat_of_int (digits_value ds) * pow10 e =
        of_int (digits_value [0]) + of_int (digits_value ?fs) / 10 ^ length ?fs"
      using short by (simp add: pw digits_value_Cons)
    have "dec_text (rat_of_int (digits_value ds) * pow10 e) =
        digits_text [0] @ CHR ''.'' # digits_text ?fs"
      unfolding v using ds k short by (intro dec_text_parts) auto
    moreover have "digits_text [0] = ''0''"
      using digits_text_zeros [of 1] by simp
    ultimately show ?thesis
      using False pt by (simp add: place_point_def digits_text_append digits_text_zeros)
  qed
qed

lemma raw_value_zero: "\<not> list_ex (\<lambda>d. d \<noteq> 0) ds \<Longrightarrow> digits_value ds = 0"
  by (induction ds) (auto simp: digits_value_Cons)

lemma dec_text_0: "dec_text 0 = ''0''"
  using dec_text_int [of "[0]"] digits_text_zeros [of 1] by (simp add: digits_value_Cons)

lemma canonical_decimal_text:
  assumes "raw_ok v" and "canonical_decimal v = Inr t"
  shows "t = dec_text (raw_value v)"
proof -
  obtain sign ds e where v: "v = (sign, ds, e)"
    by (metis prod_cases3)
  show ?thesis
  proof (cases "list_ex (\<lambda>d. d \<noteq> 0) ds")
    case False
    with assms(2) show ?thesis
      by (auto simp: v canonical_decimal_def raw_value_def raw_value_zero dec_text_0 split: if_splits)
  next
    case True
    obtain ds' e' where sz: "strip_zeros ds e = (ds', e')"
      by (metis surj_pair)
    have hd0: "hd ds \<noteq> 0"
      using assms(1) True by (cases ds) (auto simp: raw_ok_def v)
    with True assms(1) have d': "ds' \<noteq> []" "last ds' \<noteq> 0" "digits_ok ds'" "hd ds' \<noteq> 0"
      and val: "of_int (digits_value ds') * pow10 e' = of_int (digits_value ds) * pow10 e"
      using strip_zeros_value [OF _ True _ sz] by (auto simp: raw_ok_def v)
    from True assms(2) have e': "- e' \<le> max_decimal_places"
      and t: "t = (if sign then ''-'' else []) @ place_point (digits_text ds') e'"
      by (auto simp: v canonical_decimal_def sz Let_def max_decimal_exponent_def
          max_decimal_places_def split: if_splits)
    have "0 < rat_of_int (digits_value ds) * pow10 e"
      using digits_value_pos [OF d'(3,1,2)] by (simp flip: val)
    then show ?thesis
      using place_point_text [OF d'(3,1,4,2) e'] unfolding t val
      by (auto simp: v raw_value_def dec_text_minus)
  qed
qed

lemma raw_value_places:
  assumes "- e \<le> max_decimal_places"
  shows "decimal_places_ok (raw_value (sign, ds, e))"
proof -
  obtain n where n: "n = nat max_decimal_places" "int n = max_decimal_places"
    by (simp add: max_decimal_places_def)
  have "pow10 e * 10 ^ n = pow10 (e + int n)"
    by (simp add: pow10_add pow10_nat)
  also have "\<dots> \<in> \<int>"
    using assms n(2) unfolding pow10_def by simp
  finally have i: "pow10 e * 10 ^ n \<in> \<int>" .
  show ?thesis
    unfolding decimal_places_ok_def raw_value_def prod.case mult.assoc n(1) [symmetric]
    by (rule Ints_mult [OF _ Ints_mult [OF _ i]]) auto
qed

section \<open>Properties\<close>

text \<open>C18: the canonical text is exact: reading it back gives the value of the Decimal it encodes, so
  two Decimals have the same canonical text only when they are numerically equal.\<close>

theorem canonical_decimal_roundtrip:
  assumes "raw_ok v" and "canonical_decimal v = Inr t"
  shows "text_value t = raw_value v"
proof -
  obtain sign ds e where v: "v = (sign, ds, e)"
    by (metis prod_cases3)
  have "- e \<le> max_decimal_places"
    using assms(2) by (auto simp: v canonical_decimal_def max_decimal_exponent_def
        max_decimal_places_def split: if_splits)
  then have "decimal_places_ok (raw_value v)"
    using raw_value_places unfolding v by blast
  then show ?thesis
    using canonical_decimal_text [OF assms] text_value_dec_text by simp
qed

theorem canonical_decimal_roundtrip_witness:
  "raw_ok (False, [1, 0, 5], - 3) \<and> canonical_decimal (False, [1, 0, 5], - 3) = Inr ''0.105'' \<and>
   text_value ''0.105'' = 105 / 1000"
proof -
  have ok: "raw_ok (False, [1, 0, 5], - 3)" "canonical_decimal (False, [1, 0, 5], - 3) = Inr ''0.105''"
    "raw_value (False, [1, 0, 5], - 3) = 105 / 1000"
    by code_simp+
  then show ?thesis
    using canonical_decimal_roundtrip [OF ok(1,2)] by simp
qed

end
