(* ===== verification/Json.thy ===== *)
theory Json
  imports Canonical Domain
begin

text \<open>
  The JSON text that every identity of the program hashes:
  \<open>json.dumps(payload, ensure_ascii=True, separators=(",", ":"), sort_keys=True)\<close> of the
  standard library, on the values the code passes to it.  \<open>dumps\<close> sorts the members of every
  object by key and then prints; the theory shows that the printed text determines the payload
  up to the order of the members, so that two payloads with one text agree on every field.  A
  float is represented by whether it is finite and by the text \<open>repr\<close> gives it.
\<close>

datatype json = JNull | JBool bool | JInt int | JFloat bool string | JStr string
  | JList "json list" | JObj "(string \<times> json) list"

section \<open>Printing\<close>

definition hex_char :: "nat \<Rightarrow> char" where
  "hex_char n = ''0123456789abcdef'' ! n"

text \<open>The escapes of \<open>ensure_ascii\<close> for one character.\<close>

definition escape_char :: "char \<Rightarrow> string" where
  "escape_char c = (let n = (of_char c :: nat) in
     if n = 34 then [CHR 0x5C, CHR 0x22]
     else if n = 92 then [CHR 0x5C, CHR 0x5C]
     else if n = 10 then [CHR 0x5C, CHR ''n'']
     else if n = 13 then [CHR 0x5C, CHR ''r'']
     else if n = 9 then [CHR 0x5C, CHR ''t'']
     else if n = 12 then [CHR 0x5C, CHR ''f'']
     else if n = 8 then [CHR 0x5C, CHR ''b'']
     else if 32 \<le> n \<and> n \<le> 126 then [c]
     else [CHR 0x5C, CHR ''u'', CHR ''0'', CHR ''0'', hex_char (n div 16), hex_char (n mod 16)])"

text \<open>Evaluation tests the printable characters first, on their bits.\<close>

fun plain_char :: "char \<Rightarrow> bool" where
  "plain_char (Char b0 b1 b2 b3 b4 b5 b6 b7) \<longleftrightarrow> \<not> b7 \<and> (b5 \<or> b6) \<and>
     \<not> (b1 \<and> b5 \<and> \<not> b0 \<and> \<not> b2 \<and> \<not> b3 \<and> \<not> b4 \<and> \<not> b6) \<and>
     \<not> (b2 \<and> b3 \<and> b4 \<and> b6 \<and> \<not> b0 \<and> \<not> b1 \<and> \<not> b5) \<and>
     \<not> (b0 \<and> b1 \<and> b2 \<and> b3 \<and> b4 \<and> b5 \<and> b6)"

lemma plain_char_escape: "plain_char c \<Longrightarrow> escape_char c = [c]"
proof (cases c)
  case (Char b0 b1 b2 b3 b4 b5 b6 b7)
  then show "plain_char c \<Longrightarrow> escape_char c = [c]"
    by (cases b0; cases b1; cases b2; cases b3; cases b4; cases b5; cases b6; cases b7; simp add: escape_char_def)
qed

lemma escape_char_code [code]:
  "escape_char c = (if plain_char c then [c] else (let n = (of_char c :: nat) in
     if n = 34 then [CHR 0x5C, CHR 0x22]
     else if n = 92 then [CHR 0x5C, CHR 0x5C]
     else if n = 10 then [CHR 0x5C, CHR ''n'']
     else if n = 13 then [CHR 0x5C, CHR ''r'']
     else if n = 9 then [CHR 0x5C, CHR ''t'']
     else if n = 12 then [CHR 0x5C, CHR ''f'']
     else if n = 8 then [CHR 0x5C, CHR ''b'']
     else if 32 \<le> n \<and> n \<le> 126 then [c]
     else [CHR 0x5C, CHR ''u'', CHR ''0'', CHR ''0'', hex_char (n div 16), hex_char (n mod 16)]))"
  using plain_char_escape [of c] by (simp add: escape_char_def)

definition quote :: "string \<Rightarrow> string" where
  "quote s = CHR 0x22 # concat (map escape_char s) @ [CHR 0x22]"

fun join :: "char \<Rightarrow> string list \<Rightarrow> string" where
  "join c [] = []"
| "join c [x] = x"
| "join c (x # y # xs) = x @ c # join c (y # xs)"

fun print_json :: "json \<Rightarrow> string" where
  "print_json JNull = ''null''"
| "print_json (JBool b) = (if b then ''true'' else ''false'')"
| "print_json (JInt n) = int_text n"
| "print_json (JFloat fin t) = t"
| "print_json (JStr s) = quote s"
| "print_json (JList xs) = CHR ''['' # join (CHR '','') (map print_json xs) @ '']''"
| "print_json (JObj kvs) = CHR ''{'' # join (CHR '','')
     (map (\<lambda>(k, v). quote k @ CHR '':'' # print_json v) kvs) @ ''}''"

text \<open>\<open>sort_keys=True\<close>, at every level.\<close>

fun sort_members :: "json \<Rightarrow> json" where
  "sort_members (JList xs) = JList (map sort_members xs)"
| "sort_members (JObj kvs) = JObj (sort_key fst (map (\<lambda>(k, v). (k, sort_members v)) kvs))"
| "sort_members j = j"

definition dumps :: "json \<Rightarrow> string" where
  "dumps j = print_json (sort_members j)"

text \<open>The values without floats; the modelled payloads have none.\<close>

fun floatless :: "json \<Rightarrow> bool" where
  "floatless (JFloat fin t) = False"
| "floatless (JList xs) = list_all floatless xs"
| "floatless (JObj kvs) = list_all (\<lambda>(k, v). floatless v) kvs"
| "floatless j = True"

section \<open>Strings are read back\<close>

definition hex_value :: "char \<Rightarrow> nat" where
  "hex_value c = (let n = of_char c in if n < 58 then n - 48 else n - 87)"

fun read_char :: "string \<Rightarrow> (char \<times> string) option" where
  "read_char (c # cs) =
     (if c = CHR 0x22 then None
      else if c \<noteq> CHR 0x5C then Some (c, cs)
      else case cs of
        [] \<Rightarrow> None
      | d # ds \<Rightarrow>
          if d = CHR ''n'' then Some (char_of (10::nat), ds)
          else if d = CHR ''r'' then Some (char_of (13::nat), ds)
          else if d = CHR ''t'' then Some (char_of (9::nat), ds)
          else if d = CHR ''f'' then Some (char_of (12::nat), ds)
          else if d = CHR ''b'' then Some (char_of (8::nat), ds)
          else if d = CHR ''u'' then
            Some (char_of (16 * hex_value (ds ! 2) + hex_value (ds ! 3)), drop 4 ds)
          else Some (d, ds))"
| "read_char [] = None"

lemma hex_value_char [simp]: "n < 16 \<Longrightarrow> hex_value (hex_char n) = n"
proof -
  have "list_all (\<lambda>n. hex_value (hex_char n) = n) [0..<16]"
    by code_simp
  then show "n < 16 \<Longrightarrow> ?thesis"
    by (simp add: list_all_iff del: upt_rec_numeral)
qed

lemma char_code: "of_char c = (n::nat) \<longleftrightarrow> c = char_of n \<and> n < 256"
  using nat_of_char_less_256 by auto

lemma char_of_marks: "char_of (34::nat) = CHR 0x22" "char_of (92::nat) = CHR 0x5C"
  by code_simp+

lemma read_escape [simp]: "read_char (escape_char c @ u) = Some (c, u)"
proof -
  define n where "n = (of_char c :: nat)"
  then have c: "c = char_of n" and n: "n < 256"
    using nat_of_char_less_256 [of c] by simp_all
  have d: "n div 16 < 16" "16 * (n div 16) + n mod 16 = n"
    using n by simp_all
  have q: "n \<noteq> 34 \<Longrightarrow> c \<noteq> CHR 0x22" "n \<noteq> 92 \<Longrightarrow> c \<noteq> CHR 0x5C"
    by (auto simp: n_def)
  consider "n \<in> {34, 92, 10, 13, 9, 12, 8}" | "n \<notin> {34, 92, 10, 13, 9, 12, 8}" "32 \<le> n \<and> n \<le> 126"
    | "n \<notin> {34, 92, 10, 13, 9, 12, 8}" "\<not> (32 \<le> n \<and> n \<le> 126)"
    by blast
  then show ?thesis
  proof cases
    case 1
    then show ?thesis
      by (auto simp: escape_char_def n_def [symmetric] c char_of_marks)
  next
    case 2
    then show ?thesis
      using q by (simp add: escape_char_def n_def [symmetric] Let_def)
  next
    case 3
    then have "escape_char c = [CHR 0x5C, CHR ''u'', CHR ''0'', CHR ''0'', hex_char (n div 16),
        hex_char (n mod 16)]"
      by (auto simp: escape_char_def n_def [symmetric] Let_def)
    then show ?thesis
      using d by (simp add: c)
  qed
qed

lemma escaped_cancel:
  "concat (map escape_char s) @ CHR 0x22 # u = concat (map escape_char t) @ CHR 0x22 # v \<Longrightarrow>
     s = t \<and> u = v"
proof (induction s arbitrary: t)
  case Nil
  show ?case
  proof (cases t)
    case (Cons c cs)
    have "read_char (CHR 0x22 # u) =
        read_char (escape_char c @ concat (map escape_char cs) @ CHR 0x22 # v)"
      using Nil Cons by (simp del: read_char.simps read_escape)
    then show ?thesis
      unfolding read_escape by simp
  qed (use Nil in simp)
next
  case (Cons c cs)
  show ?case
  proof (cases t)
    case Nil
    have "read_char (CHR 0x22 # v) =
        read_char (escape_char c @ concat (map escape_char cs) @ CHR 0x22 # u)"
      using Cons.prems Nil by (simp del: read_char.simps read_escape)
    then show ?thesis
      unfolding read_escape by simp
  next
    case (Cons d ds)
    have "read_char (escape_char c @ concat (map escape_char cs) @ CHR 0x22 # u) =
        read_char (escape_char d @ concat (map escape_char ds) @ CHR 0x22 # v)"
      using Cons.prems Cons by (simp del: read_char.simps read_escape)
    then show ?thesis
      unfolding read_escape using Cons.IH [of ds] Cons by simp
  qed
qed

lemma quote_cancel: "quote s @ u = quote t @ v \<Longrightarrow> s = t \<and> u = v"
  unfolding quote_def by (intro escaped_cancel) simp

section \<open>Integers are read back\<close>

definition delimited :: "string \<Rightarrow> bool" where
  "delimited u \<longleftrightarrow> u = [] \<or> \<not> is_digit (hd u)"

lemma delimited_simps [simp]:
  "delimited []" "delimited (c # u) \<longleftrightarrow> \<not> is_digit c"
  by (simp_all add: delimited_def)

lemma is_digit_digit_char: "0 \<le> d \<Longrightarrow> d < 10 \<Longrightarrow> is_digit (digit_char d)"
  by (simp add: is_digit_def digit_char_def)

lemma digits_text_cancel:
  assumes "digits_ok ds" "digits_ok es" "delimited u" "delimited v"
    and eq: "digits_text ds @ u = digits_text es @ v"
  shows "ds = es \<and> u = v"
proof -
  have tw: "takeWhile is_digit (digits_text cs @ w) = digits_text cs" if "digits_ok cs" "delimited w" for cs w
    using that by (induction cs) (auto simp: digits_text_def is_digit_digit_char delimited_def
        neq_Nil_conv intro: takeWhile_eq_Nil_iff [THEN iffD2])
  from assms have "digits_text ds = digits_text es"
    by (metis tw)
  then have "map char_digit (digits_text ds) = map char_digit (digits_text es)" "u = v"
    using eq by simp_all
  with assms(1,2) show ?thesis
    by (metis char_digits_text)
qed

lemma int_text_hd:
  "\<exists>c r. int_text n = c # r \<and> (if n < 0 then c = CHR ''-'' else is_digit c \<and> c \<noteq> CHR ''-'')"
proof (cases "n < 0")
  case False
  then obtain d ds where "int_digits n = d # ds" "0 \<le> d" "d < 10"
    using digits_ok_int_digits [of n] int_digits_not_Nil [of n] by (cases "int_digits n") auto
  with False show ?thesis
    by (auto simp: int_text_def digits_text_def is_digit_digit_char digit_char_neq)
qed (simp add: int_text_def)

lemma int_text_cancel:
  assumes "delimited u" "delimited v" and eq: "int_text n @ u = int_text m @ v"
  shows "n = m \<and> u = v"
proof -
  obtain c r c' r' where h: "int_text n = c # r" "int_text m = c' # r'"
      "if n < 0 then c = CHR ''-'' else is_digit c \<and> c \<noteq> CHR ''-''"
      "if m < 0 then c' = CHR ''-'' else is_digit c' \<and> c' \<noteq> CHR ''-''"
    using int_text_hd [of n] int_text_hd [of m] by blast
  from eq have "c = c'"
    unfolding h(1,2) by simp
  then have sg: "n < 0 \<longleftrightarrow> m < 0"
    using h(3,4) by (auto split: if_splits)
  have "digits_text (int_digits \<bar>n\<bar>) @ u = digits_text (int_digits \<bar>m\<bar>) @ v"
    using eq sg by (cases "n < 0") (simp_all add: int_text_def)
  then have "int_digits \<bar>n\<bar> = int_digits \<bar>m\<bar> \<and> u = v"
    using assms(1,2) by (intro digits_text_cancel) auto
  then have "digits_value (int_digits \<bar>n\<bar>) = digits_value (int_digits \<bar>m\<bar>) \<and> u = v"
    by simp
  then show ?thesis
    using sg by auto
qed

section \<open>The printed text determines the value\<close>

fun join_tail :: "char \<Rightarrow> string list \<Rightarrow> string" where
  "join_tail c [] = []"
| "join_tail c (x # xs) = c # x @ join_tail c xs"

lemma join_Cons: "join c (x # xs) = x @ join_tail c xs"
  by (induction xs arbitrary: x) simp_all

definition readable :: "('a \<Rightarrow> string) \<Rightarrow> 'a \<Rightarrow> 'a set \<Rightarrow> bool" where
  "readable p x Y \<longleftrightarrow> (\<forall>y \<in> Y. \<forall>u v. delimited u \<longrightarrow> delimited v \<longrightarrow> p x @ u = p y @ v \<longrightarrow> x = y \<and> u = v)"

lemma join_tail_delimited:
  "\<not> is_digit c \<Longrightarrow> \<not> is_digit k \<Longrightarrow> delimited (join_tail c xs @ k # u)"
  by (cases xs) simp_all

lemma join_tail_cancel:
  assumes "\<forall>x \<in> set xs. readable p x (set ys)" and "c \<noteq> k" "\<not> is_digit c" "\<not> is_digit k"
    and "join_tail c (map p xs) @ k # u = join_tail c (map p ys) @ k # v"
  shows "xs = ys \<and> u = v"
  using assms
proof (induction xs arbitrary: ys)
  case Nil
  then show ?case
    by (cases ys) auto
next
  case (Cons x xs)
  then obtain y ys' where ys: "ys = y # ys'"
    by (cases ys) auto
  from Cons.prems(1) ys have r: "readable p x {y}" and "\<forall>x \<in> set xs. readable p x (set ys')"
    by (auto simp: readable_def)
  moreover from Cons.prems(5) ys have
    "p x @ join_tail c (map p xs) @ k # u = p y @ join_tail c (map p ys') @ k # v"
    by simp
  with r Cons.prems(3,4) have
    "x = y \<and> join_tail c (map p xs) @ k # u = join_tail c (map p ys') @ k # v"
    unfolding readable_def using join_tail_delimited by blast
  ultimately show ?case
    using Cons.IH [of ys'] Cons.prems(2-4) ys by blast
qed

lemma join_cancel:
  assumes r: "\<forall>x \<in> set xs. readable p x (set ys)" and ck: "c \<noteq> k" "\<not> is_digit c" "\<not> is_digit k"
    and ne: "\<forall>z \<in> set xs \<union> set ys. \<exists>d r. p z = d # r \<and> d \<noteq> k"
    and eq: "join c (map p xs) @ k # u = join c (map p ys) @ k # v"
  shows "xs = ys \<and> u = v"
proof (cases xs; cases ys)
  fix x xs' y ys'
  assume xs: "xs = x # xs'" and ys: "ys = y # ys'"
  then have "join_tail c (map p xs) @ k # u = join_tail c (map p ys) @ k # v"
    using eq by (simp add: join_Cons)
  then show ?thesis
    using join_tail_cancel [OF r ck] by blast
qed (use eq ne in \<open>auto simp: join_Cons\<close>)

text \<open>The first character tells the constructor.\<close>

fun kind :: "json \<Rightarrow> nat" where
  "kind JNull = 0"
| "kind (JBool b) = (if b then 1 else 6)"
| "kind (JInt n) = 2"
| "kind (JStr s) = 3"
| "kind (JList xs) = 4"
| "kind (JObj kvs) = 5"
| "kind (JFloat fin t) = 7"

definition char_kind :: "char \<Rightarrow> nat" where
  "char_kind c = (if c = CHR ''n'' then 0 else if c = CHR ''t'' then 1 else if c = CHR ''f'' then 6
     else if c = CHR ''-'' \<or> is_digit c then 2 else if c = CHR 0x22 then 3
     else if c = CHR ''['' then 4 else if c = CHR ''{'' then 5 else 8)"

lemma not_digits [simp]: "\<not> is_digit (CHR ''n'')" "\<not> is_digit (CHR ''t'')" "\<not> is_digit (CHR ''f'')"
  "\<not> is_digit (CHR 0x22)" "\<not> is_digit (CHR ''['')" "\<not> is_digit (CHR ''{'')" "\<not> is_digit (CHR '','')"
  "\<not> is_digit (CHR '']'')" "\<not> is_digit (CHR ''}'')" "\<not> is_digit (CHR '':'')"
  by code_simp+

lemma print_json_hd: "floatless a \<Longrightarrow> \<exists>c r. print_json a = c # r \<and> char_kind c = kind a"
proof (cases a)
  case (JInt n)
  obtain c r where "int_text n = c # r" "c = CHR ''-'' \<or> is_digit c"
    using int_text_hd [of n] by (metis (full_types))
  moreover from this have "char_kind c = 2"
    using not_digits by (auto simp: char_kind_def)
  ultimately show ?thesis
    by (simp add: JInt)
qed (auto simp: char_kind_def quote_def)

lemma print_json_kind:
  assumes "floatless a" "floatless b" "print_json a @ u = print_json b @ v"
  shows "kind a = kind b"
  using print_json_hd [OF assms(1)] print_json_hd [OF assms(2)] assms(3) by auto

lemma readable_print_json: "floatless a \<Longrightarrow> readable print_json a {b. floatless b}"
proof (induction a)
  case (JInt n)
  show ?case
    unfolding readable_def
  proof (intro ballI allI impI)
    fix b u v assume b: "b \<in> {b. floatless b}" "delimited u" "delimited v"
      and eq: "print_json (JInt n) @ u = print_json b @ v"
    then have "kind b = 2"
      using print_json_kind [of "JInt n" b u v] by simp
    then obtain m where "b = JInt m"
      by (cases b) (auto split: if_splits)
    with eq b int_text_cancel [of u v n m] show "JInt n = b \<and> u = v"
      by simp
  qed
next
  case (JStr s)
  show ?case
    unfolding readable_def
  proof (intro ballI allI impI)
    fix b u v assume b: "b \<in> {b. floatless b}"
      and eq: "print_json (JStr s) @ u = print_json b @ v"
    then have "kind b = 3"
      using print_json_kind [of "JStr s" b u v] by simp
    then obtain t where "b = JStr t"
      by (cases b) (auto split: if_splits)
    with eq quote_cancel [of s u t v] show "JStr s = b \<and> u = v"
      by simp
  qed
next
  case (JList xs)
  show ?case
    unfolding readable_def
  proof (intro ballI allI impI)
    fix b u v assume b: "b \<in> {b. floatless b}"
      and eq: "print_json (JList xs) @ u = print_json b @ v"
    then have "kind b = 4"
      using print_json_kind [of "JList xs" b u v] JList.prems by simp
    then obtain ys where ys: "b = JList ys"
      by (cases b) (auto split: if_splits)
    have fl: "\<forall>x \<in> set xs. floatless x" "\<forall>y \<in> set ys. floatless y"
      using JList.prems b ys by (auto simp: list_all_iff)
    then have "\<forall>x \<in> set xs. readable print_json x (set ys)"
      using JList.IH by (auto simp: readable_def)
    moreover have "\<forall>z \<in> set xs \<union> set ys. \<exists>d r. print_json z = d # r \<and> d \<noteq> CHR '']''"
    proof
      fix z assume "z \<in> set xs \<union> set ys"
      with fl have "floatless z"
        by blast
      moreover from this have "kind z \<noteq> char_kind (CHR '']'')"
        by (cases z) (auto simp: char_kind_def)
      ultimately show "\<exists>d r. print_json z = d # r \<and> d \<noteq> CHR '']''"
        using print_json_hd [of z] by auto
    qed
    moreover from eq ys have "join (CHR '','') (map print_json xs) @ CHR '']'' # u =
        join (CHR '','') (map print_json ys) @ CHR '']'' # v"
      by simp
    ultimately have "xs = ys \<and> u = v"
      by (intro join_cancel [where c = "CHR '',''" and k = "CHR '']''"]) simp_all
    with ys show "JList xs = b \<and> u = v"
      by simp
  qed
next
  case (JObj kvs)
  let ?p = "\<lambda>(k, v). quote k @ CHR '':'' # print_json v"
  show ?case
    unfolding readable_def
  proof (intro ballI allI impI)
    fix b u v assume b: "b \<in> {b. floatless b}"
      and eq: "print_json (JObj kvs) @ u = print_json b @ v"
    then have "kind b = 5"
      using print_json_kind [of "JObj kvs" b u v] JObj.prems by simp
    then obtain kws where kws: "b = JObj kws"
      by (cases b) (auto split: if_splits)
    have fl: "\<forall>(k, x) \<in> set kvs. floatless x" "\<forall>(k, y) \<in> set kws. floatless y"
      using JObj.prems b kws by (auto simp: list_all_iff)
    have "\<forall>x \<in> set kvs. readable ?p x (set kws)"
      unfolding readable_def
    proof (intro ballI allI impI)
      fix x y u v assume x: "x \<in> set kvs" and y: "y \<in> set kws" and d: "delimited u" "delimited v"
        and eq: "?p x @ u = ?p y @ v"
      obtain k1 v1 k2 v2 where xy: "x = (k1, v1)" "y = (k2, v2)"
        by (metis surj_pair)
      have "readable print_json v1 {b. floatless b}"
        using JObj.IH [of x v1] x fl(1) xy by auto
      moreover have "k1 = k2 \<and> print_json v1 @ u = print_json v2 @ v"
        using quote_cancel [of k1 "CHR '':'' # print_json v1 @ u" k2 "CHR '':'' # print_json v2 @ v"] eq
        by (simp add: xy)
      moreover have "floatless v2"
        using y fl(2) xy by auto
      ultimately show "x = y \<and> u = v"
        using d by (auto simp: readable_def xy)
    qed
    moreover have "\<forall>z \<in> set kvs \<union> set kws. \<exists>d r. ?p z = d # r \<and> d \<noteq> CHR ''}''"
      by (auto simp: quote_def)
    moreover from eq kws have "join (CHR '','') (map ?p kvs) @ CHR ''}'' # u =
        join (CHR '','') (map ?p kws) @ CHR ''}'' # v"
      by simp
    ultimately have "kvs = kws \<and> u = v"
      by (intro join_cancel [where c = "CHR '',''" and k = "CHR ''}''"]) simp_all
    with kws show "JObj kvs = b \<and> u = v"
      by simp
  qed
next
  case JNull
  show ?case
    unfolding readable_def
  proof (intro ballI allI impI)
    fix b u v assume "b \<in> {b. floatless b}" and eq: "print_json JNull @ u = print_json b @ v"
    then have "kind b = 0"
      using print_json_kind [of JNull b u v] by simp
    with eq show "JNull = b \<and> u = v"
      by (cases b) (auto split: if_splits)
  qed
next
  case (JBool t)
  show ?case
    unfolding readable_def
  proof (intro ballI allI impI)
    fix b u v assume "b \<in> {b. floatless b}" and eq: "print_json (JBool t) @ u = print_json b @ v"
    then have "kind b = (if t then 1 else 6)"
      using print_json_kind [of "JBool t" b u v] by simp
    with eq show "JBool t = b \<and> u = v"
      by (cases b) (auto split: if_splits)
  qed
qed simp

section \<open>Canonical payload text\<close>

lemma floatless_sort_members: "floatless j \<Longrightarrow> floatless (sort_members j)"
  by (induction j) (fastforce simp: list_all_iff)+

lemma dumps_cancel:
  assumes "floatless a" "floatless b"
  shows "dumps a = dumps b \<longleftrightarrow> sort_members a = sort_members b"
proof
  assume "dumps a = dumps b"
  then have "print_json (sort_members a) @ [] = print_json (sort_members b) @ []"
    by (simp add: dumps_def)
  then show "sort_members a = sort_members b"
    using readable_print_json [OF floatless_sort_members [OF assms(1)]]
      floatless_sort_members [OF assms(2)] delimited_simps(1)
    unfolding readable_def by blast
qed (simp add: dumps_def)

lemma dumps_fields:
  assumes "floatless (JObj kvs)" "floatless (JObj kws)" "dict_ok kvs" "dict_ok kws"
    and "dumps (JObj kvs) = dumps (JObj kws)"
  shows "map_option sort_members (dget kvs k) = map_option sort_members (dget kws k)"
proof -
  let ?m = "map (\<lambda>(k, v). (k, sort_members v))"
  have ok: "dict_ok (?m kvs)" "dict_ok (?m kws)"
    using assms(3,4) by (simp_all add: dict_ok_def comp_def case_prod_beta)
  from assms have "sorted_items (?m kvs) = sorted_items (?m kws)"
    by (simp add: dumps_cancel sorted_items_def)
  then have "dget (?m kvs) k = dget (?m kws) k"
    using ok by (metis dget_sorted_items)
  then show ?thesis
    by (simp add: map_of_map comp_def)
qed

end
