(* ===== verification/Ledger.thy ===== *)
theory Ledger
  imports Json
begin

text \<open>
  The long-only portfolio ledger of \<open>portfolio/ledger.py\<close>: average-cost accounting of fills,
  valuation at market prices, reconciliation snapshots, and the two recovery snapshots (the full
  export of \<open>export_state\<close>/\<open>from_state\<close> and the compact rollback state of one staged operation).
  \<open>_positions\<close> and \<open>_market_prices\<close> are dicts in insertion order, which matters because sums of
  Decimals are rounded at every step.  Messages that quote Decimals are shortened to their
  constant part.  SHA-256 is the parameter \<open>sha\<close>.
\<close>

section \<open>State\<close>

record position_state =
  pst_quantity :: dec
  pst_average_price :: dec

record ledger =
  lg_starting_cash :: dec
  lg_currency :: string
  lg_cash :: dec
  lg_positions :: "(string, position_state) dict"
  lg_market_prices :: "(string, dec) dict"
  lg_fill_ids :: "string set"
  lg_gross_realized_pnl :: dec
  lg_fees :: dec
  lg_equity :: dec
  lg_peak_equity :: dec
  lg_drawdown :: dec

record ledger_position =
  lp_instrument_id :: string
  lp_quantity :: dec
  lp_average_price :: dec

record ledger_state =
  ls_starting_cash :: dec
  ls_currency :: string
  ls_cash :: dec
  ls_positions :: "ledger_position list"
  ls_market_prices :: "(string \<times> dec) list"
  ls_fill_ids :: "string list"
  ls_gross_realized_pnl :: dec
  ls_fees :: dec
  ls_equity :: dec
  ls_peak_equity :: dec
  ls_drawdown :: dec

record ledger_compact_state =
  lc_starting_cash :: dec
  lc_currency :: string
  lc_cash :: dec
  lc_positions :: "ledger_position list"
  lc_market_prices :: "(string \<times> dec) list"
  lc_fill_count :: nat
  lc_gross_realized_pnl :: dec
  lc_fees :: dec
  lc_equity :: dec
  lc_peak_equity :: dec
  lc_drawdown :: dec

definition ledger_init :: "dec \<Rightarrow> string \<Rightarrow> ledger" where
  "ledger_init starting_cash currency = \<lparr>lg_starting_cash = starting_cash, lg_currency = currency,
     lg_cash = starting_cash, lg_positions = [], lg_market_prices = [], lg_fill_ids = {},
     lg_gross_realized_pnl = 0, lg_fees = 0, lg_equity = starting_cash,
     lg_peak_equity = starting_cash, lg_drawdown = 0\<rparr>"

section \<open>Validation helpers\<close>

definition require_positive_decimal :: "string \<Rightarrow> dec \<Rightarrow> dec result" where
  "require_positive_decimal field v =
     (if v \<le> 0 then Inl (ValueError (field @ '' must be a finite Decimal greater than zero'')) else Inr v)"

definition require_nonnegative_decimal :: "string \<Rightarrow> dec \<Rightarrow> dec result" where
  "require_nonnegative_decimal field v =
     (if v < 0 then Inl (ValueError (field @ '' must be a finite Decimal greater than or equal to zero''))
      else Inr v)"

definition normalize_aware_datetime :: "pydt \<Rightarrow> instant result" where
  "normalize_aware_datetime v = aware_utc (ValueError ''snapshot timestamp must be timezone-aware'') v"

lemma require_positive_Inr [result_simps]: "require_positive_decimal n v = Inr w \<longleftrightarrow> w = v \<and> 0 < v"
  by (auto simp: require_positive_decimal_def)

lemma require_nonnegative_Inr [result_simps]: "require_nonnegative_decimal n v = Inr w \<longleftrightarrow> w = v \<and> 0 \<le> v"
  by (auto simp: require_nonnegative_decimal_def)

section \<open>Valuation\<close>

text \<open>The market values of the positions at the given prices, in dict order; a missing price is a
  KeyError.\<close>

definition position_values ::
  "(string, dec) dict \<Rightarrow> (string, position_state) dict \<Rightarrow> dec list result" where
  "position_values prices positions = traverse (\<lambda>(i, p). case dget prices i of
      None \<Rightarrow> Inl (KeyError i) | Some price \<Rightarrow> Inr (dmul (pst_quantity p) price)) positions"

definition drawdown_of :: "dec \<Rightarrow> dec \<Rightarrow> dec" where
  "drawdown_of peak equity = (if peak > 0 then ddiv (dsub peak equity) peak else 0)"

definition valuation :: "(string, dec) dict \<Rightarrow> ledger \<Rightarrow> (dec \<times> dec \<times> dec) result" where
  "valuation prices L = rbind (position_values prices (lg_positions L)) (\<lambda>values.
     let equity = dadd (lg_cash L) (dsum values); peak = max (lg_peak_equity L) equity
     in Inr (equity, peak, drawdown_of peak equity))"

definition revalue :: "ledger \<Rightarrow> ledger result" where
  "revalue L = rbind (valuation (lg_market_prices L) L) (\<lambda>(equity, peak, dd).
     Inr (L\<lparr>lg_equity := equity, lg_peak_equity := peak, lg_drawdown := dd\<rparr>))"

section \<open>Fills\<close>

definition apply_buy :: "string \<Rightarrow> dec \<Rightarrow> dec \<Rightarrow> dec \<Rightarrow> ledger \<Rightarrow> ledger" where
  "apply_buy instrument_id quantity notional fee L =
     (let positions = (case dget (lg_positions L) instrument_id of
         None \<Rightarrow> dset instrument_id
           \<lparr>pst_quantity = quantity, pst_average_price = ddiv notional quantity\<rparr> (lg_positions L)
       | Some p \<Rightarrow> (let total = dadd (pst_quantity p) quantity in
           dset instrument_id \<lparr>pst_quantity = total, pst_average_price =
             ddiv (dadd (dmul (pst_quantity p) (pst_average_price p)) notional) total\<rparr> (lg_positions L)))
     in L\<lparr>lg_positions := positions, lg_cash := dsub (lg_cash L) (dadd notional fee),
          lg_fees := dadd (lg_fees L) fee\<rparr>)"

definition apply_sell :: "string \<Rightarrow> position_state \<Rightarrow> dec \<Rightarrow> dec \<Rightarrow> dec \<Rightarrow> dec \<Rightarrow> ledger \<Rightarrow> ledger" where
  "apply_sell instrument_id p quantity price notional fee L =
     (let remaining = dsub (pst_quantity p) quantity in
      L\<lparr>lg_cash := dadd (lg_cash L) (dsub notional fee),
        lg_gross_realized_pnl := dadd (lg_gross_realized_pnl L)
          (dmul (dsub price (pst_average_price p)) quantity),
        lg_fees := dadd (lg_fees L) fee,
        lg_positions := (if remaining = 0 then ddel instrument_id (lg_positions L)
          else dset instrument_id (p\<lparr>pst_quantity := remaining\<rparr>) (lg_positions L))\<rparr>)"

definition apply_fill :: "fill \<Rightarrow> ledger \<Rightarrow> ledger result" where
  "apply_fill f L =
     rbind (require_positive_decimal ''quantity'' (fl_quantity f)) (\<lambda>quantity.
     rbind (require_positive_decimal ''price'' (fl_price f)) (\<lambda>price.
     rbind (require_nonnegative_decimal ''fee'' (fl_fee f)) (\<lambda>fee.
     if fl_fill_id f \<in> lg_fill_ids L
     then Inl (DuplicateFillError (''fill ID already applied: '' @ fl_fill_id f))
     else let position = dget (lg_positions L) (fl_instrument_id f);
              notional = dmul quantity price in
       rbind (case (fl_side f, position) of
           (SELL, None) \<Rightarrow> Inl (InsufficientPositionError (''cannot sell '' @ fl_instrument_id f))
         | (SELL, Some p) \<Rightarrow>
             if quantity > pst_quantity p
             then Inl (InsufficientPositionError (''cannot sell '' @ fl_instrument_id f))
             else Inr (apply_sell (fl_instrument_id f) p quantity price notional fee L)
         | (BUY, _) \<Rightarrow> Inr (apply_buy (fl_instrument_id f) quantity notional fee L))
       (\<lambda>L1. revalue (L1\<lparr>lg_fill_ids := insert (fl_fill_id f) (lg_fill_ids L1),
          lg_market_prices := dset (fl_instrument_id f) price (lg_market_prices L1)\<rparr>)))))"

section \<open>Marks and snapshots\<close>

definition snapshot_at :: "instant \<Rightarrow> ledger \<Rightarrow> portfolio_snapshot result" where
  "snapshot_at observed_at L =
     rbind (traverse (\<lambda>(i, p). case dget (lg_market_prices L) i of
         None \<Rightarrow> Inl (KeyError i)
       | Some m \<Rightarrow> Inr \<lparr>pos_instrument_id = i, pos_quantity = pst_quantity p,
           pos_average_price = pst_average_price p, pos_market_price = m,
           pos_unrealized_pnl = dmul (dsub m (pst_average_price p)) (pst_quantity p)\<rparr>)
       (sorted_items (lg_positions L))) (\<lambda>positions.
     Inr \<lparr>ps_currency = lg_currency L, ps_cash = lg_cash L, ps_equity = lg_equity L,
       ps_peak_equity = lg_peak_equity L,
       ps_gross_exposure = dsum (map (\<lambda>q. dmul (pos_quantity q) (pos_market_price q)) positions),
       ps_daily_pnl = dsub (lg_equity L) (lg_starting_cash L),
       ps_realized_pnl = dsub (lg_gross_realized_pnl L) (lg_fees L),
       ps_positions = positions, ps_observed_at = observed_at\<rparr>)"

text \<open>\<open>d | e\<close> on dicts: the entries of \<open>e\<close> overwrite or are appended in their order.\<close>

definition dict_union :: "('k, 'v) dict \<Rightarrow> ('k, 'v) dict \<Rightarrow> ('k, 'v) dict" where
  "dict_union d e = foldl (\<lambda>a (k, v). dset k v a) d e"

definition mark :: "(string, dec) dict \<Rightarrow> pydt \<Rightarrow> ledger \<Rightarrow> (portfolio_snapshot \<times> ledger) result" where
  "mark prices tm L =
     rbind (normalize_aware_datetime tm) (\<lambda>observed_at.
     rbind (traverse (\<lambda>(i, v). rbind (require_positive_decimal ''price'' v) (\<lambda>w. Inr (i, w))) prices)
       (\<lambda>validated.
     case filter (\<lambda>i. i \<notin> set (dkeys validated)) (dkeys (lg_positions L)) of
       i # _ \<Rightarrow> Inl (ValueError (''missing price for open position: '' @ i))
     | [] \<Rightarrow> let candidate = dict_union (lg_market_prices L) validated in
         rbind (valuation candidate L) (\<lambda>(equity, peak, dd).
         let L' = L\<lparr>lg_market_prices := candidate, lg_equity := equity, lg_peak_equity := peak,
                    lg_drawdown := dd\<rparr> in
         rbind (snapshot_at observed_at L') (\<lambda>s. Inr (s, L')))))"

definition ledger_snapshot :: "pydt \<Rightarrow> ledger \<Rightarrow> portfolio_snapshot result" where
  "ledger_snapshot tm L =
     rbind (normalize_aware_datetime tm) (\<lambda>observed_at.
     case filter (\<lambda>i. i \<notin> set (dkeys (lg_market_prices L))) (dkeys (lg_positions L)) of
       i # _ \<Rightarrow> Inl (ValueError (''missing price for open position: '' @ i))
     | [] \<Rightarrow> snapshot_at observed_at L)"

section \<open>Recovery snapshots\<close>

definition export_positions :: "ledger \<Rightarrow> ledger_position list" where
  "export_positions L = map (\<lambda>(i, p). \<lparr>lp_instrument_id = i, lp_quantity = pst_quantity p,
     lp_average_price = pst_average_price p\<rparr>) (sorted_items (lg_positions L))"

definition export_state :: "ledger \<Rightarrow> ledger_state" where
  "export_state L = \<lparr>ls_starting_cash = lg_starting_cash L, ls_currency = lg_currency L,
     ls_cash = lg_cash L, ls_positions = export_positions L,
     ls_market_prices = sorted_items (lg_market_prices L),
     ls_fill_ids = sorted_list_of_set (lg_fill_ids L),
     ls_gross_realized_pnl = lg_gross_realized_pnl L, ls_fees = lg_fees L, ls_equity = lg_equity L,
     ls_peak_equity = lg_peak_equity L, ls_drawdown = lg_drawdown L\<rparr>"

definition compact_state :: "ledger \<Rightarrow> ledger_compact_state" where
  "compact_state L = \<lparr>lc_starting_cash = lg_starting_cash L, lc_currency = lg_currency L,
     lc_cash = lg_cash L, lc_positions = export_positions L,
     lc_market_prices = sorted_items (lg_market_prices L),
     lc_fill_count = card (lg_fill_ids L),
     lc_gross_realized_pnl = lg_gross_realized_pnl L, lc_fees = lg_fees L, lc_equity = lg_equity L,
     lc_peak_equity = lg_peak_equity L, lc_drawdown = lg_drawdown L\<rparr>"

text \<open>A dict comprehension over positions: later entries overwrite earlier ones.\<close>

definition import_positions :: "ledger_position list \<Rightarrow> (string, position_state) dict" where
  "import_positions ps = foldl (\<lambda>d q. dset (lp_instrument_id q)
     \<lparr>pst_quantity = lp_quantity q, pst_average_price = lp_average_price q\<rparr> d) [] ps"

definition import_prices :: "(string \<times> dec) list \<Rightarrow> (string, dec) dict" where
  "import_prices ps = foldl (\<lambda>d (i, v). dset i v d) [] ps"

text \<open>The loop that takes the staged fill identifiers back; an exception leaves those already
  removed out of the set.\<close>

fun remove_fills :: "string list \<Rightarrow> string set \<Rightarrow> exn option \<times> string set" where
  "remove_fills [] ids = (None, ids)"
| "remove_fills (i # rest) ids =
     (if i \<notin> ids then (Some (ValueError ''compact ledger rollback is missing a staged fill''), ids)
      else remove_fills rest (ids - {i}))"

definition restore_compact_state ::
  "ledger_compact_state \<Rightarrow> string list \<Rightarrow> ledger \<Rightarrow> exn option \<times> ledger" where
  "restore_compact_state st added L =
     (if lc_starting_cash st \<noteq> lg_starting_cash L \<or> lc_currency st \<noteq> lg_currency L
      then (Some (ValueError ''invalid compact ledger rollback state''), L)
      else case remove_fills added (lg_fill_ids L) of
        (Some e, ids) \<Rightarrow> (Some e, L\<lparr>lg_fill_ids := ids\<rparr>)
      | (None, ids) \<Rightarrow>
          if card ids \<noteq> lc_fill_count st
          then (Some (ValueError ''compact ledger rollback fill count is inconsistent''),
                L\<lparr>lg_fill_ids := ids\<rparr>)
          else (None, L\<lparr>lg_fill_ids := ids, lg_cash := lc_cash st,
            lg_positions := import_positions (lc_positions st),
            lg_market_prices := import_prices (lc_market_prices st),
            lg_gross_realized_pnl := lc_gross_realized_pnl st, lg_fees := lc_fees st,
            lg_equity := lc_equity st, lg_peak_equity := lc_peak_equity st,
            lg_drawdown := lc_drawdown st\<rparr>))"

definition has_fill_id :: "string \<Rightarrow> ledger \<Rightarrow> bool" where
  "has_fill_id i L = (i \<in> lg_fill_ids L)"

text \<open>\<open>from_state\<close>: every failure is reported as one ValueError.\<close>

fun load_positions ::
  "ledger_position list \<Rightarrow> (string, position_state) dict \<Rightarrow> (string, position_state) dict option" where
  "load_positions [] d = Some d"
| "load_positions (q # qs) d =
     (if lp_instrument_id q = [] \<or> lp_instrument_id q \<in> set (dkeys d) \<or> lp_quantity q \<le> 0
         \<or> lp_average_price q \<le> 0 then None
      else load_positions qs (dset (lp_instrument_id q)
        \<lparr>pst_quantity = lp_quantity q, pst_average_price = lp_average_price q\<rparr> d))"

fun load_prices :: "(string \<times> dec) list \<Rightarrow> (string, dec) dict \<Rightarrow> (string, dec) dict option" where
  "load_prices [] d = Some d"
| "load_prices ((i, v) # qs) d =
     (if i = [] \<or> i \<in> set (dkeys d) \<or> v \<le> 0 then None else load_prices qs (dset i v d))"

definition from_state :: "ledger_state \<Rightarrow> ledger result" where
  "from_state st = (let bad = Inl (ValueError ''invalid portfolio ledger state'') in
     if ls_starting_cash st \<le> 0 \<or> ls_currency st = [] \<or> ls_currency st \<noteq> strip (ls_currency st)
        \<or> ls_fees st < 0 \<or> ls_drawdown st < 0 then bad
     else case load_positions (ls_positions st) [] of None \<Rightarrow> bad
     | Some positions \<Rightarrow> (case load_prices (ls_market_prices st) [] of None \<Rightarrow> bad
     | Some prices \<Rightarrow>
         if \<not> set (dkeys positions) \<subseteq> set (dkeys prices) then bad
         else if [] \<in> set (ls_fill_ids st) \<or> \<not> distinct (ls_fill_ids st) then bad
         else (case position_values prices positions of Inl _ \<Rightarrow> bad
         | Inr values \<Rightarrow>
             if dadd (ls_cash st) (dsum values) \<noteq> ls_equity st
                \<or> ls_peak_equity st < max (ls_starting_cash st) (ls_equity st) then bad
             else if ls_drawdown st \<noteq> drawdown_of (ls_peak_equity st) (ls_equity st) then bad
             else Inr \<lparr>lg_starting_cash = ls_starting_cash st, lg_currency = ls_currency st,
               lg_cash = ls_cash st, lg_positions = positions, lg_market_prices = prices,
               lg_fill_ids = set (ls_fill_ids st),
               lg_gross_realized_pnl = ls_gross_realized_pnl st, lg_fees = ls_fees st,
               lg_equity = ls_equity st, lg_peak_equity = ls_peak_equity st,
               lg_drawdown = ls_drawdown st\<rparr>)))"

section \<open>The reconciliation hash\<close>

text \<open>\<open>_canonical_decimal\<close>: \<open>format(value.normalize(), "f")\<close>.\<close>

definition ledger_decimal_text :: "dec \<Rightarrow> string" where
  "ledger_decimal_text v = (if v = 0 then ''0'' else dec_text (rnd v))"

definition position_payload :: "ledger \<Rightarrow> json" where
  "position_payload L = JObj [
     (''cash'', JStr (ledger_decimal_text (lg_cash L))),
     (''equity'', JStr (ledger_decimal_text (lg_equity L))),
     (''positions'', JList (map (\<lambda>(i, p). JList [JStr i, JStr (ledger_decimal_text (pst_quantity p)),
        JStr (ledger_decimal_text (pst_average_price p))]) (sorted_items (lg_positions L))))]"

definition position_hash :: "(string \<Rightarrow> string) \<Rightarrow> ledger \<Rightarrow> string" where
  "position_hash sha L = sha (dumps (position_payload L))"

section \<open>Well-formed ledgers\<close>

definition ledger_ok :: "ledger \<Rightarrow> bool" where
  "ledger_ok L \<longleftrightarrow>
     dict_ok (lg_positions L) \<and> dict_ok (lg_market_prices L) \<and> finite (lg_fill_ids L) \<and>
     (\<forall>(i, p) \<in> set (lg_positions L). 0 < pst_quantity p \<and> 0 < pst_average_price p \<and>
        i \<in> set (dkeys (lg_market_prices L))) \<and>
     (\<forall>(i, v) \<in> set (lg_market_prices L). 0 < v) \<and>
     0 \<le> lg_fees L \<and> lg_starting_cash L \<le> lg_peak_equity L \<and> lg_equity L \<le> lg_peak_equity L \<and>
     lg_drawdown L = drawdown_of (lg_peak_equity L) (lg_equity L) \<and>
     valuation (lg_market_prices L) L = Inr (lg_equity L, lg_peak_equity L, lg_drawdown L)"

lemma drawdown_of_nonneg: "equity \<le> peak \<Longrightarrow> 0 \<le> drawdown_of peak equity"
  by (simp add: drawdown_of_def)

lemma ledger_ok_init: "representable c \<Longrightarrow> ledger_ok (ledger_init c cur)"
  by (auto simp: ledger_ok_def ledger_init_def valuation_def position_values_def drawdown_of_def
      dadd_def representable_def Let_def dsub_def ddiv_def)

lemma position_values_Cons:
  "position_values prices ((i, p) # ps) = (case dget prices i of None \<Rightarrow> Inl (KeyError i)
     | Some price \<Rightarrow> rbind (position_values prices ps)
         (\<lambda>vs. Inr (dmul (pst_quantity p) price # vs)))"
  by (simp add: position_values_def split: option.splits)

lemma position_values_Nil [simp]: "position_values prices [] = Inr []"
  by (simp add: position_values_def)

lemma position_values_Inr:
  "(\<exists>vs. position_values prices ps = Inr vs) \<longleftrightarrow> set (dkeys ps) \<subseteq> set (dkeys prices)"
proof (induction ps)
  case (Cons x ps)
  obtain i p where x: "x = (i, p)"
    by (metis surj_pair)
  show ?case
  proof (cases "dget prices i")
    case None
    then show ?thesis
      using dget_None_iff [of prices i] by (simp add: x position_values_Cons)
  next
    case (Some v)
    then have "i \<in> set (dkeys prices)"
      by (rule dget_SomeD)
    then show ?thesis
      using Cons Some by (auto simp: x position_values_Cons rbind_eq_Inr)
  qed
qed simp

lemma valuation_total:
  "set (dkeys (lg_positions L)) \<subseteq> set (dkeys prices) \<Longrightarrow> \<exists>r. valuation prices L = Inr r"
  using position_values_Inr [of prices "lg_positions L"] by (auto simp: valuation_def Let_def)

lemma valuation_Inr:
  "valuation prices L = Inr (equity, peak, dd) \<Longrightarrow>
     peak = max (lg_peak_equity L) equity \<and> dd = drawdown_of peak equity"
  by (auto simp: valuation_def rbind_eq_Inr Let_def)

text \<open>Storing a valuation and computing it again gives the same values.\<close>

lemma valuation_stable:
  assumes "valuation prices L = Inr (equity, peak, dd)"
  shows "valuation prices (L\<lparr>lg_market_prices := m, lg_equity := e', lg_peak_equity := peak, lg_drawdown := d'\<rparr>)
     = Inr (equity, peak, dd)"
  using assms by (auto simp: valuation_def rbind_eq_Inr Let_def)

definition positions_ok :: "ledger \<Rightarrow> bool" where
  "positions_ok L \<longleftrightarrow> dict_ok (lg_positions L) \<and> dict_ok (lg_market_prices L) \<and>
     (\<forall>(i, p) \<in> set (lg_positions L). 0 < pst_quantity p \<and> 0 < pst_average_price p \<and>
        i \<in> set (dkeys (lg_market_prices L))) \<and>
     (\<forall>(i, v) \<in> set (lg_market_prices L). 0 < v)"

lemma positions_ok_dget:
  "positions_ok L \<Longrightarrow> dget (lg_positions L) i = Some p \<Longrightarrow>
     0 < pst_quantity p \<and> 0 < pst_average_price p \<and> i \<in> set (dkeys (lg_market_prices L))"
  by (auto simp: positions_ok_def dest!: map_of_SomeD)

lemma set_dset_cases: "(j, w) \<in> set (dset k v d) \<Longrightarrow> (j, w) = (k, v) \<or> (j, w) \<in> set d"
  by (induction d) (auto split: if_splits)

lemma set_ddel: "(j, w) \<in> set (ddel k d) \<Longrightarrow> (j, w) \<in> set d \<and> j \<noteq> k"
  by (induction d) (auto split: if_splits)

lemma revalue_Inr:
  "revalue L = Inr L' \<longleftrightarrow> (\<exists>e p d. valuation (lg_market_prices L) L = Inr (e, p, d) \<and>
     L' = L\<lparr>lg_equity := e, lg_peak_equity := p, lg_drawdown := d\<rparr>)"
  by (auto simp: revalue_def rbind_eq_Inr)

lemma ledger_ok_alt:
  "ledger_ok L \<longleftrightarrow> positions_ok L \<and> finite (lg_fill_ids L) \<and>
     0 \<le> lg_fees L \<and> lg_starting_cash L \<le> lg_peak_equity L \<and>
     valuation (lg_market_prices L) L = Inr (lg_equity L, lg_peak_equity L, lg_drawdown L)"
  by (auto simp: ledger_ok_def positions_ok_def dest: valuation_Inr)

section \<open>Fills keep the ledger well formed\<close>

definition fill_valid :: "fill \<Rightarrow> ledger \<Rightarrow> bool" where
  "fill_valid f L \<longleftrightarrow> 0 < fl_quantity f \<and> 0 < fl_price f \<and> 0 \<le> fl_fee f \<and>
     fl_fill_id f \<notin> lg_fill_ids L \<and>
     (fl_side f = SELL \<longrightarrow> (\<exists>p. dget (lg_positions L) (fl_instrument_id f) = Some p \<and>
        fl_quantity f \<le> pst_quantity p))"

text \<open>The state between the booking of a valid fill and its revaluation.\<close>

definition booked :: "fill \<Rightarrow> ledger \<Rightarrow> ledger" where
  "booked f L = (let notional = dmul (fl_quantity f) (fl_price f);
     L1 = (case fl_side f of BUY \<Rightarrow> apply_buy (fl_instrument_id f) (fl_quantity f) notional (fl_fee f) L
       | SELL \<Rightarrow> apply_sell (fl_instrument_id f) (the (dget (lg_positions L) (fl_instrument_id f)))
           (fl_quantity f) (fl_price f) notional (fl_fee f) L)
     in L1\<lparr>lg_fill_ids := insert (fl_fill_id f) (lg_fill_ids L1),
           lg_market_prices := dset (fl_instrument_id f) (fl_price f) (lg_market_prices L1)\<rparr>)"

lemma apply_fill_valid: "fill_valid f L \<Longrightarrow> apply_fill f L = revalue (booked f L)"
  by (cases "fl_side f") (auto simp: fill_valid_def apply_fill_def booked_def Let_def
      require_positive_decimal_def require_nonnegative_decimal_def split: option.splits)

lemma apply_fill_Inr_valid:
  assumes "apply_fill f L = Inr L'"
  shows "fill_valid f L"
  using assms unfolding apply_fill_def fill_valid_def
  by (cases "fl_side f"; cases "dget (lg_positions L) (fl_instrument_id f)")
     (auto simp: result_simps Let_def split: if_splits)

lemma positions_ok_booked:
  assumes "positions_ok L" "fill_valid f L"
  shows "positions_ok (booked f L)"
proof (cases "fl_side f")
  case BUY
  have new: "0 < pst_quantity q \<and> 0 < pst_average_price q"
    if "q = \<lparr>pst_quantity = dadd (pst_quantity p) (fl_quantity f), pst_average_price =
        ddiv (dadd (dmul (pst_quantity p) (pst_average_price p)) n) (dadd (pst_quantity p) (fl_quantity f))\<rparr>"
      "dget (lg_positions L) i = Some p" "0 < n" for p q n i
    using that assms positions_ok_dget [OF assms(1) that(2)]
    by (simp add: fill_valid_def dadd_pos dadd_nonneg)
  have n: "0 < dmul (fl_quantity f) (fl_price f)" "0 < ddiv (dmul (fl_quantity f) (fl_price f)) (fl_quantity f)"
    using assms(2) by (simp_all add: fill_valid_def)
  show ?thesis
    using assms n new [OF refl _ n(1)]
    by (auto simp: positions_ok_def booked_def BUY apply_buy_def Let_def fill_valid_def
        split: option.splits dest!: set_dset_cases)
next
  case SELL
  then obtain p where p: "dget (lg_positions L) (fl_instrument_id f) = Some p"
      "fl_quantity f \<le> pst_quantity p"
    using assms(2) by (auto simp: fill_valid_def)
  show ?thesis
    using assms p positions_ok_dget [OF assms(1) p(1)]
    by (auto simp: positions_ok_def booked_def SELL apply_sell_def Let_def fill_valid_def
        split: if_splits dest!: set_dset_cases set_ddel)
qed

lemma booked_fields:
  "lg_fill_ids (booked f L) = insert (fl_fill_id f) (lg_fill_ids L)"
  "lg_fees (booked f L) = dadd (lg_fees L) (fl_fee f)"
  "lg_starting_cash (booked f L) = lg_starting_cash L"
  "lg_currency (booked f L) = lg_currency L"
  "lg_peak_equity (booked f L) = lg_peak_equity L"
  "lg_market_prices (booked f L) = dset (fl_instrument_id f) (fl_price f) (lg_market_prices L)"
  by (cases "fl_side f"; simp add: booked_def apply_buy_def apply_sell_def Let_def)+

lemma revalue_total:
  assumes "positions_ok L"
  shows "\<exists>L'. revalue L = Inr L'"
proof -
  have "set (dkeys (lg_positions L)) \<subseteq> set (dkeys (lg_market_prices L))"
    using assms by (auto simp: positions_ok_def)
  then obtain e p d where "valuation (lg_market_prices L) L = Inr (e, p, d)"
    using valuation_total by (metis prod_cases3)
  then show ?thesis
    by (simp add: revalue_def)
qed

lemma apply_fill_ok_iff:
  assumes "positions_ok L"
  shows "is_ok (apply_fill f L) \<longleftrightarrow> fill_valid f L"
  using assms apply_fill_valid revalue_total positions_ok_booked apply_fill_Inr_valid
  by (metis is_ok_iff)

lemma apply_fill_InrD:
  assumes "apply_fill f L = Inr L'"
  shows "fill_valid f L \<and> (\<exists>e p d. valuation (lg_market_prices (booked f L)) (booked f L) = Inr (e, p, d) \<and>
     L' = (booked f L)\<lparr>lg_equity := e, lg_peak_equity := p, lg_drawdown := d\<rparr>)"
  using assms apply_fill_Inr_valid [OF assms] by (simp add: apply_fill_valid revalue_Inr)

lemma revalued_ok:
  assumes "positions_ok M" "finite (lg_fill_ids M)" "0 \<le> lg_fees M"
    and "lg_starting_cash M \<le> lg_peak_equity M"
    and "valuation (lg_market_prices M) M = Inr (e, p, d)"
  shows "ledger_ok (M\<lparr>lg_equity := e, lg_peak_equity := p, lg_drawdown := d\<rparr>)"
proof -
  have "p = max (lg_peak_equity M) e"
    using valuation_Inr [OF assms(5)] by simp
  moreover have "valuation (lg_market_prices M)
      (M\<lparr>lg_market_prices := lg_market_prices M, lg_equity := e, lg_peak_equity := p, lg_drawdown := d\<rparr>)
      = Inr (e, p, d)"
    by (rule valuation_stable) (rule assms(5))
  ultimately show ?thesis
    using assms(1-4) by (simp add: ledger_ok_alt positions_ok_def)
qed

lemma apply_fill_ok:
  assumes "ledger_ok L" "apply_fill f L = Inr L'"
  shows "ledger_ok L'"
proof -
  from apply_fill_InrD [OF assms(2)] obtain e p d where v: "fill_valid f L"
    and val: "valuation (lg_market_prices (booked f L)) (booked f L) = Inr (e, p, d)"
    and L': "L' = (booked f L)\<lparr>lg_equity := e, lg_peak_equity := p, lg_drawdown := d\<rparr>"
    by blast
  have pos: "positions_ok (booked f L)"
    using assms(1) v positions_ok_booked by (auto simp: ledger_ok_alt)
  show ?thesis
    unfolding L' using assms(1) v
    by (intro revalued_ok [OF pos _ _ _ val])
       (auto simp: ledger_ok_alt booked_fields fill_valid_def)
qed

section \<open>Marks keep the ledger well formed\<close>

lemma dict_ok_union [simp]: "dict_ok d \<Longrightarrow> dict_ok (dict_union d e)"
  unfolding dict_union_def by (induction e arbitrary: d) auto

lemma image_union [simp]: "fst ` set (dict_union d e) = fst ` set d \<union> fst ` set e"
  unfolding dict_union_def
proof (induction e arbitrary: d)
  case (Cons x e)
  show ?case
    by (cases x) (simp add: Cons.IH)
qed simp

lemma dict_union_set: "(j, w) \<in> set (dict_union d e) \<Longrightarrow> (j, w) \<in> set d \<or> (j, w) \<in> set e"
  unfolding dict_union_def
proof (induction e arbitrary: d)
  case (Cons x e)
  obtain k v where x: "x = (k, v)"
    by (metis surj_pair)
  from Cons.prems have "(j, w) \<in> set (foldl (\<lambda>a (k, v). dset k v a) (dset k v d) e)"
    by (simp add: x)
  from Cons.IH [OF this] show ?case
    by (auto simp: x dest: set_dset_cases)
qed simp

definition prices_valid :: "(string, dec) dict \<Rightarrow> bool" where
  "prices_valid prices \<longleftrightarrow> (\<forall>(i, v) \<in> set prices. 0 < v)"

lemma validate_prices:
  "traverse (\<lambda>(i, v). rbind (require_positive_decimal ''price'' v) (\<lambda>w. Inr (i, w))) prices = Inr vs
     \<longleftrightarrow> prices_valid prices \<and> vs = prices"
  by (induction prices arbitrary: vs) (auto simp: prices_valid_def result_simps)

lemma filter_missing: "filter (\<lambda>i. i \<notin> set ks) xs = [] \<longleftrightarrow> set xs \<subseteq> set ks"
  by (auto simp: filter_empty_conv)

lemma snapshot_at_total:
  assumes "positions_ok L"
  shows "\<exists>s. snapshot_at t L = Inr s"
proof -
  have "\<forall>(i, p) \<in> set (sorted_items (lg_positions L)). \<exists>m. dget (lg_market_prices L) i = Some m"
    using assms by (fastforce simp: positions_ok_def dest: weak_map_of_SomeI)
  then have "\<exists>ps. traverse (\<lambda>(i, p). case dget (lg_market_prices L) i of
         None \<Rightarrow> Inl (KeyError i)
       | Some m \<Rightarrow> Inr \<lparr>pos_instrument_id = i, pos_quantity = pst_quantity p,
           pos_average_price = pst_average_price p, pos_market_price = m,
           pos_unrealized_pnl = dmul (dsub m (pst_average_price p)) (pst_quantity p)\<rparr>)
       (sorted_items (lg_positions L)) = Inr ps"
    by (intro traverse_total) fastforce
  then show ?thesis
    by (auto simp: snapshot_at_def)
qed

text \<open>The outcome of a mark that is not rejected.\<close>

lemma mark_InrD:
  assumes "mark prices tm L = Inr (s, L')"
  shows "prices_valid prices \<and> set (dkeys (lg_positions L)) \<subseteq> set (dkeys prices) \<and>
     (\<exists>t e p d. tm = Aware t \<and> snapshot_at t L' = Inr s \<and>
       valuation (dict_union (lg_market_prices L) prices) L = Inr (e, p, d) \<and>
       L' = L\<lparr>lg_market_prices := dict_union (lg_market_prices L) prices, lg_equity := e,
              lg_peak_equity := p, lg_drawdown := d\<rparr>)"
proof (cases "filter (\<lambda>i. i \<notin> fst ` set prices) (dkeys (lg_positions L))")
  case Nil
  then have "set (dkeys (lg_positions L)) \<subseteq> set (dkeys prices)"
    using filter_missing [of "dkeys prices" "dkeys (lg_positions L)"] by simp
  with assms Nil show ?thesis
    unfolding mark_def normalize_aware_datetime_def
    by (auto simp: result_simps validate_prices Let_def)
next
  case (Cons i rest)
  with assms show ?thesis
    unfolding mark_def normalize_aware_datetime_def
    by (auto simp: result_simps validate_prices Let_def)
qed

lemma positions_ok_marked:
  assumes "positions_ok L" "prices_valid prices" "set (dkeys (lg_positions L)) \<subseteq> set (dkeys prices)"
  shows "positions_ok (L\<lparr>lg_market_prices := dict_union (lg_market_prices L) prices, lg_equity := e,
      lg_peak_equity := p, lg_drawdown := d\<rparr>)"
  using assms by (auto simp: positions_ok_def prices_valid_def dest!: dict_union_set)

lemma mark_ok:
  assumes "ledger_ok L" "mark prices tm L = Inr (s, L')"
  shows "ledger_ok L'"
proof -
  let ?m = "dict_union (lg_market_prices L) prices"
  from mark_InrD [OF assms(2)] obtain e p d where pv: "prices_valid prices"
    "set (dkeys (lg_positions L)) \<subseteq> set (dkeys prices)"
    and val: "valuation ?m L = Inr (e, p, d)"
    and L': "L' = L\<lparr>lg_market_prices := ?m, lg_equity := e, lg_peak_equity := p, lg_drawdown := d\<rparr>"
    by blast
  have "positions_ok L"
    using assms(1) by (simp add: ledger_ok_alt)
  then have "positions_ok L'"
    unfolding L' by (rule positions_ok_marked [OF _ pv])
  moreover have "valuation ?m L' = Inr (e, p, d)"
    unfolding L' by (rule valuation_stable) (rule val)
  ultimately show ?thesis
    using assms(1) valuation_Inr [OF val] by (auto simp: ledger_ok_alt L')
qed

lemma mark_total:
  assumes "positions_ok L" "prices_valid prices" "set (dkeys (lg_positions L)) \<subseteq> set (dkeys prices)"
  shows "\<exists>r. mark prices (Aware t) L = Inr r"
proof -
  let ?m = "dict_union (lg_market_prices L) prices"
  have "set (dkeys (lg_positions L)) \<subseteq> set (dkeys ?m)"
    using assms(3) by auto
  then obtain e p d where val: "valuation ?m L = Inr (e, p, d)"
    using valuation_total by (metis prod_cases3)
  obtain s where "snapshot_at t (L\<lparr>lg_market_prices := ?m, lg_equity := e, lg_peak_equity := p,
      lg_drawdown := d\<rparr>) = Inr s"
    using snapshot_at_total positions_ok_marked [OF assms] by blast
  moreover have "filter (\<lambda>i. i \<notin> set (dkeys prices)) (dkeys (lg_positions L)) = []"
    using assms(3) by (simp only: filter_missing)
  moreover have "traverse (\<lambda>(i, v). rbind (require_positive_decimal ''price'' v) (\<lambda>w. Inr (i, w))) prices
      = Inr prices"
    using validate_prices assms(2) by blast
  ultimately show ?thesis
    using val by (simp add: mark_def normalize_aware_datetime_def Let_def)
qed

section \<open>Sequences of operations\<close>

datatype ledger_op = Fill fill | Mark "(string, dec) dict" pydt

fun ledger_step :: "ledger_op \<Rightarrow> ledger \<Rightarrow> ledger result" where
  "ledger_step (Fill f) L = apply_fill f L"
| "ledger_step (Mark prices tm) L = rbind (mark prices tm L) (\<lambda>(s, L'). Inr L')"

fun op_fill_ids :: "ledger_op \<Rightarrow> string list" where
  "op_fill_ids (Fill f) = [fl_fill_id f]"
| "op_fill_ids (Mark prices tm) = []"

text \<open>
  The contract a client of an account relies on: every accepted operation keeps the invariant
  and records exactly its identifiers, which were not recorded before.  Whatever the client
  replays in sequence is then free of duplicates.
\<close>

locale once_account =
  fixes step :: "'op \<Rightarrow> 's \<Rightarrow> 's result"
    and inv :: "'s \<Rightarrow> bool"
    and seen :: "'s \<Rightarrow> 'i set"
    and op_ids :: "'op \<Rightarrow> 'i list"
  assumes step_inv: "inv s \<Longrightarrow> step x s = Inr s' \<Longrightarrow> inv s'"
    and step_seen: "step x s = Inr s' \<Longrightarrow> seen s' = seen s \<union> set (op_ids x)"
    and step_fresh: "step x s = Inr s' \<Longrightarrow> distinct (op_ids x) \<and> set (op_ids x) \<inter> seen s = {}"
begin

lemma run_inv: "inv s \<Longrightarrow> fold_result step xs s = Inr s' \<Longrightarrow> inv s'"
  using step_inv by (rule fold_result_inv [where P = inv]) blast+

lemma run_ids:
  "fold_result step xs s = Inr s' \<Longrightarrow>
     seen s' = seen s \<union> set (concat (map op_ids xs)) \<and> distinct (concat (map op_ids xs)) \<and>
     set (concat (map op_ids xs)) \<inter> seen s = {}"
proof (induction xs arbitrary: s)
  case (Cons x xs)
  then obtain s1 where one: "step x s = Inr s1" and rest: "fold_result step xs s1 = Inr s'"
    by (auto simp: rbind_eq_Inr)
  have "seen s1 = seen s \<union> set (op_ids x)" "distinct (op_ids x) \<and> set (op_ids x) \<inter> seen s = {}"
    using step_seen [OF one] step_fresh [OF one] by simp_all
  with Cons.IH [OF rest] show ?case
    by auto
qed simp

end

lemma ledger_step_seen:
  "ledger_step x L = Inr L' \<Longrightarrow> lg_fill_ids L' = lg_fill_ids L \<union> set (op_fill_ids x)"
  by (cases x) (auto simp: rbind_eq_Inr booked_fields dest!: apply_fill_InrD mark_InrD)

lemma ledger_step_ok: "ledger_ok L \<Longrightarrow> ledger_step x L = Inr L' \<Longrightarrow> ledger_ok L'"
  by (cases x) (auto simp: rbind_eq_Inr intro: apply_fill_ok mark_ok)

interpretation lg: once_account ledger_step ledger_ok lg_fill_ids op_fill_ids
proof (standard, goal_cases)
  case (3 x L L')
  then show ?case
    by (cases x) (auto simp: fill_valid_def dest!: apply_fill_InrD)
qed (auto intro: ledger_step_ok ledger_step_seen simp: ledger_step_seen)

lemma ledger_step_identity:
  "ledger_step x L = Inr L' \<Longrightarrow> lg_starting_cash L' = lg_starting_cash L \<and> lg_currency L' = lg_currency L"
  by (cases x) (auto simp: rbind_eq_Inr booked_fields dest!: apply_fill_InrD mark_InrD)

lemma run_identity:
  "fold_result ledger_step xs L = Inr L' \<Longrightarrow>
     lg_starting_cash L' = lg_starting_cash L \<and> lg_currency L' = lg_currency L"
  using fold_result_inv [where P = "\<lambda>M. lg_starting_cash M = lg_starting_cash L \<and>
      lg_currency M = lg_currency L" and f = ledger_step and xs = xs and s = L and s' = L']
    ledger_step_identity by auto

section \<open>Rollback and recovery\<close>

text \<open>A ledger with its dicts in key order: what a recovery snapshot can restore.\<close>

definition canonical_ledger :: "ledger \<Rightarrow> ledger" where
  "canonical_ledger L = L\<lparr>lg_positions := sorted_items (lg_positions L),
     lg_market_prices := sorted_items (lg_market_prices L)\<rparr>"

lemma remove_fills_all:
  "distinct js \<Longrightarrow> set js \<subseteq> ids \<Longrightarrow> remove_fills js ids = (None, ids - set js)"
proof (induction js arbitrary: ids)
  case (Cons j js)
  then have "set js \<subseteq> ids - {j}" "j \<in> ids" "distinct js"
    by auto
  moreover have "ids - {j} - set js = ids - set (j # js)"
    by auto
  ultimately show ?case
    using Cons.IH [of "ids - {j}"] by simp
qed simp

lemma dict_ok_sorted: "dict_ok d \<Longrightarrow> distinct (map fst (sorted_items d))"
  using dict_ok_sorted_items [of d] by (simp add: dict_ok_def)

lemma position_state_eta [simp]:
  "\<lparr>pst_quantity = pst_quantity p, pst_average_price = pst_average_price p\<rparr> = p"
  by (cases p) simp

lemma import_export_positions:
  assumes "dict_ok (lg_positions L)"
  shows "import_positions (export_positions L) = sorted_items (lg_positions L)"
proof -
  have "import_positions (export_positions L) =
      foldl (\<lambda>d (i, p). dset i p d) [] (sorted_items (lg_positions L))"
    unfolding import_positions_def export_positions_def foldl_map
    by (intro foldl_cong) (auto simp: case_prod_beta)
  with assms show ?thesis
    using rebuild_dict [of "[]" "sorted_items (lg_positions L)"] by (simp add: dict_ok_sorted)
qed

lemma import_prices_sorted: "dict_ok d \<Longrightarrow> import_prices (sorted_items d) = sorted_items d"
  using rebuild_dict [of "[]" "sorted_items d"] by (simp add: import_prices_def dict_ok_sorted)

lemma restore_compact:
  assumes ok: "ledger_ok L" and run: "fold_result ledger_step ops L = Inr L'"
  shows "restore_compact_state (compact_state L) (concat (map op_fill_ids ops)) L' =
     (None, canonical_ledger L)"
proof -
  let ?ids = "concat (map op_fill_ids ops)"
  from lg.run_ids [OF run] have ids: "lg_fill_ids L' = lg_fill_ids L \<union> set ?ids" "distinct ?ids"
      "set ?ids \<inter> lg_fill_ids L = {}"
    by simp_all
  then have "remove_fills ?ids (lg_fill_ids L') = (None, lg_fill_ids L)"
    using remove_fills_all [of ?ids "lg_fill_ids L'"] by (auto simp: Diff_triv Un_Diff)
  moreover have "dict_ok (lg_positions L)" "dict_ok (lg_market_prices L)"
    using ok by (auto simp: ledger_ok_def)
  ultimately show ?thesis
    using run_identity [OF run]
    by (simp add: restore_compact_state_def compact_state_def canonical_ledger_def
        import_export_positions import_prices_sorted)
qed

lemma sorted_items_idem [simp]: "dict_ok d \<Longrightarrow> sorted_items (sorted_items d) = sorted_items d"
  unfolding sorted_items_def by (rule properties_for_sort_key) simp_all

lemma export_canonical:
  "dict_ok (lg_positions L) \<Longrightarrow> dict_ok (lg_market_prices L) \<Longrightarrow>
     export_state (canonical_ledger L) = export_state L"
  by (simp add: export_state_def canonical_ledger_def export_positions_def)

lemma load_positions_export:
  assumes "distinct (dkeys d @ map fst xs)" "\<forall>(i, p) \<in> set xs. i \<noteq> [] \<and> 0 < pst_quantity p \<and> 0 < pst_average_price p"
  shows "load_positions (map (\<lambda>(i, p). \<lparr>lp_instrument_id = i, lp_quantity = pst_quantity p,
     lp_average_price = pst_average_price p\<rparr>) xs) d = Some (d @ xs)"
  using assms
proof (induction xs arbitrary: d)
  case (Cons x xs)
  obtain k v where x: "x = (k, v)"
    by (metis surj_pair)
  with Cons.prems have up: "dset k v d = d @ [(k, v)]" and "k \<notin> set (dkeys d)" and "k \<noteq> []"
    and "0 < pst_quantity v" "0 < pst_average_price v" and "distinct (dkeys (d @ [(k, v)]) @ map fst xs)"
    by (simp_all add: update_absent)
  moreover from this Cons have "load_positions (map (\<lambda>(i, p). \<lparr>lp_instrument_id = i, lp_quantity = pst_quantity p,
     lp_average_price = pst_average_price p\<rparr>) xs) (d @ [(k, v)]) = Some ((d @ [(k, v)]) @ xs)"
    by simp
  ultimately show ?case
    by (simp add: x not_le)
qed simp

lemma load_prices_export:
  assumes "distinct (dkeys d @ map fst xs)" "\<forall>(i, v) \<in> set xs. i \<noteq> [] \<and> 0 < v"
  shows "load_prices xs d = Some (d @ xs)"
  using assms
proof (induction xs arbitrary: d)
  case (Cons x xs)
  obtain k v where x: "x = (k, v)"
    by (metis surj_pair)
  with Cons.prems have up: "dset k v d = d @ [(k, v)]" and "k \<notin> set (dkeys d)" and "k \<noteq> []"
    and "0 < v" and "distinct (dkeys (d @ [(k, v)]) @ map fst xs)"
    by (simp_all add: update_absent)
  moreover from this Cons have "load_prices xs (d @ [(k, v)]) = Some ((d @ [(k, v)]) @ xs)"
    by simp
  ultimately show ?case
    by (simp add: x not_le)
qed simp

text \<open>A full export is accepted back exactly when re-adding the market values in key order gives
  the recorded equity.\<close>

definition named_ok :: "ledger \<Rightarrow> bool" where
  "named_ok L \<longleftrightarrow> 0 < lg_starting_cash L \<and> lg_currency L \<noteq> [] \<and>
     lg_currency L = strip (lg_currency L) \<and> [] \<notin> lg_fill_ids L \<and>
     [] \<notin> set (dkeys (lg_positions L)) \<and> [] \<notin> set (dkeys (lg_market_prices L))"

lemma from_state_export:
  assumes ok: "ledger_ok L" and nm: "named_ok L"
    and vals: "position_values (sorted_items (lg_market_prices L)) (sorted_items (lg_positions L)) = Inr vs"
  shows "from_state (export_state L) =
     (if dadd (lg_cash L) (dsum vs) = lg_equity L then Inr (canonical_ledger L)
      else Inl (ValueError ''invalid portfolio ledger state''))"
proof -
  from ok have d: "dict_ok (lg_positions L)" "dict_ok (lg_market_prices L)" and fin: "finite (lg_fill_ids L)"
    by (auto simp: ledger_ok_def)
  have pos: "\<forall>(i, p) \<in> set (sorted_items (lg_positions L)). i \<noteq> [] \<and> 0 < pst_quantity p \<and> 0 < pst_average_price p"
    using ok nm by (force simp: ledger_ok_def named_ok_def)
  have pr: "\<forall>(i, v) \<in> set (sorted_items (lg_market_prices L)). i \<noteq> [] \<and> 0 < v"
    using ok nm by (force simp: ledger_ok_def named_ok_def)
  have lp: "load_positions (export_positions L) [] = Some (sorted_items (lg_positions L))"
    unfolding export_positions_def
    using load_positions_export [of "[]" "sorted_items (lg_positions L)"] pos d by (simp add: dict_ok_sorted)
  have lr: "load_prices (sorted_items (lg_market_prices L)) [] = Some (sorted_items (lg_market_prices L))"
    using load_prices_export [of "[]" "sorted_items (lg_market_prices L)"] pr d by (simp add: dict_ok_sorted)
  have sub: "fst ` set (lg_positions L) \<subseteq> fst ` set (lg_market_prices L)"
    using ok by (auto simp: ledger_ok_def)
  have dd: "0 \<le> drawdown_of (lg_peak_equity L) (lg_equity L)"
    using ok by (auto simp: ledger_ok_def intro: drawdown_of_nonneg)
  have st: "ls_positions (export_state L) = export_positions L"
    "ls_market_prices (export_state L) = sorted_items (lg_market_prices L)"
    "ls_fill_ids (export_state L) = sorted_list_of_set (lg_fill_ids L)"
    by (simp_all add: export_state_def)
  show ?thesis
    unfolding from_state_def st lp lr vals Let_def option.case sum.case
    using ok nm fin sub dd
    by (auto simp: ledger_ok_def named_ok_def export_state_def canonical_ledger_def)
qed

section \<open>The accounting identity under exact arithmetic\<close>

definition book_value :: "ledger \<Rightarrow> dec" where
  "book_value L = lg_cash L + dict_sum (\<lambda>p. pst_quantity p * pst_average_price p) (lg_positions L)"

definition balanced :: "ledger \<Rightarrow> bool" where
  "balanced L \<longleftrightarrow> book_value L = lg_starting_cash L + lg_gross_realized_pnl L - lg_fees L"

text \<open>The values a fill computes, before rounding.\<close>

definition fill_values :: "fill \<Rightarrow> ledger \<Rightarrow> rat list" where
  "fill_values f L = (let q = fl_quantity f; n = q * fl_price f; fee = fl_fee f in
     [n, fl_price f, lg_fees L + fee] @
     (case (fl_side f, dget (lg_positions L) (fl_instrument_id f)) of
       (BUY, None) \<Rightarrow> [n + fee, lg_cash L - (n + fee)]
     | (BUY, Some p) \<Rightarrow> (let basis = pst_quantity p * pst_average_price p; total = pst_quantity p + q in
         [n + fee, lg_cash L - (n + fee), basis, basis + n, total, (basis + n) / total])
     | (SELL, None) \<Rightarrow> []
     | (SELL, Some p) \<Rightarrow> (let gain = fl_price f - pst_average_price p in
         [n - fee, lg_cash L + (n - fee), gain, gain * q, lg_gross_realized_pnl L + gain * q,
          pst_quantity p - q])))"

definition fill_exact :: "fill \<Rightarrow> ledger \<Rightarrow> bool" where
  "fill_exact f L \<longleftrightarrow> list_all representable (fill_values f L)"

lemma booked_balanced:
  assumes "positions_ok L" "fill_valid f L" "fill_exact f L" "balanced L"
  shows "balanced (booked f L)"
proof (cases "fl_side f")
  case BUY
  have q: "0 < fl_quantity f"
    using assms(2) by (simp add: fill_valid_def)
  show ?thesis
  proof (cases "dget (lg_positions L) (fl_instrument_id f)")
    case None
    with BUY assms(3,4) q show ?thesis
      by (simp add: balanced_def book_value_def booked_def apply_buy_def Let_def dict_sum_dset
          fill_exact_def fill_values_def representable_def dec_ops)
  next
    case (Some p)
    then have "0 < pst_quantity p + fl_quantity f"
      using q positions_ok_dget [OF assms(1) Some] by simp
    then have "pst_quantity p + fl_quantity f \<noteq> 0"
      by simp
    with BUY Some assms(3,4) show ?thesis
      by (simp add: balanced_def book_value_def booked_def apply_buy_def Let_def dict_sum_dset
          fill_exact_def fill_values_def representable_def dec_ops)
  qed
next
  case SELL
  then obtain p where p: "dget (lg_positions L) (fl_instrument_id f) = Some p"
    using assms(2) by (auto simp: fill_valid_def)
  have d: "distinct (map fst (lg_positions L))"
    using assms(1) by (simp add: positions_ok_def dict_ok_def)
  let ?q = "fl_quantity f" and ?pr = "fl_price f" and ?fee = "fl_fee f" and ?avg = "pst_average_price p"
  have e: "dmul ?q ?pr = ?q * ?pr" "dsub (?q * ?pr) ?fee = ?q * ?pr - ?fee"
    "dadd (lg_cash L) (?q * ?pr - ?fee) = lg_cash L + (?q * ?pr - ?fee)"
    "dsub ?pr ?avg = ?pr - ?avg" "dmul (?pr - ?avg) ?q = (?pr - ?avg) * ?q"
    "dadd (lg_gross_realized_pnl L) ((?pr - ?avg) * ?q) = lg_gross_realized_pnl L + (?pr - ?avg) * ?q"
    "dadd (lg_fees L) ?fee = lg_fees L + ?fee" "dsub (pst_quantity p) ?q = pst_quantity p - ?q"
    using assms(3) SELL p
    by (simp_all add: fill_exact_def fill_values_def representable_def dec_ops Let_def)
  show ?thesis
  proof (cases "pst_quantity p = ?q")
    case True
    then have "lg_positions (booked f L) = ddel (fl_instrument_id f) (lg_positions L)"
      using SELL p e by (simp add: booked_def apply_sell_def Let_def)
    with SELL p assms(4) d e True show ?thesis
      by (simp add: balanced_def book_value_def dict_sum_ddel booked_def apply_sell_def Let_def)
         (simp add: algebra_simps)
  next
    case False
    then have "lg_positions (booked f L) = dset (fl_instrument_id f)
        (p\<lparr>pst_quantity := pst_quantity p - ?q\<rparr>) (lg_positions L)"
      using SELL p e by (simp add: booked_def apply_sell_def Let_def)
    with SELL p assms(4) e False show ?thesis
      by (simp add: balanced_def book_value_def dict_sum_dset booked_def apply_sell_def Let_def)
         (simp add: algebra_simps)
  qed
qed

section \<open>What the reconciliation hash commits to\<close>

definition hash_exact :: "ledger \<Rightarrow> bool" where
  "hash_exact L \<longleftrightarrow> (\<forall>v \<in> {lg_cash L, lg_equity L} \<union> pst_quantity ` snd ` set (lg_positions L)
     \<union> pst_average_price ` snd ` set (lg_positions L). representable v \<and> decimal_places_ok v)"

lemma ledger_decimal_text_inj:
  assumes "representable x \<and> decimal_places_ok x" "representable y \<and> decimal_places_ok y"
    and "ledger_decimal_text x = ledger_decimal_text y"
  shows "x = y"
proof -
  have "ledger_decimal_text v = dec_text v" if "representable v" for v
    using that dec_text_0 by (simp add: ledger_decimal_text_def representable_def)
  with assms show ?thesis
    using dec_text_inj [of x y] by simp
qed

lemma payload_keys_sorted: "sorted (map fst [(''cash'', a), (''equity'', b), (''positions'', c)])"
  by code_simp

definition payload_row :: "string \<times> position_state \<Rightarrow> json" where
  "payload_row x = JList [JStr (fst x), JStr (ledger_decimal_text (pst_quantity (snd x))),
     JStr (ledger_decimal_text (pst_average_price (snd x)))]"

lemma position_payload_rows:
  "position_payload L = JObj [(''cash'', JStr (ledger_decimal_text (lg_cash L))),
     (''equity'', JStr (ledger_decimal_text (lg_equity L))),
     (''positions'', JList (map payload_row (sorted_items (lg_positions L))))]"
  by (simp add: position_payload_def payload_row_def case_prod_beta)

lemma payload_row_simps [simp]: "floatless (payload_row x)" "sort_members (payload_row x) = payload_row x"
  by (simp_all add: payload_row_def)

lemma position_payload_canonical:
  "floatless (position_payload L)" "sort_members (position_payload L) = position_payload L"
proof -
  show "floatless (position_payload L)"
    by (simp add: position_payload_rows list_all_iff)
  have "map sort_members (map payload_row xs) = map payload_row xs" for xs
    by (simp add: comp_def)
  then show "sort_members (position_payload L) = position_payload L"
    using sort_key_sorted [OF payload_keys_sorted] by (simp add: position_payload_rows del: map_map)
qed

lemma payload_row_inj:
  assumes "\<forall>v \<in> {pst_quantity (snd x), pst_average_price (snd x), pst_quantity (snd y),
      pst_average_price (snd y)}. representable v \<and> decimal_places_ok v"
    and "payload_row x = payload_row y"
  shows "x = y"
proof -
  from assms have "fst x = fst y" "pst_quantity (snd x) = pst_quantity (snd y)"
    "pst_average_price (snd x) = pst_average_price (snd y)"
    by (auto simp: payload_row_def intro: ledger_decimal_text_inj)
  then show ?thesis
    by (metis position_state_eta prod.collapse)
qed

lemma map_cancel:
  assumes "map f xs = map f ys" "\<And>x y. x \<in> set xs \<Longrightarrow> y \<in> set ys \<Longrightarrow> f x = f y \<Longrightarrow> x = y"
  shows "xs = ys"
  using assms
proof (induction xs arbitrary: ys)
  case (Cons x xs)
  then obtain y ys' where "ys = y # ys'"
    by (cases ys) auto
  with Cons show ?case
    by simp
qed simp

lemma position_payload_determines:
  assumes "hash_exact L" "hash_exact M" and eq: "dumps (position_payload L) = dumps (position_payload M)"
  shows "lg_cash L = lg_cash M \<and> lg_equity L = lg_equity M \<and>
     sorted_items (lg_positions L) = sorted_items (lg_positions M)"
proof -
  let ?t = "ledger_decimal_text" and ?a = "sorted_items (lg_positions L)" and ?b = "sorted_items (lg_positions M)"
  from eq have "position_payload L = position_payload M"
    by (simp only: dumps_cancel position_payload_canonical)
  then have t: "?t (lg_cash L) = ?t (lg_cash M)" "?t (lg_equity L) = ?t (lg_equity M)"
      and rows: "map payload_row ?a = map payload_row ?b"
    unfolding position_payload_rows by simp_all
  have "?a = ?b"
  proof (rule map_cancel [OF rows])
    fix x y assume "x \<in> set ?a" "y \<in> set ?b" and e: "payload_row x = payload_row y"
    then have "x \<in> set (lg_positions L)" "y \<in> set (lg_positions M)"
      by simp_all
    with assms(1,2) e show "x = y"
      by (intro payload_row_inj) (auto simp: hash_exact_def)
  qed
  moreover have "lg_cash L = lg_cash M" "lg_equity L = lg_equity M"
    using t assms(1,2) by (auto simp: hash_exact_def intro: ledger_decimal_text_inj)
  ultimately show ?thesis
    by simp
qed

section \<open>A concrete account\<close>

definition demo_fill :: "string \<Rightarrow> side \<Rightarrow> dec \<Rightarrow> dec \<Rightarrow> fill" where
  "demo_fill i sd q p = \<lparr>fl_fill_id = i, fl_order_id = ''o-1'', fl_instrument_id = ''A'', fl_side = sd,
     fl_quantity = q, fl_price = p, fl_fee = 1 / 10, fl_filled_at = 0\<rparr>"

definition demo_ops :: "ledger_op list" where
  "demo_ops = [Fill (demo_fill ''f-1'' BUY 2 10), Mark [(''A'', 12)] (Aware 5),
     Fill (demo_fill ''f-2'' SELL 1 11)]"

definition demo_ledger :: ledger where
  "demo_ledger = \<lparr>lg_starting_cash = 1000, lg_currency = ''USD'', lg_cash = 9908 / 10,
     lg_positions = [(''A'', \<lparr>pst_quantity = 1, pst_average_price = 10\<rparr>)],
     lg_market_prices = [(''A'', 11)], lg_fill_ids = {''f-1'', ''f-2''},
     lg_gross_realized_pnl = 1, lg_fees = 2 / 10, lg_equity = 10018 / 10,
     lg_peak_equity = 10039 / 10, lg_drawdown = drawdown_of (10039 / 10) (10018 / 10)\<rparr>"

lemma demo_ledger_run: "fold_result ledger_step demo_ops (ledger_init 1000 ''USD'') = Inr demo_ledger"
  by code_simp

lemma representable_demo: "representable 1000"
  by code_simp

lemma demo_ledger_ok: "ledger_ok demo_ledger"
  using lg.run_inv ledger_ok_init [OF representable_demo] demo_ledger_run by blast

text \<open>What the revaluation at the end of a fill records.\<close>

lemma applied_fill_equity:
  assumes "apply_fill f L = Inr L'"
  shows "(\<exists>values. position_values (lg_market_prices L') (lg_positions L') = Inr values \<and>
       lg_equity L' = dadd (lg_cash L') (dsum values)) \<and>
     lg_peak_equity L' = max (lg_peak_equity L) (lg_equity L') \<and>
     lg_drawdown L' = (if lg_peak_equity L' > 0
       then ddiv (dsub (lg_peak_equity L') (lg_equity L')) (lg_peak_equity L') else 0)"
  using apply_fill_InrD [OF assms]
  by (auto simp: valuation_def rbind_eq_Inr Let_def booked_fields drawdown_of_def)

section \<open>Properties\<close>

text \<open>C10: whatever fills and marks a ledger accepts, it stays a well-formed long-only account: every
  open position has a positive quantity, a positive average price and a positive market price,
  the recorded equity, peak and drawdown are those of the valuation at the recorded prices, the
  peak never falls below the starting cash or the equity, fees are nonnegative, and no fill
  identifier was accepted twice.\<close>

theorem ledger_stays_well_formed:
  assumes "representable c" and "fold_result ledger_step ops (ledger_init c cur) = Inr L"
  shows "(\<forall>(i, p) \<in> set (lg_positions L). 0 < pst_quantity p \<and> 0 < pst_average_price p \<and>
       (\<exists>v > 0. dget (lg_market_prices L) i = Some v)) \<and>
     valuation (lg_market_prices L) L = Inr (lg_equity L, lg_peak_equity L, lg_drawdown L) \<and>
     c \<le> lg_peak_equity L \<and> lg_equity L \<le> lg_peak_equity L \<and> 0 \<le> lg_drawdown L \<and> 0 \<le> lg_fees L \<and>
     lg_fill_ids L = set (concat (map op_fill_ids ops)) \<and> distinct (concat (map op_fill_ids ops))"
proof -
  have ok: "ledger_ok L"
    using lg.run_inv ledger_ok_init assms by blast
  have "0 < pst_quantity p \<and> 0 < pst_average_price p \<and> (\<exists>v > 0. dget (lg_market_prices L) i = Some v)"
    if "(i, p) \<in> set (lg_positions L)" for i p
  proof -
    from ok that have "i \<in> set (dkeys (lg_market_prices L))" "0 < pst_quantity p" "0 < pst_average_price p"
      by (auto simp: ledger_ok_def)
    moreover then obtain v where "dget (lg_market_prices L) i = Some v"
      by (metis dget_None_iff not_None_eq)
    moreover from this ok have "0 < v"
      by (auto simp: ledger_ok_def dest!: map_of_SomeD)
    ultimately show ?thesis
      by blast
  qed
  then show ?thesis
    using ok lg.run_ids [OF assms(2)] run_identity [OF assms(2)] drawdown_of_nonneg
    by (auto simp: ledger_ok_def ledger_init_def)
qed

theorem ledger_stays_well_formed_witness:
  "fold_result ledger_step demo_ops (ledger_init 1000 ''USD'') = Inr demo_ledger \<and>
   0 \<le> lg_drawdown demo_ledger \<and> 1000 \<le> lg_peak_equity demo_ledger"
  using ledger_stays_well_formed [OF representable_demo demo_ledger_run] demo_ledger_run by blast

text \<open>C14: a fill is accepted exactly when its quantity and price are positive, its fee is not
  negative, its identifier is new and, for a sale, the held quantity covers it.  Every field of the
  account after an accepted fill: the position of its instrument changes by its quantity and no
  other position does, the cash moves by the notional and the fee, a sale adds the gain on the
  sold quantity to the realized profit and a purchase adds nothing, the identifier, the price and
  the fee are recorded and no other price changes, the equity is the cash and the value of all
  positions at the recorded prices, the peak and the drawdown follow from it, and the starting cash
  and the currency stay.\<close>

theorem apply_fill_effect:
  assumes "ledger_ok L"
  shows "(if fill_valid f L
     then \<exists>L'. apply_fill f L = Inr L' \<and>
       dget (lg_positions L') (fl_instrument_id f) =
         (case (fl_side f, dget (lg_positions L) (fl_instrument_id f)) of
            (BUY, None) \<Rightarrow> Some \<lparr>pst_quantity = fl_quantity f,
               pst_average_price = ddiv (dmul (fl_quantity f) (fl_price f)) (fl_quantity f)\<rparr>
          | (BUY, Some p) \<Rightarrow> Some \<lparr>pst_quantity = dadd (pst_quantity p) (fl_quantity f),
               pst_average_price = ddiv (dadd (dmul (pst_quantity p) (pst_average_price p))
                 (dmul (fl_quantity f) (fl_price f))) (dadd (pst_quantity p) (fl_quantity f))\<rparr>
          | (SELL, Some p) \<Rightarrow> if pst_quantity p = fl_quantity f then None
               else Some (p\<lparr>pst_quantity := dsub (pst_quantity p) (fl_quantity f)\<rparr>)
          | (SELL, None) \<Rightarrow> None) \<and>
       (\<forall>i. i \<noteq> fl_instrument_id f \<longrightarrow> dget (lg_positions L') i = dget (lg_positions L) i) \<and>
       lg_cash L' = (case fl_side f of
            BUY \<Rightarrow> dsub (lg_cash L) (dadd (dmul (fl_quantity f) (fl_price f)) (fl_fee f))
          | SELL \<Rightarrow> dadd (lg_cash L) (dsub (dmul (fl_quantity f) (fl_price f)) (fl_fee f))) \<and>
       lg_fill_ids L' = insert (fl_fill_id f) (lg_fill_ids L) \<and>
       lg_fees L' = dadd (lg_fees L) (fl_fee f) \<and>
       (\<forall>i. dget (lg_market_prices L') i =
          (if i = fl_instrument_id f then Some (fl_price f) else dget (lg_market_prices L) i)) \<and>
       lg_gross_realized_pnl L' = (case (fl_side f, dget (lg_positions L) (fl_instrument_id f)) of
            (SELL, Some p) \<Rightarrow> dadd (lg_gross_realized_pnl L)
              (dmul (dsub (fl_price f) (pst_average_price p)) (fl_quantity f))
          | _ \<Rightarrow> lg_gross_realized_pnl L) \<and>
       (\<exists>values. position_values (lg_market_prices L') (lg_positions L') = Inr values \<and>
          lg_equity L' = dadd (lg_cash L') (dsum values)) \<and>
       lg_peak_equity L' = max (lg_peak_equity L) (lg_equity L') \<and>
       lg_drawdown L' = (if lg_peak_equity L' > 0
          then ddiv (dsub (lg_peak_equity L') (lg_equity L')) (lg_peak_equity L') else 0) \<and>
       lg_starting_cash L' = lg_starting_cash L \<and> lg_currency L' = lg_currency L
     else \<exists>e. apply_fill f L = Inl e)"
proof (cases "fill_valid f L")
  case True
  then obtain L' where L': "apply_fill f L = Inr L'"
    using assms apply_fill_ok_iff by (auto simp: ledger_ok_alt is_ok_iff)
  then obtain e p d where b: "L' = (booked f L)\<lparr>lg_equity := e, lg_peak_equity := p, lg_drawdown := d\<rparr>"
    using apply_fill_InrD by blast
  note equity = applied_fill_equity [OF L']
  show ?thesis
  proof (cases "fl_side f")
    case BUY
    then show ?thesis
      using True L' equity unfolding b
      by (auto simp: booked_def apply_buy_def Let_def split: option.splits)
  next
    case SELL
    then obtain q where "dget (lg_positions L) (fl_instrument_id f) = Some q"
      using True by (auto simp: fill_valid_def)
    with SELL show ?thesis
      using True L' equity unfolding b by (auto simp: booked_def apply_sell_def Let_def)
  qed
next
  case False
  then have "\<not> is_ok (apply_fill f L)"
    using assms apply_fill_ok_iff by (auto simp: ledger_ok_alt)
  with False show ?thesis
    by (cases "apply_fill f L") auto
qed

theorem apply_fill_effect_witness:
  "ledger_ok demo_ledger \<and> (\<exists>L'. apply_fill (demo_fill ''f-3'' SELL 1 9) demo_ledger = Inr L' \<and>
     dget (lg_positions L') ''A'' = None \<and> lg_gross_realized_pnl L' = 0) \<and>
   (\<exists>e. apply_fill (demo_fill ''f-3'' SELL 2 9) demo_ledger = Inl e)"
proof -
  have v: "fill_valid (demo_fill ''f-3'' SELL 1 9) demo_ledger"
    "\<not> fill_valid (demo_fill ''f-3'' SELL 2 9) demo_ledger"
    by (simp_all add: fill_valid_def demo_fill_def demo_ledger_def)
  have pnl: "dadd 1 (dmul (dsub 9 10) 1) = 0"
    by code_simp
  have "\<exists>L'. apply_fill (demo_fill ''f-3'' SELL 1 9) demo_ledger = Inr L' \<and>
     dget (lg_positions L') ''A'' = None \<and> lg_gross_realized_pnl L' = 0"
    using apply_fill_effect [OF demo_ledger_ok, of "demo_fill ''f-3'' SELL 1 9"] v(1)
    by (auto simp: demo_fill_def demo_ledger_def pnl)
  moreover have "\<exists>e. apply_fill (demo_fill ''f-3'' SELL 2 9) demo_ledger = Inl e"
    using apply_fill_effect [OF demo_ledger_ok, of "demo_fill ''f-3'' SELL 2 9"] v(2) by simp
  ultimately show ?thesis
    using demo_ledger_ok by blast
qed

end
