(* ===== verification/LedgerRecovery.thy ===== *)
theory LedgerRecovery
  imports Ledger
begin

text \<open>
  What the ledger's recovery snapshots and its reconciliation hash guarantee: the properties of
  \<open>compact_state\<close>/\<open>restore_compact_state\<close>, \<open>export_state\<close>/\<open>from_state\<close> and \<open>position_hash\<close>,
  and the accounting identity under exact arithmetic.
\<close>

text \<open>C15: when a fill's own values need no rounding, booking it keeps the accounts balanced: cash plus
  the cost basis of the open positions equals the starting cash plus gross realized profit minus
  fees.\<close>

theorem fill_keeps_balance:
  assumes "ledger_ok L" and "balanced L" and "fill_exact f L" and "apply_fill f L = Inr L'"
  shows "balanced L'"
proof -
  from apply_fill_InrD [OF assms(4)] obtain e p d where "fill_valid f L"
    and L': "L' = (booked f L)\<lparr>lg_equity := e, lg_peak_equity := p, lg_drawdown := d\<rparr>"
    by blast
  then have "balanced (booked f L)"
    using assms booked_balanced by (auto simp: ledger_ok_alt)
  then show ?thesis
    by (simp add: L' balanced_def book_value_def)
qed

theorem fill_keeps_balance_witness:
  "\<exists>L'. apply_fill (demo_fill ''f-3'' BUY 3 14) demo_ledger = Inr L' \<and> balanced L' \<and>
     dget (lg_positions L') ''A'' = Some \<lparr>pst_quantity = 4, pst_average_price = 13\<rparr>"
proof -
  have "balanced demo_ledger"
    by (simp add: balanced_def book_value_def dict_sum_def demo_ledger_def)
  moreover have "fill_exact (demo_fill ''f-3'' BUY 3 14) demo_ledger"
    unfolding fill_exact_def representable_def by code_simp
  moreover have "fill_valid (demo_fill ''f-3'' BUY 3 14) demo_ledger"
    by (simp add: fill_valid_def demo_fill_def demo_ledger_def)
  then obtain L' where L': "apply_fill (demo_fill ''f-3'' BUY 3 14) demo_ledger = Inr L'"
    using demo_ledger_ok apply_fill_ok_iff by (auto simp: ledger_ok_alt is_ok_iff)
  moreover have "map_option (\<lambda>L. dget (lg_positions L) ''A'')
      (case apply_fill (demo_fill ''f-3'' BUY 3 14) demo_ledger of Inr L \<Rightarrow> Some L | Inl _ \<Rightarrow> None) =
    Some (Some \<lparr>pst_quantity = 4, pst_average_price = 13\<rparr>)"
    by code_simp
  ultimately show ?thesis
    using fill_keeps_balance [OF demo_ledger_ok] by auto
qed

text \<open>C16: a failed staged operation is rolled back exactly: after any accepted sequence of fills and
  marks, restoring the compact state taken before it, with the identifiers of the fills it
  applied, succeeds and brings back the earlier ledger, its positions and prices in key order.\<close>

theorem compact_rollback_restores:
  assumes "ledger_ok L" and "fold_result ledger_step ops L = Inr L'"
  shows "restore_compact_state (compact_state L) (concat (map op_fill_ids ops)) L' =
     (None, L\<lparr>lg_positions := sorted_items (lg_positions L),
              lg_market_prices := sorted_items (lg_market_prices L)\<rparr>)"
  using restore_compact [OF assms] by (simp add: canonical_ledger_def)

theorem compact_rollback_restores_witness:
  "restore_compact_state (compact_state (ledger_init 1000 ''USD'')) [''f-1'', ''f-2''] demo_ledger =
     (None, ledger_init 1000 ''USD'')"
proof -
  have "concat (map op_fill_ids demo_ops) = [''f-1'', ''f-2'']"
    by (simp add: demo_ops_def demo_fill_def)
  moreover have "ledger_init 1000 ''USD''\<lparr>lg_positions := sorted_items (lg_positions (ledger_init 1000 ''USD'')),
      lg_market_prices := sorted_items (lg_market_prices (ledger_init 1000 ''USD''))\<rparr> =
      ledger_init 1000 ''USD''"
    by (simp add: ledger_init_def sorted_items_def)
  ultimately show ?thesis
    using compact_rollback_restores [OF ledger_ok_init [OF representable_demo] demo_ledger_run] by simp
qed

text \<open>C17: the full export of a well-formed, properly named ledger is accepted back exactly when
  adding the market values in key order reproduces the recorded equity; then it restores the
  ledger with its dicts in key order, and otherwise it is rejected as invalid.\<close>

theorem export_roundtrip:
  assumes "ledger_ok L" and "named_ok L"
    and "position_values (sorted_items (lg_market_prices L)) (sorted_items (lg_positions L)) = Inr vs"
  shows "from_state (export_state L) =
     (if dadd (lg_cash L) (dsum vs) = lg_equity L
      then Inr (L\<lparr>lg_positions := sorted_items (lg_positions L),
                  lg_market_prices := sorted_items (lg_market_prices L)\<rparr>)
      else Inl (ValueError ''invalid portfolio ledger state''))"
  using from_state_export [OF assms] by (simp add: canonical_ledger_def)

theorem export_roundtrip_witness:
  "from_state (export_state demo_ledger) = Inr demo_ledger"
proof -
  have "named_ok demo_ledger"
    unfolding named_ok_def by code_simp
  moreover have "position_values (sorted_items (lg_market_prices demo_ledger))
      (sorted_items (lg_positions demo_ledger)) = Inr [11]"
    by code_simp
  moreover have "dadd (lg_cash demo_ledger) (dsum [11]) = lg_equity demo_ledger"
    by code_simp
  moreover have "demo_ledger\<lparr>lg_positions := sorted_items (lg_positions demo_ledger),
      lg_market_prices := sorted_items (lg_market_prices demo_ledger)\<rparr> = demo_ledger"
    by (simp add: demo_ledger_def sorted_items_def)
  ultimately show ?thesis
    using export_roundtrip [OF demo_ledger_ok] by simp
qed

text \<open>Rounding makes the order of the additions observable: this ledger bought two small positions
  before a large one, and its own export is rejected.\<close>

definition rounding_fill :: "string \<Rightarrow> string \<Rightarrow> dec \<Rightarrow> fill" where
  "rounding_fill i symbol p = \<lparr>fl_fill_id = i, fl_order_id = ''o-1'', fl_instrument_id = symbol, fl_side = BUY,
     fl_quantity = 1, fl_price = p, fl_fee = 0, fl_filled_at = 0\<rparr>"

definition rounding_ops :: "ledger_op list" where
  "rounding_ops = [Fill (rounding_fill ''f-1'' ''B'' (3 / 10)), Fill (rounding_fill ''f-2'' ''C'' (3 / 10)),
     Fill (rounding_fill ''f-3'' ''A'' 1000000000000000000000000000)]"

definition rounding_state ::
  "dec \<Rightarrow> (string \<times> dec) list \<Rightarrow> string set \<Rightarrow> dec \<Rightarrow> ledger" where
  "rounding_state cash ps ids equity = \<lparr>lg_starting_cash = 2000000000000000000000000000,
     lg_currency = ''USD'', lg_cash = cash,
     lg_positions = map (\<lambda>(i, v). (i, \<lparr>pst_quantity = 1, pst_average_price = v\<rparr>)) ps,
     lg_market_prices = ps, lg_fill_ids = ids, lg_gross_realized_pnl = 0, lg_fees = 0,
     lg_equity = equity, lg_peak_equity = equity, lg_drawdown = 0\<rparr>"

lemma rounding_init:
  "ledger_init 2000000000000000000000000000 ''USD'' = rounding_state 2000000000000000000000000000 [] {}
     2000000000000000000000000000"
  by (simp add: ledger_init_def rounding_state_def)

lemma rounding_step:
  assumes "0 < v" "i \<notin> ids" "s \<notin> set (map fst ps)"
    and "dmul 1 v = v" "ddiv v 1 = v" "dadd v 0 = v" "dsub cash v = cash'"
    and "position_values (ps @ [(s, v)]) (map (\<lambda>(i, v). (i, \<lparr>pst_quantity = 1, pst_average_price = v\<rparr>)) (ps @ [(s, v)])) = Inr vs"
    and "dadd cash' (dsum vs) = equity'" "equity \<le> equity'" "drawdown_of equity' equity' = 0"
  shows "ledger_step (Fill (rounding_fill i s v)) (rounding_state cash ps ids equity) =
     Inr (rounding_state cash' (ps @ [(s, v)]) (insert i ids) equity')"
proof -
  let ?f = "rounding_fill i s v" and ?L = "rounding_state cash ps ids equity"
  have z: "dadd 0 0 = 0"
    by (simp add: dadd_def)
  have v: "fill_valid ?f ?L"
    using assms(1,2) by (simp add: fill_valid_def rounding_fill_def rounding_state_def)
  let ?ps = "map (\<lambda>(i, v). (i, \<lparr>pst_quantity = 1, pst_average_price = v\<rparr>)) ps"
  have k: "s \<notin> set (dkeys ?ps)"
    using assms(3) by force
  have n: "dget ?ps s = None"
    using k by (rule dget_None_iff [THEN iffD2])
  have up: "dset s \<lparr>pst_quantity = 1, pst_average_price = v\<rparr> ?ps =
      ?ps @ [(s, \<lparr>pst_quantity = 1, pst_average_price = v\<rparr>)]"
    using k by (rule update_absent)
  have dp: "dset s v ps = ps @ [(s, v)]"
    using assms(3) by (rule update_absent)
  have "booked ?f ?L = (rounding_state cash' (ps @ [(s, v)]) (insert i ids) equity)"
    using assms n up dp z by (simp add: booked_def rounding_fill_def rounding_state_def apply_buy_def Let_def)
  then show ?thesis
    using v assms by (simp add: apply_fill_valid revalue_def valuation_def rounding_state_def Let_def)
qed

lemma rounding_values:
  "dsub 2000000000000000000000000000 (3 / 10) = 2000000000000000000000000000"
  "dadd 2000000000000000000000000000 (3 / 10) = 2000000000000000000000000000"
  "dadd 2000000000000000000000000000 (3 / 5) = 2000000000000000000000000001"
  "dadd 0 (3 / 10) = 3 / 10" "dadd (3 / 10) (3 / 10) = 3 / 5"
  "dadd (3 / 5) 1000000000000000000000000000 = 1000000000000000000000000001"
  "dadd 0 1000000000000000000000000000 = 1000000000000000000000000000"
  "dadd 1000000000000000000000000000 (3 / 10) = 1000000000000000000000000000"
  "dsub 2000000000000000000000000000 1000000000000000000000000000 = 1000000000000000000000000000"
  "dadd 1000000000000000000000000000 1000000000000000000000000001 = 2000000000000000000000000001"
  "dadd (3 / 5) 1000000000000000000000000000 = 1000000000000000000000000001"
  by code_simp+

definition rounding_ledger :: ledger where
  "rounding_ledger = rounding_state 1000000000000000000000000000
     [(''B'', 3 / 10), (''C'', 3 / 10), (''A'', 1000000000000000000000000000)]
     {''f-1'', ''f-2'', ''f-3''} 2000000000000000000000000001"

lemma rounding_run:
  "fold_result ledger_step rounding_ops (ledger_init 2000000000000000000000000000 ''USD'') = Inr rounding_ledger"
proof -
  let ?B = "(''B'', 3 / 10 :: dec)" and ?C = "(''C'', 3 / 10 :: dec)"
  have unit: "dmul 1 (3 / 10) = 3 / 10" "ddiv (3 / 10) 1 = 3 / 10" "dadd (3 / 10) 0 = 3 / 10"
    "dmul 1 1000000000000000000000000000 = 1000000000000000000000000000"
    "ddiv 1000000000000000000000000000 1 = 1000000000000000000000000000"
    "dadd 1000000000000000000000000000 0 = 1000000000000000000000000000"
    by code_simp+
  have dd: "drawdown_of e e = 0" for e
    by (simp add: drawdown_of_def dsub_def ddiv_def)
  have "ledger_step (Fill (rounding_fill ''f-1'' ''B'' (3 / 10)))
      (rounding_state 2000000000000000000000000000 [] {} 2000000000000000000000000000) =
    Inr (rounding_state 2000000000000000000000000000 ([] @ [?B]) (insert ''f-1'' {}) 2000000000000000000000000000)"
    by (rule rounding_step [where vs = "[3 / 10]"])
       (simp_all add: unit rounding_values dd position_values_Cons dsum_def)
  moreover have "ledger_step (Fill (rounding_fill ''f-2'' ''C'' (3 / 10)))
      (rounding_state 2000000000000000000000000000 [?B] {''f-1''} 2000000000000000000000000000) =
    Inr (rounding_state 2000000000000000000000000000 ([?B] @ [?C]) (insert ''f-2'' {''f-1''})
      2000000000000000000000000001)"
    by (rule rounding_step [where vs = "[3 / 10, 3 / 10]"])
       (simp_all add: unit rounding_values dd position_values_Cons dsum_def)
  moreover have "ledger_step (Fill (rounding_fill ''f-3'' ''A'' 1000000000000000000000000000))
      (rounding_state 2000000000000000000000000000 [?B, ?C] {''f-2'', ''f-1''} 2000000000000000000000000001) =
    Inr (rounding_state 1000000000000000000000000000 ([?B, ?C] @ [(''A'', 1000000000000000000000000000)])
      (insert ''f-3'' {''f-2'', ''f-1''}) 2000000000000000000000000001)"
    by (rule rounding_step [where vs = "[3 / 10, 3 / 10, 1000000000000000000000000000]"])
       (simp_all add: unit rounding_values dd position_values_Cons dsum_def)
  moreover have "insert ''f-3'' {''f-2'', ''f-1''} = {''f-1'', ''f-2'', ''f-3''}"
    by blast
  ultimately show ?thesis
    unfolding rounding_ops_def rounding_init rounding_ledger_def by simp
qed

text \<open>C19: a reachable ledger exists whose own export \<open>from_state\<close> rejects as invalid: the recorded
  equity added the market values in the order the positions were opened, the import adds them
  in key order, and the rounded sums differ.\<close>

theorem export_can_be_rejected:
  "\<exists>L. fold_result ledger_step rounding_ops (ledger_init 2000000000000000000000000000 ''USD'') = Inr L \<and>
     from_state (export_state L) = Inl (ValueError ''invalid portfolio ledger state'')"
proof -
  have "representable 2000000000000000000000000000"
    unfolding representable_def by code_simp
  then have "ledger_ok rounding_ledger"
    using lg.run_inv ledger_ok_init rounding_run by blast
  moreover have "named_ok rounding_ledger"
    unfolding named_ok_def by code_simp
  moreover have "position_values (sorted_items (lg_market_prices rounding_ledger))
      (sorted_items (lg_positions rounding_ledger)) = Inr [1000000000000000000000000000, 3 / 10, 3 / 10]"
    by code_simp
  moreover have "dadd (lg_cash rounding_ledger) (dsum [1000000000000000000000000000, 3 / 10, 3 / 10])
      \<noteq> lg_equity rounding_ledger"
    by code_simp
  ultimately have "from_state (export_state rounding_ledger) = Inl (ValueError ''invalid portfolio ledger state'')"
    using from_state_export by simp
  then show ?thesis
    using rounding_run by blast
qed

text \<open>With a collision-free hash, two ledgers that report the same position hash hold the same
  cash, the same equity and the same positions with the same quantities and average prices.\<close>

lemma position_hash_commits:
  assumes "inj sha" and "hash_exact L" and "hash_exact M" and "position_hash sha L = position_hash sha M"
  shows "lg_cash L = lg_cash M \<and> lg_equity L = lg_equity M \<and>
     sorted_items (lg_positions L) = sorted_items (lg_positions M)"
proof -
  have "dumps (position_payload L) = dumps (position_payload M)"
    using assms(1,4) by (simp add: position_hash_def inj_eq)
  then show ?thesis
    by (rule position_payload_determines [OF assms(2,3)])
qed

lemma decimal_places_okI:
  assumes "x * 10 \<in> \<int>"
  shows "decimal_places_ok x"
proof -
  obtain n where n: "nat max_decimal_places = Suc n"
    by (simp add: max_decimal_places_def)
  have "x * 10 * 10 ^ n \<in> \<int>"
    by (rule Ints_mult [OF assms]) simp
  then show ?thesis
    unfolding decimal_places_ok_def n by (simp only: power_Suc mult.assoc)
qed

lemma demo_ledger_hash_exact: "hash_exact demo_ledger"
proof -
  have "\<forall>v \<in> set [9908 / 10, 10018 / 10, 1, 10]. representable v \<and> v * 10 = of_int \<lfloor>v * 10\<rfloor>"
    unfolding representable_def by code_simp
  then have "\<forall>v \<in> set [9908 / 10, 10018 / 10, 1, 10]. representable v \<and> decimal_places_ok v"
    by (metis Ints_of_int decimal_places_okI)
  then show ?thesis
    by (simp add: hash_exact_def demo_ledger_def)
qed

lemma position_hash_commits_demo:
  "position_hash id demo_ledger = position_hash id (demo_ledger\<lparr>lg_fees := 7\<rparr>) \<and>
   lg_cash demo_ledger = lg_cash (demo_ledger\<lparr>lg_fees := 7\<rparr>)"
proof -
  have h: "position_hash id demo_ledger = position_hash id (demo_ledger\<lparr>lg_fees := 7\<rparr>)"
    by (simp add: position_hash_def position_payload_def)
  moreover have "hash_exact (demo_ledger\<lparr>lg_fees := 7\<rparr>)"
    using demo_ledger_hash_exact by (simp add: hash_exact_def)
  ultimately show ?thesis
    using position_hash_commits [OF inj_on_id demo_ledger_hash_exact _ h] by blast
qed

end
