(* ===== verification/Timestamps.thy ===== *)
theory Timestamps
  imports Canonical Domain
begin

text \<open>
  The text of a UTC instant, \<open>datetime.isoformat()\<close>: the civil date of the day number in the
  proleptic Gregorian calendar, the time of day, the microseconds when they are not zero, and
  the offset \<open>+00:00\<close>.  Instants are microseconds since 1970-01-01T00:00:00Z and lie in the
  years 1 to 9999.
\<close>

section \<open>Civil dates\<close>

text \<open>Days are counted in eras of 400 years that start on 1 March.\<close>

definition day_of_era :: "int \<Rightarrow> int" where
  "day_of_era d = (d + 719468) mod 146097"

definition year_of_era :: "int \<Rightarrow> int" where
  "year_of_era doe = (doe - doe div 1460 + doe div 36524 - doe div 146096) div 365"

definition day_of_year :: "int \<Rightarrow> int" where
  "day_of_year doe = (let y = year_of_era doe in doe - (365 * y + y div 4 - y div 100))"

definition civil_date :: "int \<Rightarrow> int \<times> int \<times> int" where
  "civil_date d = (let doe = day_of_era d; doy = day_of_year doe; mp = (5 * doy + 2) div 153;
       day = doy - (153 * mp + 2) div 5 + 1; month = (if mp < 10 then mp + 3 else mp - 9);
       year = year_of_era doe + (d + 719468) div 146097 * 400 + (if month \<le> 2 then 1 else 0)
     in (year, month, day))"

section \<open>ISO text\<close>

text \<open>A nonnegative number padded with zeros to a width.\<close>

definition padded :: "nat \<Rightarrow> int \<Rightarrow> string" where
  "padded w n = (let t = int_text n in replicate (w - length t) CHR ''0'' @ t)"

definition iso_text :: "instant \<Rightarrow> string" where
  "iso_text t = (let day = t div 86400000000; r = t mod 86400000000; us = r mod 1000000;
       secs = r div 1000000; (y, m, d) = civil_date day
     in padded 4 y @ ''-'' @ padded 2 m @ ''-'' @ padded 2 d @ ''T'' @ padded 2 (secs div 3600) @ '':'' @
        padded 2 (secs div 60 mod 60) @ '':'' @ padded 2 (secs mod 60) @
        (if us = 0 then [] else ''.'' @ padded 6 us) @ ''+00:00'')"

text \<open>\<open>isoformat(timespec="microseconds").replace("+00:00", "Z")\<close>.\<close>

definition micro_text :: "instant \<Rightarrow> string" where
  "micro_text t = (let day = t div 86400000000; r = t mod 86400000000; us = r mod 1000000;
       secs = r div 1000000; (y, m, d) = civil_date day
     in padded 4 y @ ''-'' @ padded 2 m @ ''-'' @ padded 2 d @ ''T'' @ padded 2 (secs div 3600) @ '':'' @
        padded 2 (secs div 60 mod 60) @ '':'' @ padded 2 (secs mod 60) @ ''.'' @ padded 6 us @ ''Z'')"

lemma civil_date_samples:
  "civil_date 0 = (1970, 1, 1)" "civil_date 19782 = (2024, 2, 29)" "civil_date 11016 = (2000, 2, 29)"
  "civil_date (- 1) = (1969, 12, 31)" "civil_date 20088 = (2024, 12, 31)"
  by code_simp+

lemma iso_text_samples:
  "iso_text 1709210096000000 = ''2024-02-29T12:34:56+00:00''"
  "iso_text 1 = ''1970-01-01T00:00:00.000001+00:00''"
  "micro_text 1709210096000000 = ''2024-02-29T12:34:56.000000Z''"
  by code_simp+

end
