(* ===== verification/Risk.thy ===== *)
theory Risk
  imports Json Timestamps "HOL-Library.Product_Lexorder" "HOL-Library.Sublist"
begin

text \<open>
  The risk policy (\<open>risk/policy.py\<close>), the position sizer and the risk engine
  (\<open>risk/engine.py\<close>).  A policy is only built through its validator.  \<open>assess\<close> collects every
  reason that applies and reports them in the documented order; a decision is approved exactly
  when no reason applies.  Finiteness of Decimals holds by type; the steps and ticks the
  functions divide by come from instruments, whose validator keeps them positive.
\<close>

section \<open>Policy\<close>

record risk_policy =
  rpol_max_trade_risk_fraction :: dec
  rpol_max_position_fraction :: dec
  rpol_max_gross_exposure_fraction :: dec
  rpol_max_daily_loss_fraction :: dec
  rpol_max_drawdown_fraction :: dec
  rpol_decision_ttl :: int

definition policy_limits :: "risk_policy \<Rightarrow> (dec \<times> dec) list" where
  "policy_limits p = [
     (rpol_max_trade_risk_fraction p, safe_max_trade_risk_fraction),
     (rpol_max_position_fraction p, safe_max_position_fraction),
     (rpol_max_gross_exposure_fraction p, safe_max_gross_exposure_fraction),
     (rpol_max_daily_loss_fraction p, safe_max_daily_loss_fraction),
     (rpol_max_drawdown_fraction p, safe_max_drawdown_fraction)]"

definition validate_policy :: "risk_policy \<Rightarrow> risk_policy result" where
  "validate_policy p =
     (if \<not> list_all (\<lambda>(v, safe). 0 < v \<and> v \<le> safe) (policy_limits p)
      then Inl (ValueError ''risk-policy fractions may not exceed fixed safe limits'')
      else if \<not> (0 < rpol_decision_ttl p \<and> rpol_decision_ttl p \<le> seconds 60)
      then Inl (ValueError ''decision_ttl must be positive and no greater than 60 seconds'')
      else Inr p)"

definition policy_safe_defaults :: "risk_policy result" where
  "policy_safe_defaults = validate_policy
     \<lparr>rpol_max_trade_risk_fraction = safe_max_trade_risk_fraction,
      rpol_max_position_fraction = safe_max_position_fraction,
      rpol_max_gross_exposure_fraction = safe_max_gross_exposure_fraction,
      rpol_max_daily_loss_fraction = safe_max_daily_loss_fraction,
      rpol_max_drawdown_fraction = safe_max_drawdown_fraction, rpol_decision_ttl = seconds 60\<rparr>"

definition policy_from_settings :: "risk_settings \<Rightarrow> risk_policy result" where
  "policy_from_settings s = validate_policy
     \<lparr>rpol_max_trade_risk_fraction = min (rs_max_trade_risk_fraction s) safe_max_trade_risk_fraction,
      rpol_max_position_fraction = min (rs_max_position_fraction s) safe_max_position_fraction,
      rpol_max_gross_exposure_fraction =
        min (rs_max_gross_exposure_fraction s) safe_max_gross_exposure_fraction,
      rpol_max_daily_loss_fraction = min (rs_max_daily_loss_fraction s) safe_max_daily_loss_fraction,
      rpol_max_drawdown_fraction = min (rs_max_drawdown_fraction s) safe_max_drawdown_fraction,
      rpol_decision_ttl = seconds 60\<rparr>"

section \<open>Helpers\<close>

definition risk_decimal_text :: "dec \<Rightarrow> string" where
  "risk_decimal_text v = dec_text (rnd v)"

definition position_key :: "position \<Rightarrow> string \<times> string \<times> string \<times> string \<times> string" where
  "position_key q = (pos_instrument_id q, risk_decimal_text (pos_quantity q),
     risk_decimal_text (pos_average_price q), risk_decimal_text (pos_market_price q),
     risk_decimal_text (pos_unrealized_pnl q))"

definition portfolio_payload :: "portfolio_snapshot \<Rightarrow> json" where
  "portfolio_payload p = JObj [
     (''currency'', JStr (ps_currency p)),
     (''cash'', JStr (risk_decimal_text (ps_cash p))),
     (''equity'', JStr (risk_decimal_text (ps_equity p))),
     (''peak_equity'', JStr (risk_decimal_text (ps_peak_equity p))),
     (''gross_exposure'', JStr (risk_decimal_text (ps_gross_exposure p))),
     (''daily_pnl'', JStr (risk_decimal_text (ps_daily_pnl p))),
     (''realized_pnl'', JStr (risk_decimal_text (ps_realized_pnl p))),
     (''observed_at'', JStr (iso_text (ps_observed_at p))),
     (''positions'', JList (map (\<lambda>q. JList [JStr (pos_instrument_id q),
        JStr (risk_decimal_text (pos_quantity q)), JStr (risk_decimal_text (pos_average_price q)),
        JStr (risk_decimal_text (pos_market_price q)), JStr (risk_decimal_text (pos_unrealized_pnl q))])
        (sort_key position_key (ps_positions p))))]"

definition portfolio_hash :: "(string \<Rightarrow> string) \<Rightarrow> portfolio_snapshot \<Rightarrow> string" where
  "portfolio_hash sha p = sha (dumps (portfolio_payload p))"

definition normalize_now :: "pydt \<Rightarrow> instant result" where
  "normalize_now v = aware_utc (ValueError ''risk timestamp must be timezone-aware'') v"

definition rejection :: "string \<Rightarrow> string \<Rightarrow> instant \<Rightarrow> risk_decision" where
  "rejection reason h now = \<lparr>rd_approved = False, rd_reason_codes = [reason],
     rd_approved_quantity = None, rd_approved_notional = None, rd_portfolio_hash = h,
     rd_decided_at = now, rd_expires_at = now\<rparr>"

definition round_down_step :: "dec \<Rightarrow> dec \<Rightarrow> dec" where
  "round_down_step v step = dmul (integral_down (ddiv v step)) step"

definition is_step_aligned :: "dec \<Rightarrow> dec \<Rightarrow> bool" where
  "is_step_aligned v step = (let q = ddiv v step in integral_even q = q)"

definition valid_instrument :: "instrument \<Rightarrow> bool" where
  "valid_instrument i = (strip (ins_symbol i) \<noteq> [] \<and> strip (ins_venue i) \<noteq> [] \<and>
     0 < ins_price_tick i \<and> 0 < ins_quantity_step i \<and> 0 < ins_minimum_notional i)"

definition canonical_instrument_id :: "instrument \<Rightarrow> string" where
  "canonical_instrument_id i =
     (if valid_instrument i then ins_symbol i @ ''@'' @ ins_venue i else [])"

definition market_price :: "market_snapshot \<Rightarrow> dec option" where
  "market_price m = (if ms_bars m = [] then None else Some (bar_close (last (ms_bars m))))"

definition held_notional :: "portfolio_snapshot \<Rightarrow> string \<Rightarrow> dec" where
  "held_notional p i = dsum (map (\<lambda>q. dmul (pos_quantity q) (pos_market_price q))
     (filter (\<lambda>q. pos_instrument_id q = i) (ps_positions p)))"

text \<open>The loop over the positions: distinct named positions with positive numbers, and their
  accumulated market value.\<close>

fun scan_positions :: "position list \<Rightarrow> string set \<Rightarrow> dec \<Rightarrow> dec option" where
  "scan_positions [] ids value = Some value"
| "scan_positions (q # qs) ids value =
     (if strip (pos_instrument_id q) = [] \<or> pos_instrument_id q \<in> ids \<or> pos_quantity q \<le> 0
         \<or> pos_average_price q \<le> 0 \<or> pos_market_price q \<le> 0
      then None
      else scan_positions qs (insert (pos_instrument_id q) ids)
        (dadd value (dmul (pos_quantity q) (pos_market_price q))))"

definition valid_portfolio :: "portfolio_snapshot \<Rightarrow> bool" where
  "valid_portfolio p =
     (if strip (ps_currency p) = [] \<or> ps_cash p < 0 then False
      else if ps_equity p \<le> 0 \<or> ps_peak_equity p \<le> 0 then False
      else if ps_peak_equity p < ps_equity p \<or> ps_gross_exposure p < 0 then False
      else case scan_positions (ps_positions p) {} 0 of
          None \<Rightarrow> False
        | Some value \<Rightarrow> ps_gross_exposure p = value \<and> dadd (ps_cash p) value = ps_equity p)"

definition valid_intent_time :: "order_intent \<Rightarrow> instant \<Rightarrow> int \<Rightarrow> bool" where
  "valid_intent_time i now ttl = (oi_created_at i \<le> now \<and> now < oi_expires_at i \<and>
     0 < oi_expires_at i - oi_created_at i \<and> oi_expires_at i - oi_created_at i \<le> ttl)"

definition valid_market_time :: "market_snapshot \<Rightarrow> instant \<Rightarrow> bool" where
  "valid_market_time m now = (ms_source_at m \<le> ms_observed_at m \<and> ms_observed_at m \<le> now \<and>
     ms_source_at m \<le> now \<and> \<not> is_stale m now)"

definition valid_portfolio_time :: "portfolio_snapshot \<Rightarrow> instant \<Rightarrow> int \<Rightarrow> bool" where
  "valid_portfolio_time p now ttl = (ps_observed_at p \<le> now \<and> now - ps_observed_at p \<le> ttl)"

definition ordered_exits :: "side \<Rightarrow> dec \<Rightarrow> dec \<Rightarrow> dec \<Rightarrow> bool" where
  "ordered_exits s price stop target = (case s of BUY \<Rightarrow> stop < price \<and> price < target
     | SELL \<Rightarrow> stop > price \<and> price > target)"

definition valid_exits :: "order_intent \<Rightarrow> dec option \<Rightarrow> dec \<Rightarrow> bool" where
  "valid_exits i price tick = (case (price, oi_stop_loss i, oi_take_profit i) of
       (Some p, Some s, Some t) \<Rightarrow>
         if \<not> (0 < p \<and> 0 < s \<and> 0 < t) then False
         else if \<not> is_step_aligned s tick \<or> \<not> is_step_aligned t tick then False
         else ordered_exits (oi_side i) p s t
     | _ \<Rightarrow> False)"

definition valid_signal_prices :: "dec \<Rightarrow> dec \<Rightarrow> dec \<Rightarrow> side \<Rightarrow> dec \<Rightarrow> bool" where
  "valid_signal_prices entry stop target s tick =
     (if \<not> (0 < entry \<and> 0 < stop \<and> 0 < target) then False
      else if \<not> (is_step_aligned entry tick \<and> is_step_aligned stop tick \<and> is_step_aligned target tick)
      then False
      else ordered_exits s entry stop target)"

definition exits_are_numeric :: "order_intent \<Rightarrow> bool" where
  "exits_are_numeric i = (case (oi_stop_loss i, oi_take_profit i) of
     (Some s, Some t) \<Rightarrow> 0 < s \<and> 0 < t | _ \<Rightarrow> False)"

definition exits_are_step_aligned :: "order_intent \<Rightarrow> dec \<Rightarrow> bool" where
  "exits_are_step_aligned i tick = (case (oi_stop_loss i, oi_take_profit i) of
     (Some s, Some t) \<Rightarrow> is_step_aligned s tick \<and> is_step_aligned t tick | _ \<Rightarrow> False)"

definition intent_size ::
  "order_intent \<Rightarrow> instrument \<Rightarrow> market_snapshot \<Rightarrow> dec option \<times> dec option \<times> dec option \<times> bool" where
  "intent_size i ins m =
     (let price = (case oi_limit_price i of Some p \<Rightarrow> Some p | None \<Rightarrow>
         (case oi_trigger_price i of Some p \<Rightarrow> Some p | None \<Rightarrow> market_price m))
      in case price of None \<Rightarrow> (None, None, price, False)
      | Some p \<Rightarrow>
        if p \<le> 0 \<or> \<not> valid_instrument ins then (None, None, price, False)
        else if (oi_limit_price i \<noteq> None \<or> oi_trigger_price i \<noteq> None)
             \<and> \<not> is_step_aligned p (ins_price_tick ins) then (None, None, price, False)
        else (case oi_quantity i of
          Some q \<Rightarrow> if q \<le> 0 \<or> \<not> is_step_aligned q (ins_quantity_step ins)
            then (None, None, price, False) else (Some q, Some (dmul q p), price, True)
        | None \<Rightarrow> (case oi_notional i of
            None \<Rightarrow> (None, None, price, False)
          | Some n \<Rightarrow> if n \<le> 0 then (None, None, price, False)
              else let q = round_down_step (ddiv n p) (ins_quantity_step ins)
                in (Some q, Some (dmul q p), price, q > 0))))"

section \<open>The risk engine\<close>

definition reason_order :: "string list" where
  "reason_order = [''KILL_SWITCH_ACTIVE'', ''EXPIRED_INTENT'', ''STALE_DATA'',
     ''PORTFOLIO_HASH_MISMATCH'', ''MISSING_PROTECTIVE_EXIT'', ''DRAWDOWN_LIMIT'', ''DAILY_LOSS_LIMIT'',
     ''LEVERAGE_FORBIDDEN'', ''SHORT_FORBIDDEN'', ''DERIVATIVE_FORBIDDEN'', ''POSITION_LIMIT'',
     ''GROSS_EXPOSURE_LIMIT'', ''BELOW_MINIMUM_NOTIONAL'', ''INVALID_PRECISION'']"

record risk_engine =
  re_policy :: risk_policy
  re_kill_switch :: bool
  re_expected_portfolio_hash :: "string option"

definition engine_safe_defaults :: "bool \<Rightarrow> string option \<Rightarrow> risk_engine result" where
  "engine_safe_defaults kill expected = rbind policy_safe_defaults (\<lambda>p.
     Inr \<lparr>re_policy = p, re_kill_switch = kill, re_expected_portfolio_hash = expected\<rparr>)"

abbreviation code_if :: "bool \<Rightarrow> string \<Rightarrow> string list" where
  "code_if c code \<equiv> (if c then [code] else [])"

text \<open>The reasons the engine adds to its set, in the order of its tests.\<close>

definition gate_reasons ::
  "(string \<Rightarrow> string) \<Rightarrow> risk_engine \<Rightarrow> order_intent \<Rightarrow> instrument \<Rightarrow> market_snapshot \<Rightarrow>
   portfolio_snapshot \<Rightarrow> instant \<Rightarrow> string list" where
  "gate_reasons sha E i ins m p now = (let actual = portfolio_hash sha p; ttl = rpol_decision_ttl (re_policy E) in
     code_if (re_kill_switch E) ''KILL_SWITCH_ACTIVE'' @
     code_if (\<not> valid_intent_time i now ttl) ''EXPIRED_INTENT'' @
     code_if (\<not> valid_market_time m now) ''STALE_DATA'' @
     code_if (\<not> valid_portfolio_time p now ttl) ''STALE_DATA'' @
     code_if (oi_snapshot_hash i = [] \<or> oi_snapshot_hash i \<noteq> actual \<or>
        (\<exists>h \<in> set_option (re_expected_portfolio_hash E). h \<noteq> actual)) ''PORTFOLIO_HASH_MISMATCH'' @
     code_if (\<not> valid_portfolio p \<or> \<not> valid_instrument ins) ''INVALID_PRECISION'' @
     code_if (canonical_instrument_id ins = [] \<or> oi_instrument_id i \<noteq> canonical_instrument_id ins
        \<or> ms_instrument_id m \<noteq> canonical_instrument_id ins) ''INVALID_PRECISION'')"

definition exit_reasons :: "order_intent \<Rightarrow> instrument \<Rightarrow> dec option \<Rightarrow> string list" where
  "exit_reasons i ins price =
     (if valid_exits i price (ins_price_tick ins) then []
      else if oi_stop_loss i = None \<or> oi_take_profit i = None then [''MISSING_PROTECTIVE_EXIT'']
      else if \<not> exits_are_numeric i \<or> \<not> exits_are_step_aligned i (ins_price_tick ins)
      then [''INVALID_PRECISION''] else [''MISSING_PROTECTIVE_EXIT''])"

definition loss_reasons :: "risk_policy \<Rightarrow> portfolio_snapshot \<Rightarrow> string list" where
  "loss_reasons pol p =
     (if valid_portfolio p then
        code_if (ddiv (dsub (ps_peak_equity p) (ps_equity p)) (ps_peak_equity p)
                 \<ge> rpol_max_drawdown_fraction pol) ''DRAWDOWN_LIMIT'' @
        code_if (ps_daily_pnl p \<le> dneg (dmul (ps_equity p) (rpol_max_daily_loss_fraction pol)))
          ''DAILY_LOSS_LIMIT''
      else [])"

definition product_reasons :: "order_intent \<Rightarrow> instrument \<Rightarrow> string list" where
  "product_reasons i ins =
     code_if (lower (strip (oi_product i)) \<noteq> ''cash'') ''LEVERAGE_FORBIDDEN'' @
     code_if (oi_side i = SELL) ''SHORT_FORBIDDEN'' @
     code_if (ins_asset_class ins \<notin> {EQUITY, CRYPTO_SPOT}) ''DERIVATIVE_FORBIDDEN''"

definition size_reasons ::
  "risk_policy \<Rightarrow> order_intent \<Rightarrow> instrument \<Rightarrow> portfolio_snapshot \<Rightarrow> dec \<Rightarrow> dec \<Rightarrow> dec option \<Rightarrow> string list" where
  "size_reasons pol i ins p quantity notional price =
     code_if (dadd (held_notional p (oi_instrument_id i)) notional
              > dmul (ps_equity p) (rpol_max_position_fraction pol)) ''POSITION_LIMIT'' @
     code_if (dadd (ps_gross_exposure p) notional
              > dmul (ps_equity p) (rpol_max_gross_exposure_fraction pol)) ''GROSS_EXPOSURE_LIMIT'' @
     (case (oi_stop_loss i, price) of
        (Some s, Some pr) \<Rightarrow> code_if (dmul quantity (dabs (dsub pr s))
           > dmul (ps_equity p) (rpol_max_trade_risk_fraction pol)) ''POSITION_LIMIT''
      | _ \<Rightarrow> []) @
     code_if (oi_side i = BUY \<and> ps_cash p < notional) ''LEVERAGE_FORBIDDEN'' @
     code_if (notional < ins_minimum_notional ins) ''BELOW_MINIMUM_NOTIONAL''"

definition assess_reasons ::
  "(string \<Rightarrow> string) \<Rightarrow> risk_engine \<Rightarrow> order_intent \<Rightarrow> instrument \<Rightarrow> market_snapshot \<Rightarrow>
   portfolio_snapshot \<Rightarrow> instant \<Rightarrow> string list" where
  "assess_reasons sha E i ins m p now =
     (case intent_size i ins m of (quantity, notional, price, precise) \<Rightarrow>
        gate_reasons sha E i ins m p now @ exit_reasons i ins price @
        code_if (\<not> precise) ''INVALID_PRECISION'' @ loss_reasons (re_policy E) p @ product_reasons i ins @
        (case (quantity, notional) of
           (Some q, Some n) \<Rightarrow> if valid_portfolio p \<and> precise
              then size_reasons (re_policy E) i ins p q n price else []
         | _ \<Rightarrow> []))"

definition assess ::
  "(string \<Rightarrow> string) \<Rightarrow> risk_engine \<Rightarrow> pydt \<Rightarrow> order_intent \<Rightarrow> instrument \<Rightarrow> market_snapshot \<Rightarrow>
   portfolio_snapshot \<Rightarrow> pydt option \<Rightarrow> risk_decision result" where
  "assess sha E clock_now i ins m p now =
     rbind (normalize_now (case now of None \<Rightarrow> clock_now | Some t \<Rightarrow> t)) (\<lambda>instant.
     let reasons = assess_reasons sha E i ins m p instant;
         ordered = filter (\<lambda>c. c \<in> set reasons) reason_order;
         actual = portfolio_hash sha p
     in if ordered \<noteq> []
        then Inr \<lparr>rd_approved = False, rd_reason_codes = ordered, rd_approved_quantity = None,
          rd_approved_notional = None, rd_portfolio_hash = actual, rd_decided_at = instant,
          rd_expires_at = instant\<rparr>
        else (case intent_size i ins m of (quantity, notional, _, _) \<Rightarrow>
          Inr \<lparr>rd_approved = True, rd_reason_codes = [], rd_approved_quantity = quantity,
            rd_approved_notional = notional, rd_portfolio_hash = actual, rd_decided_at = instant,
            rd_expires_at = instant + rpol_decision_ttl (re_policy E)\<rparr>))"

section \<open>The position sizer\<close>

definition sized_quantity :: "risk_policy \<Rightarrow> signal \<Rightarrow> instrument \<Rightarrow> portfolio_snapshot \<Rightarrow> dec" where
  "sized_quantity pol s ins p =
     (let entry = sig_entry_price s;
          risk_quantity = ddiv (dmul (ps_equity p) (rpol_max_trade_risk_fraction pol))
            (dsub entry (sig_invalidation_price s));
          position_headroom = dsub (dmul (ps_equity p) (rpol_max_position_fraction pol))
            (held_notional p (sig_instrument_id s));
          gross_headroom = dsub (dmul (ps_equity p) (rpol_max_gross_exposure_fraction pol))
            (ps_gross_exposure p)
      in round_down_step (min (min risk_quantity (ddiv position_headroom entry)) (ddiv gross_headroom entry))
           (ins_quantity_step ins))"

definition create_intent ::
  "(string \<Rightarrow> string) \<Rightarrow> risk_policy \<Rightarrow> signal \<Rightarrow> instrument \<Rightarrow> portfolio_snapshot \<Rightarrow> string \<Rightarrow> pydt \<Rightarrow>
   string \<Rightarrow> string \<Rightarrow> string \<Rightarrow> (risk_decision + order_intent) result" where
  "create_intent sha pol s ins p snapshot_hash now time_in_force product session =
     rbind (normalize_now now) (\<lambda>instant.
     let actual = portfolio_hash sha p; reject = (\<lambda>reason. Inr (Inl (rejection reason actual instant))) in
     if \<not> valid_portfolio p \<or> snapshot_hash = [] \<or> snapshot_hash \<noteq> actual \<or> \<not> valid_instrument ins
        \<or> sig_instrument_id s \<noteq> canonical_instrument_id ins
     then reject ''INVALID_PRECISION''
     else if sig_direction s = SHORT then reject ''SHORT_FORBIDDEN''
     else if sig_direction s \<noteq> LONG then reject ''INVALID_PRECISION''
     else if lower (strip product) \<noteq> ''cash'' then reject ''LEVERAGE_FORBIDDEN''
     else if \<not> valid_signal_prices (sig_entry_price s) (sig_invalidation_price s) (sig_take_profit s) BUY
         (ins_price_tick ins)
     then reject (if 0 < sig_invalidation_price s \<and> 0 < sig_take_profit s
        then ''MISSING_PROTECTIVE_EXIT'' else ''INVALID_PRECISION'')
     else let entry = sig_entry_price s; quantity = sized_quantity pol s ins p;
              position_headroom = dsub (dmul (ps_equity p) (rpol_max_position_fraction pol))
                (held_notional p (sig_instrument_id s)) in
       if quantity \<le> 0 then reject (if position_headroom \<le> 0 then ''POSITION_LIMIT'' else ''GROSS_EXPOSURE_LIMIT'')
       else let notional = dmul quantity entry in
         if notional < ins_minimum_notional ins then reject ''BELOW_MINIMUM_NOTIONAL''
         else if ps_cash p < notional then reject ''LEVERAGE_FORBIDDEN''
         else rbind (validate_order_intent \<lparr>oi_intent_id = sig_strategy_id s @ '':'' @ sig_instrument_id s @ '':'' @
             iso_text instant, oi_instrument_id = sig_instrument_id s, oi_side = BUY,
           oi_quantity = Some quantity, oi_notional = None, oi_order_type = LIMIT,
           oi_limit_price = Some entry, oi_stop_loss = Some (sig_invalidation_price s),
           oi_take_profit = Some (sig_take_profit s), oi_time_in_force = time_in_force,
           oi_product = ''cash'', oi_session = session, oi_snapshot_hash = actual,
           oi_created_at = instant, oi_expires_at = instant + rpol_decision_ttl pol,
           oi_trigger_price = None\<rparr>) (\<lambda>i. Inr (Inr i)))"

section \<open>What an approval means\<close>

text \<open>The specification: an order the policy admits, stated over the quantities themselves.\<close>

definition admissible ::
  "(string \<Rightarrow> string) \<Rightarrow> risk_engine \<Rightarrow> order_intent \<Rightarrow> instrument \<Rightarrow> market_snapshot \<Rightarrow>
   portfolio_snapshot \<Rightarrow> instant \<Rightarrow> dec \<Rightarrow> dec \<Rightarrow> bool" where
  "admissible sha E i ins m p now q n \<longleftrightarrow> (let pol = re_policy E in
     \<not> re_kill_switch E \<and> valid_intent_time i now (rpol_decision_ttl pol) \<and> valid_market_time m now \<and>
     valid_portfolio_time p now (rpol_decision_ttl pol) \<and> valid_portfolio p \<and> valid_instrument ins \<and>
     portfolio_hash sha p \<noteq> [] \<and> oi_snapshot_hash i = portfolio_hash sha p \<and>
     re_expected_portfolio_hash E \<in> {None, Some (portfolio_hash sha p)} \<and>
     oi_instrument_id i = canonical_instrument_id ins \<and> ms_instrument_id m = canonical_instrument_id ins \<and>
     oi_side i = BUY \<and> lower (strip (oi_product i)) = ''cash'' \<and> ins_asset_class ins \<in> {EQUITY, CRYPTO_SPOT} \<and>
     ddiv (dsub (ps_peak_equity p) (ps_equity p)) (ps_peak_equity p) < rpol_max_drawdown_fraction pol \<and>
     dneg (dmul (ps_equity p) (rpol_max_daily_loss_fraction pol)) < ps_daily_pnl p \<and>
     (\<exists>price stop target. intent_size i ins m = (Some q, Some n, Some price, True) \<and>
        oi_stop_loss i = Some stop \<and> oi_take_profit i = Some target \<and>
        0 < stop \<and> stop < price \<and> price < target \<and>
        is_step_aligned stop (ins_price_tick ins) \<and> is_step_aligned target (ins_price_tick ins) \<and>
        dmul q (dabs (dsub price stop)) \<le> dmul (ps_equity p) (rpol_max_trade_risk_fraction pol)) \<and>
     dadd (held_notional p (oi_instrument_id i)) n \<le> dmul (ps_equity p) (rpol_max_position_fraction pol) \<and>
     dadd (ps_gross_exposure p) n \<le> dmul (ps_equity p) (rpol_max_gross_exposure_fraction pol) \<and>
     n \<le> ps_cash p \<and> ins_minimum_notional ins \<le> n)"

lemma code_if_Nil [simp]: "code_if c x = [] \<longleftrightarrow> \<not> c"
  by simp

lemma assess_reasons_known: "set (assess_reasons sha E i ins m p now) \<subseteq> set reason_order"
proof -
  have g: "set (gate_reasons sha E i ins m p now) \<subseteq> set reason_order"
    and x: "set (exit_reasons i ins pr) \<subseteq> set reason_order"
    and l: "set (loss_reasons (re_policy E) p) \<subseteq> set reason_order"
    and r: "set (product_reasons i ins) \<subseteq> set reason_order"
    and z: "set (size_reasons (re_policy E) i ins p q n pr) \<subseteq> set reason_order" for q n pr
    by (auto simp: gate_reasons_def exit_reasons_def loss_reasons_def product_reasons_def
        size_reasons_def reason_order_def Let_def split: option.splits if_splits)
  have "''INVALID_PRECISION'' \<in> set reason_order"
    by (simp add: reason_order_def)
  then show ?thesis
    using g x l r z by (auto simp: assess_reasons_def split: prod.splits option.splits if_splits; blast)
qed

lemma filter_known_Nil: "set xs \<subseteq> set ys \<Longrightarrow> filter (\<lambda>c. c \<in> set xs) ys = [] \<longleftrightarrow> xs = []"
  by (cases xs) (auto simp: filter_empty_conv)

lemma gate_reasons_Nil:
  "gate_reasons sha E i ins m p now = [] \<longleftrightarrow>
     \<not> re_kill_switch E \<and> valid_intent_time i now (rpol_decision_ttl (re_policy E)) \<and>
     valid_market_time m now \<and> valid_portfolio_time p now (rpol_decision_ttl (re_policy E)) \<and>
     portfolio_hash sha p \<noteq> [] \<and> oi_snapshot_hash i = portfolio_hash sha p \<and>
     re_expected_portfolio_hash E \<in> {None, Some (portfolio_hash sha p)} \<and>
     valid_portfolio p \<and> valid_instrument ins \<and>
     oi_instrument_id i = canonical_instrument_id ins \<and> ms_instrument_id m = canonical_instrument_id ins"
  by (cases "re_expected_portfolio_hash E")
     (auto simp: gate_reasons_def Let_def canonical_instrument_id_def)

lemma exit_reasons_Nil: "exit_reasons i ins price = [] \<longleftrightarrow> valid_exits i price (ins_price_tick ins)"
  by (simp add: exit_reasons_def)

lemma intent_size_precise:
  assumes "intent_size i ins m = (q, n, price, True)"
  shows "\<exists>qv pv. q = Some qv \<and> price = Some pv \<and> n = Some (dmul qv pv) \<and> 0 < qv \<and> 0 < pv"
  using assms
  by (cases "oi_limit_price i"; cases "oi_trigger_price i"; cases "market_price m";
      cases "oi_quantity i"; cases "oi_notional i")
     (simp_all add: intent_size_def Let_def not_le split: if_splits, (metis not_le)+)

lemma assess_reasons_Nil:
  "assess_reasons sha E i ins m p now = [] \<longleftrightarrow> (\<exists>q n. admissible sha E i ins m p now q n)"
proof -
  obtain q n price precise where sz: "intent_size i ins m = (q, n, price, precise)"
    by (metis prod_cases4)
  show ?thesis
  proof (cases precise)
    case False
    then show ?thesis
      using sz by (simp add: assess_reasons_def admissible_def Let_def)
  next
    case True
    with sz have "intent_size i ins m = (q, n, price, True)"
      by simp
    then obtain qv pv where v: "q = Some qv" "price = Some pv" "n = Some (dmul qv pv)"
      using intent_size_precise by blast
    have "assess_reasons sha E i ins m p now = [] \<longleftrightarrow>
      gate_reasons sha E i ins m p now = [] \<and> valid_exits i (Some pv) (ins_price_tick ins) \<and>
      loss_reasons (re_policy E) p = [] \<and> product_reasons i ins = [] \<and>
      (valid_portfolio p \<longrightarrow> size_reasons (re_policy E) i ins p qv (dmul qv pv) (Some pv) = [])"
      using sz True v by (simp add: assess_reasons_def exit_reasons_Nil)
    also have "\<dots> \<longleftrightarrow> admissible sha E i ins m p now qv (dmul qv pv)"
      using sz True v
      by (cases "oi_side i")
         (auto simp: gate_reasons_Nil admissible_def Let_def loss_reasons_def product_reasons_def
           size_reasons_def valid_exits_def ordered_exits_def not_less not_le split: option.splits if_splits)
    also have "\<dots> \<longleftrightarrow> (\<exists>q n. admissible sha E i ins m p now q n)"
      using sz True v by (auto simp: admissible_def Let_def)
    finally show ?thesis .
  qed
qed

lemma assess_total: "is_ok (assess sha E clk i ins m p (Some (Aware t)))"
  by (auto simp: assess_def normalize_now_def Let_def split: prod.splits)

lemma assess_approved:
  "assess sha E clk i ins m p (Some (Aware t)) = Inr d \<Longrightarrow>
     rd_approved d \<longleftrightarrow> assess_reasons sha E i ins m p t = []"
  using filter_known_Nil [OF assess_reasons_known [of sha E i ins m p t]]
  by (auto simp: assess_def normalize_now_def Let_def split: prod.splits if_splits)

section \<open>Agreement of the sizer and the engine\<close>

text \<open>The intermediate values the sizer computes, each of which must need no rounding.\<close>

definition sizing_values :: "risk_policy \<Rightarrow> signal \<Rightarrow> instrument \<Rightarrow> portfolio_snapshot \<Rightarrow> rat list" where
  "sizing_values pol s ins p =
     (let entry = sig_entry_price s; distance = dsub entry (sig_invalidation_price s);
          risk = dmul (ps_equity p) (rpol_max_trade_risk_fraction pol);
          position_room = dmul (ps_equity p) (rpol_max_position_fraction pol) - held_notional p (sig_instrument_id s);
          gross_room = dmul (ps_equity p) (rpol_max_gross_exposure_fraction pol) - ps_gross_exposure p;
          v = min (min (risk / distance) (position_room / entry)) (gross_room / entry);
          step = ins_quantity_step ins; k = of_int \<lfloor>v / step\<rfloor>
      in [risk / distance, position_room, gross_room, position_room / entry, gross_room / entry, v / step,
          k, k * step, k * step * entry])"

definition sizing_exact :: "risk_policy \<Rightarrow> signal \<Rightarrow> instrument \<Rightarrow> portfolio_snapshot \<Rightarrow> bool" where
  "sizing_exact pol s ins p \<longleftrightarrow> list_all representable (sizing_values pol s ins p)"

lemma create_intent_InrD:
  assumes "create_intent sha pol s ins p h now tif product session = Inr (Inr i)"
  shows "\<exists>t q. now = Aware t \<and> q = sized_quantity pol s ins p \<and> 0 < q \<and>
     valid_portfolio p \<and> h \<noteq> [] \<and> h = portfolio_hash sha p \<and> valid_instrument ins \<and>
     sig_instrument_id s = canonical_instrument_id ins \<and> sig_direction s = LONG \<and>
     valid_signal_prices (sig_entry_price s) (sig_invalidation_price s) (sig_take_profit s) BUY (ins_price_tick ins) \<and>
     ins_minimum_notional ins \<le> dmul q (sig_entry_price s) \<and> dmul q (sig_entry_price s) \<le> ps_cash p \<and>
     i = \<lparr>oi_intent_id = sig_strategy_id s @ '':'' @ sig_instrument_id s @ '':'' @ iso_text t,
          oi_instrument_id = sig_instrument_id s, oi_side = BUY, oi_quantity = Some q, oi_notional = None,
          oi_order_type = LIMIT, oi_limit_price = Some (sig_entry_price s),
          oi_stop_loss = Some (sig_invalidation_price s), oi_take_profit = Some (sig_take_profit s),
          oi_time_in_force = tif, oi_product = ''cash'', oi_session = session,
          oi_snapshot_hash = portfolio_hash sha p, oi_created_at = t,
          oi_expires_at = t + rpol_decision_ttl pol, oi_trigger_price = None\<rparr>"
proof -
  have v: "validate_order_intent x = Inr y \<Longrightarrow> y = x" for x y
    by (auto simp: validate_order_intent_def split: if_splits)
  show ?thesis
    using assms unfolding create_intent_def normalize_now_def Let_def
    by (cases "sig_direction s")
       (auto simp: rbind_eq_Inr aware_utc_Inr not_less not_le dest!: v split: if_splits)
qed

lemma sized_quantity_exact:
  assumes ex: "sizing_exact pol s ins p" and step: "0 < ins_quantity_step ins"
    and pos: "0 < sized_quantity pol s ins p" and entry: "0 < sig_entry_price s"
    and dist: "sig_invalidation_price s < sig_entry_price s"
  shows "is_step_aligned (sized_quantity pol s ins p) (ins_quantity_step ins) \<and>
     dmul (sized_quantity pol s ins p) (dabs (dsub (sig_entry_price s) (sig_invalidation_price s)))
       \<le> dmul (ps_equity p) (rpol_max_trade_risk_fraction pol) \<and>
     dadd (held_notional p (sig_instrument_id s)) (dmul (sized_quantity pol s ins p) (sig_entry_price s))
       \<le> dmul (ps_equity p) (rpol_max_position_fraction pol) \<and>
     dadd (ps_gross_exposure p) (dmul (sized_quantity pol s ins p) (sig_entry_price s))
       \<le> dmul (ps_equity p) (rpol_max_gross_exposure_fraction pol)"
proof -
  let ?e = "sig_entry_price s" and ?D = "dsub (sig_entry_price s) (sig_invalidation_price s)"
  let ?R = "dmul (ps_equity p) (rpol_max_trade_risk_fraction pol)"
  let ?P = "dmul (ps_equity p) (rpol_max_position_fraction pol)" and ?H = "held_notional p (sig_instrument_id s)"
  let ?G = "dmul (ps_equity p) (rpol_max_gross_exposure_fraction pol)" and ?X = "ps_gross_exposure p"
  let ?st = "ins_quantity_step ins"
  define v where "v = min (min (?R / ?D) ((?P - ?H) / ?e)) ((?G - ?X) / ?e)"
  define k where "k = rat_of_int \<lfloor>v / ?st\<rfloor>"
  have r: "representable (?R / ?D)" "representable (?P - ?H)" "representable (?G - ?X)"
    "representable ((?P - ?H) / ?e)" "representable ((?G - ?X) / ?e)" "representable (v / ?st)"
    "representable k" "representable (k * ?st)" "representable (k * ?st * ?e)"
    using ex by (simp_all add: sizing_exact_def sizing_values_def Let_def v_def k_def)
  have q0: "sized_quantity pol s ins p = dmul (integral_down (v / ?st)) ?st"
    using r by (simp add: sized_quantity_def round_down_step_def Let_def ddiv_def dsub_def
        representable_def v_def)
  with pos have "0 < integral_down (v / ?st)"
    using step by (simp add: dmul_def zero_less_mult_iff)
  then have vpos: "0 \<le> v / ?st"
    by (auto simp: integral_down_def split: if_splits)
  then have q: "sized_quantity pol s ins p = k * ?st"
    using r(8) q0 by (simp add: integral_down_def k_def dmul_def representable_def)
  have "k \<le> v / ?st"
    by (simp add: k_def)
  then have qv: "k * ?st \<le> v"
    using step by (simp add: pos_le_divide_eq)
  have D: "0 < ?D"
    using dist by simp
  have "ddiv (k * ?st) ?st = k"
    using step r(7) by (simp add: ddiv_def representable_def)
  then have al: "is_step_aligned (k * ?st) ?st"
    by (simp add: is_step_aligned_def Let_def integral_even_def k_def)
  have "k * ?st \<le> ?R / ?D"
    using qv by (simp add: v_def)
  then have "k * ?st * ?D \<le> ?R"
    using D by (simp add: pos_le_divide_eq)
  moreover have "dabs ?D = ?D"
    using D by (simp add: dabs_def representable_def [symmetric])
  ultimately have risk: "dmul (k * ?st) (dabs ?D) \<le> ?R"
    by (simp add: dmul_def rnd_le)
  have n: "dmul (k * ?st) ?e = k * ?st * ?e"
    using r(9) by (simp add: dmul_def representable_def)
  have "k * ?st \<le> (?P - ?H) / ?e" "k * ?st \<le> (?G - ?X) / ?e"
    using qv by (simp_all add: v_def)
  then have "?H + k * ?st * ?e \<le> ?P" "?X + k * ?st * ?e \<le> ?G"
    using entry by (simp_all add: pos_le_divide_eq)
  then have "dadd ?H (k * ?st * ?e) \<le> ?P" "dadd ?X (k * ?st * ?e) \<le> ?G"
    by (simp_all add: dadd_def rnd_le)
  with al risk n show ?thesis
    by (simp add: q)
qed

lemma sized_intent_admissible:
  assumes ci: "create_intent sha pol s ins p h (Aware t) tif product session = Inr (Inr i)"
    and ex: "sizing_exact pol s ins p" and pol: "validate_policy pol = Inr pol"
    and E: "re_policy E = pol" "\<not> re_kill_switch E" "re_expected_portfolio_hash E \<in> {None, Some h}"
    and m: "valid_market_time m t" "ms_instrument_id m = canonical_instrument_id ins"
    and p: "valid_portfolio_time p t (rpol_decision_ttl pol)" "loss_reasons pol p = []"
    and cls: "ins_asset_class ins \<in> {EQUITY, CRYPTO_SPOT}"
  shows "admissible sha E i ins m p t (sized_quantity pol s ins p)
     (dmul (sized_quantity pol s ins p) (sig_entry_price s))"
proof -
  let ?q = "sized_quantity pol s ins p" and ?e = "sig_entry_price s"
  from create_intent_InrD [OF ci] have q: "0 < ?q" "valid_portfolio p" "h \<noteq> []" "h = portfolio_hash sha p"
    "valid_instrument ins" "sig_instrument_id s = canonical_instrument_id ins"
    "valid_signal_prices ?e (sig_invalidation_price s) (sig_take_profit s) BUY (ins_price_tick ins)"
    "ins_minimum_notional ins \<le> dmul ?q ?e" "dmul ?q ?e \<le> ps_cash p"
    and i: "oi_instrument_id i = sig_instrument_id s" "oi_side i = BUY" "oi_quantity i = Some ?q"
    "oi_limit_price i = Some ?e" "oi_stop_loss i = Some (sig_invalidation_price s)"
    "oi_take_profit i = Some (sig_take_profit s)" "oi_product i = ''cash''"
    "oi_snapshot_hash i = portfolio_hash sha p" "oi_created_at i = t"
    "oi_expires_at i = t + rpol_decision_ttl pol"
    by auto
  from q(7) have pr: "0 < ?e" "0 < sig_invalidation_price s" "sig_invalidation_price s < ?e"
    "?e < sig_take_profit s" "is_step_aligned ?e (ins_price_tick ins)"
    "is_step_aligned (sig_invalidation_price s) (ins_price_tick ins)"
    "is_step_aligned (sig_take_profit s) (ins_price_tick ins)"
    by (auto simp: valid_signal_prices_def ordered_exits_def split: if_splits)
  have step: "0 < ins_quantity_step ins"
    using q(5) by (simp add: valid_instrument_def)
  note fit = sized_quantity_exact [OF ex step q(1) pr(1,3)]
  have size: "intent_size i ins m = (Some ?q, Some (dmul ?q ?e), Some ?e, True)"
    using i pr q(1,5) fit by (simp add: intent_size_def Let_def not_le [symmetric])
  have "valid_intent_time i t (rpol_decision_ttl pol)"
    using pol i by (auto simp: valid_intent_time_def validate_policy_def split: if_splits)
  moreover have "lower (strip ''cash'') = ''cash''"
    by code_simp
  ultimately show ?thesis
    using q i pr fit E m p cls size
    by (auto simp: admissible_def Let_def loss_reasons_def not_le split: if_splits)
qed

section \<open>A concrete assessment\<close>

definition demo_instrument :: instrument where
  "demo_instrument = \<lparr>ins_symbol = ''A'', ins_venue = ''X'', ins_asset_class = EQUITY,
     ins_quote_currency = ''USD'', ins_timezone = ''UTC'', ins_price_tick = 1 / 10,
     ins_quantity_step = 1 / 10, ins_minimum_notional = 1, ins_session_calendar = None\<rparr>"

definition demo_portfolio :: portfolio_snapshot where
  "demo_portfolio = \<lparr>ps_currency = ''USD'', ps_cash = 1000, ps_equity = 1000, ps_peak_equity = 1000,
     ps_gross_exposure = 0, ps_daily_pnl = 0, ps_realized_pnl = 0, ps_positions = [], ps_observed_at = 0\<rparr>"

definition demo_market :: market_snapshot where
  "demo_market = \<lparr>ms_instrument_id = ''A@X'', ms_observed_at = 0, ms_source_at = 0, ms_bars = [],
     ms_provider = ''p'', ms_max_age_seconds = 60\<rparr>"

definition demo_policy :: risk_policy where
  "demo_policy = \<lparr>rpol_max_trade_risk_fraction = 5 / 1000, rpol_max_position_fraction = 1 / 10,
     rpol_max_gross_exposure_fraction = 1 / 2, rpol_max_daily_loss_fraction = 2 / 100,
     rpol_max_drawdown_fraction = 1 / 10, rpol_decision_ttl = 60000000\<rparr>"

definition demo_engine :: "bool \<Rightarrow> risk_engine" where
  "demo_engine kill = \<lparr>re_policy = demo_policy, re_kill_switch = kill, re_expected_portfolio_hash = Some ''h''\<rparr>"

definition demo_signal :: signal where
  "demo_signal = \<lparr>sig_strategy_id = ''s'', sig_strategy_version = ''1'', sig_instrument_id = ''A@X'',
     sig_direction = LONG, sig_strength = 1, sig_horizon = SWING, sig_entry_price = 20,
     sig_invalidation_price = 195 / 10, sig_take_profit = 22, sig_research_required = False,
     sig_evidence_uris = []\<rparr>"

definition demo_intent :: order_intent where
  "demo_intent = \<lparr>oi_intent_id = ''s:A@X:1970-01-01T00:00:00+00:00'', oi_instrument_id = ''A@X'',
     oi_side = BUY, oi_quantity = Some 5, oi_notional = None, oi_order_type = LIMIT,
     oi_limit_price = Some 20, oi_stop_loss = Some (195 / 10), oi_take_profit = Some 22,
     oi_time_in_force = ''day'', oi_product = ''cash'', oi_session = ''regular'', oi_snapshot_hash = ''h'',
     oi_created_at = 0, oi_expires_at = 60000000, oi_trigger_price = None\<rparr>"

definition demo_sha :: "string \<Rightarrow> string" where
  "demo_sha s = ''h''"

lemma demo_sized: "create_intent demo_sha demo_policy demo_signal demo_instrument demo_portfolio ''h'' (Aware 0)
    ''day'' ''cash'' ''regular'' = Inr (Inr demo_intent)"
  by code_simp

lemma demo_sizing_exact: "sizing_exact demo_policy demo_signal demo_instrument demo_portfolio"
  unfolding sizing_exact_def representable_def by code_simp

lemma demo_quantity: "sized_quantity demo_policy demo_signal demo_instrument demo_portfolio = 5"
  by code_simp

lemma demo_gates: "validate_policy demo_policy = Inr demo_policy" "valid_market_time demo_market 0"
  "valid_portfolio_time demo_portfolio 0 (rpol_decision_ttl demo_policy)"
  "loss_reasons demo_policy demo_portfolio = []" "canonical_instrument_id demo_instrument = ''A@X''"
  by code_simp+

section \<open>Properties\<close>

text \<open>C9: the risk engine decides exactly what its specification admits: on an aware time it always
  returns a decision, the decision is approved if and only if the order is admissible (kill switch
  off, fresh and matching data, a cash purchase with ordered, tick-aligned exits, and every
  position, exposure, stop-risk, loss, drawdown, cash and minimum-size limit respected), an
  approval carries the admitted size and expires after the policy's time to live, and a rejection
  carries no executable size.\<close>

theorem approval_iff_admissible:
  shows "\<exists>d. assess sha E clk i ins m p (Some (Aware t)) = Inr d \<and>
     (rd_approved d \<longleftrightarrow> (\<exists>q n. admissible sha E i ins m p t q n)) \<and>
     (if rd_approved d
      then \<exists>q n. admissible sha E i ins m p t q n \<and> rd_approved_quantity d = Some q \<and>
         rd_approved_notional d = Some n \<and> rd_decided_at d = t \<and>
         rd_expires_at d = t + rpol_decision_ttl (re_policy E)
      else rd_approved_quantity d = None \<and> rd_approved_notional d = None \<and> rd_expires_at d = t)"
proof -
  obtain d where d: "assess sha E clk i ins m p (Some (Aware t)) = Inr d"
    using assess_total is_ok_iff by metis
  have ap: "rd_approved d \<longleftrightarrow> (\<exists>q n. admissible sha E i ins m p t q n)"
    using assess_approved [OF d] assess_reasons_Nil by metis
  show ?thesis
  proof (cases "rd_approved d")
    case True
    then obtain q n where ad: "admissible sha E i ins m p t q n"
      using ap by blast
    then obtain pr where "intent_size i ins m = (Some q, Some n, pr, True)"
      by (auto simp: admissible_def Let_def)
    with d True have "rd_approved_quantity d = Some q \<and> rd_approved_notional d = Some n \<and>
        rd_decided_at d = t \<and> rd_expires_at d = t + rpol_decision_ttl (re_policy E)"
      by (auto simp: assess_def normalize_now_def Let_def split: if_splits)
    with d ap ad True show ?thesis
      by auto
  next
    case False
    with d have "rd_approved_quantity d = None \<and> rd_approved_notional d = None \<and> rd_expires_at d = t"
      by (auto simp: assess_def normalize_now_def Let_def split: if_splits prod.splits)
    with d ap False show ?thesis
      by auto
  qed
qed

text \<open>The reasons of a decision are reported in the documented order without repetition, a
  decision is approved exactly when it reports none, an active kill switch is always the first
  reason, and a sale is always rejected with the short-sale reason.\<close>

lemma reported_reasons:
  assumes "assess sha E clk i ins m p now = Inr d"
  shows "subseq (rd_reason_codes d) reason_order \<and> distinct (rd_reason_codes d) \<and>
     (rd_approved d \<longleftrightarrow> rd_reason_codes d = []) \<and>
     (re_kill_switch E \<longrightarrow> rd_reason_codes d \<noteq> [] \<and> hd (rd_reason_codes d) = ''KILL_SWITCH_ACTIVE'') \<and>
     (oi_side i = SELL \<longrightarrow> ''SHORT_FORBIDDEN'' \<in> set (rd_reason_codes d))"
proof -
  obtain t where t: "normalize_now (case now of None \<Rightarrow> clk | Some v \<Rightarrow> v) = Inr t"
    using assms by (auto simp: assess_def rbind_eq_Inr)
  let ?rs = "assess_reasons sha E i ins m p t"
  have codes: "rd_reason_codes d = filter (\<lambda>c. c \<in> set ?rs) reason_order"
    and ap: "rd_approved d \<longleftrightarrow> rd_reason_codes d = []"
    using assms t by (auto simp: assess_def Let_def split: if_splits prod.splits)
  have "distinct reason_order" and ro: "reason_order = ''KILL_SWITCH_ACTIVE'' # tl reason_order"
    and sf: "''SHORT_FORBIDDEN'' \<in> set reason_order"
    by (simp_all add: reason_order_def)
  moreover have "''KILL_SWITCH_ACTIVE'' \<in> set ?rs" if "re_kill_switch E"
    using that by (simp add: assess_reasons_def gate_reasons_def Let_def case_prod_beta)
  then have "hd (rd_reason_codes d) = ''KILL_SWITCH_ACTIVE'' \<and> rd_reason_codes d \<noteq> []" if "re_kill_switch E"
    using that by (subst (1 2) codes, subst (1 2) ro) simp
  moreover have "''SHORT_FORBIDDEN'' \<in> set ?rs" if "oi_side i = SELL"
    using that by (simp add: assess_reasons_def product_reasons_def case_prod_beta)
  then have "''SHORT_FORBIDDEN'' \<in> set (rd_reason_codes d)" if "oi_side i = SELL"
    using that sf by (simp add: codes)
  ultimately show ?thesis
    using ap codes subseq_filter_left by (metis distinct_filter)
qed

text \<open>C20: the sizer and the engine agree: an intent the sizer creates is approved for exactly its
  quantity when it is assessed at the same time against the same portfolio, provided the
  intermediate values of the sizing need no rounding, the market data are fresh and for the same
  instrument, and neither the kill switch nor a loss limit is active.\<close>

theorem sized_intents_approved:
  assumes "create_intent sha pol s ins p h (Aware t) tif product session = Inr (Inr i)"
    and "sizing_exact pol s ins p" and "validate_policy pol = Inr pol"
    and "re_policy E = pol" and "\<not> re_kill_switch E" and "re_expected_portfolio_hash E \<in> {None, Some h}"
    and "valid_market_time m t" and "ms_instrument_id m = canonical_instrument_id ins"
    and "valid_portfolio_time p t (rpol_decision_ttl pol)" and "loss_reasons pol p = []"
    and "ins_asset_class ins \<in> {EQUITY, CRYPTO_SPOT}"
  shows "\<exists>d. assess sha E clk i ins m p (Some (Aware t)) = Inr d \<and> rd_approved d \<and>
     rd_approved_quantity d = oi_quantity i \<and> rd_portfolio_hash d = h"
proof -
  have ad: "admissible sha E i ins m p t (sized_quantity pol s ins p)
      (dmul (sized_quantity pol s ins p) (sig_entry_price s))"
    using sized_intent_admissible assms by blast
  obtain d where d: "assess sha E clk i ins m p (Some (Aware t)) = Inr d"
    using assess_total is_ok_iff by metis
  have "assess_reasons sha E i ins m p t = []"
    using ad assess_reasons_Nil by blast
  moreover obtain pr where "intent_size i ins m = (Some (sized_quantity pol s ins p),
      Some (dmul (sized_quantity pol s ins p) (sig_entry_price s)), pr, True)"
    using ad by (auto simp: admissible_def Let_def)
  moreover have "oi_quantity i = Some (sized_quantity pol s ins p)" "h = portfolio_hash sha p"
    using create_intent_InrD [OF assms(1)] by auto
  ultimately show ?thesis
    using d by (auto simp: assess_def normalize_now_def Let_def)
qed

theorem sized_intents_approved_witness:
  "\<exists>d. assess demo_sha (demo_engine False) (Aware 0) demo_intent demo_instrument demo_market demo_portfolio
      (Some (Aware 0)) = Inr d \<and> rd_approved d \<and> rd_approved_quantity d = Some 5"
proof -
  have "re_policy (demo_engine False) = demo_policy" "\<not> re_kill_switch (demo_engine False)"
    "re_expected_portfolio_hash (demo_engine False) \<in> {None, Some ''h''}"
    "ms_instrument_id demo_market = canonical_instrument_id demo_instrument"
    "ins_asset_class demo_instrument \<in> {EQUITY, CRYPTO_SPOT}" "oi_quantity demo_intent = Some 5"
    using demo_gates(5) by (simp_all add: demo_engine_def demo_market_def demo_instrument_def demo_intent_def)
  then show ?thesis
    using sized_intents_approved [OF demo_sized demo_sizing_exact demo_gates(1) _ _ _ demo_gates(2) _
        demo_gates(3,4)] by metis
qed

text \<open>No configuration can relax the fixed limits: a policy made from any settings the settings
  validator accepts exists, and each of its limits is positive, at most the configured one and at
  most the fixed safe one; the same holds of the settings themselves in live-small mode.\<close>

lemma policy_never_relaxes:
  assumes "validate_risk_settings s = Inr s"
  shows "\<exists>p. policy_from_settings s = Inr p \<and> list_all (\<lambda>(v, safe). 0 < v \<and> v \<le> safe) (policy_limits p) \<and>
     rpol_max_trade_risk_fraction p \<le> rs_max_trade_risk_fraction s \<and>
     rpol_max_position_fraction p \<le> rs_max_position_fraction s \<and>
     rpol_max_gross_exposure_fraction p \<le> rs_max_gross_exposure_fraction s \<and>
     rpol_max_daily_loss_fraction p \<le> rs_max_daily_loss_fraction s \<and>
     rpol_max_drawdown_fraction p \<le> rs_max_drawdown_fraction s \<and>
     rpol_max_trade_risk_fraction p = rs_max_trade_risk_fraction (settings_risk LIVE_SMALL s) \<and>
     rpol_max_drawdown_fraction p = rs_max_drawdown_fraction (settings_risk LIVE_SMALL s)"
  using assms
  by (auto simp: policy_from_settings_def validate_policy_def policy_limits_def validate_risk_settings_def
      settings_risk_def safe_limits seconds_def split: if_splits)

end
