(* ===== verification/FillModel.thy ===== *)
theory FillModel
  imports Domain
begin

text \<open>
  The deterministic execution model of \<open>backtest/engine.py\<close> that backtests and the paper broker
  share: cost assumptions, adverse tick rounding, latency, the liquidity budget of one market
  event and its allocation to orders.  The arithmetic exceptions the code converts
  (\<open>InvalidOperation\<close>, \<open>OverflowError\<close>) come from the exponent range, which is not modelled; a
  zero divisor is excluded by the preceding checks.
\<close>

section \<open>Costs\<close>

record cost_model =
  cm_fee_bps :: dec
  cm_spread_bps :: dec
  cm_slippage_bps :: dec
  cm_latency :: int

definition engine_nonnegative :: "string \<Rightarrow> dec \<Rightarrow> dec result" where
  "engine_nonnegative name v =
     (if v < 0 then Inl (ValueError (name @ '' must be a finite nonnegative Decimal'')) else Inr v)"

definition validate_costs :: "cost_model \<Rightarrow> cost_model result" where
  "validate_costs c =
     rbind (engine_nonnegative ''fee_bps'' (cm_fee_bps c)) (\<lambda>_.
     rbind (engine_nonnegative ''spread_bps'' (cm_spread_bps c)) (\<lambda>_.
     rbind (engine_nonnegative ''slippage_bps'' (cm_slippage_bps c)) (\<lambda>_.
     if cm_latency c < 0 then Inl (ValueError ''latency must be a nonnegative timedelta'') else Inr c)))"

definition default_costs :: cost_model where
  "default_costs = \<lparr>cm_fee_bps = 0, cm_spread_bps = 0, cm_slippage_bps = 0, cm_latency = 0\<rparr>"

definition stressed :: "dec \<Rightarrow> cost_model \<Rightarrow> cost_model result" where
  "stressed multiplier c =
     (if multiplier \<le> 0 then Inl (ValueError ''cost multiplier must be a positive finite Decimal'')
      else validate_costs \<lparr>cm_fee_bps = dmul (cm_fee_bps c) multiplier,
        cm_spread_bps = dmul (cm_spread_bps c) multiplier,
        cm_slippage_bps = dmul (cm_slippage_bps c) multiplier, cm_latency = cm_latency c\<rparr>)"

definition bps :: dec where "bps = 10000"

section \<open>Steps\<close>

definition step_aligned :: "dec \<Rightarrow> dec \<Rightarrow> bool" where
  "step_aligned v step = (let q = ddiv v step in q = integral_even q)"

definition floor_quantity :: "dec \<Rightarrow> dec \<Rightarrow> dec" where
  "floor_quantity v step = dmul (integral_floor (ddiv v step)) step"

section \<open>Fills\<close>

definition engine_aware :: "string \<Rightarrow> pydt \<Rightarrow> instant result" where
  "engine_aware name v = aware_utc (ValueError (name @ '' must be timezone-aware'')) v"

definition can_fill :: "cost_model \<Rightarrow> pydt \<Rightarrow> pydt \<Rightarrow> bool result" where
  "can_fill c submitted_at event_at =
     rbind (engine_aware ''submitted_at'' submitted_at) (\<lambda>s.
     rbind (engine_aware ''event_at'' event_at) (\<lambda>e.
     if e < s then Inl (ValueError ''event_at must not precede submitted_at'')
     else Inr (s + cm_latency c \<le> e)))"

definition impact_bps :: "cost_model \<Rightarrow> dec" where
  "impact_bps c = dadd (ddiv (cm_spread_bps c) 2) (cm_slippage_bps c)"

definition raw_fill_price :: "cost_model \<Rightarrow> side \<Rightarrow> dec \<Rightarrow> dec" where
  "raw_fill_price c s reference = dmul reference (case s of
     BUY \<Rightarrow> dadd 1 (ddiv (impact_bps c) bps) | SELL \<Rightarrow> dsub 1 (ddiv (impact_bps c) bps))"

definition tick_price :: "side \<Rightarrow> dec \<Rightarrow> dec \<Rightarrow> dec" where
  "tick_price s raw tick = dmul (case s of BUY \<Rightarrow> integral_ceiling (ddiv raw tick)
     | SELL \<Rightarrow> integral_floor (ddiv raw tick)) tick"

definition model_fill ::
  "cost_model \<Rightarrow> string \<Rightarrow> string \<Rightarrow> instrument \<Rightarrow> side \<Rightarrow> dec \<Rightarrow> dec \<Rightarrow> pydt \<Rightarrow> pydt \<Rightarrow> fill result" where
  "model_fill c fill_id order_id ins s quantity reference submitted_at filled_at =
     (if quantity \<le> 0 then Inl (ValueError ''quantity must be a positive Decimal'')
      else if reference \<le> 0 then Inl (ValueError ''reference_price must be a positive Decimal'')
      else if ins_price_tick ins \<le> 0 \<or> ins_quantity_step ins \<le> 0
      then Inl (ValueError ''instrument precision must be finite and positive'')
      else if \<not> step_aligned quantity (ins_quantity_step ins)
      then Inl (ValueError ''quantity must align with the instrument quantity step'')
      else rbind (can_fill c submitted_at filled_at) (\<lambda>ok.
        if \<not> ok then Inl (ValueError ''fill event occurs before the latency deadline'')
        else if s = SELL \<and> impact_bps c \<ge> bps
        then Inl (ValueError ''sell execution impact must be below 10000 bps'')
        else let price = tick_price s (raw_fill_price c s reference) (ins_price_tick ins);
                 fee = ddiv (dmul (dmul quantity price) (cm_fee_bps c)) bps in
          if price \<le> 0 then Inl (ValueError ''rounded fill price must be finite and positive'')
          else if fee < 0 then Inl (ValueError ''fill fee must be finite and nonnegative'')
          else rbind (engine_aware ''filled_at'' filled_at) (\<lambda>t.
            Inr \<lparr>fl_fill_id = fill_id, fl_order_id = order_id,
              fl_instrument_id = ins_symbol ins @ ''@'' @ ins_venue ins, fl_side = s,
              fl_quantity = quantity, fl_price = price, fl_fee = fee, fl_filled_at = t\<rparr>)))"

section \<open>Liquidity\<close>

definition liquidity_budget :: "dec \<Rightarrow> dec \<Rightarrow> dec \<Rightarrow> dec result" where
  "liquidity_budget event_volume max_participation quantity_step =
     (if event_volume < 0 then Inl (ValueError ''event_volume must be a finite nonnegative Decimal'')
      else if max_participation \<le> 0 \<or> max_participation > 1
      then Inl (ValueError ''max_participation must be a Decimal in (0, 1]'')
      else if quantity_step \<le> 0 then Inl (ValueError ''quantity_step must be a finite positive Decimal'')
      else Inr (floor_quantity (dmul event_volume max_participation) quantity_step))"

definition allocate_quantity :: "dec \<Rightarrow> dec \<Rightarrow> dec \<Rightarrow> dec result" where
  "allocate_quantity quantity_step remaining available =
     (if remaining < 0 then Inl (ValueError ''remaining_quantity must be a finite nonnegative Decimal'')
      else if available < 0 then Inl (ValueError ''available_liquidity must be a finite nonnegative Decimal'')
      else if quantity_step \<le> 0 then Inl (ValueError ''quantity_step must be a finite positive Decimal'')
      else Inr (floor_quantity (min remaining available) quantity_step))"

text \<open>Orders served one after the other from one budget, as the paper broker serves them: each
  takes its allocation and leaves the rest.\<close>

fun share_out ::
  "(dec \<Rightarrow> dec \<Rightarrow> dec result) \<Rightarrow> dec list \<Rightarrow> dec \<Rightarrow> (dec list \<times> dec) result" where
  "share_out alloc [] available = Inr ([], available)"
| "share_out alloc (r # rs) available = rbind (alloc r available) (\<lambda>q.
     rbind (share_out alloc rs (dsub available q)) (\<lambda>(qs, left). Inr (q # qs, left)))"

section \<open>Adverse prices\<close>

lemma impact_nonneg: "validate_costs c = Inr c \<Longrightarrow> 0 \<le> impact_bps c"
  by (auto simp: validate_costs_def engine_nonnegative_def impact_bps_def rbind_eq_Inr split: if_splits)

lemma raw_fill_price_adverse:
  assumes "0 \<le> impact_bps c" "0 < reference" "representable reference"
  shows "case s of BUY \<Rightarrow> reference \<le> raw_fill_price c s reference
     | SELL \<Rightarrow> raw_fill_price c s reference \<le> reference"
proof -
  have i: "0 \<le> ddiv (impact_bps c) bps"
    using assms(1) by (simp add: bps_def)
  have one: "representable 1"
    using representable_int [of 1] by simp
  have "1 \<le> dadd 1 (ddiv (impact_bps c) bps)" "dsub 1 (ddiv (impact_bps c) bps) \<le> 1"
    using i one by (auto simp: dadd_def dsub_def intro: rnd_ge rnd_le)
  then have "reference \<le> reference * dadd 1 (ddiv (impact_bps c) bps)"
    "reference * dsub 1 (ddiv (impact_bps c) bps) \<le> reference"
    using assms(2) by (simp_all add: mult_le_cancel_left1 mult_le_cancel_left2)
  then show ?thesis
    using assms(3) by (cases s) (auto simp: raw_fill_price_def dmul_def intro: rnd_ge rnd_le)
qed

text \<open>The quotient by the tick and the product back need no rounding.\<close>

definition tick_exact :: "dec \<Rightarrow> dec \<Rightarrow> bool" where
  "tick_exact raw tick \<longleftrightarrow> representable (raw / tick) \<and> representable (of_int \<lceil>raw / tick\<rceil> * tick) \<and>
     representable (of_int \<lfloor>raw / tick\<rfloor> * tick)"

lemma tick_price_exact:
  assumes "tick_exact raw tick" "0 < tick"
  shows "case s of BUY \<Rightarrow> raw \<le> tick_price s raw tick \<and> tick_price s raw tick < raw + tick
     | SELL \<Rightarrow> tick_price s raw tick \<le> raw \<and> raw - tick < tick_price s raw tick"
proof -
  have "of_int \<lceil>raw / tick\<rceil> < raw / tick + 1" "raw / tick - 1 < of_int \<lfloor>raw / tick\<rfloor>"
    by linarith+
  then have "of_int \<lceil>raw / tick\<rceil> * tick < raw + tick" "raw - tick < of_int \<lfloor>raw / tick\<rfloor> * tick"
    using assms(2) by (simp_all add: field_simps)
  moreover have "raw / tick \<le> of_int \<lceil>raw / tick\<rceil>" "of_int \<lfloor>raw / tick\<rfloor> \<le> raw / tick"
    by simp_all
  then have "raw \<le> of_int \<lceil>raw / tick\<rceil> * tick" "of_int \<lfloor>raw / tick\<rfloor> * tick \<le> raw"
    using assms(2) by (simp_all add: pos_le_divide_eq pos_divide_le_eq del: le_of_int_ceiling of_int_floor_le)
  ultimately show ?thesis
    using assms(1) by (cases s) (simp_all add: tick_price_def tick_exact_def ddiv_def dmul_def
        representable_def integral_ceiling_def integral_floor_def)
qed

lemma model_fill_InrD:
  assumes "model_fill c fid oid ins s q ref sub tm = Inr f"
  shows "\<exists>s0 t. sub = Aware s0 \<and> tm = Aware t \<and> s0 \<le> t \<and> s0 + cm_latency c \<le> t \<and> 0 < q \<and> 0 < ref \<and>
     0 < ins_price_tick ins \<and> 0 < ins_quantity_step ins \<and> step_aligned q (ins_quantity_step ins) \<and>
     (s = SELL \<longrightarrow> impact_bps c < bps) \<and>
     fl_price f = tick_price s (raw_fill_price c s ref) (ins_price_tick ins) \<and> 0 < fl_price f \<and>
     fl_fee f = ddiv (dmul (dmul q (fl_price f)) (cm_fee_bps c)) bps \<and> 0 \<le> fl_fee f \<and>
     fl_quantity f = q \<and> fl_side f = s \<and> fl_fill_id f = fid \<and> fl_order_id f = oid \<and>
     fl_instrument_id f = ins_symbol ins @ ''@'' @ ins_venue ins \<and> fl_filled_at f = t"
  using assms
  by (auto simp: model_fill_def can_fill_def engine_aware_def Let_def rbind_eq_Inr aware_utc_Inr not_le
      split: if_splits)

section \<open>Allocation on the quantity grid\<close>

text \<open>Quantities \<open>k * step\<close> up to a bound \<open>n\<close> that keeps every one of them representable.\<close>

definition on_grid :: "int \<Rightarrow> dec \<Rightarrow> dec \<Rightarrow> bool" where
  "on_grid n step x \<longleftrightarrow> (\<exists>k. 0 \<le> k \<and> k \<le> n \<and> x = of_int k * step)"

definition grid_ok :: "int \<Rightarrow> dec \<Rightarrow> bool" where
  "grid_ok n step \<longleftrightarrow> 0 < step \<and> 0 \<le> n \<and> n < 10 ^ 28 \<and> (\<forall>k. 0 \<le> k \<longrightarrow> k \<le> n \<longrightarrow> representable (of_int k * step))"

lemma grid_okI:
  assumes "step = of_int c * pow10 e" "0 < c" "0 \<le> n" "n * c < 10 ^ 28"
  shows "grid_ok n step"
proof -
  have "representable (of_int k * step)" if "0 \<le> k" "k \<le> n" for k
  proof (rule representableI)
    have "0 \<le> k * c" "k * c \<le> n * c"
      using that assms by (auto intro: mult_right_mono)
    with assms(4) show "\<bar>k * c\<bar> < 10 ^ 28"
      by (simp only: abs_of_nonneg)
    show "of_int k * step = of_int (k * c) * pow10 e"
      using assms(1) by simp
  qed
  moreover have "n * 1 \<le> n * c"
    using assms by (intro mult_left_mono) auto
  ultimately show ?thesis
    using assms by (simp add: grid_ok_def)
qed

lemma floor_quantity_grid:
  assumes "grid_ok n step" "on_grid n step x"
  shows "floor_quantity x step = x"
proof -
  from assms(2) obtain k where k: "0 \<le> k" "k \<le> n" "x = of_int k * step"
    by (auto simp: on_grid_def)
  with assms(1) have "representable (rat_of_int k)" "representable (of_int k * step)" "step \<noteq> 0"
    using representable_int [of k] by (auto simp: grid_ok_def)
  then show ?thesis
    by (simp add: floor_quantity_def k(3) ddiv_def dmul_def representable_def integral_floor_def)
qed

text \<open>The contract of an allocation: never more than is asked, never more than is there, and what is
  left is again a quantity the allocator can divide.\<close>

locale allocator =
  fixes alloc :: "dec \<Rightarrow> dec \<Rightarrow> dec result"
    and quantity :: "dec \<Rightarrow> bool"
  assumes within: "quantity r \<Longrightarrow> quantity a \<Longrightarrow> alloc r a = Inr q \<Longrightarrow> 0 \<le> q \<and> q \<le> r \<and> q \<le> a"
    and total: "quantity r \<Longrightarrow> quantity a \<Longrightarrow> \<exists>q. alloc r a = Inr q"
    and rest: "quantity r \<Longrightarrow> quantity a \<Longrightarrow> alloc r a = Inr q \<Longrightarrow> quantity (dsub a q) \<and> dsub a q = a - q"
begin

lemma share_out_budget:
  "\<forall>r \<in> set rs. quantity r \<Longrightarrow> quantity a \<Longrightarrow>
     \<exists>qs left. share_out alloc rs a = Inr (qs, left) \<and> list_all2 (\<lambda>q r. 0 \<le> q \<and> q \<le> r) qs rs \<and>
       sum_list qs + left = a \<and> 0 \<le> left"
proof (induction rs arbitrary: a)
  case Nil
  obtain q where q: "alloc a a = Inr q"
    using total [OF Nil.prems(2) Nil.prems(2)] by blast
  have "0 \<le> q" "q \<le> a"
    using within [OF Nil.prems(2) Nil.prems(2) q] by simp_all
  then have "0 \<le> a"
    by (rule order_trans)
  then show ?case
    by simp
next
  case (Cons r rs)
  from total [of r a] Cons.prems obtain q where q: "alloc r a = Inr q"
    by auto
  have "quantity r"
    using Cons.prems(1) by simp
  from within [OF this Cons.prems(2) q] rest [OF this Cons.prems(2) q]
  have 1: "0 \<le> q" "q \<le> r" "quantity (dsub a q)" "dsub a q = a - q"
    by blast+
  from Cons.IH [OF _ 1(3)] Cons.prems obtain qs left where
    "share_out alloc rs (dsub a q) = Inr (qs, left)" "list_all2 (\<lambda>q r. 0 \<le> q \<and> q \<le> r) qs rs"
    "sum_list qs + left = dsub a q" "0 \<le> left"
    by auto
  with q 1 show ?case
    by simp
qed

end

lemma allocate_quantity_grid:
  assumes "grid_ok n step" "on_grid n step r" "on_grid n step a"
  shows "allocate_quantity step r a = Inr (min r a)"
proof -
  have "0 \<le> r" "0 \<le> a" "0 < step"
    using assms by (auto simp: on_grid_def grid_ok_def)
  moreover have "on_grid n step (min r a)"
    using assms(2,3) by (simp add: min_def)
  ultimately show ?thesis
    using floor_quantity_grid [OF assms(1)] by (simp add: allocate_quantity_def)
qed

lemma on_grid_diff:
  assumes "grid_ok n step" "on_grid n step a" "on_grid n step q" "q \<le> a"
  shows "on_grid n step (dsub a q) \<and> dsub a q = a - q"
proof -
  from assms(2,3) obtain j k where jk: "a = of_int j * step" "q = of_int k * step" "0 \<le> j" "j \<le> n" "0 \<le> k"
    by (auto simp: on_grid_def)
  with assms(1,4) have "k \<le> j"
    by (simp add: grid_ok_def)
  have d: "a - q = of_int (j - k) * step"
    using jk by (simp add: left_diff_distrib)
  moreover have "representable (of_int (j - k) * step)"
    using assms(1) jk \<open>k \<le> j\<close> by (auto simp: grid_ok_def simp del: of_int_diff)
  ultimately have "dsub a q = a - q"
    by (simp add: dsub_def representable_def del: of_int_diff)
  moreover have "on_grid n step (a - q)"
    unfolding d on_grid_def using jk \<open>k \<le> j\<close> by (intro exI [of _ "j - k"]) auto
  ultimately show ?thesis
    by simp
qed

definition demo_step :: dec where "demo_step = 1 / 100"

lemma grid_allocator:
  assumes "grid_ok n step"
  shows "allocator (allocate_quantity step) (on_grid n step)"
proof
  fix r a q assume g: "on_grid n step r" "on_grid n step a" and q: "allocate_quantity step r a = Inr q"
  then have q: "q = min r a"
    using allocate_quantity_grid [OF assms g] by simp
  have "0 \<le> r" "0 \<le> a"
    using g assms by (auto simp: on_grid_def grid_ok_def)
  then show "0 \<le> q \<and> q \<le> r \<and> q \<le> a"
    by (simp add: q)
  have "on_grid n step q"
    using g by (simp add: q min_def)
  moreover have "q \<le> a"
    by (simp add: q)
  ultimately show "on_grid n step (dsub a q) \<and> dsub a q = a - q"
    by (rule on_grid_diff [OF assms g(2)])
next
  fix r a assume "on_grid n step r" "on_grid n step a"
  then show "\<exists>q. allocate_quantity step r a = Inr q"
    using allocate_quantity_grid [OF assms] by blast
qed

text \<open>Hundredths up to a million million: the grid of the fractional venues.\<close>

interpretation cents: allocator "allocate_quantity demo_step" "on_grid 100000000000000 demo_step"
  by (rule grid_allocator, rule grid_okI [of _ 1 "- 2"]) (simp_all add: demo_step_def pow10_def)

section \<open>Properties\<close>

text \<open>C23: fills are never better than the market: a fill the model produces happens at or after the
  latency deadline, has a positive tick-rounded price that is at least the reference price for a
  purchase and at most it for a sale, within one tick of the cost-adjusted price, and charges a
  nonnegative fee, provided the reference has at most 28 digits and its division into ticks needs
  no rounding.\<close>

theorem fills_are_adverse:
  assumes "validate_costs c = Inr c" and "representable ref"
    and "tick_exact (raw_fill_price c s ref) (ins_price_tick ins)"
    and "model_fill c fid oid ins s q ref (Aware t0) (Aware t1) = Inr f"
  shows "t0 + cm_latency c \<le> fl_filled_at f \<and> fl_filled_at f = t1 \<and> 0 < fl_price f \<and> 0 \<le> fl_fee f \<and>
     fl_quantity f = q \<and> \<bar>fl_price f - raw_fill_price c s ref\<bar> < ins_price_tick ins \<and>
     (case s of BUY \<Rightarrow> ref \<le> fl_price f | SELL \<Rightarrow> fl_price f \<le> ref)"
proof -
  from model_fill_InrD [OF assms(4)] have f: "fl_price f = tick_price s (raw_fill_price c s ref) (ins_price_tick ins)"
    "0 < ref" "0 < ins_price_tick ins" "t0 + cm_latency c \<le> t1" "fl_filled_at f = t1" "0 < fl_price f"
    "0 \<le> fl_fee f" "fl_quantity f = q"
    by auto
  have "case s of BUY \<Rightarrow> ref \<le> raw_fill_price c s ref | SELL \<Rightarrow> raw_fill_price c s ref \<le> ref"
    using impact_nonneg [OF assms(1)] f(2) assms(2) by (rule raw_fill_price_adverse)
  with tick_price_exact [OF assms(3) f(3), of s] f show ?thesis
    by (cases s) (auto simp: abs_less_iff)
qed

definition demo_costs :: cost_model where
  "demo_costs = \<lparr>cm_fee_bps = 10, cm_spread_bps = 4, cm_slippage_bps = 3, cm_latency = 5\<rparr>"

definition fill_instrument :: instrument where
  "fill_instrument = \<lparr>ins_symbol = ''A'', ins_venue = ''X'', ins_asset_class = EQUITY,
     ins_quote_currency = ''USD'', ins_timezone = ''UTC'', ins_price_tick = 1 / 100,
     ins_quantity_step = 1 / 10, ins_minimum_notional = 1, ins_session_calendar = None\<rparr>"

theorem fills_are_adverse_witness:
  "\<exists>f. model_fill demo_costs ''f'' ''o'' fill_instrument BUY 2 (1001 / 100) (Aware 0) (Aware 9) = Inr f \<and>
     fl_price f = 1002 / 100 \<and> 1001 / 100 \<le> fl_price f"
proof -
  have v: "validate_costs demo_costs = Inr demo_costs" "representable (1001 / 100)"
    "tick_exact (raw_fill_price demo_costs BUY (1001 / 100)) (ins_price_tick fill_instrument)"
    unfolding representable_def tick_exact_def by code_simp+
  obtain f where f: "model_fill demo_costs ''f'' ''o'' fill_instrument BUY 2 (1001 / 100) (Aware 0) (Aware 9) = Inr f"
    and p: "fl_price f = 1002 / 100"
  proof -
    have "(case model_fill demo_costs ''f'' ''o'' fill_instrument BUY 2 (1001 / 100) (Aware 0) (Aware 9) of
        Inr f \<Rightarrow> fl_price f = 1002 / 100 | Inl _ \<Rightarrow> False)"
      by code_simp
    then show thesis
      using that by (auto split: sum.splits)
  qed
  with fills_are_adverse [OF v f] show ?thesis
    by auto
qed

text \<open>One liquidity budget is never handed out twice: when orders are served in sequence from one
  budget and all quantities lie on the instrument's grid, every order gets at most what it asks
  for, every allocation succeeds, and the allocations and the rest add up to the budget.\<close>

lemma budget_shared_once:
  assumes "grid_ok n step" and "list_all (on_grid n step) rs" and "on_grid n step a"
  shows "\<exists>qs left. share_out (allocate_quantity step) rs a = Inr (qs, left) \<and>
     list_all2 (\<lambda>q r. 0 \<le> q \<and> q \<le> r) qs rs \<and> sum_list qs + left = a \<and> 0 \<le> left"
  using allocator.share_out_budget [OF grid_allocator [OF assms(1)]] assms(2,3) by (simp add: list_all_iff)

lemma budget_shared_once_demo:
  "\<exists>qs left. share_out (allocate_quantity demo_step) [3, 5, 4] 10 = Inr (qs, left) \<and> sum_list qs + left = 10"
proof -
  have "grid_ok 1000 demo_step"
    by (rule grid_okI [of _ 1 "- 2"]) (simp_all add: demo_step_def pow10_def)
  moreover have "list_all (on_grid 1000 demo_step) [3, 5, 4]" "on_grid 1000 demo_step 10"
    by (auto simp: on_grid_def demo_step_def intro: exI [of _ 300] exI [of _ 500] exI [of _ 400] exI [of _ 1000])
  ultimately show ?thesis
    using budget_shared_once by blast
qed

text \<open>Off the grid the allocation can exceed what it was asked to fill: the quotient by the step
  is rounded to 28 digits before it is floored, so this remaining quantity of 29 digits is
  allocated one whole step.\<close>

lemma allocation_can_exceed_remaining:
  "allocate_quantity 1 (99999999999999999999999999999 / 100000000000000000000000000000) 5 = Inr 1 \<and>
   (99999999999999999999999999999 / 100000000000000000000000000000 :: dec) < 1"
  by code_simp

end
