(* ===== verification/EventStore.thy ===== *)
theory EventStore
  imports Json Timestamps
begin

text \<open>
  The append-only event ledger of \<open>storage/events.py\<close> over the schema of \<open>storage/db.py\<close>: the
  bounded payload validator, batch preparation, atomic appends with and without a fence on
  aggregate heads, and streams.  The database is its two tables: the rows in insertion order
  and the sequence counter row.  A transaction that raises leaves both unchanged, so a failing
  append returns the exception alone.  The \<open>payload_json\<close> column is represented by the value its
  text parses to, which is the payload with its members in key order.  The identity test that
  rejects a container met twice concerns shared Python objects and has no counterpart on values.
\<close>

section \<open>Payload validation\<close>

definition max_payload_depth :: int where "max_payload_depth = 16"
definition max_payload_nodes :: int where "max_payload_nodes = 4096"
definition max_collection_items :: int where "max_collection_items = 512"
definition max_scalar_bytes :: int where "max_scalar_bytes = 4096"
definition max_total_scalar_bytes :: int where "max_total_scalar_bytes = 65536"

text \<open>\<open>len(text.encode("utf-8"))\<close> for characters up to U+00FF.\<close>

definition utf8_length :: "string \<Rightarrow> int" where
  "utf8_length s = sum_list (map (\<lambda>c. if (of_char c :: nat) < 128 then 1 else 2) s)"

lemma utf8_length_code [code]:
  "utf8_length [] = 0"
  "utf8_length (Char b0 b1 b2 b3 b4 b5 b6 b7 # s) = (if b7 then 2 else 1) + utf8_length s"
proof -
  have "(of_char (Char b0 b1 b2 b3 b4 b5 b6 b7) :: nat) < 128 \<longleftrightarrow> \<not> b7"
    by (cases b0; cases b1; cases b2; cases b3; cases b4; cases b5; cases b6; cases b7; simp)
  then show "utf8_length (Char b0 b1 b2 b3 b4 b5 b6 b7 # s) = (if b7 then 2 else 1) + utf8_length s"
    by (simp add: utf8_length_def)
qed (simp add: utf8_length_def)
definition payload_error :: exn where
  "payload_error = ValueError ''event payload exceeds bounded canonical JSON contract''"

text \<open>The scalar bytes of one value, or the exception it raises: a container counts its keys.\<close>

fun key_bytes :: "(string \<times> json) list \<Rightarrow> int result" where
  "key_bytes [] = Inr 0"
| "key_bytes ((k, v) # kvs) =
     (if utf8_length k > max_scalar_bytes then Inl payload_error
      else rbind (key_bytes kvs) (\<lambda>n. Inr (utf8_length k + n)))"

fun node_bytes :: "json \<Rightarrow> int result" where
  "node_bytes (JObj kvs) = (if int (length kvs) > max_collection_items then Inl payload_error else key_bytes kvs)"
| "node_bytes (JList xs) = (if int (length xs) > max_collection_items then Inl payload_error else Inr 0)"
| "node_bytes JNull = Inr 4"
| "node_bytes (JBool b) = Inr 4"
| "node_bytes (JInt n) = (if \<bar>n\<bar> \<ge> 2 ^ 63 then Inl (ValueError ''event payload integer exceeds bounded range'')
     else Inr (int (length (int_text n))))"
| "node_bytes (JFloat fin t) = (if \<not> fin then Inl (ValueError ''event payload float must be finite'')
     else Inr (int (length t)))"
| "node_bytes (JStr s) = (if utf8_length s > max_scalar_bytes then Inl payload_error else Inr (utf8_length s))"

fun children :: "json \<Rightarrow> json list" where
  "children (JObj kvs) = map snd kvs"
| "children (JList xs) = xs"
| "children _ = []"

text \<open>The work-list loop; the head of the list is the top of the Python stack.\<close>

function walk :: "(json \<times> int) list \<Rightarrow> int \<Rightarrow> int \<Rightarrow> unit result" where
  "walk [] nodes bytes = Inr ()"
| "walk ((v, depth) # stack) nodes bytes =
     (if nodes + 1 > max_payload_nodes \<or> depth > max_payload_depth then Inl payload_error
      else rbind (node_bytes v) (\<lambda>n.
        if bytes + n > max_total_scalar_bytes then Inl payload_error
        else walk (rev (map (\<lambda>c. (c, depth + 1)) (children v)) @ stack) (nodes + 1) (bytes + n)))"
  by pat_completeness auto
termination
  by (relation "measure (\<lambda>(stack, nodes, bytes). nat (max_payload_nodes + 1 - nodes))") auto

definition validate_event_payload :: "json \<Rightarrow> unit result" where
  "validate_event_payload p = (case p of JObj kvs \<Rightarrow> walk [(p, 0)] 0 0
     | _ \<Rightarrow> Inl (ValueError ''event payload must be a bounded mapping''))"

section \<open>What the validator accepts\<close>

fun json_nodes :: "json \<Rightarrow> int" where
  "json_nodes (JObj kvs) = 1 + sum_list (map (\<lambda>kv. json_nodes (snd kv)) kvs)"
| "json_nodes (JList xs) = 1 + sum_list (map json_nodes xs)"
| "json_nodes _ = 1"

fun json_depth_ok :: "int \<Rightarrow> json \<Rightarrow> bool" where
  "json_depth_ok d (JObj kvs) = (d \<le> max_payload_depth \<and> list_all (\<lambda>kv. json_depth_ok (d + 1) (snd kv)) kvs)"
| "json_depth_ok d (JList xs) = (d \<le> max_payload_depth \<and> list_all (json_depth_ok (d + 1)) xs)"
| "json_depth_ok d _ = (d \<le> max_payload_depth)"

fun json_parts_ok :: "json \<Rightarrow> bool" where
  "json_parts_ok (JObj kvs) = (is_ok (node_bytes (JObj kvs)) \<and> list_all (\<lambda>kv. json_parts_ok (snd kv)) kvs)"
| "json_parts_ok (JList xs) = (is_ok (node_bytes (JList xs)) \<and> list_all json_parts_ok xs)"
| "json_parts_ok v = is_ok (node_bytes v)"

definition ok_bytes :: "json \<Rightarrow> int" where
  "ok_bytes v = (case node_bytes v of Inr n \<Rightarrow> n | Inl _ \<Rightarrow> 0)"

fun json_bytes :: "json \<Rightarrow> int" where
  "json_bytes (JObj kvs) = ok_bytes (JObj kvs) + sum_list (map (\<lambda>kv. json_bytes (snd kv)) kvs)"
| "json_bytes (JList xs) = ok_bytes (JList xs) + sum_list (map json_bytes xs)"
| "json_bytes v = ok_bytes v"

lemma json_unfold:
  "json_nodes v = 1 + sum_list (map json_nodes (children v))"
  "json_depth_ok d v \<longleftrightarrow> d \<le> max_payload_depth \<and> list_all (json_depth_ok (d + 1)) (children v)"
  "json_parts_ok v \<longleftrightarrow> is_ok (node_bytes v) \<and> list_all json_parts_ok (children v)"
  "json_bytes v = ok_bytes v + sum_list (map json_bytes (children v))"
  by (cases v; simp add: comp_def list_all_iff)+

lemma utf8_length_nonneg: "0 \<le> utf8_length s"
  by (auto simp: utf8_length_def intro!: sum_list_nonneg)

lemma key_bytes_nonneg: "key_bytes kvs = Inr n \<Longrightarrow> 0 \<le> n"
  by (induction kvs arbitrary: n rule: key_bytes.induct)
     (auto simp: rbind_eq_Inr utf8_length_nonneg split: if_splits intro!: add_nonneg_nonneg)

lemma node_bytes_nonneg: "node_bytes v = Inr n \<Longrightarrow> 0 \<le> n"
  by (cases v) (auto simp: key_bytes_nonneg utf8_length_nonneg split: if_splits)

lemma ok_bytes_nonneg: "0 \<le> ok_bytes v"
  using node_bytes_nonneg by (auto simp: ok_bytes_def split: sum.splits)

lemma json_nodes_nonneg: "0 \<le> json_nodes v"
  by (induction v) (auto intro!: add_nonneg_nonneg sum_list_nonneg)

lemma json_bytes_nonneg: "0 \<le> json_bytes v"
  by (induction v) (auto simp: ok_bytes_nonneg intro!: add_nonneg_nonneg sum_list_nonneg)

definition stack_ok :: "(json \<times> int) list \<Rightarrow> int \<Rightarrow> int \<Rightarrow> bool" where
  "stack_ok stack nodes bytes \<longleftrightarrow>
     nodes + sum_list (map (json_nodes \<circ> fst) stack) \<le> max_payload_nodes \<and>
     bytes + sum_list (map (json_bytes \<circ> fst) stack) \<le> max_total_scalar_bytes \<and>
     list_all (\<lambda>(v, d). json_depth_ok d v \<and> json_parts_ok v) stack"

lemma stack_ok_step:
  assumes "node_bytes v = Inr n"
  shows "stack_ok ((v, d) # stack) nodes bytes \<longleftrightarrow> d \<le> max_payload_depth \<and>
     stack_ok (rev (map (\<lambda>c. (c, d + 1)) (children v)) @ stack) (nodes + 1) (bytes + n)"
proof -
  have "json_bytes v = n + sum_list (map json_bytes (children v))"
    using assms json_unfold(4) [of v] by (simp add: ok_bytes_def)
  then show ?thesis
    using assms json_unfold(1,3) [of v] json_unfold(2) [of d v]
    by (auto simp: stack_ok_def rev_map [symmetric] comp_def list_all_iff sum_list_rev algebra_simps)
qed

lemma walk_iff:
  "nodes \<le> max_payload_nodes \<Longrightarrow> bytes \<le> max_total_scalar_bytes \<Longrightarrow>
     walk stack nodes bytes = Inr () \<longleftrightarrow> stack_ok stack nodes bytes"
proof (induction stack nodes bytes rule: walk.induct)
  case (1 nodes bytes)
  then show ?case
    by (simp add: stack_ok_def)
next
  case (2 v d stack nodes bytes)
  show ?case
  proof (cases "nodes + 1 > max_payload_nodes \<or> d > max_payload_depth")
    case True
    have "0 \<le> sum_list (map json_nodes (children v))" "0 \<le> sum_list (map (json_nodes \<circ> fst) stack)"
      by (auto intro!: sum_list_nonneg simp: json_nodes_nonneg)
    then have "\<not> stack_ok ((v, d) # stack) nodes bytes"
      using True json_unfold(1) [of v] json_unfold(2) [of d v] by (auto simp: stack_ok_def)
    with True show ?thesis
      by auto
  next
    case False
    show ?thesis
    proof (cases "node_bytes v")
      case (Inl e)
      then have "\<not> json_parts_ok v"
        using json_unfold(3) [of v] by simp
      with Inl False show ?thesis
        by (auto simp: stack_ok_def)
    next
      case (Inr n)
      let ?next = "rev (map (\<lambda>c. (c, d + 1)) (children v)) @ stack"
      show ?thesis
      proof (cases "bytes + n > max_total_scalar_bytes")
        case True
        have "0 \<le> sum_list (map (json_bytes \<circ> fst) ?next)"
          by (intro sum_list_nonneg) (auto simp: json_bytes_nonneg)
        then have "\<not> stack_ok ?next (nodes + 1) (bytes + n)"
          using True by (simp add: stack_ok_def)
        with True False Inr show ?thesis
          using stack_ok_step [OF Inr, of d stack nodes bytes] by auto
      next
        case small: False
        have "walk ?next (nodes + 1) (bytes + n) = Inr () \<longleftrightarrow> stack_ok ?next (nodes + 1) (bytes + n)"
          using 2(1) [OF False Inr small] False small by auto
        then show ?thesis
          using False Inr small stack_ok_step [OF Inr, of d stack nodes bytes] by auto
      qed
    qed
  qed
qed

lemma validate_event_payload_iff:
  "validate_event_payload p = Inr () \<longleftrightarrow> (\<exists>kvs. p = JObj kvs) \<and> json_nodes p \<le> max_payload_nodes \<and>
     json_bytes p \<le> max_total_scalar_bytes \<and> json_depth_ok 0 p \<and> json_parts_ok p"
  using walk_iff [of 0 0 "[(p, 0)]"]
  by (cases p) (auto simp: validate_event_payload_def stack_ok_def max_payload_nodes_def
      max_total_scalar_bytes_def simp del: walk.simps)

section \<open>The store\<close>

record event_append =
  ea_event_id :: string
  ea_kind :: string
  ea_aggregate_id :: string
  ea_payload :: json
  ea_occurred_at :: pydt

record event_record =
  er_event_id :: string
  er_kind :: string
  er_aggregate_id :: string
  er_payload :: json
  er_occurred_at :: instant
  er_sequence :: int

record event_store =
  es_rows :: "event_record list"
  es_next_sequence :: "int option"

text \<open>\<open>create_engine_and_schema\<close> on an empty database.\<close>

definition empty_store :: event_store where
  "empty_store = \<lparr>es_rows = [], es_next_sequence = Some 0\<rparr>"

definition prepare_event :: "event_append \<Rightarrow> event_record result" where
  "prepare_event a =
     (if ea_event_id a = [] \<or> ea_kind a = [] \<or> ea_aggregate_id a = []
      then Inl (ValueError ''event identity fields must be nonempty'')
      else rbind (aware_utc (ValueError ''occurred_at must be timezone-aware'') (ea_occurred_at a)) (\<lambda>t.
        rbind (validate_event_payload (ea_payload a)) (\<lambda>_.
        Inr \<lparr>er_event_id = ea_event_id a, er_kind = ea_kind a, er_aggregate_id = ea_aggregate_id a,
          er_payload = sort_members (ea_payload a), er_occurred_at = t, er_sequence = 0\<rparr>)))"

definition prepare_batch :: "event_append list \<Rightarrow> event_record list result" where
  "prepare_batch batch = (if batch = [] then Inl (ValueError ''event batch must be a nonempty tuple'')
     else traverse prepare_event batch)"

text \<open>Consecutive sequence numbers from \<open>first\<close>.\<close>

fun number_rows :: "int \<Rightarrow> event_record list \<Rightarrow> event_record list" where
  "number_rows first [] = []"
| "number_rows first (r # rs) = r\<lparr>er_sequence := first\<rparr> # number_rows (first + 1) rs"

definition append_prepared :: "event_record list \<Rightarrow> event_store \<Rightarrow> event_store result" where
  "append_prepared prepared st = (case es_next_sequence st of
      None \<Rightarrow> Inl (RuntimeError ''event sequence counter is not initialized'')
    | Some n \<Rightarrow>
        let final = n + int (length prepared); first = final - int (length prepared) + 1;
            rows = es_rows st @ number_rows first prepared in
        if \<not> distinct (map er_event_id rows) \<or> \<not> distinct (map er_sequence rows)
        then Inl (IntegrityError ''UNIQUE constraint failed'')
        else Inr \<lparr>es_rows = rows, es_next_sequence = Some final\<rparr>)"

definition append_many :: "event_append list \<Rightarrow> event_store \<Rightarrow> event_store result" where
  "append_many batch st = rbind (prepare_batch batch) (\<lambda>prepared. append_prepared prepared st)"

definition append_event :: "event_append \<Rightarrow> event_store \<Rightarrow> event_store result" where
  "append_event a st = append_many [a] st"

text \<open>The rows of an aggregate in sequence order, and the identifier of the last one.\<close>

definition aggregate_rows :: "string \<Rightarrow> event_record list \<Rightarrow> event_record list" where
  "aggregate_rows a rows = sort_key er_sequence (filter (\<lambda>r. er_aggregate_id r = a) rows)"

definition head_of :: "string \<Rightarrow> event_record list \<Rightarrow> string option" where
  "head_of a rows = (case rev (aggregate_rows a rows) of [] \<Rightarrow> None | r # _ \<Rightarrow> Some (er_event_id r))"

definition validate_heads :: "(string \<times> string option) list \<Rightarrow> unit result" where
  "validate_heads heads =
     (if heads = [] then Inl (ValueError ''expected heads must be a nonempty mapping'')
      else if int (length heads) > max_collection_items
      then Inl (ValueError ''expected heads exceed the bounded mapping contract'')
      else if list_ex (\<lambda>(a, h). a = []) heads
      then Inl (ValueError ''expected aggregate identity must be nonempty'')
      else if list_ex (\<lambda>(a, h). h = Some []) heads
      then Inl (ValueError ''expected event identity must be nonempty or None'')
      else Inr ())"

definition append_many_if_heads ::
  "event_append list \<Rightarrow> (string \<times> string option) list \<Rightarrow> event_store \<Rightarrow> event_store result" where
  "append_many_if_heads batch heads st =
     rbind (prepare_batch batch) (\<lambda>prepared.
     rbind (validate_heads heads) (\<lambda>_.
     if es_next_sequence st = None then Inl (RuntimeError ''event sequence counter is not initialized'')
     else if list_ex (\<lambda>(a, h). head_of a (es_rows st) \<noteq> h) heads
     then Inl (EventHeadConflict ''aggregate head changed'')
     else append_prepared prepared st))"

text \<open>A stored payload is checked again when it is read.\<close>

definition read_row :: "event_record \<Rightarrow> event_record result" where
  "read_row r = (case er_payload r of
       JObj kvs \<Rightarrow> rbind (validate_event_payload (er_payload r)) (\<lambda>_. Inr r)
     | _ \<Rightarrow> Inl (ValueError ''event payload must be a JSON object''))"

definition stream :: "string \<Rightarrow> event_store \<Rightarrow> event_record list result" where
  "stream a st = traverse read_row (aggregate_rows a (es_rows st))"

section \<open>The audit facade\<close>

text \<open>
  \<open>operations/audit.py\<close> redacts every payload before it is stored; \<open>redact\<close> is
  \<open>security.redact_mapping\<close> over the predicate \<open>sensitive\<close> on labels.
\<close>

fun redact :: "(string \<Rightarrow> bool) \<Rightarrow> json \<Rightarrow> json" where
  "redact sensitive (JObj kvs) = JObj (map (\<lambda>(k, v). (k, if sensitive k then JStr ''[REDACTED]''
     else redact sensitive v)) kvs)"
| "redact sensitive (JList xs) = JList (map (redact sensitive) xs)"
| "redact sensitive v = v"

definition redacted_appends :: "(string \<Rightarrow> bool) \<Rightarrow> event_append list \<Rightarrow> event_append list" where
  "redacted_appends sensitive batch = map (\<lambda>a. a\<lparr>ea_payload := redact sensitive (ea_payload a)\<rparr>) batch"

definition audit_record ::
  "(string \<Rightarrow> bool) \<Rightarrow> pydt \<Rightarrow> string \<Rightarrow> string \<Rightarrow> string \<Rightarrow> json \<Rightarrow> event_store \<Rightarrow> event_store result" where
  "audit_record sensitive now event_id event_kind aggregate_id payload st =
     append_event \<lparr>ea_event_id = event_id, ea_kind = event_kind, ea_aggregate_id = aggregate_id,
       ea_payload = redact sensitive payload, ea_occurred_at = now\<rparr> st"

definition record_many :: "(string \<Rightarrow> bool) \<Rightarrow> event_append list \<Rightarrow> event_store \<Rightarrow> event_store result" where
  "record_many sensitive batch st =
     (if batch = [] then Inl (ValueError ''audit batch must be a nonempty tuple'')
      else append_many (redacted_appends sensitive batch) st)"

definition record_many_if_heads ::
  "(string \<Rightarrow> bool) \<Rightarrow> event_append list \<Rightarrow> (string \<times> string option) list \<Rightarrow> event_store \<Rightarrow> event_store result" where
  "record_many_if_heads sensitive batch heads st =
     (if batch = [] then Inl (ValueError ''audit batch must be a nonempty tuple'')
      else append_many_if_heads (redacted_appends sensitive batch) heads st)"

section \<open>Well-formed logs\<close>

definition log_ok :: "event_store \<Rightarrow> bool" where
  "log_ok st \<longleftrightarrow> es_next_sequence st = Some (int (length (es_rows st))) \<and>
     map er_sequence (es_rows st) = [1 .. int (length (es_rows st))] \<and>
     distinct (map er_event_id (es_rows st))"

lemma log_ok_empty: "log_ok empty_store"
  by (simp add: log_ok_def empty_store_def)

lemma number_rows_facts:
  "length (number_rows k rs) = length rs"
  "map er_sequence (number_rows k rs) = [k .. k + int (length rs) - 1]"
  "map er_event_id (number_rows k rs) = map er_event_id rs"
  by (induction rs arbitrary: k) (auto simp: upto_rec1)

lemma append_prepared_Inr:
  assumes "log_ok st" "append_prepared prepared st = Inr st'"
  shows "log_ok st' \<and> es_rows st' = es_rows st @ number_rows (int (length (es_rows st)) + 1) prepared"
proof -
  let ?n = "int (length (es_rows st))"
  have rows: "es_rows st' = es_rows st @ number_rows (?n + 1) prepared"
    and d: "distinct (map er_event_id (es_rows st'))"
    and c: "es_next_sequence st' = Some (?n + int (length prepared))"
    using assms by (auto simp: append_prepared_def log_ok_def Let_def split: if_splits)
  have "map er_sequence (es_rows st') = [1 .. ?n] @ [?n + 1 .. ?n + int (length prepared)]"
    using assms(1) by (simp add: rows number_rows_facts log_ok_def)
  also have "\<dots> = [1 .. ?n + int (length prepared)]"
    by (cases "es_rows st") (use upto_split2 [of 1 ?n "?n + int (length prepared)"] in auto)
  finally show ?thesis
    using rows d c by (simp add: log_ok_def number_rows_facts)
qed

lemma sorted_filter_sequence:
  assumes "log_ok st"
  shows "sorted (map er_sequence (filter P (es_rows st)))"
proof -
  have "sorted (map er_sequence (es_rows st))"
    using assms by (simp add: log_ok_def)
  then show ?thesis
    by (rule sorted_filter)
qed

text \<open>In a well-formed log sequence order is insertion order.\<close>

lemma aggregate_rows_filter:
  "log_ok st \<Longrightarrow> aggregate_rows a (es_rows st) = filter (\<lambda>r. er_aggregate_id r = a) (es_rows st)"
  unfolding aggregate_rows_def by (rule sort_key_sorted) (rule sorted_filter_sequence)

section \<open>The log as an interface\<close>

text \<open>What a prepared row keeps of the event it was requested for.\<close>

definition stored_as :: "event_append \<Rightarrow> event_record \<Rightarrow> bool" where
  "stored_as a r \<longleftrightarrow> er_event_id r = ea_event_id a \<and> er_kind r = ea_kind a \<and>
     er_aggregate_id r = ea_aggregate_id a \<and> er_payload r = sort_members (ea_payload a) \<and>
     ea_occurred_at a = Aware (er_occurred_at r)"

text \<open>
  The contract the safety roles, the scheduler and the paper journal rely on: a fenced append
  adds exactly its batch at the end of the log, only while every named aggregate has the stated
  head, and no event identifier is ever used twice.
\<close>

locale event_log =
  fixes append_if :: "event_append list \<Rightarrow> (string \<times> string option) list \<Rightarrow> 's \<Rightarrow> 's result"
    and rows :: "'s \<Rightarrow> event_record list"
    and ok :: "'s \<Rightarrow> bool"
  assumes append_ok: "ok st \<Longrightarrow> append_if batch heads st = Inr st' \<Longrightarrow> ok st'"
    and append_rows: "ok st \<Longrightarrow> append_if batch heads st = Inr st' \<Longrightarrow>
      \<exists>new. rows st' = rows st @ new \<and> list_all2 stored_as batch new"
    and append_heads: "ok st \<Longrightarrow> append_if batch heads st = Inr st' \<Longrightarrow> (a, h) \<in> set heads \<Longrightarrow>
      h = (case filter (\<lambda>r. er_aggregate_id r = a) (rows st) of [] \<Rightarrow> None
           | rs \<Rightarrow> Some (er_event_id (last rs)))"
    and unique_ids: "ok st \<Longrightarrow> distinct (map er_event_id (rows st))"
    and increasing: "ok st \<Longrightarrow> sorted_wrt (\<lambda>r r'. er_sequence r < er_sequence r') (rows st)"
begin

lemma append_distinct:
  assumes "ok st" "append_if batch heads st = Inr st'"
  shows "distinct (map ea_event_id batch) \<and> set (map ea_event_id batch) \<inter> er_event_id ` set (rows st) = {}"
proof -
  obtain new where new: "rows st' = rows st @ new" "list_all2 stored_as batch new"
    using append_rows [OF assms] by blast
  have "map ea_event_id batch = map er_event_id new"
    using new(2) by (induction rule: list_all2_induct) (auto simp: stored_as_def)
  moreover have "distinct (map er_event_id (rows st @ new))"
    using unique_ids [OF append_ok [OF assms]] new(1) by simp
  ultimately show ?thesis
    by auto
qed

lemma append_twice_fails:
  assumes "ok st" "append_if batch heads st = Inr st'" "batch \<noteq> []"
  shows "\<exists>e. append_if batch heads' st' = Inl e"
proof (cases "append_if batch heads' st'")
  case (Inr st'')
  have ok': "ok st'"
    using append_ok assms(1,2) by blast
  obtain new where new: "rows st' = rows st @ new" "list_all2 stored_as batch new"
    using append_rows [OF assms(1,2)] by blast
  obtain b bs where b: "batch = b # bs"
    using assms(3) by (cases batch) auto
  then obtain r rs where "new = r # rs" "stored_as b r"
    using new(2) by (auto simp: list_all2_Cons1)
  then have "ea_event_id b \<in> er_event_id ` set (rows st')"
    using new(1) by (auto simp: stored_as_def)
  with append_distinct [OF ok' Inr] b show ?thesis
    by auto
qed simp

end

lemma prepare_event_stored: "prepare_event a = Inr r \<Longrightarrow> stored_as a (r\<lparr>er_sequence := n\<rparr>)"
  by (auto simp: prepare_event_def stored_as_def rbind_eq_Inr aware_utc_Inr split: if_splits)

lemma prepare_batch_stored:
  "traverse prepare_event batch = Inr prepared \<Longrightarrow> list_all2 stored_as batch (number_rows k prepared)"
proof (induction batch arbitrary: prepared k)
  case (Cons a batch)
  then show ?case
    by (auto simp: rbind_eq_Inr prepare_event_stored)
qed simp

lemma append_many_Inr:
  assumes "log_ok st" "append_many batch st = Inr st'"
  shows "log_ok st' \<and> (\<exists>new. es_rows st' = es_rows st @ new \<and> list_all2 stored_as batch new)"
  using assms append_prepared_Inr prepare_batch_stored
  by (fastforce simp: append_many_def prepare_batch_def rbind_eq_Inr split: if_splits)

lemma append_if_Inr:
  assumes "append_many_if_heads batch heads st = Inr st'"
  shows "append_many batch st = Inr st' \<and> (\<forall>(a, h) \<in> set heads. head_of a (es_rows st) = h)"
  using assms by (auto simp: append_many_if_heads_def append_many_def rbind_eq_Inr list_ex_iff split: if_splits)

lemma rev_head_last:
  "(case rev xs of [] \<Rightarrow> None | x # _ \<Rightarrow> Some (f x)) = (case xs of [] \<Rightarrow> None | ys \<Rightarrow> Some (f (last ys)))"
proof (cases xs)
  case (Cons a ys)
  then obtain z zs where z: "rev xs = z # zs"
    by (cases "rev xs") auto
  then have "last xs = z"
    by (metis hd_rev list.sel(1))
  with z Cons show ?thesis
    by auto
qed simp

lemma head_of_last:
  "log_ok st \<Longrightarrow> head_of a (es_rows st) = (case filter (\<lambda>r. er_aggregate_id r = a) (es_rows st) of [] \<Rightarrow> None
    | rs \<Rightarrow> Some (er_event_id (last rs)))"
  unfolding head_of_def aggregate_rows_filter by (rule rev_head_last)

interpretation es: event_log append_many_if_heads es_rows log_ok
proof (standard, goal_cases)
  case (1 st batch heads st')
  then show ?case
    using append_if_Inr append_many_Inr by blast
next
  case (2 st batch heads st')
  then show ?case
    using append_if_Inr append_many_Inr by blast
next
  case (3 st batch heads st' a h)
  then show ?case
    using append_if_Inr [OF 3(2)] head_of_last [OF 3(1), of a] by fastforce
next
  case (4 st)
  then show ?case
    by (simp add: log_ok_def)
next
  case (5 st)
  then have "sorted_wrt (<) (map er_sequence (es_rows st))"
    by (simp add: log_ok_def sorted_wrt_upto)
  then show ?case
    by (simp add: sorted_wrt_map)
qed

section \<open>Stored payloads are readable again\<close>

lemma key_bytes_closed:
  "key_bytes kvs = (if list_all (\<lambda>kv. utf8_length (fst kv) \<le> max_scalar_bytes) kvs
     then Inr (sum_list (map (\<lambda>kv. utf8_length (fst kv)) kvs)) else Inl payload_error)"
  by (induction kvs rule: key_bytes.induct) auto

lemma sum_list_perm: "mset xs = mset ys \<Longrightarrow> sum_list (map f xs) = (sum_list (map f ys) :: int)"
  by (metis mset_map sum_mset_sum_list)

lemma list_all_perm: "mset xs = mset ys \<Longrightarrow> list_all P xs = list_all P ys"
  by (metis list_all_iff set_mset_mset)

lemma node_bytes_sort [simp]: "node_bytes (sort_members v) = node_bytes v"
proof (cases v)
  case (JObj kvs)
  let ?s = "sort_key fst (map (\<lambda>(k, v). (k, sort_members v)) kvs)"
  have m: "mset ?s = mset (map (\<lambda>(k, v). (k, sort_members v)) kvs)"
    by simp
  have "key_bytes ?s = key_bytes kvs"
    unfolding key_bytes_closed list_all_perm [OF m] sum_list_perm [OF m]
    by (simp add: list_all_iff comp_def case_prod_beta)
  with JObj show ?thesis
    by simp
qed auto

lemma children_sort: "mset (children (sort_members v)) = mset (map sort_members (children v))"
proof (cases v)
  case (JObj kvs)
  have "image_mset snd (image_mset (\<lambda>(k, v). (k, sort_members v)) (mset kvs))
      = image_mset (\<lambda>kv. sort_members (snd kv)) (mset kvs)"
    unfolding multiset.map_comp by (rule image_mset_cong) auto
  with JObj show ?thesis
    by (simp add: comp_def)
qed simp_all

lemma ok_bytes_sort [simp]: "ok_bytes (sort_members v) = ok_bytes v"
  by (simp add: ok_bytes_def)

lemma size_children: "c \<in> set (children v) \<Longrightarrow> size c < size v"
  by (cases v) (auto simp: less_Suc_eq_le size_list_estimation' intro!: size_list_estimation' trans_le_add1)

lemma sort_keeps_measures:
  "json_nodes (sort_members v) = json_nodes v \<and> json_bytes (sort_members v) = json_bytes v \<and>
   json_depth_ok d (sort_members v) = json_depth_ok d v \<and> json_parts_ok (sort_members v) = json_parts_ok v"
proof (induction v arbitrary: d rule: measure_induct_rule [where f = size])
  case (less v)
  note IH = less [OF size_children]
  note m = children_sort [of v]
  show ?case
    unfolding json_unfold(1,3,4) [of "sort_members v"] json_unfold(2) [of d "sort_members v"]
      json_unfold(1,3,4) [of v] json_unfold(2) [of d v] sum_list_perm [OF m] list_all_perm [OF m]
    using IH by (simp add: comp_def list_all_iff cong: map_cong)
qed

lemma validate_sort_members:
  "validate_event_payload p = Inr () \<Longrightarrow> validate_event_payload (sort_members p) = Inr ()"
  unfolding validate_event_payload_iff by (auto simp: sort_keeps_measures simp del: sort_members.simps) auto

definition log_readable :: "event_store \<Rightarrow> bool" where
  "log_readable st \<longleftrightarrow> (\<forall>r \<in> set (es_rows st). read_row r = Inr r)"

lemma read_row_cong: "er_payload r = er_payload r' \<Longrightarrow> read_row r = Inr r \<Longrightarrow> read_row r' = Inr r'"
  by (auto simp: read_row_def rbind_eq_Inr split: json.splits)

lemma traverse_id: "(\<And>x. x \<in> set xs \<Longrightarrow> f x = Inr x) \<Longrightarrow> traverse f xs = Inr xs"
  by (induction xs) auto

lemma stream_readable:
  "log_ok st \<Longrightarrow> log_readable st \<Longrightarrow> stream a st = Inr (filter (\<lambda>r. er_aggregate_id r = a) (es_rows st))"
  by (auto simp: stream_def aggregate_rows_filter log_readable_def intro: traverse_id)

lemma read_row_iff:
  "read_row r = Inr r \<longleftrightarrow> validate_event_payload (er_payload r) = Inr ()"
  by (cases "er_payload r") (auto simp: read_row_def validate_event_payload_def rbind_eq_Inr simp del: walk.simps)

lemma prepare_event_readable: "prepare_event a = Inr r \<Longrightarrow> read_row r = Inr r"
  unfolding read_row_iff by (auto simp: prepare_event_def rbind_eq_Inr validate_sort_members split: if_splits)

lemma number_rows_readable:
  "\<forall>r \<in> set rs. read_row r = Inr r \<Longrightarrow> \<forall>r \<in> set (number_rows k rs). read_row r = Inr r"
  by (induction rs arbitrary: k) (auto intro: read_row_cong [rotated])

lemma traverse_set: "traverse f xs = Inr ys \<Longrightarrow> y \<in> set ys \<Longrightarrow> \<exists>x \<in> set xs. f x = Inr y"
  by (induction xs arbitrary: ys) (auto simp: rbind_eq_Inr)

lemma append_many_readable:
  assumes "log_ok st" "log_readable st" "append_many batch st = Inr st'"
  shows "log_readable st'"
proof -
  obtain prepared where p: "traverse prepare_event batch = Inr prepared"
    and a: "append_prepared prepared st = Inr st'"
    using assms(3) by (auto simp: append_many_def prepare_batch_def rbind_eq_Inr split: if_splits)
  have "\<forall>r \<in> set prepared. read_row r = Inr r"
    using traverse_set [OF p] prepare_event_readable by blast
  then show ?thesis
    using append_prepared_Inr [OF assms(1) a] assms(2) number_rows_readable
    by (fastforce simp: log_readable_def)
qed

section \<open>Redacted logs\<close>

text \<open>What a redacted value is, stated without the redactor: at every level, a member whose label is
  sensitive holds the marker and nothing else.\<close>

fun hides :: "(string \<Rightarrow> bool) \<Rightarrow> json \<Rightarrow> bool" where
  "hides sensitive (JObj kvs) =
     (\<forall>(k, v) \<in> set kvs. if sensitive k then v = JStr ''[REDACTED]'' else hides sensitive v)"
| "hides sensitive (JList xs) = (\<forall>v \<in> set xs. hides sensitive v)"
| "hides sensitive v = True"

definition log_redacted :: "(string \<Rightarrow> bool) \<Rightarrow> event_store \<Rightarrow> bool" where
  "log_redacted sensitive st \<longleftrightarrow> (\<forall>r \<in> set (es_rows st). hides sensitive (er_payload r))"

lemma hides_redact: "hides sensitive (redact sensitive v)"
  by (induction v) auto

lemma insort_key_map: "(\<And>y. f (g y) = f y) \<Longrightarrow> insort_key f (g x) (map g xs) = map g (insort_key f x xs)"
  by (induction xs) auto

lemma sort_key_map: "(\<And>y. f (g y) = f y) \<Longrightarrow> sort_key f (map g xs) = map g (sort_key f xs)"
  by (induction xs) (simp_all add: insort_key_map)

lemma redact_sort: "redact sensitive (sort_members v) = sort_members (redact sensitive v)"
proof (induction v)
  case (JObj kvs)
  have "map (\<lambda>(k, v). (k, if sensitive k then JStr ''[REDACTED]'' else redact sensitive v))
      (sort_key fst (map (\<lambda>(k, v). (k, sort_members v)) kvs))
    = sort_key fst (map (\<lambda>(k, v). (k, if sensitive k then JStr ''[REDACTED]'' else redact sensitive v))
      (map (\<lambda>(k, v). (k, sort_members v)) kvs))"
    by (rule sort_key_map [symmetric]) (simp add: case_prod_beta)
  also have "\<dots> = sort_key fst (map (\<lambda>(k, v). (k, sort_members v))
      (map (\<lambda>(k, v). (k, if sensitive k then JStr ''[REDACTED]'' else redact sensitive v)) kvs))"
    using JObj by (auto intro!: arg_cong [where f = "sort_key fst"])
  finally show ?case
    by simp
qed auto

lemma record_many_rows:
  assumes "log_ok st" "record_many_if_heads sensitive batch heads st = Inr st'"
  shows "\<exists>new. es_rows st' = es_rows st @ new \<and> list_all2 stored_as (redacted_appends sensitive batch) new"
proof -
  have "append_many_if_heads (redacted_appends sensitive batch) heads st = Inr st'"
    using assms(2) by (simp add: record_many_if_heads_def split: if_splits)
  then show ?thesis
    using es.append_rows assms(1) by blast
qed

lemma stored_hides:
  "list_all2 stored_as (redacted_appends sensitive batch) new \<Longrightarrow> r \<in> set new \<Longrightarrow> hides sensitive (er_payload r)"
  by (induction batch arbitrary: new)
     (auto simp: redacted_appends_def list_all2_Cons1 stored_as_def hides_redact simp flip: redact_sort)

lemma audit_record_redacts:
  "audit_record sensitive now e k a p st =
     append_many (redacted_appends sensitive [\<lparr>ea_event_id = e, ea_kind = k, ea_aggregate_id = a,
       ea_payload = p, ea_occurred_at = now\<rparr>]) st"
  by (simp add: audit_record_def append_event_def redacted_appends_def)

lemma appended_hides:
  assumes "log_ok st" "log_redacted sensitive st"
    and "append_many (redacted_appends sensitive batch) st = Inr st' \<or>
      append_many_if_heads (redacted_appends sensitive batch) heads st = Inr st'"
  shows "log_redacted sensitive st'"
proof -
  obtain new where "es_rows st' = es_rows st @ new" "list_all2 stored_as (redacted_appends sensitive batch) new"
    using assms(3) append_many_Inr [OF assms(1)] es.append_rows [OF assms(1)] by blast
  then show ?thesis
    using stored_hides assms(2) by (fastforce simp: log_redacted_def)
qed

section \<open>A concrete log\<close>

definition demo_event :: "string \<Rightarrow> string \<Rightarrow> event_append" where
  "demo_event e a = \<lparr>ea_event_id = e, ea_kind = ''note'', ea_aggregate_id = a,
     ea_payload = JObj [(''token'', JStr ''x''), (''count'', JInt 3)], ea_occurred_at = Aware 0\<rparr>"

definition demo_label :: "string \<Rightarrow> bool" where
  "demo_label l = (l = ''token'')"

definition demo_log :: event_store where
  "demo_log = (case record_many demo_label [demo_event ''e1'' ''a'', demo_event ''e2'' ''b''] empty_store of
     Inr st \<Rightarrow> st | Inl _ \<Rightarrow> empty_store)"

lemma demo_log_value:
  "demo_log = \<lparr>es_rows = [
     \<lparr>er_event_id = ''e1'', er_kind = ''note'', er_aggregate_id = ''a'', er_payload =
       JObj [(''count'', JInt 3), (''token'', JStr ''[REDACTED]'')], er_occurred_at = 0, er_sequence = 1\<rparr>,
     \<lparr>er_event_id = ''e2'', er_kind = ''note'', er_aggregate_id = ''b'', er_payload =
       JObj [(''count'', JInt 3), (''token'', JStr ''[REDACTED]'')], er_occurred_at = 0, er_sequence = 2\<rparr>],
     es_next_sequence = Some 2\<rparr>"
  by code_simp

definition demo_fenced :: "event_store result" where
  "demo_fenced = record_many_if_heads demo_label [demo_event ''e3'' ''a''] [(''a'', Some ''e1'')] demo_log"

lemma demo_log_states: "log_ok demo_log" "log_readable demo_log" "log_redacted demo_label demo_log"
  unfolding log_ok_def log_readable_def log_redacted_def demo_log_value by code_simp+

section \<open>Properties\<close>

text \<open>The bounded validator accepts exactly the mappings whose number of values, nesting depth,
  collection sizes, scalar sizes and total of scalar bytes are within the stated bounds, whatever
  order its work list visits them in.\<close>

lemma event_payload_accepted:
  "validate_event_payload p = Inr () \<longleftrightarrow> (\<exists>kvs. p = JObj kvs) \<and> json_nodes p \<le> max_payload_nodes \<and>
     json_bytes p \<le> max_total_scalar_bytes \<and> json_depth_ok 0 p \<and> json_parts_ok p"
  by (rule validate_event_payload_iff)

text \<open>C11: a fenced append writes all of its batch or nothing: when it returns, every named
  aggregate had the stated head, the rows are the old rows followed by the batch in caller order,
  sequence numbers stay contiguous from one and no event identifier occurs twice; repeating the
  same batch under any fence then fails.\<close>

theorem fenced_append_atomic:
  assumes "log_ok st" "append_many_if_heads batch heads st = Inr st'"
  shows "log_ok st' \<and> (\<exists>new. es_rows st' = es_rows st @ new \<and> list_all2 stored_as batch new) \<and>
    list_all (\<lambda>(a, h). head_of a (es_rows st) = h) heads \<and> \<not> is_ok (append_many_if_heads batch heads' st')"
proof -
  have "batch \<noteq> []"
    using assms(2) by (auto simp: append_many_if_heads_def prepare_batch_def)
  then have "\<not> is_ok (append_many_if_heads batch heads' st')"
    using es.append_twice_fails [OF assms, of heads'] by auto
  then show ?thesis
    using es.append_ok [OF assms] es.append_rows [OF assms] append_if_Inr [OF assms(2)]
    by (auto simp: list_all_iff)
qed

text \<open>C21: whatever an append accepts can be read back: after an append, the stream of every aggregate
  returns its earlier events followed by the batch's events of that aggregate, in caller order.\<close>

theorem append_then_stream:
  assumes "log_ok st" "log_readable st" "append_many batch st = Inr st'"
  shows "\<exists>new. list_all2 stored_as batch new \<and> stream a st' =
    rbind (stream a st) (\<lambda>old. Inr (old @ filter (\<lambda>r. er_aggregate_id r = a) new))"
proof -
  obtain new where "log_ok st'" "es_rows st' = es_rows st @ new" "list_all2 stored_as batch new"
    using append_many_Inr [OF assms(1,3)] by blast
  then show ?thesis
    using stream_readable [OF assms(1,2)] stream_readable [OF _ append_many_readable [OF assms]] by auto
qed

text \<open>C22: the audit facade never stores the value of a sensitive label: if every sensitive member of
  every stored payload, at every nesting level, holds only the redaction marker, then the same is
  true after any of the facade's three operations, the single record, the batch and the fenced
  batch, with any payload.\<close>

theorem audit_log_redacted:
  assumes "log_ok st" "log_redacted sensitive st"
    and "audit_record sensitive now e k a p st = Inr st' \<or> record_many sensitive batch st = Inr st' \<or>
      record_many_if_heads sensitive batch heads st = Inr st'"
  shows "\<forall>r \<in> set (es_rows st'). hides sensitive (er_payload r)"
proof -
  have "log_redacted sensitive st'"
    using assms(3) appended_hides [OF assms(1,2)]
    by (auto simp: audit_record_redacts record_many_def record_many_if_heads_def split: if_splits)
  then show ?thesis
    by (simp add: log_redacted_def)
qed

theorem fenced_append_atomic_witness:
  "log_ok (projr demo_fenced)"
proof -
  have "append_many_if_heads (redacted_appends demo_label [demo_event ''e3'' ''a'']) [(''a'', Some ''e1'')] demo_log
      = Inr (projr demo_fenced)"
    unfolding demo_fenced_def demo_log_value by code_simp
  from fenced_append_atomic [OF demo_log_states(1) this] show ?thesis
    by blast
qed

theorem append_then_stream_witness:
  "\<exists>st. append_many [demo_event ''e3'' ''a''] demo_log = Inr st \<and> (\<exists>new. stream ''a'' st =
    rbind (stream ''a'' demo_log) (\<lambda>old. Inr (old @ filter (\<lambda>r. er_aggregate_id r = ''a'') new)))"
proof -
  have "append_many [demo_event ''e3'' ''a''] demo_log =
      Inr (projr (append_many [demo_event ''e3'' ''a''] demo_log))"
    unfolding demo_log_value by code_simp
  from this append_then_stream [OF demo_log_states(1,2) this, of "''a''"] show ?thesis
    by blast
qed

theorem audit_log_redacted_witness:
  "map er_payload (es_rows (projr demo_fenced)) \<noteq> [] \<and>
   list_all (\<lambda>r. hides demo_label (er_payload r)) (es_rows (projr demo_fenced))"
proof -
  have "record_many_if_heads demo_label [demo_event ''e3'' ''a''] [(''a'', Some ''e1'')] demo_log
      = Inr (projr demo_fenced)"
    unfolding demo_fenced_def demo_log_value by code_simp
  moreover have "es_rows (projr demo_fenced) \<noteq> []"
    unfolding demo_fenced_def demo_log_value by code_simp
  ultimately show ?thesis
    using audit_log_redacted [OF demo_log_states(1,3), of "Aware 0" "[]" "[]" "[]" JNull "projr demo_fenced"]
    by (auto simp: list_all_iff)
qed

end
