(* ===== verification/Security.thy ===== *)
theory Security
  imports Prelude
begin

text \<open>
  The label detector of \<open>security.py\<close>, which decides the mapping members whose values are
  redacted: UTF-8, strict percent decoding, tokens, the label policy and the bounded decoding
  rounds.  A text is its list of code points.  Letters, digits and case folding are written out
  for ASCII; above it they are the Unicode tables of Python, an argument \<open>U\<close>.  Functions that
  count their work return the count with their answer, as the source does.
\<close>

section \<open>Text\<close>

type_synonym text_points = "nat list"

record unicode =
  uni_alnum :: "nat \<Rightarrow> bool"
  uni_fold :: "nat \<Rightarrow> nat list"

definition points :: "string \<Rightarrow> text_points" where
  "points s = map of_char s"

definition is_alnum :: "unicode \<Rightarrow> nat \<Rightarrow> bool" where
  "is_alnum U c = (if c < 128 then (48 \<le> c \<and> c \<le> 57) \<or> (65 \<le> c \<and> c \<le> 90) \<or> (97 \<le> c \<and> c \<le> 122)
     else uni_alnum U c)"

definition casefold :: "unicode \<Rightarrow> text_points \<Rightarrow> text_points" where
  "casefold U t = concat (map (\<lambda>c. if c < 128 then [if 65 \<le> c \<and> c \<le> 90 then c + 32 else c]
     else uni_fold U c) t)"

text \<open>\<open>str.encode("utf-8")\<close>; surrogates cannot be encoded.\<close>

definition utf8_point :: "nat \<Rightarrow> nat list option" where
  "utf8_point c =
     (if c < 128 then Some [c]
      else if c < 2048 then Some [192 + c div 64, 128 + c mod 64]
      else if 55296 \<le> c \<and> c < 57344 then None
      else if c < 65536 then Some [224 + c div 4096, 128 + c div 64 mod 64, 128 + c mod 64]
      else Some [240 + c div 262144, 128 + c div 4096 mod 64, 128 + c div 64 mod 64, 128 + c mod 64])"

fun utf8_encode :: "text_points \<Rightarrow> nat list option" where
  "utf8_encode [] = Some []"
| "utf8_encode (c # cs) = (case (utf8_point c, utf8_encode cs) of
     (Some b, Some bs) \<Rightarrow> Some (b @ bs) | _ \<Rightarrow> None)"

text \<open>\<open>bytes.decode("utf-8", errors="strict")\<close>: no overlong forms, surrogates or stray bytes.\<close>

definition tail_byte :: "nat \<Rightarrow> bool" where
  "tail_byte b = (128 \<le> b \<and> b < 192)"

definition keep_point :: "nat \<Rightarrow> text_points option \<Rightarrow> text_points option" where
  "keep_point c = map_option (Cons c)"

fun utf8_decode :: "nat list \<Rightarrow> text_points option" where
  "utf8_decode [] = Some []"
| "utf8_decode (a # bs) =
     (if a < 128 then keep_point a (utf8_decode bs)
      else (case bs of
          [] \<Rightarrow> None
        | b # bs2 \<Rightarrow>
          if 194 \<le> a \<and> a < 224 \<and> tail_byte b then keep_point ((a - 192) * 64 + (b - 128)) (utf8_decode bs2)
          else (case bs2 of
              [] \<Rightarrow> None
            | c # bs3 \<Rightarrow>
              let p = (a - 224) * 4096 + (b - 128) * 64 + (c - 128) in
              if 224 \<le> a \<and> a < 240 \<and> tail_byte b \<and> tail_byte c
              then if p < 2048 \<or> (55296 \<le> p \<and> p < 57344) then None else keep_point p (utf8_decode bs3)
              else (case bs3 of
                  [] \<Rightarrow> None
                | d # bs4 \<Rightarrow>
                  let q = (a - 240) * 262144 + (b - 128) * 4096 + (c - 128) * 64 + (d - 128) in
                  if 240 \<le> a \<and> a < 245 \<and> tail_byte b \<and> tail_byte c \<and> tail_byte d \<and> 65536 \<le> q \<and> q < 1114112
                  then keep_point q (utf8_decode bs4) else None))))"

definition max_secret_chars :: nat where "max_secret_chars = 4096"
definition max_secret_bytes :: nat where "max_secret_bytes = 4096"
definition url_decode_rounds :: nat where "url_decode_rounds = 3"

definition bounded_utf8 :: "text_points \<Rightarrow> bool \<times> nat" where
  "bounded_utf8 t =
     (if length t > max_secret_chars then (False, length t + 1)
      else (case utf8_encode t of Some b \<Rightarrow> length b \<le> max_secret_bytes | None \<Rightarrow> False, length t + 1))"

section \<open>Strict percent decoding\<close>

definition hex_digit_value :: "nat \<Rightarrow> nat option" where
  "hex_digit_value c = (if 48 \<le> c \<and> c \<le> 57 then Some (c - 48)
     else if 97 \<le> c \<and> c \<le> 102 then Some (c - 87)
     else if 65 \<le> c \<and> c \<le> 70 then Some (c - 55) else None)"

fun url_bytes :: "nat list \<Rightarrow> (nat list \<times> nat) option" where
  "url_bytes [] = Some ([], 0)"
| "url_bytes (x # bs) =
     (if x \<noteq> 37 then map_option (\<lambda>(out, n). (x # out, n + 1)) (url_bytes bs)
      else (case bs of
          h # l # rest \<Rightarrow> (case (hex_digit_value h, hex_digit_value l) of
              (Some u, Some v) \<Rightarrow> map_option (\<lambda>(out, n). ((u * 16 + v) # out, n + 1)) (url_bytes rest)
            | _ \<Rightarrow> None)
        | _ \<Rightarrow> None))"

text \<open>\<open>None\<close> is one of the errors the callers catch.\<close>

definition strict_url_decode :: "text_points \<Rightarrow> (text_points \<times> nat) option" where
  "strict_url_decode t = Option.bind (utf8_encode (map (\<lambda>c. if c = 43 then 32 else c) t)) (\<lambda>raw.
     Option.bind (url_bytes raw) (\<lambda>(out, n). map_option (\<lambda>d. (d, n)) (utf8_decode out)))"

text \<open>\<open>re.search(r"%(?![0-9A-Fa-f]{2})", text)\<close>.\<close>

fun malformed_escape :: "text_points \<Rightarrow> bool" where
  "malformed_escape [] = False"
| "malformed_escape (c # cs) = ((c = 37 \<and> (case cs of
       h # l # _ \<Rightarrow> hex_digit_value h = None \<or> hex_digit_value l = None
     | _ \<Rightarrow> True)) \<or> malformed_escape cs)"

section \<open>Tokens\<close>

function tokenize_label :: "unicode \<Rightarrow> text_points \<Rightarrow> text_points list \<times> nat" where
  "tokenize_label U [] = ([], 0)"
| "tokenize_label U (c # cs) =
     (if \<not> is_alnum U c then (case tokenize_label U cs of (ts, n) \<Rightarrow> (ts, n + 1))
      else (case tokenize_label U (dropWhile (is_alnum U) cs) of (ts, n) \<Rightarrow>
        (casefold U (c # takeWhile (is_alnum U) cs) # ts, n + 1 + length (takeWhile (is_alnum U) cs))))"
  by pat_completeness auto
termination
  by (relation "measure (length \<circ> snd)") (auto simp: less_Suc_eq_le length_dropWhile_le)

section \<open>The label policy\<close>

definition canonical_labels :: "string list" where
  "canonical_labels = [''authorization'', ''auth'', ''basic'', ''bearer'', ''api_key'', ''access_key'',
     ''secret_key'', ''access_token'', ''private_key'', ''private_token'', ''session_key'',
     ''session_token'', ''client_secret'', ''refresh_token'', ''id_token'', ''password'', ''credential'',
     ''cookie'', ''secret'', ''token'', ''jwt'', ''totp'', ''otp'', ''passphrase'', ''passwd'', ''pwd'']"

fun split_at_mark :: "char \<Rightarrow> string \<Rightarrow> string list" where
  "split_at_mark m [] = [[]]"
| "split_at_mark m (c # cs) = (case split_at_mark m cs of
     [] \<Rightarrow> []
   | w # ws \<Rightarrow> if c = m then [] # w # ws else (c # w) # ws)"

definition canonical_sequences :: "text_points list list" where
  "canonical_sequences = map (\<lambda>l. map points (split_at_mark CHR ''_'' l)) canonical_labels"

definition strong_single_tokens :: "text_points list" where
  "strong_single_tokens = map hd (filter (\<lambda>s. length s = 1) canonical_sequences)"

definition compound_pairs :: "(text_points \<times> text_points) list" where
  "compound_pairs = map (\<lambda>s. (hd s, s ! 1)) (filter (\<lambda>s. length s = 2) canonical_sequences)"

definition flattened_compounds :: "text_points list" where
  "flattened_compounds = map (\<lambda>(a, b). a @ b) compound_pairs"

fun scan_tokens :: "text_points list \<Rightarrow> bool \<times> nat" where
  "scan_tokens [] = (False, 0)"
| "scan_tokens (t # ts) =
     (if t \<in> set strong_single_tokens \<or> t \<in> set flattened_compounds then (True, 1)
      else if ts \<noteq> [] \<and> (t, hd ts) \<in> set compound_pairs then (True, 1)
      else (case scan_tokens ts of (b, n) \<Rightarrow> (b, n + 1)))"

definition structured_tokens_sensitive :: "text_points list \<Rightarrow> bool \<times> nat" where
  "structured_tokens_sensitive ts =
     (if ts = [points ''key''] then (True, 1)
      else case scan_tokens ts of (b, n) \<Rightarrow> (b, n + 1))"

definition classify_structured :: "unicode \<Rightarrow> text_points \<Rightarrow> bool \<times> nat" where
  "classify_structured U t = (case tokenize_label U t of (ts, n) \<Rightarrow>
     case structured_tokens_sensitive ts of (b, m) \<Rightarrow> (b, n + m))"

section \<open>The bounded rounds\<close>

text \<open>The last look, after the rounds are used up: the text must be a fixed point of decoding.\<close>

definition last_round :: "unicode \<Rightarrow> text_points \<Rightarrow> bool" where
  "last_round U t = (if fst (classify_structured U t) \<or> malformed_escape t then True
     else (case strict_url_decode t of None \<Rightarrow> True
       | Some (d, _) \<Rightarrow> \<not> fst (bounded_utf8 d) \<or> d \<noteq> t))"

fun label_rounds :: "unicode \<Rightarrow> nat \<Rightarrow> text_points \<Rightarrow> bool" where
  "label_rounds U 0 t = last_round U t"
| "label_rounds U (Suc k) t =
     (if fst (classify_structured U t) then True
      else if malformed_escape t then True
      else (case strict_url_decode t of None \<Rightarrow> True
        | Some (d, _) \<Rightarrow>
          if \<not> fst (bounded_utf8 d) then True
          else if d = t then False
          else label_rounds U k d))"

definition sensitive_label :: "unicode \<Rightarrow> text_points \<Rightarrow> bool" where
  "sensitive_label U t = (if \<not> fst (bounded_utf8 t) then True else label_rounds U url_decode_rounds t)"

text \<open>The detector on the labels of modelled payloads.\<close>

definition sensitive_key :: "unicode \<Rightarrow> string \<Rightarrow> bool" where
  "sensitive_key U s = sensitive_label U (points s)"

section \<open>Plain labels\<close>

text \<open>Texts that percent decoding leaves alone.\<close>

definition plain_text :: "text_points \<Rightarrow> bool" where
  "plain_text t \<longleftrightarrow> list_all (\<lambda>c. c < 128 \<and> c \<noteq> 37 \<and> c \<noteq> 43) t"

lemma plain_text_simps [simp]:
  "plain_text []" "plain_text (c # t) \<longleftrightarrow> c < 128 \<and> c \<noteq> 37 \<and> c \<noteq> 43 \<and> plain_text t"
  by (auto simp: plain_text_def)

lemma plain_encode [simp]: "plain_text t \<Longrightarrow> utf8_encode t = Some t"
  by (induction t) (auto simp: utf8_point_def)

lemma plain_decode [simp]: "plain_text t \<Longrightarrow> utf8_decode t = Some t"
  by (induction t) (auto simp: keep_point_def)

lemma plain_url_bytes [simp]: "plain_text t \<Longrightarrow> url_bytes t = Some (t, length t)"
  by (induction t) auto

lemma plain_not_malformed [simp]: "plain_text t \<Longrightarrow> \<not> malformed_escape t"
  by (induction t) auto

lemma plain_plus [simp]: "plain_text t \<Longrightarrow> map (\<lambda>c. if c = 43 then 32 else c) t = t"
  by (induction t) auto

lemma plain_url_decode [simp]: "plain_text t \<Longrightarrow> strict_url_decode t = Some (t, length t)"
  by (simp add: strict_url_decode_def)

lemma plain_bounded [simp]: "plain_text t \<Longrightarrow> fst (bounded_utf8 t) \<longleftrightarrow> length t \<le> max_secret_chars"
  by (simp add: bounded_utf8_def max_secret_chars_def max_secret_bytes_def)

lemma plain_sensitive:
  assumes "plain_text t" "length t \<le> max_secret_chars"
  shows "sensitive_label U t = fst (classify_structured U t)"
  using assms by (simp add: sensitive_label_def url_decode_rounds_def numeral_eq_Suc)

section \<open>What the detector accepts\<close>

definition decode_once :: "text_points \<Rightarrow> text_points option" where
  "decode_once t = map_option fst (strict_url_decode t)"

fun unwrap :: "nat \<Rightarrow> text_points \<Rightarrow> text_points option" where
  "unwrap 0 t = Some t"
| "unwrap (Suc k) t = Option.bind (decode_once t) (unwrap k)"

text \<open>The tokens name a secret: a lone \<open>key\<close>, a strong word, a run-together or a two-word label.\<close>

definition names_secret :: "text_points list \<Rightarrow> bool" where
  "names_secret ts \<longleftrightarrow> ts = [points ''key''] \<or>
     (\<exists>t \<in> set ts. t \<in> set strong_single_tokens \<or> t \<in> set flattened_compounds) \<or>
     (\<exists>p \<in> set (zip ts (tl ts)). p \<in> set compound_pairs)"

definition clean_text :: "unicode \<Rightarrow> text_points \<Rightarrow> bool" where
  "clean_text U t \<longleftrightarrow> \<not> names_secret (fst (tokenize_label U t)) \<and> \<not> malformed_escape t \<and> fst (bounded_utf8 t)"

lemma scan_tokens_iff:
  "fst (scan_tokens ts) \<longleftrightarrow>
     (\<exists>t \<in> set ts. t \<in> set strong_single_tokens \<or> t \<in> set flattened_compounds) \<or>
     (\<exists>p \<in> set (zip ts (tl ts)). p \<in> set compound_pairs)"
proof (induction ts)
  case (Cons t ts)
  then show ?case
    by (cases ts) (auto split: prod.splits)
qed simp

lemma classify_structured_iff:
  "fst (classify_structured U t) \<longleftrightarrow> names_secret (fst (tokenize_label U t))"
  using scan_tokens_iff [of "fst (tokenize_label U t)"]
  by (auto simp: classify_structured_def structured_tokens_sensitive_def names_secret_def split: prod.splits)

text \<open>Decoding reaches a fixed point within \<open>k\<close> steps through clean texts only.\<close>

definition settles :: "unicode \<Rightarrow> nat \<Rightarrow> text_points \<Rightarrow> bool" where
  "settles U k t \<longleftrightarrow> (\<exists>j \<le> k. \<exists>f. unwrap j t = Some f \<and> decode_once f = Some f \<and>
     (\<forall>i \<le> j. \<forall>u. unwrap i t = Some u \<longrightarrow> clean_text U u))"

lemma unwrap_fixed: "decode_once t = Some t \<Longrightarrow> unwrap j t = Some t"
  by (induction j) auto

lemma settles_fixed: "decode_once t = Some t \<Longrightarrow> settles U k t \<longleftrightarrow> clean_text U t"
  by (auto simp: settles_def unwrap_fixed)

lemma settles_0: "settles U 0 t \<longleftrightarrow> decode_once t = Some t \<and> clean_text U t"
  by (auto simp: settles_def)

lemma settles_None: "decode_once t = None \<Longrightarrow> \<not> settles U k t"
proof -
  assume n: "decode_once t = None"
  have "f = t" if "unwrap j t = Some f" for j f
    using n that by (cases j) auto
  then show ?thesis
    using n unfolding settles_def by (metis option.distinct(1))
qed

lemma settles_Suc:
  assumes "decode_once t = Some d" "d \<noteq> t"
  shows "settles U (Suc k) t \<longleftrightarrow> clean_text U t \<and> settles U k d"
proof
  assume "settles U (Suc k) t"
  then obtain j f where j: "j \<le> Suc k" "unwrap j t = Some f" "decode_once f = Some f"
    and c: "\<And>i u. i \<le> j \<Longrightarrow> unwrap i t = Some u \<Longrightarrow> clean_text U u"
    by (auto simp: settles_def)
  obtain j' where j': "j = Suc j'"
    using j assms by (cases j) auto
  have "clean_text U u" if "i \<le> j'" "unwrap i d = Some u" for i u
    using c [of "Suc i" u] that assms(1) j' by simp
  then show "clean_text U t \<and> settles U k d"
    using j j' assms(1) c [of 0 t] by (auto simp: settles_def)
next
  assume r: "clean_text U t \<and> settles U k d"
  then obtain j f where j: "j \<le> k" "unwrap j d = Some f" "decode_once f = Some f"
    and c: "\<And>i u. i \<le> j \<Longrightarrow> unwrap i d = Some u \<Longrightarrow> clean_text U u"
    by (auto simp: settles_def)
  have "clean_text U u" if "i \<le> Suc j" "unwrap i t = Some u" for i u
    using that r assms(1) c by (cases i) auto
  then show "settles U (Suc k) t"
    unfolding settles_def using j assms(1) by (intro exI [of _ "Suc j"]) auto
qed

lemma clean_bounded: "clean_text U t \<Longrightarrow> fst (bounded_utf8 t)"
  by (simp add: clean_text_def)

lemma settles_clean: "settles U k t \<Longrightarrow> clean_text U t"
  unfolding settles_def by (metis le0 unwrap.simps(1))

lemma label_rounds_iff: "fst (bounded_utf8 t) \<Longrightarrow> \<not> label_rounds U k t \<longleftrightarrow> settles U k t"
proof (induction k arbitrary: t)
  case 0
  then show ?case
    by (auto simp: last_round_def settles_0 clean_text_def classify_structured_iff decode_once_def split: option.splits)
next
  case (Suc k)
  show ?case
  proof (cases "clean_text U t")
    case False
    then show ?thesis
      using settles_clean Suc.prems by (auto simp: clean_text_def classify_structured_iff)
  next
    case True
    then have c: "\<not> fst (classify_structured U t)" "\<not> malformed_escape t"
      by (simp_all add: clean_text_def classify_structured_iff)
    show ?thesis
    proof (cases "strict_url_decode t")
      case None
      then show ?thesis
        using settles_None [of t U "Suc k"] c by (simp add: decode_once_def)
    next
      case (Some dn)
      then obtain d n where d: "strict_url_decode t = Some (d, n)"
        by (cases dn) auto
      then have o: "decode_once t = Some d"
        by (simp add: decode_once_def)
      show ?thesis
      proof (cases "d = t")
        case True
        then show ?thesis
          using settles_fixed [of t U "Suc k"] o d c \<open>clean_text U t\<close> clean_bounded by auto
      next
        case ne: False
        show ?thesis
          using settles_Suc [OF o ne] settles_clean [of U k d] clean_bounded [of U d] Suc.IH [of d] d c ne
            \<open>clean_text U t\<close> by auto
      qed
    qed
  qed
qed

lemma sensitive_label_iff: "sensitive_label U t \<longleftrightarrow> \<not> settles U url_decode_rounds t"
  using label_rounds_iff [of t U url_decode_rounds] settles_clean [of U url_decode_rounds t]
    clean_bounded [of U t] by (auto simp: sensitive_label_def)

section \<open>Evaluating the policy\<close>

lemma policy_values:
  "strong_single_tokens = map points [''authorization'', ''auth'', ''basic'', ''bearer'', ''password'',
     ''credential'', ''cookie'', ''secret'', ''token'', ''jwt'', ''totp'', ''otp'', ''passphrase'',
     ''passwd'', ''pwd'']"
  "compound_pairs = map (\<lambda>(a, b). (points a, points b)) [(''api'', ''key''), (''access'', ''key''),
     (''secret'', ''key''), (''access'', ''token''), (''private'', ''key''), (''private'', ''token''),
     (''session'', ''key''), (''session'', ''token''), (''client'', ''secret''), (''refresh'', ''token''),
     (''id'', ''token'')]"
  "flattened_compounds = map points [''apikey'', ''accesskey'', ''secretkey'', ''accesstoken'',
     ''privatekey'', ''privatetoken'', ''sessionkey'', ''sessiontoken'', ''clientsecret'',
     ''refreshtoken'', ''idtoken'']"
  by code_simp+

lemma policy_points:
  "strong_single_tokens = [
     [97, 117, 116, 104, 111, 114, 105, 122, 97, 116, 105, 111, 110], [97, 117, 116, 104],
     [98, 97, 115, 105, 99], [98, 101, 97, 114, 101, 114], [112, 97, 115, 115, 119, 111, 114, 100],
     [99, 114, 101, 100, 101, 110, 116, 105, 97, 108], [99, 111, 111, 107, 105, 101],
     [115, 101, 99, 114, 101, 116], [116, 111, 107, 101, 110], [106, 119, 116], [116, 111, 116, 112],
     [111, 116, 112], [112, 97, 115, 115, 112, 104, 114, 97, 115, 101], [112, 97, 115, 115, 119, 100],
     [112, 119, 100]]"
  "compound_pairs = [
     ([97, 112, 105], [107, 101, 121]), ([97, 99, 99, 101, 115, 115], [107, 101, 121]),
     ([115, 101, 99, 114, 101, 116], [107, 101, 121]),
     ([97, 99, 99, 101, 115, 115], [116, 111, 107, 101, 110]),
     ([112, 114, 105, 118, 97, 116, 101], [107, 101, 121]),
     ([112, 114, 105, 118, 97, 116, 101], [116, 111, 107, 101, 110]),
     ([115, 101, 115, 115, 105, 111, 110], [107, 101, 121]),
     ([115, 101, 115, 115, 105, 111, 110], [116, 111, 107, 101, 110]),
     ([99, 108, 105, 101, 110, 116], [115, 101, 99, 114, 101, 116]),
     ([114, 101, 102, 114, 101, 115, 104], [116, 111, 107, 101, 110]),
     ([105, 100], [116, 111, 107, 101, 110])]"
  "flattened_compounds = [
     [97, 112, 105, 107, 101, 121], [97, 99, 99, 101, 115, 115, 107, 101, 121],
     [115, 101, 99, 114, 101, 116, 107, 101, 121], [97, 99, 99, 101, 115, 115, 116, 111, 107, 101, 110],
     [112, 114, 105, 118, 97, 116, 101, 107, 101, 121],
     [112, 114, 105, 118, 97, 116, 101, 116, 111, 107, 101, 110],
     [115, 101, 115, 115, 105, 111, 110, 107, 101, 121],
     [115, 101, 115, 115, 105, 111, 110, 116, 111, 107, 101, 110],
     [99, 108, 105, 101, 110, 116, 115, 101, 99, 114, 101, 116],
     [114, 101, 102, 114, 101, 115, 104, 116, 111, 107, 101, 110], [105, 100, 116, 111, 107, 101, 110]]"
  by code_simp+

lemma plain_sensitive_key:
  "plain_text (points s) \<Longrightarrow> length s \<le> max_secret_chars \<Longrightarrow>
     sensitive_key U s \<longleftrightarrow> names_secret (fst (tokenize_label U (points s)))"
  by (simp add: sensitive_key_def plain_sensitive classify_structured_iff points_def)

lemmas label_eval = plain_sensitive_key points_def max_secret_chars_def names_secret_def policy_points
  is_alnum_def casefold_def

text \<open>A concrete table: no letters or digits above ASCII.\<close>

definition demo_unicode :: unicode where
  "demo_unicode = \<lparr>uni_alnum = (\<lambda>_. False), uni_fold = (\<lambda>c. [c])\<rparr>"

section \<open>Properties\<close>

text \<open>C24: the label detector lets a label through exactly when percent decoding brings it to a fixed
  point within three rounds and every form on the way, the label itself included, is within the
  size bounds, has no malformed escape and names no secret; a canonical label hidden under any
  number of encodings is never let through.\<close>

theorem label_let_through_iff:
  "\<not> sensitive_label U t \<longleftrightarrow> settles U url_decode_rounds t"
  by (simp add: sensitive_label_iff)

text \<open>Encoding every character hides nothing: the encoded text decodes to the label.\<close>

definition hex_point :: "nat \<Rightarrow> nat" where
  "hex_point d = (if d < 10 then 48 + d else 55 + d)"

definition percent_encode :: "text_points \<Rightarrow> text_points" where
  "percent_encode t = concat (map (\<lambda>c. [37, hex_point (c div 16), hex_point (c mod 16)]) t)"

lemma hex_digit_hex_point: "d < 16 \<Longrightarrow> hex_digit_value (hex_point d) = Some d"
  by (auto simp: hex_digit_value_def hex_point_def)

lemma percent_encode_simps [simp]:
  "percent_encode [] = []"
  "percent_encode (c # t) = 37 # hex_point (c div 16) # hex_point (c mod 16) # percent_encode t"
  by (simp_all add: percent_encode_def)

lemma hex_point_neq [simp]: "hex_point d \<noteq> 43" "d < 16 \<Longrightarrow> hex_point d < 128"
  by (auto simp: hex_point_def)

lemma url_bytes_percent:
  "list_all (\<lambda>c. c < 128) t \<Longrightarrow> url_bytes (percent_encode t) = Some (t, length t)"
  by (induction t) (auto simp: hex_digit_hex_point)

lemma hex_point_utf8 [simp]: "c < 128 \<Longrightarrow> utf8_point (hex_point (c div 16)) = Some [hex_point (c div 16)]"
  "utf8_point (hex_point (c mod 16)) = Some [hex_point (c mod 16)]"
  using hex_point_neq(2) [of "c div 16"] hex_point_neq(2) [of "c mod 16"] by (simp_all add: utf8_point_def)

lemma percent_utf8 [simp]: "utf8_point 37 = Some [37]"
  by (simp add: utf8_point_def)

lemma encode_percent: "list_all (\<lambda>c. c < 128) t \<Longrightarrow> utf8_encode (percent_encode t) = Some (percent_encode t)"
  by (induction t) auto

lemma percent_no_plus: "map (\<lambda>c. if c = 43 then 32 else c) (percent_encode t) = percent_encode t"
  by (induction t) auto

lemma ascii_decode: "list_all (\<lambda>c. c < 128) t \<Longrightarrow> utf8_decode t = Some t"
  by (induction t) (auto simp: keep_point_def)

lemma decode_percent: "list_all (\<lambda>c. c < 128) t \<Longrightarrow> decode_once (percent_encode t) = Some t"
  by (simp add: decode_once_def strict_url_decode_def percent_no_plus encode_percent url_bytes_percent ascii_decode)

text \<open>Percent-encoding a label does not smuggle it past the detector: if a label is caught, so
  is the text with every character of it escaped.\<close>

lemma encoded_label_caught:
  assumes "list_all (\<lambda>c. c < 128) t" "sensitive_label U t"
  shows "sensitive_label U (percent_encode t)"
proof (rule ccontr)
  assume "\<not> sensitive_label U (percent_encode t)"
  then have s: "settles U url_decode_rounds (percent_encode t)"
    by (simp add: sensitive_label_iff)
  have d: "decode_once (percent_encode t) = Some t"
    by (rule decode_percent) fact
  show False
  proof (cases "t = percent_encode t")
    case True
    with s have "settles U url_decode_rounds t"
      by metis
    with assms(2) show ?thesis
      by (simp add: sensitive_label_iff)
  next
    case False
    then have "settles U 2 t"
      using settles_Suc [OF d, of U 2] s by (simp add: url_decode_rounds_def numeral_eq_Suc)
    then have "settles U url_decode_rounds t"
      unfolding settles_def url_decode_rounds_def by (meson le_trans one_le_numeral numeral_le_iff order.refl semiring_norm(69,72) le_numeral_extra)
    with assms(2) show ?thesis
      by (simp add: sensitive_label_iff)
  qed
qed

end
