(* ===== verification/Actions.thy ===== *)
theory Actions
  imports Prelude
begin

text \<open>
  Operations on a durable state that can raise after they have written: an action returns its
  result together with the state it leaves, also when the result is an exception.  The rules
  invert successful runs and carry relations between the states before and after.
\<close>

named_theorems action_simps \<open>inversion of successful actions\<close>
named_theorems along_intros \<open>relations carried by every outcome\<close>

type_synonym ('s, 'a) action = "'s \<Rightarrow> 'a result \<times> 's"

definition give :: "'a \<Rightarrow> ('s, 'a) action" where
  "give x s = (Inr x, s)"

definition raises :: "exn \<Rightarrow> ('s, 'a) action" where
  "raises e s = (Inl e, s)"

definition check :: "'a result \<Rightarrow> ('s, 'a) action" where
  "check r s = (r, s)"

definition reads :: "('s \<Rightarrow> 'a result) \<Rightarrow> ('s, 'a) action" where
  "reads f s = (f s, s)"

text \<open>An assignment, which cannot raise.\<close>

definition modify :: "('s \<Rightarrow> 's) \<Rightarrow> ('s, unit) action" where
  "modify f s = (Inr (), f s)"

text \<open>A transaction: an exception leaves the state as it was.\<close>

definition writes :: "('s \<Rightarrow> 's result) \<Rightarrow> ('s, unit) action" where
  "writes f s = (case f s of Inl e \<Rightarrow> (Inl e, s) | Inr s' \<Rightarrow> (Inr (), s'))"

definition then_do :: "('s, 'a) action \<Rightarrow> ('a \<Rightarrow> ('s, 'b) action) \<Rightarrow> ('s, 'b) action" where
  "then_do m f s = (case m s of (Inl e, s') \<Rightarrow> (Inl e, s') | (Inr x, s') \<Rightarrow> f x s')"

text \<open>\<open>if condition: raise e\<close>.\<close>

definition stop_if :: "bool \<Rightarrow> exn \<Rightarrow> ('s, unit) action" where
  "stop_if c e = check (require (\<not> c) e)"

text \<open>\<open>try: m except e: h\<close> for the exceptions the predicate selects.\<close>

definition rescue :: "('s, 'a) action \<Rightarrow> (exn \<Rightarrow> ('s, 'a) action option) \<Rightarrow> ('s, 'a) action" where
  "rescue m h s = (case m s of (Inl e, s') \<Rightarrow> (case h e of None \<Rightarrow> (Inl e, s') | Some k \<Rightarrow> k s')
     | (Inr x, s') \<Rightarrow> (Inr x, s'))"

section \<open>Successful runs\<close>

lemma give_eq [action_simps]: "give x s = (r, s') \<longleftrightarrow> r = Inr x \<and> s' = s"
  by (auto simp: give_def)

lemma raises_eq [action_simps]: "raises e s = (r, s') \<longleftrightarrow> r = Inl e \<and> s' = s"
  by (auto simp: raises_def)

lemma check_eq [action_simps]: "check v s = (r, s') \<longleftrightarrow> v = r \<and> s' = s"
  by (auto simp: check_def)

lemma reads_eq [action_simps]: "reads f s = (r, s') \<longleftrightarrow> f s = r \<and> s' = s"
  by (auto simp: reads_def)

lemma modify_eq [action_simps]: "modify f s = (r, s') \<longleftrightarrow> r = Inr () \<and> s' = f s"
  by (auto simp: modify_def)

lemma writes_eq_Inr [action_simps]: "writes f s = (Inr u, s') \<longleftrightarrow> f s = Inr s'"
  by (auto simp: writes_def split: sum.splits)

lemma writes_eq_Inl [action_simps]: "writes f s = (Inl e, s') \<longleftrightarrow> f s = Inl e \<and> s' = s"
  by (auto simp: writes_def split: sum.splits)

lemma then_do_eq_Inr [action_simps]:
  "then_do m f s = (Inr y, s'') \<longleftrightarrow> (\<exists>x s'. m s = (Inr x, s') \<and> f x s' = (Inr y, s''))"
  by (auto simp: then_do_def split: prod.splits sum.splits)

lemma stop_if_eq [action_simps]: "stop_if c e s = (Inr u, s') \<longleftrightarrow> \<not> c \<and> s' = s"
  by (auto simp: stop_if_def check_def require_def)

lemma stop_if_raises [simp]: "c \<Longrightarrow> then_do (stop_if c e) f s = (Inl e, s)"
  by (simp add: then_do_def stop_if_def check_def)

lemma stop_if_passes [simp]: "\<not> c \<Longrightarrow> then_do (stop_if c e) f s = f () s"
  by (simp add: then_do_def stop_if_def check_def)

lemma then_do_basic [simp]:
  "then_do (check (Inr x)) f s = f x s" "then_do (check (Inl e)) f s = (Inl e, s)"
  "then_do (give x) f s = f x s" "then_do (raises e) f s = (Inl e, s)"
  by (simp_all add: then_do_def check_def give_def raises_def)

lemma rescue_eq:
  "rescue m h s = (r, s'') \<longleftrightarrow> (\<exists>x. m s = (Inr x, s'') \<and> r = Inr x) \<or>
     (\<exists>e s'. m s = (Inl e, s') \<and> (case h e of None \<Rightarrow> s'' = s' \<and> r = Inl e | Some k \<Rightarrow> k s' = (r, s'')))"
  by (auto simp: rescue_def split: prod.splits sum.splits option.splits)

lemma rescue_eq_Inr [action_simps]:
  "rescue m h s = (Inr x, s'') \<longleftrightarrow> m s = (Inr x, s'') \<or>
     (\<exists>e s' k. m s = (Inl e, s') \<and> h e = Some k \<and> k s' = (Inr x, s''))"
  by (auto simp: rescue_eq split: option.splits)

text \<open>Running a sequence forwards.\<close>

lemma then_do_steps:
  "f s = Inr s' \<Longrightarrow> then_do (writes f) g s = g () s'" "h s = Inr x \<Longrightarrow> then_do (reads h) k s = k x s"
  "m s = (Inr y, s') \<Longrightarrow> then_do m n s = n y s'"
  by (simp_all add: then_do_def writes_def reads_def)

section \<open>Every outcome\<close>

lemma then_do_eq:
  "then_do m f s = (r, s'') \<longleftrightarrow> (\<exists>e. m s = (Inl e, s'') \<and> r = Inl e) \<or>
     (\<exists>x s'. m s = (Inr x, s') \<and> f x s' = (r, s''))"
  by (auto simp: then_do_def split: prod.splits sum.splits)

lemma stop_if_cases: "stop_if c e s = (r, s') \<longleftrightarrow> s' = s \<and> r = (if c then Inl e else Inr ())"
  by (auto simp: stop_if_def check_def require_def)

lemma writes_cases:
  "writes f s = (r, s') \<longleftrightarrow> (\<exists>e. f s = Inl e \<and> r = Inl e \<and> s' = s) \<or> (f s = Inr s' \<and> r = Inr ())"
  by (auto simp: writes_def split: sum.splits)

text \<open>All outcomes of an action, exceptions included.\<close>

lemmas outcome_simps = then_do_eq rescue_eq check_eq reads_eq stop_if_cases writes_cases raises_eq give_eq modify_eq

text \<open>\<open>R\<close> relates the state before an action to the state it leaves, whatever it returns.\<close>

definition along :: "('s \<Rightarrow> 's \<Rightarrow> bool) \<Rightarrow> ('s, 'a) action \<Rightarrow> bool" where
  "along R m \<longleftrightarrow> (\<forall>s. R s (snd (m s)))"

lemma alongD: "along R m \<Longrightarrow> m s = (r, s') \<Longrightarrow> R s s'"
  by (auto simp: along_def dest: spec [of _ s])

lemma along_still [along_intros]:
  "reflp R \<Longrightarrow> along R (give x)" "reflp R \<Longrightarrow> along R (raises e)"
  "reflp R \<Longrightarrow> along R (check r)" "reflp R \<Longrightarrow> along R (reads f)" "reflp R \<Longrightarrow> along R (stop_if c e)"
  by (auto simp: along_def give_def raises_def check_def reads_def stop_if_def reflp_def)

lemma along_modify: "(\<And>s. R s (f s)) \<Longrightarrow> along R (modify f)"
  by (simp add: along_def modify_def)

lemma along_writes:
  "reflp R \<Longrightarrow> (\<And>s s'. f s = Inr s' \<Longrightarrow> R s s') \<Longrightarrow> along R (writes f)"
  by (auto simp: along_def writes_def reflp_def split: sum.splits)

lemma along_then [along_intros]:
  assumes "transp R" "along R m" "\<And>x. along R (f x)"
  shows "along R (then_do m f)"
  unfolding along_def then_do_def
proof
  fix s
  have "R s (snd (m s))" "R (snd (m s)) (snd (f x (snd (m s))))" for x
    using assms(2,3) by (auto simp: along_def)
  then show "R s (snd (case m s of (Inl e, s') \<Rightarrow> (Inl e, s') | (Inr x, s') \<Rightarrow> f x s'))"
    using assms(1) by (auto split: prod.splits sum.splits) (meson transpD)+
qed

lemma along_rescue [along_intros]:
  assumes "transp R" "along R m" "\<And>e k. h e = Some k \<Longrightarrow> along R k"
  shows "along R (rescue m h)"
  unfolding along_def rescue_def
proof
  fix s
  have "R s (snd (m s))" and k: "h e = Some k \<Longrightarrow> R (snd (m s)) (snd (k (snd (m s))))" for e k
    using assms(2,3) by (auto simp: along_def)
  then show "R s (snd (case m s of (Inl e, s') \<Rightarrow> (case h e of None \<Rightarrow> (Inl e, s') | Some k \<Rightarrow> k s')
      | (Inr x, s') \<Rightarrow> (Inr x, s')))"
    using assms(1) by (auto split: prod.splits sum.splits option.splits) (meson transpD)+
qed

lemma along_if [along_intros]: "along R m \<Longrightarrow> along R n \<Longrightarrow> along R (if c then m else n)"
  by simp

lemma along_option [along_intros]:
  "along R m \<Longrightarrow> (\<And>x. along R (f x)) \<Longrightarrow> along R (case v of None \<Rightarrow> m | Some x \<Rightarrow> f x)"
  by (cases v) simp_all

lemma along_prod [along_intros]: "(\<And>x y. along R (f x y)) \<Longrightarrow> along R (case v of (x, y) \<Rightarrow> f x y)"
  by (cases v) simp

lemma along_let [along_intros]: "along R (f v) \<Longrightarrow> along R (let x = v in f x)"
  by simp

end
