(* ===== verification/Safety.thy ===== *)
theory Safety
  imports EventStore Security Actions
begin

text \<open>
  The authenticated safety authority of \<open>execution/safety.py\<close>: signing and verification of
  safety events, the kill switch and interlock readings, and the operations of the approval,
  reconciliation and live roles over the event store.  SHA-256 and the keyed HMAC are arguments
  (\<open>se_sha\<close>, \<open>se_sign\<close>), as are the UUIDs and nonces drawn by an operation.  The capability
  handles only forward to the roles, so a handle is the role it was registered for.
\<close>

section \<open>Constants\<close>

definition mac_domain :: string where
  "mac_domain = ''omnimarket-sentinel:safety-event-mac:v1'' @ [CHR 0x00]"
definition mac_field :: string where "mac_field = ''safety_mac''"
definition version_field :: string where "version_field = ''safety_version''"
definition safety_version :: int where "safety_version = 1"
definition confirmation_phrase :: string where "confirmation_phrase = ''I_CONFIRM_REAL_MONEY_ORDER''"
definition kill_ack :: string where "kill_ack = ''I_ACKNOWLEDGE_HEALTHY_RECONCILIATION''"
definition reconciliation_aggregate :: string where "reconciliation_aggregate = ''live-reconciliation''"
definition kill_switch_aggregate :: string where "kill_switch_aggregate = ''live-kill-switch''"
definition interlock_aggregate :: string where "interlock_aggregate = ''live-submission-interlock''"

definition reconciliation_reasons :: "string list" where
  "reconciliation_reasons = [''PROVIDER_UNAVAILABLE'', ''PROVIDER_DATA_INVALID'', ''PROVIDER_DATA_FUTURE'',
     ''PROVIDER_DATA_STALE'', ''CURRENCY_MISMATCH'', ''CASH_MISMATCH'', ''POSITION_UNKNOWN'',
     ''POSITION_MISSING'', ''POSITION_SIDE_MISMATCH'', ''POSITION_QUANTITY_MISMATCH'', ''ORDER_UNKNOWN'',
     ''ORDER_MISSING'', ''ORDER_INSTRUMENT_MISMATCH'', ''ORDER_SIDE_MISMATCH'', ''ORDER_QUANTITY_MISMATCH'',
     ''ORDER_FILL_MISMATCH'', ''ORDER_STATUS_MISMATCH'']"

definition acknowledged_statuses :: "string list" where
  "acknowledged_statuses = [''acknowledged'', ''partially_filled'', ''filled'']"

section \<open>Validators\<close>

definition exact_text :: "string \<Rightarrow> string result" where
  "exact_text v = (if v = [] then Inl (ValueError ''safety text is malformed'') else Inr v)"

definition sha256_text :: "string \<Rightarrow> string result" where
  "sha256_text v = rbind (exact_text v) (\<lambda>t.
     if length t \<noteq> 64 \<or> \<not> list_all (\<lambda>c. c \<in> set ''0123456789abcdef'') t
     then Inl (ValueError ''safety digest is malformed'') else Inr t)"

definition safety_aware :: "pydt \<Rightarrow> instant result" where
  "safety_aware v = aware_utc (ValueError ''safety timestamp is malformed'') v"

definition time_text :: "pydt \<Rightarrow> string result" where
  "time_text v = rbind (safety_aware v) (\<lambda>t. Inr (micro_text t))"

section \<open>Authentication\<close>

record safety_env =
  se_sha :: "string \<Rightarrow> string"
  se_sign :: "string \<Rightarrow> string"
  se_unicode :: unicode

text \<open>\<open>allow_nan=False\<close> refuses the floats that are not finite.\<close>

fun json_finite :: "json \<Rightarrow> bool" where
  "json_finite (JFloat fin t) = fin"
| "json_finite (JList xs) = list_all json_finite xs"
| "json_finite (JObj kvs) = list_all (\<lambda>kv. json_finite (snd kv)) kvs"
| "json_finite _ = True"

definition bounded_message :: "string \<Rightarrow> string result" where
  "bounded_message encoded =
     (if int (length encoded) > 65536 then Inl (ValueError ''safety event exceeds bounded encoding'')
      else Inr (mac_domain @ encoded))"

definition mac_message :: "string \<Rightarrow> string \<Rightarrow> string \<Rightarrow> instant \<Rightarrow> (string \<times> json) list \<Rightarrow> string result" where
  "mac_message event_id event_kind aggregate_id occurred_at payload =
     (if event_id = [] \<or> event_kind = [] \<or> aggregate_id = []
      then Inl (ValueError ''safety event identity is malformed'')
      else if \<not> json_finite (JObj payload)
      then Inl (ValueError ''Out of range float values are not JSON compliant'')
      else bounded_message (dumps (JObj [
             (''aggregate_id'', JStr aggregate_id), (''event_id'', JStr event_id), (''kind'', JStr event_kind),
             (''occurred_at'', JStr (micro_text occurred_at)), (''payload'', JObj payload)])))"

text \<open>
  A stored payload is frozen when it is read: nested objects become mapping proxies, which
  \<open>json.dumps\<close> does not serialise, so a row with a nested object never verifies.
\<close>

fun flat_json :: "json \<Rightarrow> bool" where
  "flat_json (JObj kvs) = False"
| "flat_json (JList xs) = list_all flat_json xs"
| "flat_json _ = True"

text \<open>\<open>version != 1\<close> on the values JSON can hold.\<close>

fun is_version :: "json \<Rightarrow> bool" where
  "is_version (JInt n) = (n = safety_version)"
| "is_version (JBool b) = b"
| "is_version (JFloat fin t) = (t = ''1.0'')"
| "is_version _ = False"

definition verify :: "safety_env \<Rightarrow> event_record \<Rightarrow> bool" where
  "verify E r = (case er_payload r of
       JObj kvs \<Rightarrow> (case (dget kvs mac_field, dget (ddel mac_field kvs) version_field) of
           (Some (JStr mac), Some version) \<Rightarrow>
             let payload = ddel version_field (ddel mac_field kvs) in
             is_version version \<and> list_all (\<lambda>kv. flat_json (snd kv)) payload \<and>
             (case mac_message (er_event_id r) (er_kind r) (er_aggregate_id r) (er_occurred_at r) payload of
                Inl _ \<Rightarrow> False | Inr m \<Rightarrow> mac = se_sign E m)
         | _ \<Rightarrow> False)
     | _ \<Rightarrow> False)"

text \<open>A nonce source returns bytes (here characters) or fails.\<close>

definition hex_digit_char :: "nat \<Rightarrow> char" where
  "hex_digit_char d = ''0123456789abcdef'' ! d"

definition bytes_hex :: "string \<Rightarrow> string" where
  "bytes_hex bs = concat (map (\<lambda>c. [hex_digit_char (of_char c div 16), hex_digit_char (of_char c mod 16)]) bs)"

definition new_nonce :: "string option \<Rightarrow> string result" where
  "new_nonce source = (case source of
       Some v \<Rightarrow> if 16 \<le> int (length v) \<and> int (length v) \<le> 64 then Inr (bytes_hex v)
         else Inl (ValueError ''safety nonce source returned malformed data'')
     | None \<Rightarrow> Inl (ValueError ''safety nonce source returned malformed data''))"

section \<open>The authority\<close>

abbreviation safety_event :: "string \<Rightarrow> string \<Rightarrow> string \<Rightarrow> (string \<times> json) list \<Rightarrow> instant \<Rightarrow> event_append" where
  "safety_event event_id event_kind aggregate_id payload t \<equiv>
     \<lparr>ea_event_id = event_id, ea_kind = event_kind, ea_aggregate_id = aggregate_id,
      ea_payload = JObj payload, ea_occurred_at = Aware t\<rparr>"

abbreviation hidden :: "safety_env \<Rightarrow> string \<Rightarrow> bool" where
  "hidden E \<equiv> sensitive_key (se_unicode E)"

definition signed_event :: "safety_env \<Rightarrow> event_append \<Rightarrow> event_append result" where
  "signed_event E a =
     (if ea_event_id a = [] \<or> ea_kind a = [] \<or> ea_aggregate_id a = []
      then Inl (ValueError ''safety event identity is malformed'')
      else rbind (safety_aware (ea_occurred_at a)) (\<lambda>t.
        case redact (hidden E) (ea_payload a) of
          JObj kvs \<Rightarrow>
            if dget kvs mac_field \<noteq> None \<or> dget kvs version_field \<noteq> None
            then Inl (ValueError ''reserved safety authentication field'')
            else rbind (mac_message (ea_event_id a) (ea_kind a) (ea_aggregate_id a) t kvs) (\<lambda>m.
              Inr (a\<lparr>ea_payload := JObj (dset mac_field (JStr (se_sign E m))
                     (dset version_field (JInt safety_version) kvs)), ea_occurred_at := Aware t\<rparr>))
        | _ \<Rightarrow> Inl (ValueError ''audit payload mapping type is unsupported'')))"

definition signed_batch :: "safety_env \<Rightarrow> event_append list \<Rightarrow> event_append list result" where
  "signed_batch E batch = (if batch = [] then Inl (ValueError ''safety batch must be a nonempty tuple'')
     else traverse (signed_event E) batch)"

definition safety_record :: "safety_env \<Rightarrow> event_append list \<Rightarrow> event_store \<Rightarrow> event_store result" where
  "safety_record E batch st = rbind (signed_batch E batch) (\<lambda>signed. record_many (hidden E) signed st)"

definition safety_record_if_heads ::
  "safety_env \<Rightarrow> event_append list \<Rightarrow> (string \<times> string option) list \<Rightarrow> event_store \<Rightarrow> event_store result" where
  "safety_record_if_heads E batch heads st =
     rbind (signed_batch E batch) (\<lambda>signed. record_many_if_heads (hidden E) signed heads st)"

definition stream_verified :: "safety_env \<Rightarrow> string \<Rightarrow> event_store \<Rightarrow> event_record list result" where
  "stream_verified E aggregate_id st =
     (if aggregate_id = [] then Inl (SafetyIntegrityError ''safety aggregate identity is malformed'')
      else case stream aggregate_id st of
          Inl _ \<Rightarrow> Inl (SafetyIntegrityError ''persisted safety state failed authentication'')
        | Inr rows \<Rightarrow> if \<not> list_all (verify E) rows
            then Inl (SafetyIntegrityError ''persisted safety state failed authentication'') else Inr rows)"

text \<open>\<open>row.payload.get(name)\<close>.\<close>

definition pget :: "event_record \<Rightarrow> string \<Rightarrow> json option" where
  "pget r k = (case er_payload r of JObj kvs \<Rightarrow> dget kvs k | _ \<Rightarrow> None)"

definition last_id :: "event_record list \<Rightarrow> string option" where
  "last_id rows = (if rows = [] then None else Some (er_event_id (last rows)))"

section \<open>Kill switch and interlock readings\<close>

text \<open>\<open>value == number\<close> between a JSON value and a Python int.\<close>

fun json_is_int :: "json \<Rightarrow> int \<Rightarrow> bool" where
  "json_is_int (JInt m) n = (m = n)"
| "json_is_int (JBool b) n = ((if b then 1 else 0) = n)"
| "json_is_int (JFloat fin t) n = (t = int_text n @ ''.0'')"
| "json_is_int _ n = False"

definition healthy_report :: "event_record \<Rightarrow> bool" where
  "healthy_report r = (er_kind r = ''reconciliation.healthy'' \<and> pget r ''healthy'' = Some (JBool True) \<and>
     pget r ''reason_codes'' = Some (JList []))"

definition has_reasons :: "event_record \<Rightarrow> bool" where
  "has_reasons r = (case pget r ''reason_codes'' of Some (JList xs) \<Rightarrow> xs \<noteq> [] | _ \<Rightarrow> False)"

text \<open>The scans return \<open>None\<close> where the source returns \<open>True\<close> early: the history is malformed.\<close>

definition clear_matches :: "event_record list \<Rightarrow> event_record \<Rightarrow> event_record \<Rightarrow> bool" where
  "clear_matches reports activation row =
     (pget row ''activation_event_id'' = Some (JStr (er_event_id activation)) \<and>
      (\<exists>v \<in> set_option (pget row ''activation_sequence''). json_is_int v (er_sequence activation)) \<and>
      er_sequence activation < er_sequence row \<and>
      list_ex (\<lambda>c. healthy_report c \<and> er_sequence activation < er_sequence c \<and> er_sequence c < er_sequence row)
        reports)"

fun kill_scan ::
  "event_record list \<Rightarrow> event_record option \<Rightarrow> bool \<Rightarrow> event_record list \<Rightarrow> (event_record option \<times> bool) option" where
  "kill_scan reports latest active [] = Some (latest, active)"
| "kill_scan reports latest active (row # rows) =
     (if er_kind row = ''kill_switch.activated''
      then if has_reasons row then kill_scan reports (Some row) True rows else None
      else if er_kind row = ''kill_switch.cleared''
      then (case latest of
          None \<Rightarrow> None
        | Some a \<Rightarrow> if clear_matches reports a row then kill_scan reports latest False rows else None)
      else None)"

definition kill_active :: "event_record list \<Rightarrow> event_record list \<Rightarrow> bool" where
  "kill_active rows reports = (case kill_scan reports None False rows of None \<Rightarrow> True | Some (_, active) \<Rightarrow> active)"

text \<open>The open submission, if any.\<close>

fun interlock_scan :: "string \<Rightarrow> bool \<Rightarrow> event_record list \<Rightarrow> bool option" where
  "interlock_scan submission active [] = Some active"
| "interlock_scan submission active (row # rows) =
     (if er_kind row = ''live.interlock_started''
      then if active then None
        else (case pget row ''submission_id'' of Some (JStr s) \<Rightarrow> interlock_scan s True rows | _ \<Rightarrow> None)
      else if er_kind row = ''live.interlock_resolved''
      then if \<not> active \<or> pget row ''submission_id'' \<noteq> Some (JStr submission) then None
        else interlock_scan submission False rows
      else None)"

definition interlock_active :: "event_record list \<Rightarrow> bool" where
  "interlock_active rows = (case interlock_scan [] False rows of None \<Rightarrow> True | Some active \<Rightarrow> active)"

section \<open>The approval role\<close>

definition confirmation_aggregate :: "string \<Rightarrow> string" where
  "confirmation_aggregate cid = ''live-confirmation:'' @ cid"

definition confirmation_id :: "safety_env \<Rightarrow> string option \<Rightarrow> string" where
  "confirmation_id E seed_source = se_sha E ((''omnimarket-sentinel:confirmation-issuance-id:v1'' @ [CHR 0x00]) @
     (case seed_source of Some v \<Rightarrow> v | None \<Rightarrow> []))"

definition issue_batch ::
  "string \<Rightarrow> string \<Rightarrow> string \<Rightarrow> instant \<Rightarrow> instant \<Rightarrow> string \<Rightarrow> string \<Rightarrow> event_append list" where
  "issue_batch cid nonce broker created expires fingerprint decision_hash =
     [safety_event (''confirmation-issued-'' @ cid) ''confirmation.issued'' (confirmation_aggregate cid)
        [(''broker'', JStr broker), (''created_at'', JStr (micro_text created)),
         (''expires_at'', JStr (micro_text expires)), (''fingerprint'', JStr fingerprint),
         (''nonce'', JStr nonce), (''risk_decision_hash'', JStr decision_hash)] created]"

definition issue_confirmation ::
  "safety_env \<Rightarrow> string option \<Rightarrow> string option \<Rightarrow> string \<Rightarrow> string \<Rightarrow> pydt \<Rightarrow> pydt \<Rightarrow> string \<Rightarrow> string \<Rightarrow>
   (event_store, string \<times> string \<times> string) action" where
  "issue_confirmation E seed_source nonce_source phrase broker created_at expires_at fingerprint decision_hash =
     then_do (stop_if (phrase \<noteq> confirmation_phrase) (ValueError ''confirmation phrase is not exact'')) (\<lambda>_.
     then_do (check (exact_text broker)) (\<lambda>_.
     then_do (check (safety_aware created_at)) (\<lambda>created.
     then_do (check (safety_aware expires_at)) (\<lambda>expires.
     then_do (stop_if (expires \<le> created \<or> expires - created > seconds 300)
        (ValueError ''confirmation lifetime is malformed'')) (\<lambda>_.
     then_do (check (sha256_text fingerprint)) (\<lambda>_.
     then_do (check (sha256_text decision_hash)) (\<lambda>_.
     then_do (check (new_nonce seed_source)) (\<lambda>seed.
     then_do (check (new_nonce nonce_source)) (\<lambda>nonce.
     let cid = confirmation_id E seed_source in
     then_do (writes (safety_record_if_heads E
        (issue_batch cid nonce broker created expires fingerprint decision_hash)
        [(confirmation_aggregate cid, None)])) (\<lambda>_.
     then_do (reads (stream_verified E (confirmation_aggregate cid))) (\<lambda>rows.
     then_do (stop_if (length rows \<noteq> 1 \<or> er_event_id (hd rows) \<noteq> ''confirmation-issued-'' @ cid)
        (RuntimeError ''confirmation persistence failed'')) (\<lambda>_.
     check (case pget (hd rows) mac_field of
       Some (JStr mac) \<Rightarrow> Inr (cid, nonce, mac)
     | _ \<Rightarrow> Inl (RuntimeError ''confirmation persistence failed''))))))))))))))"

definition confirmation_events :: "safety_env \<Rightarrow> string \<Rightarrow> event_store \<Rightarrow> event_record list result" where
  "confirmation_events E cid st =
     rbind (sha256_text cid) (\<lambda>_. stream_verified E (confirmation_aggregate cid) st)"

section \<open>The reconciliation role\<close>

definition reconciliation_events :: "safety_env \<Rightarrow> event_store \<Rightarrow> event_record list result" where
  "reconciliation_events E = stream_verified E reconciliation_aggregate"

definition kill_switch_events :: "safety_env \<Rightarrow> event_store \<Rightarrow> event_record list result" where
  "kill_switch_events E = stream_verified E kill_switch_aggregate"

definition interlock_events :: "safety_env \<Rightarrow> event_store \<Rightarrow> event_record list result" where
  "interlock_events E = stream_verified E interlock_aggregate"

definition report_batch ::
  "string \<Rightarrow> string \<Rightarrow> string \<Rightarrow> string \<Rightarrow> string \<Rightarrow> string list \<Rightarrow> instant \<Rightarrow> event_append list" where
  "report_batch report_uuid kill_uuid broker broker_hash ledger_hash reason_codes t =
     (let healthy = (reason_codes = []) in
      safety_event (''reconciliation-'' @ report_uuid)
        (if healthy then ''reconciliation.healthy'' else ''reconciliation.unhealthy'') reconciliation_aggregate
        [(''broker'', JStr broker), (''broker_hash'', JStr broker_hash), (''healthy'', JBool healthy),
         (''ledger_hash'', JStr ledger_hash), (''reason_codes'', JList (map JStr reason_codes))] t #
      (if healthy then [] else
        [safety_event (''kill-'' @ kill_uuid) ''kill_switch.activated'' kill_switch_aggregate
           [(''reason_codes'', JList (map JStr reason_codes))] t]))"

text \<open>\<open>report_uuid\<close> and \<open>kill_uuid\<close> are the UUIDs drawn for the two rows.\<close>

definition persist_report ::
  "safety_env \<Rightarrow> string \<Rightarrow> string \<Rightarrow> string \<Rightarrow> string \<Rightarrow> string \<Rightarrow> string list \<Rightarrow> pydt \<Rightarrow>
   (event_store, event_record) action" where
  "persist_report E report_uuid kill_uuid broker broker_hash ledger_hash reason_codes checked_at =
     then_do (check (exact_text broker)) (\<lambda>_.
     then_do (check (sha256_text broker_hash)) (\<lambda>_.
     then_do (check (sha256_text ledger_hash)) (\<lambda>_.
     then_do (stop_if ([] \<in> set reason_codes) (ValueError ''reconciliation reasons are malformed'')) (\<lambda>_.
     then_do (stop_if (\<not> distinct reason_codes \<or> \<not> set reason_codes \<subseteq> set reconciliation_reasons)
        (ValueError ''reconciliation reasons are malformed'')) (\<lambda>_.
     then_do (check (safety_aware checked_at)) (\<lambda>t.
     then_do (writes (safety_record E (report_batch report_uuid kill_uuid broker broker_hash ledger_hash
       reason_codes t))) (\<lambda>_.
     then_do (reads (reconciliation_events E)) (\<lambda>rows.
     check (case filter (\<lambda>r. er_event_id r = ''reconciliation-'' @ report_uuid) rows of
       [r] \<Rightarrow> Inr r
     | _ \<Rightarrow> Inl (RuntimeError ''reconciliation persistence could not be verified''))))))))))"

definition clear_batch :: "string \<Rightarrow> event_record \<Rightarrow> instant \<Rightarrow> event_append list" where
  "clear_batch uuid activation t =
       [safety_event (''kill-clear-'' @ uuid) ''kill_switch.cleared'' kill_switch_aggregate
          [(''activation_event_id'', JStr (er_event_id activation)),
           (''activation_sequence'', JInt (er_sequence activation))] t]"

definition clear_kill_switch ::
  "safety_env \<Rightarrow> string \<Rightarrow> string \<Rightarrow> pydt \<Rightarrow> (event_store, unit) action" where
  "clear_kill_switch E uuid acknowledgement now =
     then_do (stop_if (acknowledgement \<noteq> kill_ack)
        (ValueError ''kill-switch acknowledgement is not exact'')) (\<lambda>_.
     then_do (check (safety_aware now)) (\<lambda>t.
     then_do (reads (interlock_events E)) (\<lambda>interlocks.
     then_do (reads (kill_switch_events E)) (\<lambda>kills.
     then_do (reads (reconciliation_events E)) (\<lambda>reports.
     then_do (stop_if (interlock_active interlocks) (ValueError ''a live submission remains unresolved'')) (\<lambda>_.
     if \<not> kill_active kills reports then give ()
     else let activations = filter (\<lambda>r. er_kind r = ''kill_switch.activated'') kills in
     then_do (stop_if (activations = [] \<or> reports = [])
        (ValueError ''a new healthy reconciliation is required'')) (\<lambda>_.
     let activation = last activations; healthy = last reports in
     then_do (stop_if (er_kind healthy \<noteq> ''reconciliation.healthy''
          \<or> er_sequence healthy \<le> er_sequence activation \<or> er_occurred_at healthy > t
          \<or> t - er_occurred_at healthy > seconds 60)
        (ValueError ''a new healthy reconciliation is required'')) (\<lambda>_.
     writes (safety_record_if_heads E
       (clear_batch uuid activation t)
       [(kill_switch_aggregate, last_id kills), (reconciliation_aggregate, Some (er_event_id healthy)),
        (interlock_aggregate, last_id interlocks)])))))))))"

section \<open>The live role\<close>

text \<open>The issued confirmation does not cover this claim; a naive expiry raises where it is read.\<close>

definition issuance_mismatch :: "event_record \<Rightarrow> string \<Rightarrow> string \<Rightarrow> pydt \<Rightarrow> instant \<Rightarrow> bool result" where
  "issuance_mismatch issued broker fingerprint expires_at t =
     (if pget issued ''broker'' \<noteq> Some (JStr broker) \<or> pget issued ''fingerprint'' \<noteq> Some (JStr fingerprint)
      then Inr True
      else rbind (safety_aware expires_at) (\<lambda>expires.
        Inr (pget issued ''expires_at'' \<noteq> Some (JStr (micro_text expires)) \<or> er_occurred_at issued > t
             \<or> expires \<le> t)))"

definition claim_batch ::
  "string \<Rightarrow> string \<Rightarrow> string \<Rightarrow> string \<Rightarrow> string \<Rightarrow> instant \<Rightarrow> instant \<Rightarrow> event_append list" where
  "claim_batch nonce intent_id broker cid fingerprint expires t =
     [safety_event (''live-claim-audit-'' @ nonce) ''live.confirmation_claimed'' intent_id
        [(''broker'', JStr broker), (''confirmation_fingerprint'', JStr fingerprint),
         (''expires_at'', JStr (micro_text expires))] t,
      safety_event (''live-confirmation-'' @ cid) ''live.confirmation_consumed'' (confirmation_aggregate cid)
        [(''intent_id'', JStr intent_id)] t,
      safety_event (''live-start-'' @ nonce) ''live.submission_started'' intent_id
        [(''broker'', JStr broker), (''client_intent_id'', JStr intent_id)] t,
      safety_event (''interlock-start-'' @ nonce) ''live.interlock_started'' interlock_aggregate
        [(''broker'', JStr broker), (''intent_id'', JStr intent_id), (''submission_id'', JStr cid)] t]"

text \<open>
  A claim reads the log, then writes its batch under the heads it read.  The plan is the reading
  part, so that a later write can be studied against a log that others have extended meanwhile.
\<close>

definition claim_plan ::
  "safety_env \<Rightarrow> string \<Rightarrow> string \<Rightarrow> string \<Rightarrow> string \<Rightarrow> string \<Rightarrow> pydt \<Rightarrow> string \<Rightarrow> string option \<Rightarrow>
   string option \<Rightarrow> pydt \<Rightarrow> event_store \<Rightarrow> (event_append list \<times> (string \<times> string option) list) result" where
  "claim_plan E nonce intent_id broker cid fingerprint expires_at report_head kill_head interlock_head
       occurred_at st =
     rbind (exact_text intent_id) (\<lambda>_.
     rbind (exact_text broker) (\<lambda>_.
     rbind (sha256_text cid) (\<lambda>_.
     rbind (sha256_text fingerprint) (\<lambda>_.
     rbind (exact_text report_head) (\<lambda>_.
     rbind (safety_aware occurred_at) (\<lambda>t.
     rbind (stream_verified E (confirmation_aggregate cid) st) (\<lambda>rows.
     if length rows > 1 \<and> er_kind (last rows) = ''live.confirmation_consumed''
     then Inl (SafetyAlreadyUsedError ''confirmation already used'')
     else if length rows \<noteq> 1 \<or> er_kind (hd rows) \<noteq> ''confirmation.issued''
     then Inl (SafetyIntegrityError ''confirmation issuance is invalid'')
     else let issued = hd rows in
     rbind (issuance_mismatch issued broker fingerprint expires_at t) (\<lambda>mismatch.
     if mismatch then Inl (SafetyIntegrityError ''confirmation issuance is invalid'')
     else
     rbind (stream_verified E reconciliation_aggregate st) (\<lambda>reports.
     rbind (stream_verified E kill_switch_aggregate st) (\<lambda>kills.
     rbind (stream_verified E interlock_aggregate st) (\<lambda>interlocks.
     if last_id reports \<noteq> Some report_head \<or> last_id kills \<noteq> kill_head
        \<or> last_id interlocks \<noteq> interlock_head \<or> reports = []
     then Inl (SafetyStateChangedError ''live safety heads are not exact'')
     else let report = last reports in
     if \<not> healthy_report report \<or> pget report ''broker'' \<noteq> Some (JStr broker)
        \<or> er_occurred_at report > t \<or> t - er_occurred_at report > seconds 60
        \<or> kill_active kills reports \<or> interlock_active interlocks
     then Inl (SafetyStateChangedError ''live safety state is not healthy'')
     else rbind (safety_aware expires_at) (\<lambda>expires.
       Inr (claim_batch nonce intent_id broker cid fingerprint expires t,
         [(reconciliation_aggregate, Some report_head), (kill_switch_aggregate, kill_head),
          (interlock_aggregate, interlock_head), (confirmation_aggregate cid, Some (er_event_id issued))])))))))))))))"

definition claim_and_start ::
  "safety_env \<Rightarrow> string \<Rightarrow> string \<Rightarrow> string \<Rightarrow> string \<Rightarrow> string \<Rightarrow> pydt \<Rightarrow> string \<Rightarrow> string option \<Rightarrow>
   string option \<Rightarrow> pydt \<Rightarrow> (event_store, unit) action" where
  "claim_and_start E nonce intent_id broker cid fingerprint expires_at report_head kill_head interlock_head
       occurred_at =
     then_do (reads (claim_plan E nonce intent_id broker cid fingerprint expires_at report_head kill_head
       interlock_head occurred_at)) (\<lambda>(batch, heads). writes (safety_record_if_heads E batch heads))"

text \<open>The open submission is the one named.\<close>

definition interlock_names :: "event_record list \<Rightarrow> (string \<times> string) list \<Rightarrow> bool" where
  "interlock_names interlocks named = (interlock_active interlocks \<and>
     list_all (\<lambda>(k, v). pget (last interlocks) k = Some (JStr v)) named)"

definition acknowledgement_batch ::
  "string \<Rightarrow> string \<Rightarrow> string \<Rightarrow> string \<Rightarrow> string \<Rightarrow> string \<Rightarrow> instant \<Rightarrow> event_append list" where
  "acknowledgement_batch nonce intent_id broker broker_order_id status submission_id t =
       [safety_event (''live-ack-'' @ nonce) ''live.acknowledged'' intent_id
          [(''broker'', JStr broker), (''broker_order_id'', JStr broker_order_id),
           (''client_intent_id'', JStr intent_id), (''status'', JStr status)] t,
        safety_event (''interlock-ack-'' @ nonce) ''live.interlock_resolved'' interlock_aggregate
          [(''resolution'', JStr ''acknowledged''), (''submission_id'', JStr submission_id)] t]"

definition record_acknowledgement ::
  "safety_env \<Rightarrow> string \<Rightarrow> string \<Rightarrow> string \<Rightarrow> string \<Rightarrow> string \<Rightarrow> string \<Rightarrow> pydt \<Rightarrow> (event_store, unit) action" where
  "record_acknowledgement E nonce intent_id broker broker_order_id status submission_id occurred_at =
     then_do (check (traverse exact_text [intent_id, broker, broker_order_id, status, submission_id])) (\<lambda>_.
     then_do (stop_if (status \<notin> set acknowledged_statuses)
        (ValueError ''live acknowledgement status is invalid'')) (\<lambda>_.
     then_do (check (safety_aware occurred_at)) (\<lambda>t.
     then_do (reads (stream_verified E interlock_aggregate)) (\<lambda>interlocks.
     then_do (stop_if (\<not> interlock_names interlocks
          [(''submission_id'', submission_id), (''intent_id'', intent_id), (''broker'', broker)])
        (ValueError ''live acknowledgement transition is invalid'')) (\<lambda>_.
     writes (safety_record_if_heads E
       (acknowledgement_batch nonce intent_id broker broker_order_id status submission_id t)
       [(interlock_aggregate, last_id interlocks)]))))))"

definition unknown_batch :: "string \<Rightarrow> string \<Rightarrow> string \<Rightarrow> instant \<Rightarrow> event_append list" where
  "unknown_batch nonce intent_id submission_id t =
       [safety_event (''live-unknown-'' @ nonce) ''live.unknown'' intent_id
          [(''reason_code'', JStr ''SUBMISSION_UNKNOWN'')] t,
        safety_event (''interlock-unknown-'' @ nonce) ''live.interlock_resolved'' interlock_aggregate
          [(''resolution'', JStr ''unknown''), (''submission_id'', JStr submission_id)] t,
        safety_event (''kill-unknown-'' @ nonce) ''kill_switch.activated'' kill_switch_aggregate
          [(''reason_codes'', JList [JStr ''SUBMISSION_UNKNOWN''])] t]"

definition record_unknown ::
  "safety_env \<Rightarrow> string \<Rightarrow> string \<Rightarrow> string \<Rightarrow> pydt \<Rightarrow> (event_store, unit) action" where
  "record_unknown E nonce intent_id submission_id occurred_at =
     then_do (check (exact_text intent_id)) (\<lambda>_.
     then_do (check (exact_text submission_id)) (\<lambda>_.
     then_do (check (safety_aware occurred_at)) (\<lambda>t.
     then_do (reads (stream_verified E interlock_aggregate)) (\<lambda>interlocks.
     then_do (reads (stream_verified E kill_switch_aggregate)) (\<lambda>kills.
     then_do (stop_if (\<not> interlock_names interlocks
          [(''submission_id'', submission_id), (''intent_id'', intent_id)])
        (ValueError ''live unknown transition is invalid'')) (\<lambda>_.
     writes (safety_record_if_heads E
       (unknown_batch nonce intent_id submission_id t)
       [(interlock_aggregate, last_id interlocks), (kill_switch_aggregate, last_id kills)])))))))"

end
