(* ===== verification/SafetyRules.thy ===== *)
theory SafetyRules
  imports Safety
begin

text \<open>
  The rules the properties of the safety authority rest on: what a recorded safety batch adds to
  the log, how the stored payloads read back, that the readings of the kill switch and the
  interlock fail closed, and that a fence on aggregate heads pins whole aggregates.
\<close>

section \<open>Safety labels are not redacted\<close>

definition safety_labels :: "string list" where
  "safety_labels = [''broker'', ''created_at'', ''expires_at'', ''fingerprint'', ''nonce'',
     ''risk_decision_hash'', ''broker_hash'', ''healthy'', ''ledger_hash'', ''reason_codes'',
     ''activation_event_id'', ''activation_sequence'', ''confirmation_fingerprint'', ''intent_id'',
     ''client_intent_id'', ''submission_id'', ''broker_order_id'', ''status'', ''reason_code'',
     ''resolution'', ''safety_mac'', ''safety_version'']"

lemma safety_labels_visible: "list_all (\<lambda>l. \<not> sensitive_key U l) safety_labels"
  unfolding safety_labels_def by (simp add: label_eval)

lemma visible_label [simp]: "l \<in> set safety_labels \<Longrightarrow> \<not> sensitive_key U l"
  using safety_labels_visible by (auto simp: list_all_iff)

text \<open>Evaluation takes the safety labels as known.\<close>

lemma sensitive_key_code [code]:
  "sensitive_key U s = (if s \<in> set safety_labels then False else sensitive_label U (points s))"
  by (auto simp flip: sensitive_key_def)

section \<open>Stored payloads\<close>

text \<open>A payload of visible, distinct labels over values without objects.\<close>

definition flat_payload :: "(string \<times> json) list \<Rightarrow> bool" where
  "flat_payload kvs \<longleftrightarrow> dict_ok kvs \<and>
     list_all (\<lambda>(k, v). k \<in> set safety_labels \<and> k \<noteq> mac_field \<and> k \<noteq> version_field \<and> flat_json v) kvs"

lemma flat_redact [simp]: "flat_json v \<Longrightarrow> redact s v = v"
  by (induction v) (auto simp: list_all_iff map_idI)

lemma flat_sort [simp]: "flat_json v \<Longrightarrow> sort_members v = v"
  by (induction v) (auto simp: list_all_iff map_idI)

lemma redact_payload:
  "list_all (\<lambda>(k, v). k \<in> set safety_labels \<and> flat_json v) kvs \<Longrightarrow> redact (hidden E) (JObj kvs) = JObj kvs"
  by (auto simp: list_all_iff intro!: map_idI)

lemma sort_payload:
  "list_all (\<lambda>(k, v). k \<in> set safety_labels \<and> flat_json v) kvs \<Longrightarrow>
     sort_members (JObj kvs) = JObj (sorted_items kvs)"
  by (auto simp: list_all_iff sorted_items_def intro!: arg_cong [where f = "sort_key fst"] map_idI)

text \<open>The row a safety event becomes.\<close>

definition signed_as :: "safety_env \<Rightarrow> event_append \<Rightarrow> event_record \<Rightarrow> bool" where
  "signed_as E a r \<longleftrightarrow> er_event_id r = ea_event_id a \<and> er_kind r = ea_kind a \<and>
     er_aggregate_id r = ea_aggregate_id a \<and> ea_occurred_at a = Aware (er_occurred_at r) \<and>
     (\<forall>kvs. ea_payload a = JObj kvs \<longrightarrow> flat_payload kvs \<longrightarrow>
       (\<exists>m. mac_message (ea_event_id a) (ea_kind a) (ea_aggregate_id a) (er_occurred_at r) kvs = Inr m \<and>
         er_payload r = JObj (sorted_items (dset mac_field (JStr (se_sign E m))
           (dset version_field (JInt safety_version) kvs)))))"

lemma mac_labels: "mac_field \<in> set safety_labels" "version_field \<in> set safety_labels" "mac_field \<noteq> version_field"
  by (simp_all add: mac_field_def version_field_def safety_labels_def)

lemma dset_labels:
  "list_all (\<lambda>(k, v). k \<in> set safety_labels \<and> flat_json v) kvs \<Longrightarrow> k \<in> set safety_labels \<Longrightarrow> flat_json v \<Longrightarrow>
     list_all (\<lambda>(k, v). k \<in> set safety_labels \<and> flat_json v) (dset k v kvs)"
  by (induction kvs) (auto split: if_splits)

lemma signed_event_stored:
  assumes "signed_event E a = Inr s"
    and "stored_as (s\<lparr>ea_payload := redact (hidden E) (ea_payload s)\<rparr>) r"
  shows "signed_as E a r"
proof -
  obtain t kvs m where id: "ea_event_id s = ea_event_id a" "ea_kind s = ea_kind a"
      "ea_aggregate_id s = ea_aggregate_id a" "ea_occurred_at a = Aware t" "ea_occurred_at s = Aware t"
    and r: "redact (hidden E) (ea_payload a) = JObj kvs"
    and m: "mac_message (ea_event_id a) (ea_kind a) (ea_aggregate_id a) t kvs = Inr m"
    and p: "ea_payload s = JObj (dset mac_field (JStr (se_sign E m)) (dset version_field (JInt safety_version) kvs))"
    using assms(1) by (cases "redact (hidden E) (ea_payload a)")
      (auto simp: signed_event_def safety_aware_def result_simps split: if_splits)
  have t: "er_occurred_at r = t"
    using assms(2) id by (simp add: stored_as_def)
  have "\<exists>m. mac_message (ea_event_id a) (ea_kind a) (ea_aggregate_id a) (er_occurred_at r) ks = Inr m \<and>
      er_payload r = JObj (sorted_items (dset mac_field (JStr (se_sign E m))
        (dset version_field (JInt safety_version) ks)))"
    if k: "ea_payload a = JObj ks" and f: "flat_payload ks" for ks
  proof -
    have l: "list_all (\<lambda>(k, v). k \<in> set safety_labels \<and> flat_json v) ks"
      using f by (auto simp: flat_payload_def list_all_iff)
    then have "redact (hidden E) (ea_payload a) = JObj ks"
      using k redact_payload by simp
    then have "kvs = ks"
      using r by (simp add: json.inject)
    moreover have ll: "list_all (\<lambda>(k, v). k \<in> set safety_labels \<and> flat_json v)
        (dset mac_field (JStr (se_sign E m)) (dset version_field (JInt safety_version) ks))"
      using l mac_labels by (intro dset_labels) auto
    ultimately show ?thesis
      using m p t redact_payload [OF ll, of E] sort_payload [OF ll] assms(2) by (auto simp: stored_as_def)
  qed
  then show ?thesis
    using id t assms(2) by (simp add: signed_as_def stored_as_def)
qed

lemma signed_batch_stored:
  "signed_batch E batch = Inr signed \<Longrightarrow> list_all2 stored_as (redacted_appends (hidden E) signed) new \<Longrightarrow>
     list_all2 (signed_as E) batch new"
proof -
  assume s: "signed_batch E batch = Inr signed" and n: "list_all2 stored_as (redacted_appends (hidden E) signed) new"
  from s have "list_all2 (\<lambda>a s. signed_event E a = Inr s) batch signed"
    by (auto simp: signed_batch_def traverse_Inr_iff split: if_splits)
  then show ?thesis
    using n signed_event_stored
  proof (induction batch signed arbitrary: new rule: list_all2_induct)
    case (Cons a as s ss)
    then show ?case
      by (auto simp: redacted_appends_def list_all2_Cons1)
  qed (simp add: redacted_appends_def)
qed

lemma record_many_plain:
  "record_many s batch st = Inr st' \<Longrightarrow> append_many (redacted_appends s batch) st = Inr st'"
  by (auto simp: record_many_def split: if_splits)

lemma record_many_fenced:
  "record_many_if_heads s batch heads st = Inr st' \<Longrightarrow>
     append_many_if_heads (redacted_appends s batch) heads st = Inr st'"
  by (auto simp: record_many_if_heads_def split: if_splits)

lemma safety_record_InrD:
  assumes "log_ok st" "safety_record E batch st = Inr st'"
  shows "log_ok st' \<and> (\<exists>new. es_rows st' = es_rows st @ new \<and> list_all2 (signed_as E) batch new)"
proof -
  obtain signed where s: "signed_batch E batch = Inr signed" "record_many (hidden E) signed st = Inr st'"
    using assms(2) by (auto simp: safety_record_def result_simps)
  then show ?thesis
    using append_many_Inr [OF assms(1) record_many_plain [OF s(2)]] signed_batch_stored [OF s(1)] by blast
qed

lemma safety_record_if_heads_InrD:
  assumes "log_ok st" "safety_record_if_heads E batch heads st = Inr st'"
  shows "log_ok st' \<and> (\<exists>new. es_rows st' = es_rows st @ new \<and> list_all2 (signed_as E) batch new) \<and>
    (\<forall>(a, h) \<in> set heads. head_of a (es_rows st) = h)"
proof -
  obtain signed where s: "signed_batch E batch = Inr signed" "record_many_if_heads (hidden E) signed heads st = Inr st'"
    using assms(2) by (auto simp: safety_record_if_heads_def result_simps)
  note a = record_many_fenced [OF s(2)]
  show ?thesis
  proof (intro conjI)
    show "log_ok st'"
      by (rule es.append_ok [OF assms(1) a])
    show "\<exists>new. es_rows st' = es_rows st @ new \<and> list_all2 (signed_as E) batch new"
      using es.append_rows [OF assms(1) a] signed_batch_stored [OF s(1)] by blast
    show "\<forall>(a, h) \<in> set heads. head_of a (es_rows st) = h"
      using append_if_Inr [OF a] by (rule conjunct2)
  qed
qed

text \<open>Reading a stored member back.\<close>

lemma signed_pget:
  assumes "signed_as E a r" "ea_payload a = JObj kvs" "flat_payload kvs" "k \<noteq> mac_field" "k \<noteq> version_field"
  shows "pget r k = dget kvs k"
proof -
  obtain m where "er_payload r = JObj (sorted_items (dset mac_field (JStr (se_sign E m))
      (dset version_field (JInt safety_version) kvs)))"
    using assms(1-3) unfolding signed_as_def by blast
  then show ?thesis
    using assms(3-5) by (simp add: pget_def flat_payload_def)
qed

section \<open>Streams\<close>

definition rows_of :: "string \<Rightarrow> event_store \<Rightarrow> event_record list" where
  "rows_of a st = filter (\<lambda>r. er_aggregate_id r = a) (es_rows st)"

lemma read_row_Inr: "read_row r = Inr r' \<Longrightarrow> r' = r"
  by (auto simp: read_row_def result_simps split: json.splits)

lemma traverse_read_rows: "traverse read_row rows = Inr rows' \<Longrightarrow> rows' = rows"
  by (induction rows arbitrary: rows') (auto simp: result_simps dest: read_row_Inr)

lemma stream_verified_InrD:
  "log_ok st \<Longrightarrow> stream_verified E a st = Inr rows \<Longrightarrow> rows = rows_of a st \<and> list_all (verify E) rows"
  by (auto simp: stream_verified_def stream_def aggregate_rows_filter rows_of_def
      dest!: traverse_read_rows split: if_splits sum.splits)

lemma rows_of_append: "es_rows st' = es_rows st @ new \<Longrightarrow>
    rows_of a st' = rows_of a st @ filter (\<lambda>r. er_aggregate_id r = a) new"
  by (simp add: rows_of_def)

lemma head_of_rows: "log_ok st \<Longrightarrow> head_of a (es_rows st) = last_id (rows_of a st)"
  by (cases "rows_of a st") (simp_all add: head_of_last rows_of_def last_id_def)

text \<open>With unique identifiers, an unchanged head means an unchanged aggregate.\<close>

lemma head_pins_rows:
  assumes "log_ok st'" "es_rows st' = es_rows st @ later" "log_ok st"
    and "head_of a (es_rows st') = last_id (rows_of a st)"
  shows "rows_of a st' = rows_of a st"
proof (rule ccontr)
  assume ne: "rows_of a st' \<noteq> rows_of a st"
  let ?m = "filter (\<lambda>r. er_aggregate_id r = a) later"
  have m: "?m \<noteq> []" "rows_of a st' = rows_of a st @ ?m"
    using ne rows_of_append [OF assms(2), of a] by auto
  then have "head_of a (es_rows st') = Some (er_event_id (last ?m))"
    using head_of_rows [OF assms(1), of a] by (simp add: last_id_def)
  then have "rows_of a st \<noteq> []" "er_event_id (last (rows_of a st)) = er_event_id (last ?m)"
    using assms(4) by (auto simp: last_id_def split: if_splits)
  then have "er_event_id (last ?m) \<in> er_event_id ` set (es_rows st)"
    using last_in_set [of "rows_of a st"] by (metis filter_is_subset image_eqI rows_of_def subsetD)
  moreover have "last ?m \<in> set later"
    using last_in_set [OF m(1)] by auto
  ultimately show False
    using assms(1) unfolding log_ok_def assms(2) by auto
qed

section \<open>The readings fail closed\<close>

lemma kill_scan_append:
  "kill_scan reports latest active (xs @ ys) = (case kill_scan reports latest active xs of
     None \<Rightarrow> None | Some (l, a) \<Rightarrow> kill_scan reports l a ys)"
  by (induction xs arbitrary: latest active) (auto split: option.splits)

lemma kill_active_activated:
  "er_kind r = ''kill_switch.activated'' \<Longrightarrow> kill_active (rows @ [r]) reports"
  by (auto simp: kill_active_def kill_scan_append split: option.splits)

lemma interlock_scan_Cons_None [simp]:
  "er_kind r \<noteq> ''live.interlock_started'' \<Longrightarrow> er_kind r \<noteq> ''live.interlock_resolved'' \<Longrightarrow>
     interlock_scan s a (r # rows) = None"
  by simp

section \<open>Recording succeeds\<close>

text \<open>The row a fitting event becomes, before it is numbered.\<close>

definition signed_payload :: "safety_env \<Rightarrow> event_append \<Rightarrow> (string \<times> json) list \<Rightarrow> instant \<Rightarrow> (string \<times> json) list" where
  "signed_payload E a kvs t = (case mac_message (ea_event_id a) (ea_kind a) (ea_aggregate_id a) t kvs of
     Inr m \<Rightarrow> dset mac_field (JStr (se_sign E m)) (dset version_field (JInt safety_version) kvs) | Inl _ \<Rightarrow> kvs)"

text \<open>An event within the contract: visible flat members, named, aware, and small enough once signed.\<close>

definition fits :: "safety_env \<Rightarrow> event_append \<Rightarrow> bool" where
  "fits E a = (case (ea_payload a, ea_occurred_at a) of
     (JObj kvs, Aware t) \<Rightarrow> flat_payload kvs \<and> ea_event_id a \<noteq> [] \<and> ea_kind a \<noteq> [] \<and> ea_aggregate_id a \<noteq> [] \<and>
       is_ok (mac_message (ea_event_id a) (ea_kind a) (ea_aggregate_id a) t kvs) \<and>
       validate_event_payload (JObj (signed_payload E a kvs t)) = Inr ()
   | _ \<Rightarrow> False)"

definition signed_row :: "safety_env \<Rightarrow> event_append \<Rightarrow> event_record" where
  "signed_row E a = (case (ea_payload a, ea_occurred_at a) of
     (JObj kvs, Aware t) \<Rightarrow> \<lparr>er_event_id = ea_event_id a, er_kind = ea_kind a, er_aggregate_id = ea_aggregate_id a,
       er_payload = JObj (sorted_items (signed_payload E a kvs t)), er_occurred_at = t, er_sequence = 0\<rparr>
   | _ \<Rightarrow> \<lparr>er_event_id = [], er_kind = [], er_aggregate_id = [], er_payload = JNull, er_occurred_at = 0,
       er_sequence = 0\<rparr>)"

definition signed_append :: "safety_env \<Rightarrow> event_append \<Rightarrow> event_append" where
  "signed_append E a = (case (ea_payload a, ea_occurred_at a) of
     (JObj kvs, Aware t) \<Rightarrow> a\<lparr>ea_payload := JObj (signed_payload E a kvs t)\<rparr> | _ \<Rightarrow> a)"

lemma fitsE:
  assumes "fits E a"
  obtains kvs t m where "ea_payload a = JObj kvs" "ea_occurred_at a = Aware t" "flat_payload kvs"
    "ea_event_id a \<noteq> []" "ea_kind a \<noteq> []" "ea_aggregate_id a \<noteq> []"
    "mac_message (ea_event_id a) (ea_kind a) (ea_aggregate_id a) t kvs = Inr m"
    "signed_payload E a kvs t = dset mac_field (JStr (se_sign E m)) (dset version_field (JInt safety_version) kvs)"
    "validate_event_payload (JObj (signed_payload E a kvs t)) = Inr ()"
  using assms by (auto simp: fits_def signed_payload_def is_ok_iff split: json.splits pydt.splits)

lemma flat_absent: "flat_payload kvs \<Longrightarrow> dget kvs mac_field = None \<and> dget kvs version_field = None"
  by (auto simp: flat_payload_def list_all_iff map_of_eq_None_iff)

lemma flat_visible: "flat_payload kvs \<Longrightarrow> list_all (\<lambda>(k, v). k \<in> set safety_labels \<and> flat_json v) kvs"
  by (auto simp: flat_payload_def list_all_iff)

lemma fits_prepare:
  assumes "fits E a"
  shows "signed_event E a = Inr (signed_append E a) \<and>
    prepare_event (signed_append E a\<lparr>ea_payload := redact (hidden E) (ea_payload (signed_append E a))\<rparr>)
      = Inr (signed_row E a)"
  using assms
proof (cases rule: fitsE)
  case (1 kvs t m)
  note f = flat_visible [OF 1(3)]
  have r: "redact (hidden E) (JObj kvs) = JObj kvs"
    by (rule redact_payload [OF f])
  have s: "list_all (\<lambda>(k, v). k \<in> set safety_labels \<and> flat_json v) (signed_payload E a kvs t)"
    unfolding 1(8) using f mac_labels by (intro dset_labels) auto
  have "signed_event E a = Inr (signed_append E a)"
    using 1 r flat_absent [OF 1(3)] by (simp add: signed_event_def safety_aware_def signed_append_def del: redact.simps)
  moreover have "prepare_event (signed_append E a\<lparr>ea_payload := redact (hidden E) (ea_payload (signed_append E a))\<rparr>)
      = Inr (signed_row E a)"
    using 1 redact_payload [OF s, of E] sort_payload [OF s]
    by (simp add: prepare_event_def signed_append_def signed_row_def del: redact.simps sort_members.simps)
  ultimately show ?thesis
    by blast
qed

lemma traverse_all: "(\<And>x. x \<in> set xs \<Longrightarrow> f x = Inr (g x)) \<Longrightarrow> traverse f xs = Inr (map g xs)"
  by (induction xs) auto

lemma fits_ids: "fits E a \<Longrightarrow> er_event_id (signed_row E a) = ea_event_id a"
  by (erule fitsE) (simp add: signed_row_def)

lemma prepare_signed:
  assumes "batch \<noteq> []" "list_all (fits E) batch"
  shows "prepare_batch (redacted_appends (hidden E) (map (signed_append E) batch)) = Inr (map (signed_row E) batch)"
proof -
  have "traverse prepare_event (map (\<lambda>a. signed_append E a\<lparr>ea_payload := redact (hidden E) (ea_payload (signed_append E a))\<rparr>) batch)
      = Inr (map (signed_row E) batch)"
    using assms(2) by (induction batch) (auto simp: fits_prepare)
  then show ?thesis
    using assms(1) by (simp add: prepare_batch_def redacted_appends_def comp_def)
qed

lemma append_prepared_total:
  assumes "log_ok st" "distinct (map er_event_id prepared)"
    and "set (map er_event_id prepared) \<inter> er_event_id ` set (es_rows st) = {}"
  shows "append_prepared prepared st = Inr \<lparr>es_rows = es_rows st @ number_rows (int (length (es_rows st)) + 1) prepared,
    es_next_sequence = Some (int (length (es_rows st)) + int (length prepared))\<rparr>"
proof -
  let ?n = "int (length (es_rows st))"
  have d: "distinct ([1 .. ?n] @ [?n + 1 .. ?n + int (length prepared)])"
    by auto
  show ?thesis
    using assms d by (auto simp: append_prepared_def log_ok_def Let_def number_rows_facts)
qed

lemma record_fits:
  assumes "log_ok st" "batch \<noteq> []" "list_all (fits E) batch" "distinct (map ea_event_id batch)"
    and "set (map ea_event_id batch) \<inter> er_event_id ` set (es_rows st) = {}"
  shows "safety_record E batch st = append_prepared (map (signed_row E) batch) st"
    and "validate_heads heads = Inr () \<Longrightarrow> \<forall>(a, h) \<in> set heads. last_id (rows_of a st) = h \<Longrightarrow>
      safety_record_if_heads E batch heads st = append_prepared (map (signed_row E) batch) st"
    and "is_ok (append_prepared (map (signed_row E) batch) st)"
proof -
  have s: "signed_batch E batch = Inr (map (signed_append E) batch)"
    using assms(2,3) fits_prepare by (auto simp: signed_batch_def list_all_iff intro!: traverse_all)
  note p = prepare_signed [OF assms(2,3)]
  show "safety_record E batch st = append_prepared (map (signed_row E) batch) st"
    using s p assms(2) by (simp add: safety_record_def record_many_def append_many_def)
  show "safety_record_if_heads E batch heads st = append_prepared (map (signed_row E) batch) st"
    if "validate_heads heads = Inr ()" "\<forall>(a, h) \<in> set heads. last_id (rows_of a st) = h"
  proof -
    have "\<not> list_ex (\<lambda>(a, h). head_of a (es_rows st) \<noteq> h) heads"
      using that(2) head_of_rows [OF assms(1)] by (auto simp: list_ex_iff)
    moreover have "es_next_sequence st = Some (int (length (es_rows st)))"
      using assms(1) by (simp add: log_ok_def)
    ultimately show ?thesis
      using s p assms(2) that(1)
      by (simp add: safety_record_if_heads_def record_many_if_heads_def append_many_if_heads_def)
  qed
  have ids: "map er_event_id (map (signed_row E) batch) = map ea_event_id batch"
    using assms(3) by (auto simp: list_all_iff fits_ids)
  show "is_ok (append_prepared (map (signed_row E) batch) st)"
    by (subst append_prepared_total [OF assms(1)]) (unfold ids, fact assms(4,5), fact assms(4,5), simp)
qed

lemma fits_authentic: "list_all (fits E) batch \<Longrightarrow> list_all (\<lambda>a. \<exists>kvs. ea_payload a = JObj kvs \<and> flat_payload kvs) batch"
  by (auto simp: list_all_iff elim!: fitsE)

end
