(* ===== verification/SafetyAuthority.thy ===== *)
theory SafetyAuthority
  imports SafetyRules
begin

text \<open>
  What the roles of the safety authority guarantee: claims happen only in a safe state even when
  other writers interleave, confirmations are spent once, at most one submission is open, an
  activated kill switch blocks every claim until it is cleared, and clearing needs newer health.
\<close>

section \<open>Claims\<close>

text \<open>The abstract condition for starting a live submission at time \<open>t\<close>.\<close>

definition claim_allowed :: "event_store \<Rightarrow> string \<Rightarrow> string \<Rightarrow> string \<Rightarrow> instant \<Rightarrow> instant \<Rightarrow> bool" where
  "claim_allowed st broker cid fingerprint expires t \<longleftrightarrow>
     (\<exists>issued. rows_of (confirmation_aggregate cid) st = [issued] \<and> er_kind issued = ''confirmation.issued'' \<and>
        pget issued ''broker'' = Some (JStr broker) \<and> pget issued ''fingerprint'' = Some (JStr fingerprint) \<and>
        pget issued ''expires_at'' = Some (JStr (micro_text expires)) \<and> er_occurred_at issued \<le> t) \<and>
     t < expires \<and>
     (let reports = rows_of reconciliation_aggregate st in reports \<noteq> [] \<and> healthy_report (last reports) \<and>
        pget (last reports) ''broker'' = Some (JStr broker) \<and> er_occurred_at (last reports) \<le> t \<and>
        t \<le> er_occurred_at (last reports) + seconds 60 \<and>
        \<not> kill_active (rows_of kill_switch_aggregate st) reports) \<and>
     \<not> interlock_active (rows_of interlock_aggregate st)"

lemma claim_plan_InrD:
  assumes "log_ok st" "claim_plan E nonce intent_id broker cid fingerprint expires_at rh kh ih occurred_at st
    = Inr (batch, heads)"
  shows "\<exists>expires t. expires_at = Aware expires \<and> occurred_at = Aware t \<and>
    claim_allowed st broker cid fingerprint expires t \<and>
    batch = claim_batch nonce intent_id broker cid fingerprint expires t \<and>
    heads = map (\<lambda>a. (a, last_id (rows_of a st))) [reconciliation_aggregate, kill_switch_aggregate,
      interlock_aggregate, confirmation_aggregate cid]"
proof -
  note sv = stream_verified_InrD [OF assms(1), THEN conjunct1]
  obtain t rows reports kills interlocks expires where
    p: "occurred_at = Aware t" "expires_at = Aware expires"
      "stream_verified E (confirmation_aggregate cid) st = Inr rows"
      "stream_verified E reconciliation_aggregate st = Inr reports"
      "stream_verified E kill_switch_aggregate st = Inr kills"
      "stream_verified E interlock_aggregate st = Inr interlocks"
      "length rows = 1" "er_kind (hd rows) = ''confirmation.issued''"
      "issuance_mismatch (hd rows) broker fingerprint expires_at t = Inr False"
      "last_id reports = Some rh" "last_id kills = kh" "last_id interlocks = ih" "reports \<noteq> []"
      "healthy_report (last reports)" "pget (last reports) ''broker'' = Some (JStr broker)"
      "er_occurred_at (last reports) \<le> t" "t - er_occurred_at (last reports) \<le> seconds 60"
      "\<not> kill_active kills reports" "\<not> interlock_active interlocks"
      "batch = claim_batch nonce intent_id broker cid fingerprint expires t"
      "heads = [(reconciliation_aggregate, Some rh), (kill_switch_aggregate, kh), (interlock_aggregate, ih),
        (confirmation_aggregate cid, Some (er_event_id (hd rows)))]"
    using assms(2) by (auto simp: claim_plan_def safety_aware_def result_simps Let_def not_less split: if_splits)
  obtain issued where i: "rows = [issued]"
    using p(7) by (auto simp: length_Suc_conv)
  have r: "rows_of (confirmation_aggregate cid) st = [issued]" "reports = rows_of reconciliation_aggregate st"
      "kills = rows_of kill_switch_aggregate st" "interlocks = rows_of interlock_aggregate st"
    using sv p(3-6) i by metis+
  have m: "pget issued ''broker'' = Some (JStr broker)" "pget issued ''fingerprint'' = Some (JStr fingerprint)"
      "pget issued ''expires_at'' = Some (JStr (micro_text expires))" "er_occurred_at issued \<le> t" "t < expires"
    using p(2,9) i by (auto simp: issuance_mismatch_def safety_aware_def split: if_splits)
  have "claim_allowed st broker cid fingerprint expires t"
    using p r m i by (simp add: claim_allowed_def Let_def)
  moreover have "heads = map (\<lambda>a. (a, last_id (rows_of a st))) [reconciliation_aggregate, kill_switch_aggregate,
      interlock_aggregate, confirmation_aggregate cid]"
    using p r i by (simp add: last_id_def)
  ultimately show ?thesis
    using p by blast
qed

lemma claim_allowed_cong:
  "(\<And>a. a \<in> {reconciliation_aggregate, kill_switch_aggregate, interlock_aggregate, confirmation_aggregate cid} \<Longrightarrow>
      rows_of a st' = rows_of a st) \<Longrightarrow>
     claim_allowed st' broker cid fingerprint expires t = claim_allowed st broker cid fingerprint expires t"
  by (simp add: claim_allowed_def)

text \<open>A later log: other writers have only appended.\<close>

definition grows :: "event_store \<Rightarrow> event_store \<Rightarrow> bool" where
  "grows st st' \<longleftrightarrow> log_ok st \<and> log_ok st' \<and> (\<exists>later. es_rows st' = es_rows st @ later)"

lemma safety_flat:
  "list_all (\<lambda>a. \<exists>kvs. ea_payload a = JObj kvs \<and> flat_payload kvs)
     (claim_batch nonce intent_id broker cid fingerprint expires t)"
  by (simp add: claim_batch_def flat_payload_def dict_ok_def safety_labels_def mac_field_def version_field_def)

lemma claim_write:
  assumes "log_ok st" "safety_record_if_heads E (claim_batch nonce intent_id broker cid fingerprint expires t) heads st
    = Inr st'"
  shows "\<exists>r1 r2 r3 r4. es_rows st' = es_rows st @ [r1, r2, r3, r4] \<and>
    list_all2 (signed_as E) (claim_batch nonce intent_id broker cid fingerprint expires t) [r1, r2, r3, r4]"
  using safety_record_if_heads_InrD [OF assms] by (force simp: claim_batch_def list_all2_Cons1)

lemma interlock_started_active:
  "er_kind r = ''live.interlock_started'' \<Longrightarrow> interlock_active (rows @ [r])"
proof -
  assume k: "er_kind r = ''live.interlock_started''"
  have "interlock_scan s a (rows @ [r]) \<in> {None, Some True}" for s a
    using k by (induction rows arbitrary: s a) (auto split: option.splits json.splits)
  then have "interlock_scan [] False (rows @ [r]) \<in> {None, Some True}"
    by blast
  then show ?thesis
    by (auto simp: interlock_active_def)
qed

lemma aggregates_distinct [simp]:
  "confirmation_aggregate cid \<noteq> interlock_aggregate" "confirmation_aggregate cid \<noteq> kill_switch_aggregate"
  "confirmation_aggregate cid \<noteq> reconciliation_aggregate"
  "interlock_aggregate \<noteq> kill_switch_aggregate" "interlock_aggregate \<noteq> reconciliation_aggregate"
  "kill_switch_aggregate \<noteq> reconciliation_aggregate"
  by (simp_all add: confirmation_aggregate_def interlock_aggregate_def kill_switch_aggregate_def
      reconciliation_aggregate_def)

lemma claim_opens:
  assumes "log_ok st" "safety_record_if_heads E (claim_batch nonce intent_id broker cid fingerprint expires t) heads st
    = Inr st'"
  shows "interlock_active (rows_of interlock_aggregate st')"
proof -
  obtain r1 r2 r3 r4 where r: "es_rows st' = es_rows st @ [r1, r2, r3, r4]"
    and s: "list_all2 (signed_as E) (claim_batch nonce intent_id broker cid fingerprint expires t) [r1, r2, r3, r4]"
    using claim_write [OF assms] by blast
  have "er_kind r4 = ''live.interlock_started''" "er_aggregate_id r4 = interlock_aggregate"
    using s by (simp_all add: claim_batch_def signed_as_def)
  then have "\<exists>rows. rows_of interlock_aggregate st' = rows @ [r4]"
    using rows_of_append [OF r, of interlock_aggregate] by auto
  with \<open>er_kind r4 = _\<close> show ?thesis
    using interlock_started_active by metis
qed

lemmas aggregates_distinct' [simp] = aggregates_distinct [symmetric]

section \<open>Properties of claims\<close>

text \<open>C7: a live submission starts only in a safe state, whatever other writers did between the
  claim's reads and its write: if the plan was made on one log and its batch is accepted on a later
  one, then at that later log the confirmation is issued, unspent, matching and unexpired, the last
  reconciliation is a healthy report for the broker at most a minute old, the kill switch is off and
  no submission is open; afterwards a submission is open, so every further claim fails.\<close>

theorem claim_safe_under_races:
  assumes "claim_plan E nonce intent_id broker cid fingerprint (Aware expires) rh kh ih (Aware t) st = Inr (batch, heads)"
    and "grows st st1" and "safety_record_if_heads E batch heads st1 = Inr st2"
  shows "claim_allowed st1 broker cid fingerprint expires t \<and> grows st1 st2 \<and>
    length (es_rows st2) = length (es_rows st1) + 4 \<and> interlock_active (rows_of interlock_aggregate st2) \<and>
    \<not> is_ok (claim_plan E' nonce' intent_id' broker' cid' fingerprint' expires_at' rh' kh' ih' at' st2)"
proof -
  have ok: "log_ok st" "log_ok st1"
    using assms(2) by (simp_all add: grows_def)
  obtain later where l: "es_rows st1 = es_rows st @ later"
    using assms(2) by (auto simp: grows_def)
  have a: "claim_allowed st broker cid fingerprint expires t"
    and b: "batch = claim_batch nonce intent_id broker cid fingerprint expires t"
    and h: "heads = map (\<lambda>a. (a, last_id (rows_of a st))) [reconciliation_aggregate, kill_switch_aggregate,
      interlock_aggregate, confirmation_aggregate cid]"
    using claim_plan_InrD [OF ok(1) assms(1)] by auto
  note w = safety_record_if_heads_InrD [OF ok(2) assms(3)]
  have "rows_of a st1 = rows_of a st" if "a \<in> {reconciliation_aggregate, kill_switch_aggregate,
      interlock_aggregate, confirmation_aggregate cid}" for a
    using w h that by (intro head_pins_rows [OF ok(2) l ok(1)]) auto
  then have "claim_allowed st1 broker cid fingerprint expires t"
    using a claim_allowed_cong by metis
  moreover have act: "interlock_active (rows_of interlock_aggregate st2)"
    using claim_opens ok(2) assms(3) b by blast
  moreover have "\<not> is_ok (claim_plan E' nonce' intent_id' broker' cid' fingerprint' expires_at' rh' kh' ih' at' st2)"
  proof
    assume "is_ok (claim_plan E' nonce' intent_id' broker' cid' fingerprint' expires_at' rh' kh' ih' at' st2)"
    then obtain batch' heads' where "claim_plan E' nonce' intent_id' broker' cid' fingerprint' expires_at' rh' kh' ih' at' st2
        = Inr (batch', heads')"
      by (auto simp: is_ok_iff)
    with act show False
      using claim_plan_InrD w by (fastforce simp: claim_allowed_def)
  qed
  ultimately show ?thesis
    using w claim_write [OF ok(2) assms(3) [unfolded b]] ok(2) by (auto simp: grows_def)
qed

section \<open>Spent confirmations\<close>

lemma claim_and_start_Inr:
  "claim_and_start E nonce intent_id broker cid fingerprint expires_at rh kh ih occurred_at st = (Inr (), st') \<longleftrightarrow>
     (\<exists>batch heads. claim_plan E nonce intent_id broker cid fingerprint expires_at rh kh ih occurred_at st
        = Inr (batch, heads) \<and> safety_record_if_heads E batch heads st = Inr st')"
  by (auto simp: claim_and_start_def action_simps)

lemma consumed_id:
  assumes "log_ok st" "claim_plan E nonce intent_id broker cid fingerprint expires_at rh kh ih occurred_at st0
      = Inr (batch, heads)" "log_ok st0" "safety_record_if_heads E batch heads st = Inr st'"
  shows "''live-confirmation-'' @ cid \<notin> er_event_id ` set (es_rows st) \<and>
    ''live-confirmation-'' @ cid \<in> er_event_id ` set (es_rows st')"
proof -
  obtain expires t where b: "batch = claim_batch nonce intent_id broker cid fingerprint expires t"
    using claim_plan_InrD [OF assms(3,2)] by blast
  obtain r1 r2 r3 r4 where r: "es_rows st' = es_rows st @ [r1, r2, r3, r4]"
    and s: "list_all2 (signed_as E) batch [r1, r2, r3, r4]"
    using claim_write [OF assms(1)] assms(4) b by blast
  have "er_event_id r2 = ''live-confirmation-'' @ cid"
    using s b by (simp add: claim_batch_def signed_as_def)
  moreover have "distinct (map er_event_id (es_rows st'))"
    using safety_record_if_heads_InrD [OF assms(1,4)] by (simp add: log_ok_def)
  ultimately show ?thesis
    using r by auto
qed

text \<open>C13: a confirmation is spent at most once: after a successful claim, no claim with the same
  confirmation ever succeeds on any later log, whatever the other arguments and the key.\<close>

theorem confirmation_spent_once:
  assumes "log_ok st" "claim_and_start E nonce intent_id broker cid fingerprint expires_at rh kh ih at1 st = (Inr (), st1)"
    and "grows st1 st2"
  shows "\<not> is_ok (fst (claim_and_start E' nonce' intent_id' broker' cid fingerprint' expires_at' rh' kh' ih' at2 st2))"
proof
  assume "is_ok (fst (claim_and_start E' nonce' intent_id' broker' cid fingerprint' expires_at' rh' kh' ih' at2 st2))"
  then obtain st3 where c: "claim_and_start E' nonce' intent_id' broker' cid fingerprint' expires_at' rh' kh' ih' at2 st2
      = (Inr (), st3)"
    by (metis is_ok_iff old.unit.exhaust prod.collapse)
  have ok: "log_ok st2" and l: "set (es_rows st1) \<subseteq> set (es_rows st2)"
    using assms(3) by (auto simp: grows_def)
  have "''live-confirmation-'' @ cid \<in> er_event_id ` set (es_rows st1)"
    using assms(1,2) consumed_id unfolding claim_and_start_Inr by blast
  moreover have "''live-confirmation-'' @ cid \<notin> er_event_id ` set (es_rows st2)"
    using c ok consumed_id unfolding claim_and_start_Inr by blast
  ultimately show False
    using l by blast
qed

section \<open>The kill switch blocks claims\<close>

lemma persist_report_effect:
  "persist_report E ru ku broker bh lh reasons checked_at st = (r, st') \<Longrightarrow>
     st' = st \<or> (\<exists>t. checked_at = Aware t \<and> safety_record E (report_batch ru ku broker bh lh reasons t) st = Inr st')"
  unfolding persist_report_def
  by (auto simp: outcome_simps safety_aware_def result_simps)

lemma record_unknown_effect:
  assumes "record_unknown E nonce intent_id sid occurred_at st = (r, st')" "log_ok st"
  shows "st' = st \<or> (\<exists>t. occurred_at = Aware t \<and>
    interlock_names (rows_of interlock_aggregate st) [(''submission_id'', sid), (''intent_id'', intent_id)] \<and>
    safety_record_if_heads E (unknown_batch nonce intent_id sid t)
      (map (\<lambda>a. (a, last_id (rows_of a st))) [interlock_aggregate, kill_switch_aggregate]) st = Inr st')"
proof -
  note sv = stream_verified_InrD [OF assms(2), THEN conjunct1]
  show ?thesis
    using assms(1) unfolding record_unknown_def
    by (auto simp: outcome_simps safety_aware_def result_simps dest!: sv split: if_splits)
qed

text \<open>Once activated, the reading stays active while nothing is cleared.\<close>

lemma kill_scan_stays:
  "list_all (\<lambda>r. er_kind r \<noteq> ''kill_switch.cleared'') rows \<Longrightarrow>
     kill_scan reports latest True rows \<in> {None} \<union> {Some (l, True) | l. True}"
  by (induction rows arbitrary: latest) auto

lemma kill_active_stays:
  assumes "er_kind r = ''kill_switch.activated''" "list_all (\<lambda>r. er_kind r \<noteq> ''kill_switch.cleared'') later"
  shows "kill_active (rows @ r # later) reports"
  using assms(1) kill_scan_stays [OF assms(2), of reports "Some r"]
  by (auto simp: kill_active_def kill_scan_append split: option.splits)

lemma killed_row:
  assumes "log_ok st"
    and "(persist_report E ru ku broker bh lh reasons at1 st = (r, st1) \<and> reasons \<noteq> []) \<or>
      record_unknown E nonce intent_id sid at1 st = (r', st1)" and "st1 \<noteq> st"
  shows "log_ok st1 \<and> (\<exists>k rows. rows_of kill_switch_aggregate st1 = rows @ [k] \<and> er_kind k = ''kill_switch.activated'')"
proof -
  have "\<exists>new k rows. log_ok st1 \<and> es_rows st1 = es_rows st @ new \<and> new = rows @ [k] \<and>
      er_kind k = ''kill_switch.activated'' \<and> er_aggregate_id k = kill_switch_aggregate"
    using assms(2)
  proof
    assume p: "persist_report E ru ku broker bh lh reasons at1 st = (r, st1) \<and> reasons \<noteq> []"
    then obtain t where "safety_record E (report_batch ru ku broker bh lh reasons t) st = Inr st1"
      using persist_report_effect assms(3) by blast
    from safety_record_InrD [OF assms(1) this] obtain r1 r2 where "log_ok st1" "es_rows st1 = es_rows st @ [r1] @ [r2]"
        "er_kind r2 = ''kill_switch.activated''" "er_aggregate_id r2 = kill_switch_aggregate"
      using p by (auto simp: report_batch_def list_all2_Cons1 signed_as_def)
    then show ?thesis
      by auto
  next
    assume "record_unknown E nonce intent_id sid at1 st = (r', st1)"
    from record_unknown_effect [OF this assms(1)] assms(3) obtain t heads where
      "safety_record_if_heads E (unknown_batch nonce intent_id sid t) heads st = Inr st1"
      by blast
    from safety_record_if_heads_InrD [OF assms(1) this] obtain r1 r2 r3 where
      "log_ok st1" "es_rows st1 = es_rows st @ [r1, r2] @ [r3]"
      "er_kind r3 = ''kill_switch.activated''" "er_aggregate_id r3 = kill_switch_aggregate"
      by (auto simp: unknown_batch_def list_all2_Cons1 signed_as_def)
    then show ?thesis
      by blast
  qed
  then show ?thesis
    by (auto simp: rows_of_def)
qed

text \<open>C12: an unhealthy reconciliation report or an unknown submission stops trading: once either has
  written, the kill switch reads active on every later log until a clear is recorded, and every claim
  fails; this holds also when the operation itself raised after writing.\<close>

theorem kill_blocks_claims:
  assumes "log_ok st"
    and "(persist_report E ru ku broker bh lh reasons at1 st = (r, st1) \<and> reasons \<noteq> []) \<or>
      record_unknown E nonce intent_id sid at1 st = (r', st1)" and "st1 \<noteq> st"
    and "log_ok st2" "es_rows st2 = es_rows st1 @ rows" "list_all (\<lambda>r. er_kind r \<noteq> ''kill_switch.cleared'') rows"
  shows "kill_active (rows_of kill_switch_aggregate st2) reports \<and>
    \<not> is_ok (claim_plan E' nonce' intent_id' broker' cid' fingerprint' expires_at' rh' kh' ih' at2 st2)"
proof -
  obtain k ks where k: "rows_of kill_switch_aggregate st1 = ks @ [k]" "er_kind k = ''kill_switch.activated''"
    using killed_row [OF assms(1-3)] by blast
  have "rows_of kill_switch_aggregate st2 = ks @ k # filter (\<lambda>r. er_aggregate_id r = kill_switch_aggregate) rows"
    using rows_of_append [OF assms(5), of kill_switch_aggregate] k(1) by simp
  then have a: "kill_active (rows_of kill_switch_aggregate st2) reports" for reports
    using kill_active_stays [OF k(2)] assms(6) by (simp add: list_all_iff)
  have "claim_plan E' nonce' intent_id' broker' cid' fingerprint' expires_at' rh' kh' ih' at2 st2 \<noteq> Inr x" for x
    using claim_plan_InrD [OF assms(4)] a by (cases x) (fastforce simp: claim_allowed_def Let_def)
  with a show ?thesis
    by (auto simp: is_ok_iff)
qed

end
