(* ===== verification/SafetyMachine.thy ===== *)
theory SafetyMachine
  imports SafetyAuthority
begin

text \<open>
  The safety authority as a state machine over the event log: every outcome of every role
  operation, and the appends of other components, as steps.  The invariant counts opened and
  resolved submissions; the theory also holds what clearing the kill switch requires and does,
  and the two directions of authentication.
\<close>

section \<open>Effects of the remaining operations\<close>

lemma issue_confirmation_effect:
  "issue_confirmation E seed nonce phrase broker c e f d st = (r, st') \<Longrightarrow>
     st' = st \<or> (\<exists>n created expires. let cid = confirmation_id E seed in
       safety_record_if_heads E (issue_batch cid n broker created expires f d)
         [(confirmation_aggregate cid, None)] st = Inr st')"
  unfolding issue_confirmation_def Let_def by (auto simp: outcome_simps)

lemma clear_kill_switch_effect:
  assumes "clear_kill_switch E uuid ack now st = (r, st')" "log_ok st" "st' \<noteq> st"
  shows "\<exists>t. let kills = rows_of kill_switch_aggregate st; reports = rows_of reconciliation_aggregate st;
        activations = filter (\<lambda>r. er_kind r = ''kill_switch.activated'') kills in
      now = Aware t \<and> ack = kill_ack \<and> \<not> interlock_active (rows_of interlock_aggregate st) \<and>
      kill_active kills reports \<and> activations \<noteq> [] \<and> reports \<noteq> [] \<and>
      er_kind (last reports) = ''reconciliation.healthy'' \<and>
      er_sequence (last activations) < er_sequence (last reports) \<and> er_occurred_at (last reports) \<le> t \<and>
      t \<le> er_occurred_at (last reports) + seconds 60 \<and>
      safety_record_if_heads E (clear_batch uuid (last activations) t)
        [(kill_switch_aggregate, last_id kills), (reconciliation_aggregate, Some (er_event_id (last reports))),
         (interlock_aggregate, last_id (rows_of interlock_aggregate st))] st = Inr st' \<and> r = Inr ()"
proof -
  note sv = stream_verified_InrD [OF assms(2), THEN conjunct1]
  show ?thesis
    using assms(1,3) unfolding clear_kill_switch_def Let_def reconciliation_events_def kill_switch_events_def
      interlock_events_def
    by (auto simp: outcome_simps safety_aware_def result_simps not_less not_le dest!: sv split: if_splits)
qed

lemma record_acknowledgement_effect:
  assumes "record_acknowledgement E nonce intent_id broker oid status sid occurred_at st = (r, st')" "log_ok st"
  shows "st' = st \<or> (\<exists>t. occurred_at = Aware t \<and> status \<in> set acknowledged_statuses \<and>
    interlock_names (rows_of interlock_aggregate st)
      [(''submission_id'', sid), (''intent_id'', intent_id), (''broker'', broker)] \<and>
    safety_record_if_heads E (acknowledgement_batch nonce intent_id broker oid status sid t)
      [(interlock_aggregate, last_id (rows_of interlock_aggregate st))] st = Inr st')"
proof -
  note sv = stream_verified_InrD [OF assms(2), THEN conjunct1]
  show ?thesis
    using assms(1) unfolding record_acknowledgement_def
    by (auto simp: outcome_simps safety_aware_def result_simps dest!: sv split: if_splits)
qed

lemma claim_and_start_effect:
  assumes "claim_and_start E nonce intent_id broker cid fingerprint expires_at rh kh ih occurred_at st = (r, st')"
    and "log_ok st"
  shows "st' = st \<or> (\<exists>expires t heads. claim_allowed st broker cid fingerprint expires t \<and>
    safety_record_if_heads E (claim_batch nonce intent_id broker cid fingerprint expires t) heads st = Inr st')"
  using assms(1) claim_plan_InrD [OF assms(2)]
  unfolding claim_and_start_def by (force simp: outcome_simps split: prod.splits)

section \<open>Steps\<close>

inductive safety_step :: "safety_env \<Rightarrow> event_store \<Rightarrow> event_store \<Rightarrow> bool" for E where
  issue: "issue_confirmation E seed nonce phrase broker c e f d st = (r, st') \<Longrightarrow> safety_step E st st'"
| report: "persist_report E ru ku broker bh lh reasons checked_at st = (r', st') \<Longrightarrow> safety_step E st st'"
| clear: "clear_kill_switch E uuid ack now st = (u, st') \<Longrightarrow> safety_step E st st'"
| claim: "claim_and_start E nonce' intent_id broker cid fp expires_at rh kh ih at1 st = (u, st') \<Longrightarrow>
    safety_step E st st'"
| acknowledge: "record_acknowledgement E nonce' intent_id broker oid status sid at1 st = (u, st') \<Longrightarrow>
    safety_step E st st'"
| unknown: "record_unknown E nonce' intent_id sid at1 st = (u, st') \<Longrightarrow> safety_step E st st'"
| other: "append_many batch st = Inr st' \<Longrightarrow>
    \<forall>a \<in> set batch. ea_aggregate_id a \<noteq> interlock_aggregate \<Longrightarrow> safety_step E st st'"

inductive safety_reach :: "safety_env \<Rightarrow> event_store \<Rightarrow> bool" for E where
  start: "safety_reach E empty_store"
| step: "safety_reach E st \<Longrightarrow> safety_step E st st' \<Longrightarrow> safety_reach E st'"

inductive_cases safety_stepE: "safety_step E st st'"

section \<open>The interlock invariant\<close>

definition interlock_rows :: "event_store \<Rightarrow> event_record list" where
  "interlock_rows st = filter (\<lambda>r. er_kind r \<in> {''live.interlock_started'', ''live.interlock_resolved''})
     (rows_of interlock_aggregate st)"

definition opened :: "event_store \<Rightarrow> nat" where
  "opened st = length (filter (\<lambda>r. er_kind r = ''live.interlock_started'') (rows_of interlock_aggregate st))"

definition resolved :: "event_store \<Rightarrow> nat" where
  "resolved st = length (filter (\<lambda>r. er_kind r = ''live.interlock_resolved'') (rows_of interlock_aggregate st))"

definition ends_open :: "event_record list \<Rightarrow> bool" where
  "ends_open rows \<longleftrightarrow> rows \<noteq> [] \<and> er_kind (last rows) = ''live.interlock_started''"

definition interlock_inv :: "event_store \<Rightarrow> bool" where
  "interlock_inv st \<longleftrightarrow> log_ok st \<and>
     opened st = resolved st + (if ends_open (interlock_rows st) then 1 else 0) \<and>
     (\<forall>r \<in> set (rows_of interlock_aggregate st). pget r ''intent_id'' \<noteq> None \<longrightarrow>
       er_kind r = ''live.interlock_started'')"

lemma scan_Some:
  "interlock_scan s a rows = Some b \<Longrightarrow>
     (\<forall>r \<in> set rows. er_kind r \<in> {''live.interlock_started'', ''live.interlock_resolved''}) \<and>
     b = (if rows = [] then a else ends_open rows)"
  by (induction s a rows rule: interlock_scan.induct) (auto simp: ends_open_def split: if_splits option.splits json.splits)

lemma inactive_closed:
  assumes "\<not> interlock_active (rows_of interlock_aggregate st)"
  shows "interlock_rows st = rows_of interlock_aggregate st \<and> \<not> ends_open (interlock_rows st)"
proof -
  have s: "interlock_scan [] False (rows_of interlock_aggregate st) = Some False"
    using assms by (auto simp: interlock_active_def split: option.splits)
  show ?thesis
    using scan_Some [OF s] by (auto simp: interlock_rows_def ends_open_def filter_id_conv split: if_splits)
qed

lemma active_last:
  assumes "interlock_inv st" "interlock_names (rows_of interlock_aggregate st) named" "(''intent_id'', i) \<in> set named"
  shows "ends_open (interlock_rows st)"
proof -
  have "rows_of interlock_aggregate st \<noteq> []"
    using assms(2) by (auto simp: interlock_names_def interlock_active_def)
  then obtain ys y where y: "rows_of interlock_aggregate st = ys @ [y]"
    by (meson rev_exhaust)
  have "pget y ''intent_id'' = Some (JStr i)"
    using assms(2,3) y by (auto simp: interlock_names_def list_all_iff)
  then have "er_kind y = ''live.interlock_started''"
    using assms(1) y by (auto simp: interlock_inv_def)
  then show ?thesis
    by (simp add: interlock_rows_def y ends_open_def)
qed

text \<open>What a batch may add to the interlock aggregate: rows of other kinds, then at most one signal.\<close>

lemma interlock_inv_append:
  assumes inv: "interlock_inv st" and ok: "log_ok st'" and rows: "es_rows st' = es_rows st @ new"
    and new: "filter (\<lambda>r. er_aggregate_id r = interlock_aggregate) new = junk @ signal"
    and junk: "\<And>r. r \<in> set junk \<Longrightarrow>
      er_kind r \<notin> {''live.interlock_started'', ''live.interlock_resolved''} \<and> pget r ''intent_id'' = None"
    and signal: "signal = [] \<or>
      (\<exists>r. signal = [r] \<and> er_kind r = ''live.interlock_started'' \<and> \<not> ends_open (interlock_rows st)) \<or>
      (\<exists>r. signal = [r] \<and> er_kind r = ''live.interlock_resolved'' \<and> pget r ''intent_id'' = None \<and>
        ends_open (interlock_rows st))"
  shows "interlock_inv st'"
proof -
  have r: "rows_of interlock_aggregate st' = rows_of interlock_aggregate st @ junk @ signal"
    using rows_of_append [OF rows] new by simp
  have j: "filter (\<lambda>r. er_kind r \<in> {''live.interlock_started'', ''live.interlock_resolved''}) junk = []"
      "filter (\<lambda>r. er_kind r = ''live.interlock_started'') junk = []"
      "filter (\<lambda>r. er_kind r = ''live.interlock_resolved'') junk = []"
    using junk by (auto simp: filter_empty_conv)
  have o: "opened st' = opened st + length (filter (\<lambda>r. er_kind r = ''live.interlock_started'') signal)"
      "resolved st' = resolved st + length (filter (\<lambda>r. er_kind r = ''live.interlock_resolved'') signal)"
      "interlock_rows st' = interlock_rows st @ filter (\<lambda>r. er_kind r \<in> {''live.interlock_started'', ''live.interlock_resolved''}) signal"
    unfolding opened_def resolved_def interlock_rows_def r by (simp_all add: j del: insert_iff)
  have c: "opened st = resolved st + (if ends_open (interlock_rows st) then 1 else 0)"
    using inv by (simp add: interlock_inv_def)
  have "opened st' = resolved st' + (if ends_open (interlock_rows st') then 1 else 0)"
    using signal c by (auto simp: o ends_open_def)
  moreover have "\<forall>r \<in> set (rows_of interlock_aggregate st'). pget r ''intent_id'' \<noteq> None \<longrightarrow>
      er_kind r = ''live.interlock_started''"
    using inv junk signal unfolding r interlock_inv_def by auto
  ultimately show ?thesis
    using ok by (simp add: interlock_inv_def)
qed

lemma interlock_inv_quiet:
  assumes "interlock_inv st" "log_ok st'" "es_rows st' = es_rows st @ new"
    and "\<forall>r \<in> set new. er_aggregate_id r \<noteq> interlock_aggregate"
  shows "interlock_inv st'"
  using interlock_inv_append [OF assms(1-3), of "[]" "[]"] assms(4) by (simp add: filter_empty_conv)

section \<open>Every step keeps the invariant\<close>

lemma pget_absent:
  "signed_as E a r \<Longrightarrow> ea_payload a = JObj kvs \<Longrightarrow> flat_payload kvs \<Longrightarrow> k \<notin> fst ` set kvs \<Longrightarrow>
     k \<noteq> mac_field \<Longrightarrow> k \<noteq> version_field \<Longrightarrow> pget r k = None"
  by (simp add: signed_pget map_of_eq_None_iff)

lemmas batch_defs = claim_batch_def acknowledgement_batch_def unknown_batch_def report_batch_def issue_batch_def
  clear_batch_def

lemmas flat_defs = flat_payload_def dict_ok_def safety_labels_def mac_field_def version_field_def

lemma inv_claim:
  assumes "interlock_inv st" "\<not> interlock_active (rows_of interlock_aggregate st)"
    and "safety_record_if_heads E (claim_batch nonce intent_id broker cid fp expires t) heads st = Inr st'"
  shows "interlock_inv st'"
proof -
  have ok: "log_ok st"
    using assms(1) by (simp add: interlock_inv_def)
  note w = safety_record_if_heads_InrD [OF ok assms(3)]
  obtain r1 r2 r3 r4 where r: "es_rows st' = es_rows st @ [r1, r2, r3, r4]"
    and s: "list_all2 (signed_as E) (claim_batch nonce intent_id broker cid fp expires t) [r1, r2, r3, r4]"
    using claim_write [OF ok assms(3)] by blast
  have k: "er_kind r1 = ''live.confirmation_claimed''" "er_kind r3 = ''live.submission_started''"
      "er_kind r4 = ''live.interlock_started''" "er_aggregate_id r2 = confirmation_aggregate cid"
      "er_aggregate_id r4 = interlock_aggregate"
    using s by (simp_all add: batch_defs signed_as_def)
  have p: "pget r1 ''intent_id'' = None" "pget r3 ''intent_id'' = None"
    using s unfolding claim_batch_def by (auto intro!: pget_absent simp: flat_defs)
  have f: "filter (\<lambda>r. er_aggregate_id r = interlock_aggregate) [r1, r2, r3, r4] =
      filter (\<lambda>r. er_aggregate_id r = interlock_aggregate) [r1, r3] @ [r4]"
    using k by simp
  show ?thesis
    by (rule interlock_inv_append [OF assms(1) _ r f]) (use w k p inactive_closed [OF assms(2)] in \<open>auto split: if_splits\<close>)
qed

lemma inv_resolve:
  assumes "interlock_inv st" "ends_open (interlock_rows st)" "log_ok st'"
    and r: "es_rows st' = es_rows st @ [r1, r2] @ quiet"
    and k1: "er_kind r1 \<in> {''live.acknowledged'', ''live.unknown''}" "pget r1 ''intent_id'' = None"
    and k2: "er_kind r2 = ''live.interlock_resolved''" "er_aggregate_id r2 = interlock_aggregate"
      "pget r2 ''intent_id'' = None"
    and q: "\<forall>r \<in> set quiet. er_aggregate_id r \<noteq> interlock_aggregate"
  shows "interlock_inv st'"
proof -
  have f: "filter (\<lambda>r. er_aggregate_id r = interlock_aggregate) ([r1, r2] @ quiet) =
      filter (\<lambda>r. er_aggregate_id r = interlock_aggregate) [r1] @ [r2]"
    using k2 q by (simp add: filter_empty_conv)
  show ?thesis
    by (rule interlock_inv_append [OF assms(1,3) r f]) (use k1 k2 assms(2) in \<open>auto split: if_splits\<close>)
qed

lemma inv_acknowledge:
  assumes "interlock_inv st" "ends_open (interlock_rows st)"
    and "safety_record_if_heads E (acknowledgement_batch nonce intent_id broker oid status sid t) heads st = Inr st'"
  shows "interlock_inv st'"
proof -
  have ok: "log_ok st"
    using assms(1) by (simp add: interlock_inv_def)
  obtain r1 r2 where r: "log_ok st'" "es_rows st' = es_rows st @ [r1, r2]"
      "list_all2 (signed_as E) (acknowledgement_batch nonce intent_id broker oid status sid t) [r1, r2]"
    using safety_record_if_heads_InrD [OF ok assms(3)] by (force simp: acknowledgement_batch_def list_all2_Cons1)
  have p: "pget r1 ''intent_id'' = None" "pget r2 ''intent_id'' = None"
    using r(3) unfolding acknowledgement_batch_def by (auto intro!: pget_absent simp: flat_defs)
  have k: "er_kind r1 = ''live.acknowledged''" "er_kind r2 = ''live.interlock_resolved''"
      "er_aggregate_id r2 = interlock_aggregate"
    using r(3) by (simp_all add: batch_defs signed_as_def)
  show ?thesis
    by (rule inv_resolve [OF assms(1,2) r(1), of r1 r2 "[]"]) (use r(2) p k in auto)
qed

lemma inv_unknown:
  assumes "interlock_inv st" "ends_open (interlock_rows st)"
    and "safety_record_if_heads E (unknown_batch nonce intent_id sid t) heads st = Inr st'"
  shows "interlock_inv st'"
proof -
  have ok: "log_ok st"
    using assms(1) by (simp add: interlock_inv_def)
  obtain r1 r2 r3 where r: "log_ok st'" "es_rows st' = es_rows st @ [r1, r2, r3]"
      "list_all2 (signed_as E) (unknown_batch nonce intent_id sid t) [r1, r2, r3]"
    using safety_record_if_heads_InrD [OF ok assms(3)] by (force simp: unknown_batch_def list_all2_Cons1)
  have p: "pget r1 ''intent_id'' = None" "pget r2 ''intent_id'' = None"
    using r(3) unfolding unknown_batch_def by (auto intro!: pget_absent simp: flat_defs)
  have k: "er_kind r1 = ''live.unknown''" "er_kind r2 = ''live.interlock_resolved''"
      "er_aggregate_id r2 = interlock_aggregate" "er_aggregate_id r3 = kill_switch_aggregate"
    using r(3) by (simp_all add: batch_defs signed_as_def)
  show ?thesis
    by (rule inv_resolve [OF assms(1,2) r(1), of r1 r2 "[r3]"])
       (use r(2) p k in auto)
qed

lemma stored_aggregates:
  "list_all2 (signed_as E) batch new \<Longrightarrow> r \<in> set new \<Longrightarrow> \<exists>a \<in> set batch. er_aggregate_id r = ea_aggregate_id a"
  by (induction rule: list_all2_induct) (auto simp: signed_as_def)

lemma inv_recorded:
  assumes "interlock_inv st" "\<forall>a \<in> set batch. ea_aggregate_id a \<noteq> interlock_aggregate"
    and "safety_record E batch st = Inr st' \<or> safety_record_if_heads E batch heads st = Inr st'"
  shows "interlock_inv st'"
proof -
  have ok: "log_ok st"
    using assms(1) by (simp add: interlock_inv_def)
  obtain new where "log_ok st'" "es_rows st' = es_rows st @ new" "list_all2 (signed_as E) batch new"
    using assms(3) safety_record_InrD [OF ok] safety_record_if_heads_InrD [OF ok] by blast
  then show ?thesis
    using interlock_inv_quiet [OF assms(1)] stored_aggregates assms(2) by metis
qed

lemma inv_step: "safety_step E st st' \<Longrightarrow> interlock_inv st \<Longrightarrow> interlock_inv st'"
proof (induction rule: safety_step.induct)
  case (issue seed nonce phrase broker c e f d st r st')
  have "\<forall>a \<in> set (issue_batch cid n broker c' e' f d). ea_aggregate_id a \<noteq> interlock_aggregate" for cid n c' e'
    by (simp add: issue_batch_def)
  then show ?case
    using issue_confirmation_effect [OF issue(1)] inv_recorded issue(2) unfolding Let_def by metis
next
  case (report ru ku broker bh lh reasons checked_at st r' st')
  have "\<forall>a \<in> set (report_batch ru ku broker bh lh reasons t). ea_aggregate_id a \<noteq> interlock_aggregate" for t
    using aggregates_distinct by (simp add: report_batch_def Let_def)
  then show ?case
    using persist_report_effect [OF report(1)] inv_recorded report(2) by metis
next
  case (clear uuid ack now st u st')
  have ok: "log_ok st"
    using clear(2) by (simp add: interlock_inv_def)
  have "\<forall>a \<in> set (clear_batch uuid k t). ea_aggregate_id a \<noteq> interlock_aggregate" for k t
    using aggregates_distinct(4) by (simp add: clear_batch_def)
  then show ?case
    using clear_kill_switch_effect [OF clear(1) ok] inv_recorded clear(2) unfolding Let_def by metis
next
  case (claim nonce' intent_id broker cid fp expires_at rh kh ih at1 st u st')
  have ok: "log_ok st"
    using claim(2) by (simp add: interlock_inv_def)
  then show ?case
    using claim_and_start_effect [OF claim(1) ok] inv_claim claim(2) unfolding claim_allowed_def by metis
next
  case (acknowledge nonce' intent_id broker oid status sid at1 st u st')
  have ok: "log_ok st"
    using acknowledge(2) by (simp add: interlock_inv_def)
  show ?case
    using record_acknowledgement_effect [OF acknowledge(1) ok] inv_acknowledge acknowledge(2)
      active_last [OF acknowledge(2), of "[(''submission_id'', sid), (''intent_id'', intent_id), (''broker'', broker)]" intent_id]
    by auto
next
  case (unknown nonce' intent_id sid at1 st u st')
  have ok: "log_ok st"
    using unknown(2) by (simp add: interlock_inv_def)
  show ?case
    using record_unknown_effect [OF unknown(1) ok] inv_unknown unknown(2)
      active_last [OF unknown(2), of "[(''submission_id'', sid), (''intent_id'', intent_id)]" intent_id]
    by auto
next
  case (other batch st st')
  have ok: "log_ok st"
    using other(3) by (simp add: interlock_inv_def)
  obtain new where n: "log_ok st'" "es_rows st' = es_rows st @ new" "list_all2 stored_as batch new"
    using append_many_Inr [OF ok other(1)] by blast
  have "\<forall>r \<in> set new. er_aggregate_id r \<noteq> interlock_aggregate"
    using n(3) other(2) by (induction rule: list_all2_induct) (auto simp: stored_as_def)
  then show ?case
    using interlock_inv_quiet [OF other(3)] n by blast
qed

lemma inv_reach: "safety_reach E st \<Longrightarrow> interlock_inv st"
proof (induction rule: safety_reach.induct)
  case start
  then show ?case
    using log_ok_empty by (simp add: interlock_inv_def opened_def resolved_def rows_of_def interlock_rows_def
        ends_open_def empty_store_def)
next
  case (step st st')
  then show ?case
    using inv_step by blast
qed

text \<open>C8: at most one live submission is ever unresolved: on every log the authority and the other
  components can reach, through any interleaving of operations whatever they return, the submissions
  opened exceed the resolved ones by at most one, and a claim goes through only when all are
  resolved.\<close>

theorem one_submission_open:
  assumes "safety_reach E st"
  shows "resolved st \<le> opened st \<and> opened st \<le> resolved st + 1 \<and>
    (is_ok (claim_plan E nonce intent_id broker cid fp expires_at rh kh ih at1 st) \<longrightarrow> opened st = resolved st)"
proof -
  note i = inv_reach [OF assms]
  have "opened st = resolved st" if "claim_plan E nonce intent_id broker cid fp expires_at rh kh ih at1 st = Inr x" for x
  proof -
    note plan = that
    obtain batch heads where "claim_plan E nonce intent_id broker cid fp expires_at rh kh ih at1 st = Inr (batch, heads)"
      using plan by (metis surj_pair)
    then have "\<not> interlock_active (rows_of interlock_aggregate st)"
      using claim_plan_InrD i by (fastforce simp: interlock_inv_def claim_allowed_def)
    then show ?thesis
      using inactive_closed [of st] i by (auto simp: interlock_inv_def)
  qed
  then show ?thesis
    using i by (auto simp: interlock_inv_def is_ok_iff)
qed

section \<open>Clearing\<close>

lemma kill_scan_latest:
  "kill_scan reports latest active rows = Some (l, a) \<Longrightarrow>
     (filter (\<lambda>r. er_kind r = ''kill_switch.activated'') rows = [] \<longrightarrow> l = latest) \<and>
     (filter (\<lambda>r. er_kind r = ''kill_switch.activated'') rows \<noteq> [] \<longrightarrow>
        l = Some (last (filter (\<lambda>r. er_kind r = ''kill_switch.activated'') rows)))"
  by (induction reports latest active rows rule: kill_scan.induct) (auto split: if_splits option.splits)

lemma rows_of_in: "r \<in> set (rows_of a st) \<Longrightarrow> r \<in> set (es_rows st) \<and> er_aggregate_id r = a"
  by (simp add: rows_of_def)

lemma appended_sequence:
  assumes "log_ok st'" "es_rows st' = es_rows st @ [r]" "x \<in> set (es_rows st)"
  shows "er_sequence x < er_sequence r"
  using es.increasing [OF assms(1)] assms(2,3) by (auto simp: sorted_wrt_append)

text \<open>Clearing the kill switch needs newer health and undoes exactly that activation: a clear that
  writes had the exact acknowledgement, no open submission, and as last report a healthy one, later in
  the log than the last activation and at most a minute old; it appends one row, and afterwards the
  kill switch reads inactive exactly when the earlier history was well formed and a genuine healthy
  report follows the activation, so a malformed history can never be cleared.\<close>

lemma clear_needs_newer_health:
  assumes "clear_kill_switch E uuid ack (Aware t) st = (r, st')" "log_ok st" "st' \<noteq> st"
  defines "kills \<equiv> rows_of kill_switch_aggregate st" and "reports \<equiv> rows_of reconciliation_aggregate st"
  shows "ack = kill_ack \<and> \<not> interlock_active (rows_of interlock_aggregate st) \<and> reports \<noteq> [] \<and>
    er_kind (last reports) = ''reconciliation.healthy'' \<and>
    er_sequence (last (filter (\<lambda>r. er_kind r = ''kill_switch.activated'') kills)) < er_sequence (last reports) \<and>
    er_occurred_at (last reports) \<le> t \<and> t \<le> er_occurred_at (last reports) + seconds 60 \<and>
    length (es_rows st') = length (es_rows st) + 1 \<and> rows_of reconciliation_aggregate st' = reports \<and>
    (kill_active (rows_of kill_switch_aggregate st') reports \<longleftrightarrow>
      \<not> (kill_scan reports None False kills \<noteq> None \<and>
         (\<exists>c \<in> set reports. healthy_report c \<and>
           er_sequence (last (filter (\<lambda>r. er_kind r = ''kill_switch.activated'') kills)) < er_sequence c)))"
proof -
  define k where "k = last (filter (\<lambda>r. er_kind r = ''kill_switch.activated'') kills)"
  note e = clear_kill_switch_effect [OF assms(1-3), folded kills_def reports_def, unfolded Let_def, folded k_def]
  obtain heads where w: "safety_record_if_heads E (clear_batch uuid k t) heads st = Inr st'"
    and a: "filter (\<lambda>r. er_kind r = ''kill_switch.activated'') kills \<noteq> []"
    using e by auto
  obtain x where x: "log_ok st'" "es_rows st' = es_rows st @ [x]" "signed_as E (hd (clear_batch uuid k t)) x"
    using safety_record_if_heads_InrD [OF assms(2) w] by (force simp: clear_batch_def list_all2_Cons1)
  have xk: "er_kind x = ''kill_switch.cleared''" "er_aggregate_id x = kill_switch_aggregate"
      "pget x ''activation_event_id'' = Some (JStr (er_event_id k))"
      "pget x ''activation_sequence'' = Some (JInt (er_sequence k))"
    using x(3) signed_pget [OF x(3)] by (simp_all add: clear_batch_def signed_as_def flat_defs)
  have kin: "k \<in> set kills"
    using last_in_set [OF a] by (auto simp: k_def)
  have sk: "er_sequence k < er_sequence x" and sr: "\<forall>c \<in> set reports. er_sequence c < er_sequence x"
    using appended_sequence [OF x(1,2)] rows_of_in kin by (auto simp: kills_def reports_def)
  have m: "clear_matches reports k x \<longleftrightarrow> (\<exists>c \<in> set reports. healthy_report c \<and> er_sequence k < er_sequence c)"
    using xk sk sr by (auto simp: clear_matches_def list_ex_iff)
  have rows: "rows_of kill_switch_aggregate st' = kills @ [x]" "rows_of reconciliation_aggregate st' = reports"
    using rows_of_append [OF x(2)] xk by (simp_all add: kills_def reports_def)
  have scan: "kill_active (kills @ [x]) reports \<longleftrightarrow>
      \<not> (kill_scan reports None False kills \<noteq> None \<and> clear_matches reports k x)"
    using kill_scan_latest [of reports None False kills] a xk
    by (auto simp: kill_active_def kill_scan_append k_def split: option.splits)
  show ?thesis
    using e rows scan m x(2) unfolding k_def [symmetric] by auto
qed

section \<open>Authentication\<close>

lemma sort_key_idem: "sort_key f (sort_key f xs) = sort_key f xs"
  by (rule sort_key_sorted) simp

lemma sort_members_sorted: "sort_members (JObj (sorted_items kvs)) = sort_members (JObj kvs)"
proof -
  have "map (\<lambda>(k, v). (k, sort_members v)) (sort_key fst kvs) = sort_key fst (map (\<lambda>(k, v). (k, sort_members v)) kvs)"
    by (rule sort_key_map [symmetric]) (simp add: case_prod_beta)
  then show ?thesis
    by (simp add: sorted_items_def sort_key_idem)
qed

lemma delete_sorted: "ddel k (sorted_items kvs) = sorted_items (ddel k kvs)"
  by (simp add: sorted_items_def AList.delete_eq filter_sort)

lemma mac_message_sorted:
  "mac_message i k a t (sorted_items kvs) = mac_message i k a t kvs"
proof -
  have "dumps (JObj [(''aggregate_id'', JStr a), (''event_id'', JStr i), (''kind'', JStr k),
        (''occurred_at'', JStr (micro_text t)), (''payload'', JObj (sorted_items kvs))]) =
      dumps (JObj [(''aggregate_id'', JStr a), (''event_id'', JStr i), (''kind'', JStr k),
        (''occurred_at'', JStr (micro_text t)), (''payload'', JObj kvs)])"
    using sort_members_sorted [of kvs] by (simp add: dumps_def)
  moreover have "json_finite (JObj (sorted_items kvs)) = json_finite (JObj kvs)"
    by (auto simp: list_all_iff)
  ultimately show ?thesis
    by (simp add: mac_message_def)
qed

text \<open>Taking the two authentication members off again.\<close>

lemma strip_signature:
  assumes "flat_payload kvs"
  shows "ddel version_field (ddel mac_field (dset mac_field v (dset version_field w kvs))) = kvs"
    and "ddel mac_field (dset mac_field v (dset version_field w kvs)) = dset version_field w kvs"
proof -
  have absent: "mac_field \<notin> fst ` set kvs" "version_field \<notin> fst ` set kvs"
    using assms by (auto simp: flat_payload_def list_all_iff)
  have full: "dset version_field w kvs = kvs @ [(version_field, w)]"
      "dset mac_field v (dset version_field w kvs) = kvs @ [(version_field, w), (mac_field, v)]"
    using absent mac_labels(3) by (simp_all add: update_absent)
  have keep: "filter (\<lambda>(k', _). mac_field \<noteq> k') kvs = kvs" "filter (\<lambda>(k', _). version_field \<noteq> k') kvs = kvs"
    using absent by (force simp: filter_id_conv)+
  show d: "ddel mac_field (dset mac_field v (dset version_field w kvs)) = dset version_field w kvs"
    unfolding full(2) unfolding full(1) using mac_labels(3) keep by (simp add: AList.delete_eq)
  show "ddel version_field (ddel mac_field (dset mac_field v (dset version_field w kvs))) = kvs"
    unfolding d unfolding full(1) using mac_labels(3) keep by (simp add: AList.delete_eq)
qed

lemma signed_verifies:
  assumes "signed_as E a r" "ea_payload a = JObj kvs" "flat_payload kvs"
  shows "verify E r"
proof -
  obtain m where m: "mac_message (ea_event_id a) (ea_kind a) (ea_aggregate_id a) (er_occurred_at r) kvs = Inr m"
    and p: "er_payload r = JObj (sorted_items (dset mac_field (JStr (se_sign E m))
      (dset version_field (JInt safety_version) kvs)))"
    using assms unfolding signed_as_def by blast
  have ids: "er_event_id r = ea_event_id a" "er_kind r = ea_kind a" "er_aggregate_id r = ea_aggregate_id a"
    using assms(1) by (simp_all add: signed_as_def)
  have ok: "dict_ok kvs"
    using assms(3) by (simp add: flat_payload_def)
  let ?full = "dset mac_field (JStr (se_sign E m)) (dset version_field (JInt safety_version) kvs)"
  note d = strip_signature [OF assms(3), of "JStr (se_sign E m)" "JInt safety_version"]
  have g: "dget (sorted_items ?full) mac_field = Some (JStr (se_sign E m))"
      "dget (sorted_items (dset version_field (JInt safety_version) kvs)) version_field = Some (JInt safety_version)"
    using ok by simp_all
  have fl: "list_all (\<lambda>kv. flat_json (snd kv)) (sorted_items kvs)"
    using assms(3) by (auto simp: flat_payload_def list_all_iff)
  show ?thesis
    using ids m g fl d by (simp add: verify_def p delete_sorted mac_message_sorted)
qed

text \<open>All safety aggregates of a log read and authenticate.\<close>

definition authentic :: "safety_env \<Rightarrow> event_store \<Rightarrow> bool" where
  "authentic E st \<longleftrightarrow> log_ok st \<and> log_readable st \<and> (\<forall>r \<in> set (es_rows st). verify E r)"

lemma authentic_empty: "authentic E empty_store"
  using log_ok_empty by (simp add: authentic_def log_readable_def empty_store_def)

lemma authentic_stream: "authentic E st \<Longrightarrow> a \<noteq> [] \<Longrightarrow> stream_verified E a st = Inr (rows_of a st)"
  using stream_readable [of st a] by (auto simp: authentic_def stream_verified_def rows_of_def list_all_iff)

lemma recorded_append:
  "safety_record E batch st = Inr st' \<or> safety_record_if_heads E batch heads st = Inr st' \<Longrightarrow>
     \<exists>signed. append_many (redacted_appends (hidden E) signed) st = Inr st'"
  using append_if_Inr record_many_fenced record_many_plain
  by (fastforce simp: safety_record_def safety_record_if_heads_def result_simps)

lemma recorded_readable:
  assumes "log_ok st" "log_readable st"
    and "safety_record E batch st = Inr st' \<or> safety_record_if_heads E batch heads st = Inr st'"
  shows "log_readable st'"
  using recorded_append [OF assms(3)] append_many_readable [OF assms(1,2)] by blast

lemma verified_batch:
  "list_all2 (signed_as E) batch new \<Longrightarrow>
     list_all (\<lambda>a. \<exists>kvs. ea_payload a = JObj kvs \<and> flat_payload kvs) batch \<Longrightarrow> list_all (verify E) new"
  by (induction rule: list_all2_induct) (auto simp: signed_verifies)

lemma recorded_authentic:
  assumes "authentic E st" "list_all (\<lambda>a. \<exists>kvs. ea_payload a = JObj kvs \<and> flat_payload kvs) batch"
    and "safety_record E batch st = Inr st' \<or> safety_record_if_heads E batch heads st = Inr st'"
  shows "authentic E st'"
proof -
  have ok: "log_ok st" "log_readable st"
    using assms(1) by (simp_all add: authentic_def)
  obtain new where "log_ok st'" "es_rows st' = es_rows st @ new" "list_all2 (signed_as E) batch new"
    using assms(3) safety_record_InrD [OF ok(1)] safety_record_if_heads_InrD [OF ok(1)] by blast
  then show ?thesis
    using verified_batch [OF _ assms(2)] recorded_readable [OF ok assms(3)] assms(1)
    by (auto simp: authentic_def list_all_iff)
qed

text \<open>What the authority records it accepts: after a recorded batch of safety payloads, reading an
  aggregate that authenticated before authenticates again and returns its earlier rows followed by
  the new ones, although the payloads were redacted, signed, redacted again and stored sorted.\<close>

lemma signed_rows_authenticate:
  assumes "log_ok st" "log_readable st" "safety_record_if_heads E batch heads st = Inr st'"
    and "list_all (\<lambda>a. \<exists>kvs. ea_payload a = JObj kvs \<and> flat_payload kvs) batch"
    and "stream_verified E a st = Inr old"
  shows "\<exists>new. list_all2 (signed_as E) batch new \<and>
    stream_verified E a st' = Inr (old @ filter (\<lambda>r. er_aggregate_id r = a) new)"
proof -
  obtain new where n: "log_ok st'" "es_rows st' = es_rows st @ new" "list_all2 (signed_as E) batch new"
    using safety_record_if_heads_InrD [OF assms(1,3)] by blast
  have s: "stream a st' = Inr (rows_of a st')"
    using stream_readable [OF n(1)] recorded_readable [OF assms(1,2) disjI2 [OF assms(3)]] by (simp add: rows_of_def)
  have "list_all (verify E) (rows_of a st')"
    using stream_verified_InrD [OF assms(1,5)] rows_of_append [OF n(2), of a] verified_batch [OF n(3) assms(4)]
    by (auto simp: list_all_iff)
  then have "stream_verified E a st' = Inr (rows_of a st')"
    using s assms(5) by (auto simp: stream_verified_def split: if_splits)
  then show ?thesis
    using n(3) stream_verified_InrD [OF assms(1,5)] rows_of_append [OF n(2), of a] by auto
qed

end
