(* ===== verification/SafetyLive.thy ===== *)
theory SafetyLive
  imports SafetyMachine
begin

text \<open>
  The safety authority does act when it may: an allowed claim goes through.  The theory also
  states what a verifying row commits to, and holds a concrete history (a confirmation, a healthy
  report, a claim; a killed and a cleared switch) at which the properties are applied.
\<close>

section \<open>Allowed claims go through\<close>

lemma claim_batch_ids:
  "distinct (map ea_event_id (claim_batch nonce intent_id broker cid fp expires t))"
  by (simp add: claim_batch_def)

lemma claim_plan_total:
  assumes "authentic E st" "claim_allowed st broker cid fp expires t"
    and "intent_id \<noteq> []" "broker \<noteq> []" "sha256_text cid = Inr cid" "sha256_text fp = Inr fp"
    and "last_id (rows_of reconciliation_aggregate st) = Some rh" "rh \<noteq> []"
  shows "claim_plan E nonce intent_id broker cid fp (Aware expires) rh (last_id (rows_of kill_switch_aggregate st))
      (last_id (rows_of interlock_aggregate st)) (Aware t) st =
    Inr (claim_batch nonce intent_id broker cid fp expires t, map (\<lambda>a. (a, last_id (rows_of a st)))
      [reconciliation_aggregate, kill_switch_aggregate, interlock_aggregate, confirmation_aggregate cid])"
proof -
  obtain issued where i: "rows_of (confirmation_aggregate cid) st = [issued]" "er_kind issued = ''confirmation.issued''"
      "pget issued ''broker'' = Some (JStr broker)" "pget issued ''fingerprint'' = Some (JStr fp)"
      "pget issued ''expires_at'' = Some (JStr (micro_text expires))" "er_occurred_at issued \<le> t" "t < expires"
    using assms(2) by (auto simp: claim_allowed_def)
  have n: "confirmation_aggregate cid \<noteq> []" "reconciliation_aggregate \<noteq> []" "kill_switch_aggregate \<noteq> []"
      "interlock_aggregate \<noteq> []"
    by (simp_all add: confirmation_aggregate_def reconciliation_aggregate_def kill_switch_aggregate_def
        interlock_aggregate_def)
  have m: "issuance_mismatch issued broker fp (Aware expires) t = Inr False"
    using i by (simp add: issuance_mismatch_def safety_aware_def)
  show ?thesis
    using assms(2-8) i n m authentic_stream [OF assms(1)]
    by (simp add: claim_plan_def exact_text_def safety_aware_def claim_allowed_def Let_def last_id_def)
qed

lemma claim_goes_through:
  assumes "authentic E st" "claim_allowed st broker cid fp expires t"
    and "intent_id \<noteq> []" "broker \<noteq> []" "sha256_text cid = Inr cid" "sha256_text fp = Inr fp"
    and "last_id (rows_of reconciliation_aggregate st) = Some rh" "\<forall>r \<in> set (es_rows st). er_event_id r \<noteq> []"
    and "list_all (fits E) (claim_batch nonce intent_id broker cid fp expires t)"
    and "set (map ea_event_id (claim_batch nonce intent_id broker cid fp expires t)) \<inter>
      er_event_id ` set (es_rows st) = {}"
  shows "\<exists>st'. claim_and_start E nonce intent_id broker cid fp (Aware expires) rh
      (last_id (rows_of kill_switch_aggregate st)) (last_id (rows_of interlock_aggregate st)) (Aware t) st
      = (Inr (), st') \<and> authentic E st'"
proof -
  let ?b = "claim_batch nonce intent_id broker cid fp expires t"
  let ?h = "map (\<lambda>a. (a, last_id (rows_of a st))) [reconciliation_aggregate, kill_switch_aggregate,
      interlock_aggregate, confirmation_aggregate cid]"
  have ok: "log_ok st"
    using assms(1) by (simp add: authentic_def)
  have named: "last_id (rows_of a st) \<noteq> Some []" for a
    using assms(8) last_in_set [of "rows_of a st"] by (auto simp: last_id_def rows_of_def)
  then have "rh \<noteq> []"
    using assms(7) by metis
  note plan = claim_plan_total [OF assms(1-7) this, of nonce]
  have ne: "?b \<noteq> []"
    by (simp add: claim_batch_def)
  note r = record_fits [OF ok ne assms(9) claim_batch_ids assms(10)]
  have "validate_heads ?h = Inr ()"
    using named by (simp add: validate_heads_def max_collection_items_def confirmation_aggregate_def
        reconciliation_aggregate_def kill_switch_aggregate_def interlock_aggregate_def)
  then obtain st' where st': "safety_record_if_heads E ?b ?h st = Inr st'"
    using r(2,3) by (auto simp: is_ok_iff)
  then have "claim_and_start E nonce intent_id broker cid fp (Aware expires) rh
      (last_id (rows_of kill_switch_aggregate st)) (last_id (rows_of interlock_aggregate st)) (Aware t) st = (Inr (), st')"
    using plan unfolding claim_and_start_Inr by blast
  then show ?thesis
    using recorded_authentic [OF assms(1) fits_authentic [OF assms(9)]] st' by blast
qed

text \<open>An allowed claim goes through: on a log that authenticates, when the abstract condition for a
  submission holds, the caller names the true heads, and the four rows are within the size bounds
  and fresh, the claim succeeds and leaves a log that authenticates again.\<close>

lemma allowed_claim_succeeds:
  assumes "authentic E st" "claim_allowed st broker cid fp expires t"
    and "intent_id \<noteq> []" "broker \<noteq> []" "sha256_text cid = Inr cid" "sha256_text fp = Inr fp"
    and "last_id (rows_of reconciliation_aggregate st) = Some rh" "\<forall>r \<in> set (es_rows st). er_event_id r \<noteq> []"
    and "list_all (fits E) (claim_batch nonce intent_id broker cid fp expires t)"
    and "set (map ea_event_id (claim_batch nonce intent_id broker cid fp expires t)) \<inter>
      er_event_id ` set (es_rows st) = {}"
  shows "\<exists>st'. claim_and_start E nonce intent_id broker cid fp (Aware expires) rh
      (last_id (rows_of kill_switch_aggregate st)) (last_id (rows_of interlock_aggregate st)) (Aware t) st
      = (Inr (), st') \<and> authentic E st'"
  by (rule claim_goes_through [OF assms])

section \<open>What a signature commits to\<close>

lemma mac_message_inj:
  assumes "mac_message i k a t p = Inr m" "mac_message i' k' a' t' p' = Inr m"
    and "floatless (JObj p)" "floatless (JObj p')"
  shows "i = i' \<and> k = k' \<and> a = a' \<and> micro_text t = micro_text t' \<and> sort_members (JObj p) = sort_members (JObj p')"
proof -
  let ?o = "\<lambda>i k a t p. [(''aggregate_id'', JStr a), (''event_id'', JStr i), (''kind'', JStr k),
      (''occurred_at'', JStr (micro_text t)), (''payload'', JObj p)]"
  have d: "dumps (JObj (?o i k a t p)) = dumps (JObj (?o i' k' a' t' p'))"
    using assms(1,2) by (auto simp: mac_message_def bounded_message_def split: if_splits)
  have f: "floatless (JObj (?o i k a t p))" "floatless (JObj (?o i' k' a' t' p'))"
    using assms(3,4) by simp_all
  have ok: "dict_ok (?o i k a t p)" "dict_ok (?o i' k' a' t' p')"
    by (simp_all add: dict_ok_def)
  note g = dumps_fields [OF f ok d]
  show ?thesis
    using g [of "''aggregate_id''"] g [of "''event_id''"] g [of "''kind''"] g [of "''occurred_at''"] g [of "''payload''"]
    by (simp del: sort_members.simps(2))
qed

text \<open>The members a signature covers.\<close>

definition signed_members :: "event_record \<Rightarrow> (string \<times> json) list" where
  "signed_members r = (case er_payload r of JObj kvs \<Rightarrow> ddel version_field (ddel mac_field kvs) | _ \<Rightarrow> [])"

text \<open>A signature cannot be moved to another event: when the keyed hash is collision free, two rows
  that verify with the same signature have the same identifier, kind, aggregate and time, and the
  same signed members.\<close>

lemma signature_binds_event:
  assumes "inj (se_sign E)" "verify E r" "verify E r'" "pget r mac_field = pget r' mac_field"
    and "floatless (JObj (signed_members r))" "floatless (JObj (signed_members r'))"
  shows "er_event_id r = er_event_id r' \<and> er_kind r = er_kind r' \<and> er_aggregate_id r = er_aggregate_id r' \<and>
    micro_text (er_occurred_at r) = micro_text (er_occurred_at r') \<and>
    sort_members (JObj (signed_members r)) = sort_members (JObj (signed_members r'))"
proof -
  have v: "\<exists>m. mac_message (er_event_id r) (er_kind r) (er_aggregate_id r) (er_occurred_at r) (signed_members r) = Inr m \<and>
      pget r mac_field = Some (JStr (se_sign E m))" if "verify E r" for r
    using that by (auto simp: verify_def pget_def signed_members_def Let_def
        split: json.splits option.splits sum.splits if_splits)
  obtain m m' where
    "mac_message (er_event_id r) (er_kind r) (er_aggregate_id r) (er_occurred_at r) (signed_members r) = Inr m"
    "mac_message (er_event_id r') (er_kind r') (er_aggregate_id r') (er_occurred_at r') (signed_members r') = Inr m'"
    "se_sign E m = se_sign E m'"
    using v [OF assms(2)] v [OF assms(3)] assms(4) by auto
  moreover from this(3) have "m = m'"
    using assms(1) by (simp add: inj_eq)
  ultimately show ?thesis
    using mac_message_inj assms(5,6) by metis
qed

section \<open>A concrete history\<close>

definition demo_env :: safety_env where
  "demo_env = \<lparr>se_sha = (\<lambda>_. replicate 64 (CHR ''a'')), se_sign = (\<lambda>m. m), se_unicode = demo_unicode\<rparr>"

definition demo_digest :: string where "demo_digest = replicate 64 (CHR ''b'')"

text \<open>A confirmation and a healthy report, both for the broker \<open>paper\<close>.\<close>

definition demo_opening :: "event_append list" where
  "demo_opening = issue_batch demo_digest ''n'' ''paper'' 0 100000000 demo_digest demo_digest @
     report_batch ''r1'' ''k1'' ''paper'' demo_digest demo_digest [] 10000000"

definition demo_claim :: "event_append list" where
  "demo_claim = claim_batch ''c1'' ''i1'' ''paper'' demo_digest demo_digest 100000000 20000000"

text \<open>An unhealthy report, which also activates the kill switch, and a later healthy one.\<close>

definition demo_killing :: "event_append list" where
  "demo_killing = report_batch ''r2'' ''k2'' ''paper'' demo_digest demo_digest [''CASH_MISMATCH''] 0"

definition demo_healing :: "event_append list" where
  "demo_healing = report_batch ''r3'' ''k3'' ''paper'' demo_digest demo_digest [] 10000000"

lemma demo_fits: "list_all (fits demo_env) demo_opening" "list_all (fits demo_env) demo_claim"
    "list_all (fits demo_env) demo_killing" "list_all (fits demo_env) demo_healing"
  by code_simp+

lemmas demo_batches = demo_opening_def demo_claim_def demo_killing_def demo_healing_def batch_defs

definition recorded :: "event_append list \<Rightarrow> event_store \<Rightarrow> event_store" where
  "recorded batch st = projr (safety_record demo_env batch st)"

definition demo_ready :: event_store where "demo_ready = recorded demo_opening empty_store"
definition demo_killed :: event_store where "demo_killed = recorded demo_killing empty_store"
definition demo_healed :: event_store where "demo_healed = recorded demo_healing demo_killed"

lemma recorded_Inr:
  assumes "authentic demo_env st" "batch \<noteq> []" "list_all (fits demo_env) batch" "distinct (map ea_event_id batch)"
    and "set (map ea_event_id batch) \<inter> er_event_id ` set (es_rows st) = {}"
  shows "safety_record demo_env batch st = Inr (recorded batch st)" "authentic demo_env (recorded batch st)"
    and "\<exists>new. es_rows (recorded batch st) = es_rows st @ new \<and> list_all2 (signed_as demo_env) batch new"
proof -
  have ok: "log_ok st"
    using assms(1) by (simp add: authentic_def)
  show r: "safety_record demo_env batch st = Inr (recorded batch st)"
    using record_fits(1,3) [OF ok assms(2-5)] by (auto simp: recorded_def is_ok_iff)
  then show "authentic demo_env (recorded batch st)"
    using recorded_authentic [OF assms(1) fits_authentic [OF assms(3)]] by blast
  show "\<exists>new. es_rows (recorded batch st) = es_rows st @ new \<and> list_all2 (signed_as demo_env) batch new"
    using safety_record_InrD [OF ok r] by blast
qed

lemma empty_rows [simp]: "es_rows empty_store = []" "rows_of a empty_store = []"
  by (simp_all add: empty_store_def rows_of_def)

lemma demo_ready_facts:
  "authentic demo_env demo_ready"
  "\<exists>issued report. es_rows demo_ready = [issued, report] \<and> list_all2 (signed_as demo_env) demo_opening [issued, report]"
proof -
  have d: "distinct (map ea_event_id demo_opening)" "demo_opening \<noteq> []"
    by (simp_all add: demo_batches)
  note r = recorded_Inr [OF authentic_empty d(2) demo_fits(1) d(1)]
  show "authentic demo_env demo_ready"
    unfolding demo_ready_def by (rule r(2)) simp
  show "\<exists>issued report. es_rows demo_ready = [issued, report] \<and>
      list_all2 (signed_as demo_env) demo_opening [issued, report]"
    using r(3) unfolding demo_ready_def by (force simp: demo_batches list_all2_Cons1)
qed

lemma demo_ready_allowed:
  "claim_allowed demo_ready ''paper'' demo_digest demo_digest 100000000 20000000"
  "last_id (rows_of reconciliation_aggregate demo_ready) = Some ''reconciliation-r1''"
  "map er_event_id (es_rows demo_ready) = [''confirmation-issued-'' @ demo_digest, ''reconciliation-r1'']"
  "rows_of kill_switch_aggregate demo_ready = []" "rows_of interlock_aggregate demo_ready = []"
proof -
  obtain i r where e: "es_rows demo_ready = [i, r]" and s: "list_all2 (signed_as demo_env) demo_opening [i, r]"
    using demo_ready_facts(2) by blast
  then have si: "signed_as demo_env (hd (issue_batch demo_digest ''n'' ''paper'' 0 100000000 demo_digest demo_digest)) i"
    and sr: "signed_as demo_env (hd demo_healing\<lparr>ea_event_id := ''reconciliation-r1''\<rparr>) r"
    by (simp_all add: demo_batches)
  have i: "er_event_id i = ''confirmation-issued-'' @ demo_digest" "er_kind i = ''confirmation.issued''"
      "er_aggregate_id i = confirmation_aggregate demo_digest" "er_occurred_at i = 0"
      "pget i ''broker'' = Some (JStr ''paper'')" "pget i ''fingerprint'' = Some (JStr demo_digest)"
      "pget i ''expires_at'' = Some (JStr (micro_text 100000000))"
    using si signed_pget [OF si] by (simp_all add: issue_batch_def signed_as_def flat_defs)
  have r: "er_event_id r = ''reconciliation-r1''" "er_kind r = ''reconciliation.healthy''"
      "er_aggregate_id r = reconciliation_aggregate" "er_occurred_at r = 10000000"
      "pget r ''broker'' = Some (JStr ''paper'')" "pget r ''healthy'' = Some (JBool True)"
      "pget r ''reason_codes'' = Some (JList [])"
    using sr signed_pget [OF sr] by (simp_all add: demo_healing_def report_batch_def signed_as_def flat_defs)
  show k: "rows_of kill_switch_aggregate demo_ready = []" "rows_of interlock_aggregate demo_ready = []"
    by (simp_all add: rows_of_def e i r)
  have rr: "rows_of reconciliation_aggregate demo_ready = [r]" "rows_of (confirmation_aggregate demo_digest) demo_ready = [i]"
    by (simp_all add: rows_of_def e i r)
  show "claim_allowed demo_ready ''paper'' demo_digest demo_digest 100000000 20000000"
    unfolding claim_allowed_def k rr
    by (simp add: i r healthy_report_def kill_active_def interlock_active_def seconds_def)
  show "last_id (rows_of reconciliation_aggregate demo_ready) = Some ''reconciliation-r1''"
    by (simp add: rr last_id_def r)
  show "map er_event_id (es_rows demo_ready) = [''confirmation-issued-'' @ demo_digest, ''reconciliation-r1'']"
    by (simp add: e i r)
qed

lemma demo_digest_ok [simp]: "sha256_text demo_digest = Inr demo_digest"
  by code_simp

lemma demo_claim_fresh:
  "set (map ea_event_id demo_claim) \<inter> er_event_id ` set (es_rows demo_ready) = {}"
  using demo_ready_allowed(3) by (simp add: demo_claim_def claim_batch_def flip: set_map)

lemma demo_claims:
  obtains st' where "claim_and_start demo_env ''c1'' ''i1'' ''paper'' demo_digest demo_digest (Aware 100000000)
    ''reconciliation-r1'' None None (Aware 20000000) demo_ready = (Inr (), st')" "authentic demo_env st'"
proof -
  have "\<forall>r \<in> set (es_rows demo_ready). er_event_id r \<noteq> []"
    using demo_ready_allowed(3) by auto
  from claim_goes_through [OF demo_ready_facts(1) demo_ready_allowed(1) _ _ demo_digest_ok demo_digest_ok
      demo_ready_allowed(2) this demo_fits(2) [unfolded demo_claim_def] demo_claim_fresh [unfolded demo_claim_def]]
  show ?thesis
    using demo_ready_allowed(4,5) that by (auto simp: last_id_def)
qed

lemma demo_ready_ok: "log_ok demo_ready" "log_readable demo_ready"
  using demo_ready_facts(1) by (simp_all add: authentic_def)

lemma grows_refl: "log_ok st \<Longrightarrow> grows st st"
  by (simp add: grows_def)

theorem claim_safe_under_races_witness:
  "\<exists>st2. interlock_active (rows_of interlock_aggregate st2) \<and>
     \<not> is_ok (claim_plan demo_env ''c2'' ''i2'' ''paper'' demo_digest demo_digest (Aware 100000000) ''reconciliation-r1''
       None None (Aware 30000000) st2)"
proof -
  obtain st' where "claim_and_start demo_env ''c1'' ''i1'' ''paper'' demo_digest demo_digest (Aware 100000000)
      ''reconciliation-r1'' None None (Aware 20000000) demo_ready = (Inr (), st')"
    by (rule demo_claims)
  then obtain batch heads where
    p: "claim_plan demo_env ''c1'' ''i1'' ''paper'' demo_digest demo_digest (Aware 100000000)
      ''reconciliation-r1'' None None (Aware 20000000) demo_ready = Inr (batch, heads)"
      "safety_record_if_heads demo_env batch heads demo_ready = Inr st'"
    unfolding claim_and_start_Inr by blast
  from claim_safe_under_races [OF p(1) grows_refl [OF demo_ready_ok(1)] p(2)] show ?thesis
    by blast
qed

theorem confirmation_spent_once_witness:
  "\<exists>st1. \<not> is_ok (fst (claim_and_start demo_env ''c2'' ''i2'' ''paper'' demo_digest demo_digest (Aware 100000000)
     ''reconciliation-r1'' None None (Aware 30000000) st1)) \<and> authentic demo_env st1"
proof -
  obtain st' where c: "claim_and_start demo_env ''c1'' ''i1'' ''paper'' demo_digest demo_digest (Aware 100000000)
      ''reconciliation-r1'' None None (Aware 20000000) demo_ready = (Inr (), st')" "authentic demo_env st'"
    by (rule demo_claims)
  then have "grows st' st'"
    by (simp add: grows_refl authentic_def)
  from confirmation_spent_once [OF demo_ready_ok(1) c(1) this] c(2) show ?thesis
    by blast
qed

lemma demo_row_authenticates:
  "\<exists>st' new. list_all2 (signed_as demo_env) demo_claim new \<and> stream_verified demo_env interlock_aggregate st' =
     Inr (filter (\<lambda>r. er_aggregate_id r = interlock_aggregate) new)"
proof -
  obtain st' where "claim_and_start demo_env ''c1'' ''i1'' ''paper'' demo_digest demo_digest (Aware 100000000)
      ''reconciliation-r1'' None None (Aware 20000000) demo_ready = (Inr (), st')"
    by (rule demo_claims)
  then obtain batch heads where
    p: "claim_plan demo_env ''c1'' ''i1'' ''paper'' demo_digest demo_digest (Aware 100000000)
      ''reconciliation-r1'' None None (Aware 20000000) demo_ready = Inr (batch, heads)"
      "safety_record_if_heads demo_env batch heads demo_ready = Inr st'"
    unfolding claim_and_start_Inr by blast
  have b: "batch = demo_claim"
    using claim_plan_InrD [OF demo_ready_ok(1) p(1)] by (auto simp: demo_claim_def)
  have s: "stream_verified demo_env interlock_aggregate demo_ready = Inr []"
    using authentic_stream [OF demo_ready_facts(1), of interlock_aggregate] demo_ready_allowed(5)
    by (simp add: interlock_aggregate_def)
  from signed_rows_authenticate [OF demo_ready_ok p(2) [unfolded b] fits_authentic [OF demo_fits(2)] s]
  show ?thesis
    by auto
qed

lemma signed_append_aggregate: "ea_aggregate_id (signed_append E a) = ea_aggregate_id a"
  by (auto simp: signed_append_def split: json.splits pydt.splits)

lemma demo_opening_quiet: "\<forall>a \<in> set demo_opening. ea_aggregate_id a \<noteq> interlock_aggregate"
  by (simp add: demo_batches)

lemma demo_opening_ids: "distinct (map ea_event_id demo_opening)" "demo_opening \<noteq> []"
    "set (map ea_event_id demo_opening) \<inter> er_event_id ` set (es_rows empty_store) = {}"
  by (simp_all add: demo_batches)

lemma demo_ready_recorded: "safety_record demo_env demo_opening empty_store = Inr demo_ready"
  unfolding demo_ready_def
  by (rule recorded_Inr(1) [OF authentic_empty demo_opening_ids(2) demo_fits(1) demo_opening_ids(1,3)])

lemma demo_ready_prepared: "append_prepared (map (signed_row demo_env) demo_opening) empty_store = Inr demo_ready"
  using demo_ready_recorded
  unfolding record_fits(1) [OF log_ok_empty demo_opening_ids(2) demo_fits(1) demo_opening_ids(1,3)] .

lemma demo_ready_appended:
  "append_many (redacted_appends (hidden demo_env) (map (signed_append demo_env) demo_opening)) empty_store = Inr demo_ready"
  unfolding append_many_def prepare_signed [OF demo_opening_ids(2) demo_fits(1)] rbind_Inr
  by (rule demo_ready_prepared)

lemma demo_appends_quiet:
  "\<forall>a \<in> set (redacted_appends (hidden demo_env) (map (signed_append demo_env) demo_opening)).
     ea_aggregate_id a \<noteq> interlock_aggregate"
  using demo_opening_quiet by (auto simp: redacted_appends_def signed_append_aggregate)

lemma demo_reach: "safety_reach demo_env demo_ready"
  by (rule safety_reach.step [OF safety_reach.start safety_step.other [OF demo_ready_appended demo_appends_quiet]])

theorem one_submission_open_witness:
  "\<exists>st'. safety_reach demo_env st' \<and> es_rows st' \<noteq> [] \<and> opened st' \<le> resolved st' + 1"
proof -
  obtain st' where c: "claim_and_start demo_env ''c1'' ''i1'' ''paper'' demo_digest demo_digest (Aware 100000000)
      ''reconciliation-r1'' None None (Aware 20000000) demo_ready = (Inr (), st')"
    by (rule demo_claims)
  have r: "safety_reach demo_env st'"
    by (rule safety_reach.step [OF demo_reach safety_step.claim [OF c]])
  obtain batch heads where "claim_plan demo_env ''c1'' ''i1'' ''paper'' demo_digest demo_digest (Aware 100000000)
      ''reconciliation-r1'' None None (Aware 20000000) demo_ready = Inr (batch, heads)"
      "safety_record_if_heads demo_env batch heads demo_ready = Inr st'"
    using c unfolding claim_and_start_Inr by blast
  then have "es_rows st' \<noteq> []"
    using safety_record_if_heads_InrD [OF demo_ready_ok(1)] demo_ready_allowed(3) by fastforce
  then show ?thesis
    using one_submission_open [OF r] r by blast
qed

lemma demo_killed_facts:
  "safety_record demo_env demo_killing empty_store = Inr demo_killed" "authentic demo_env demo_killed"
  "\<exists>r k. es_rows demo_killed = [r, k] \<and> list_all2 (signed_as demo_env) demo_killing [r, k]"
proof -
  have d: "distinct (map ea_event_id demo_killing)" "demo_killing \<noteq> []"
    by (simp_all add: demo_batches)
  have f: "set (map ea_event_id demo_killing) \<inter> er_event_id ` set (es_rows empty_store) = {}"
    by simp
  note r = recorded_Inr [OF authentic_empty d(2) demo_fits(3) d(1) f]
  show "safety_record demo_env demo_killing empty_store = Inr demo_killed" "authentic demo_env demo_killed"
    unfolding demo_killed_def by (fact r)+
  show "\<exists>r k. es_rows demo_killed = [r, k] \<and> list_all2 (signed_as demo_env) demo_killing [r, k]"
    using r(3) unfolding demo_killed_def by (force simp: demo_killing_def report_batch_def list_all2_Cons1)
qed

lemma persist_report_writes:
  assumes "broker \<noteq> []" "sha256_text bh = Inr bh" "sha256_text lh = Inr lh"
    and "distinct reasons" "set reasons \<subseteq> set reconciliation_reasons"
    and "safety_record E (report_batch ru ku broker bh lh reasons t) st = Inr st'"
  shows "\<exists>r. persist_report E ru ku broker bh lh reasons (Aware t) st = (r, st')"
proof -
  have "[] \<notin> set reconciliation_reasons"
    by (simp add: reconciliation_reasons_def)
  then have "[] \<notin> set reasons"
    using assms(5) by blast
  moreover have "then_do (writes (safety_record E (report_batch ru ku broker bh lh reasons t))) f st = f () st'" for f
      :: "unit \<Rightarrow> (event_store, event_record) action"
    using assms(6) by (simp add: then_do_def writes_def)
  ultimately show ?thesis
    using assms(1-5) by (simp add: persist_report_def exact_text_def safety_aware_def Let_def)
      (simp add: then_do_def reads_def check_def split: sum.splits)
qed

theorem kill_blocks_claims_witness:
  "kill_active (rows_of kill_switch_aggregate demo_killed) [] \<and>
   \<not> is_ok (claim_plan demo_env ''c1'' ''i1'' ''paper'' demo_digest demo_digest (Aware 100000000) ''reconciliation-r2''
     (Some ''kill-k2'') None (Aware 1) demo_killed)"
proof -
  obtain r where r: "persist_report demo_env ''r2'' ''k2'' ''paper'' demo_digest demo_digest [''CASH_MISMATCH''] (Aware 0) empty_store
      = (r, demo_killed)"
    using persist_report_writes [OF _ demo_digest_ok demo_digest_ok _ _ demo_killed_facts(1) [unfolded demo_killing_def]]
    by (auto simp: reconciliation_reasons_def)
  have n: "demo_killed \<noteq> empty_store"
    using demo_killed_facts(3) empty_rows(1) by fastforce
  have ok: "log_ok demo_killed"
    using demo_killed_facts(2) by (simp add: authentic_def)
  have e: "es_rows demo_killed = es_rows demo_killed @ []"
    by simp
  have p: "(persist_report demo_env ''r2'' ''k2'' ''paper'' demo_digest demo_digest [''CASH_MISMATCH''] (Aware 0) empty_store
      = (r, demo_killed) \<and> [''CASH_MISMATCH''] \<noteq> []) \<or>
      record_unknown demo_env ''n'' ''i'' ''s'' (Aware 0) empty_store = (undefined, demo_killed)"
    using r by simp
  from kill_blocks_claims [OF log_ok_empty p n ok e] show ?thesis
    by simp
qed

section \<open>Clearing the demonstration log\<close>

lemma demo_healed_facts:
  "authentic demo_env demo_healed"
  "\<exists>r k h. es_rows demo_healed = [r, k, h] \<and> list_all2 (signed_as demo_env) (demo_killing @ demo_healing) [r, k, h]"
proof -
  have d: "distinct (map ea_event_id demo_healing)" "demo_healing \<noteq> []"
    by (simp_all add: demo_batches)
  obtain r k where rk: "es_rows demo_killed = [r, k]" "list_all2 (signed_as demo_env) demo_killing [r, k]"
    using demo_killed_facts(3) by blast
  then have "er_event_id r = ''reconciliation-r2''" "er_event_id k = ''kill-k2''"
    by (simp_all add: demo_killing_def report_batch_def signed_as_def)
  then have f: "set (map ea_event_id demo_healing) \<inter> er_event_id ` set (es_rows demo_killed) = {}"
    by (simp add: rk(1) demo_healing_def report_batch_def)
  note h = recorded_Inr [OF demo_killed_facts(2) d(2) demo_fits(4) d(1) f]
  show "authentic demo_env demo_healed"
    unfolding demo_healed_def by (fact h(2))
  obtain x where "es_rows demo_healed = [r, k, x]" "list_all2 (signed_as demo_env) demo_healing [x]"
    using h(3) rk(1) unfolding demo_healed_def by (force simp: demo_healing_def report_batch_def list_all2_Cons1)
  then show "\<exists>r k h. es_rows demo_healed = [r, k, h] \<and>
      list_all2 (signed_as demo_env) (demo_killing @ demo_healing) [r, k, h]"
    using list_all2_appendI [OF rk(2)] by fastforce
qed

definition demo_clearing :: "event_append list" where
  "demo_clearing = [safety_event ''kill-clear-u1'' ''kill_switch.cleared'' kill_switch_aggregate
     [(''activation_event_id'', JStr ''kill-k2''), (''activation_sequence'', JInt 2)] 20000000]"

lemma demo_clearing_fits: "list_all (fits demo_env) demo_clearing"
  by code_simp

lemma demo_healed_rows:
  obtains r k h where "es_rows demo_healed = [r, k, h]"
    "rows_of kill_switch_aggregate demo_healed = [k]" "rows_of reconciliation_aggregate demo_healed = [r, h]"
    "rows_of interlock_aggregate demo_healed = []"
    "er_kind k = ''kill_switch.activated''" "has_reasons k" "er_event_id k = ''kill-k2''" "er_sequence k = 2"
    "er_kind h = ''reconciliation.healthy''" "healthy_report h" "er_event_id h = ''reconciliation-r3''"
    "er_sequence h = 3" "er_occurred_at h = 10000000" "er_event_id r = ''reconciliation-r2''"
    "er_kind r = ''reconciliation.unhealthy''"
proof -
  obtain r k h where e: "es_rows demo_healed = [r, k, h]"
    and s: "list_all2 (signed_as demo_env) (demo_killing @ demo_healing) [r, k, h]"
    using demo_healed_facts(2) by blast
  have sr: "signed_as demo_env (hd demo_killing) r" and sk: "signed_as demo_env (demo_killing ! 1) k"
    and sh: "signed_as demo_env (hd demo_healing) h"
    using s by (simp_all add: demo_killing_def demo_healing_def report_batch_def)
  have r: "er_event_id r = ''reconciliation-r2''" "er_aggregate_id r = reconciliation_aggregate"
      "er_kind r = ''reconciliation.unhealthy''"
    using sr by (simp_all add: demo_killing_def report_batch_def signed_as_def)
  have k: "er_event_id k = ''kill-k2''" "er_aggregate_id k = kill_switch_aggregate"
      "er_kind k = ''kill_switch.activated''" "pget k ''reason_codes'' = Some (JList [JStr ''CASH_MISMATCH''])"
    using sk signed_pget [OF sk] by (simp_all add: demo_killing_def report_batch_def signed_as_def flat_defs)
  have h: "er_event_id h = ''reconciliation-r3''" "er_aggregate_id h = reconciliation_aggregate"
      "er_kind h = ''reconciliation.healthy''" "er_occurred_at h = 10000000"
      "pget h ''healthy'' = Some (JBool True)" "pget h ''reason_codes'' = Some (JList [])"
    using sh signed_pget [OF sh] by (simp_all add: demo_healing_def report_batch_def signed_as_def flat_defs)
  have "map er_sequence (es_rows demo_healed) = [1 .. 3]"
    using demo_healed_facts(1) e by (simp add: authentic_def log_ok_def)
  then have q: "er_sequence k = 2" "er_sequence h = 3"
    by (simp_all add: e upto_rec1)
  show ?thesis
    using that [of r k h] e r k h q
    by (simp add: rows_of_def has_reasons_def healthy_report_def)
qed

lemma clear_needs_newer_health_demo:
  "\<exists>st'. clear_kill_switch demo_env ''u1'' kill_ack (Aware 20000000) demo_healed = (Inr (), st') \<and>
     \<not> kill_active (rows_of kill_switch_aggregate st') (rows_of reconciliation_aggregate demo_healed)"
proof -
  obtain r k h where e: "es_rows demo_healed = [r, k, h]"
    "rows_of kill_switch_aggregate demo_healed = [k]" "rows_of reconciliation_aggregate demo_healed = [r, h]"
    "rows_of interlock_aggregate demo_healed = []"
    and k: "er_kind k = ''kill_switch.activated''" "has_reasons k" "er_event_id k = ''kill-k2''" "er_sequence k = 2"
    and h: "er_kind h = ''reconciliation.healthy''" "healthy_report h" "er_event_id h = ''reconciliation-r3''"
    "er_sequence h = 3" "er_occurred_at h = 10000000" and r: "er_event_id r = ''reconciliation-r2''"
    "er_kind r = ''reconciliation.unhealthy''"
    by (rule demo_healed_rows)
  have ok: "log_ok demo_healed"
    using demo_healed_facts(1) by (simp add: authentic_def)
  have b: "clear_batch ''u1'' k 20000000 = demo_clearing"
    by (simp add: clear_batch_def demo_clearing_def k)
  have d: "demo_clearing \<noteq> []" "distinct (map ea_event_id demo_clearing)"
      "set (map ea_event_id demo_clearing) \<inter> er_event_id ` set (es_rows demo_healed) = {}"
    by (simp_all add: demo_clearing_def e r k h)
  let ?heads = "[(kill_switch_aggregate, Some ''kill-k2''), (reconciliation_aggregate, Some ''reconciliation-r3''),
      (interlock_aggregate, None)]"
  have v: "validate_heads ?heads = Inr ()" "\<forall>(a, x) \<in> set ?heads. last_id (rows_of a demo_healed) = x"
    by (simp_all add: validate_heads_def max_collection_items_def kill_switch_aggregate_def
        reconciliation_aggregate_def interlock_aggregate_def e [unfolded kill_switch_aggregate_def
        reconciliation_aggregate_def interlock_aggregate_def] last_id_def k h)
  obtain st' where w: "safety_record_if_heads demo_env demo_clearing ?heads demo_healed = Inr st'"
    using record_fits(2) [OF ok d(1) demo_clearing_fits d(2,3) v] record_fits(3) [OF ok d(1) demo_clearing_fits d(2,3)]
    by (auto simp: is_ok_iff)
  have n: "kill_switch_aggregate \<noteq> []" "reconciliation_aggregate \<noteq> []" "interlock_aggregate \<noteq> []"
    by (simp_all add: kill_switch_aggregate_def reconciliation_aggregate_def interlock_aggregate_def)
  have act: "kill_active [k] [r, h]" "kill_scan [r, h] None False [k] = Some (Some k, True)" "\<not> interlock_active []"
    using k by (simp_all add: kill_active_def interlock_active_def)
  have c: "clear_kill_switch demo_env ''u1'' kill_ack (Aware 20000000) demo_healed = (Inr (), st')"
    using act k h w b
    by (simp add: clear_kill_switch_def safety_aware_def Let_def interlock_events_def kill_switch_events_def
        reconciliation_events_def then_do_def [of "reads _"] reads_def authentic_stream [OF demo_healed_facts(1)] n e
        last_id_def writes_def seconds_def)
  have ne: "st' \<noteq> demo_healed"
    using safety_record_if_heads_InrD [OF ok w] by (auto simp: demo_clearing_def list_all2_Cons1)
  show ?thesis
    using clear_needs_newer_health [OF c ok ne] c act(2) h k by (simp add: e)
qed

lemma signed_members_stored:
  assumes "signed_as E a r" "ea_payload a = JObj kvs" "flat_payload kvs"
  shows "signed_members r = sorted_items kvs"
proof -
  obtain m where "er_payload r = JObj (sorted_items (dset mac_field (JStr (se_sign E m))
      (dset version_field (JInt safety_version) kvs)))"
    using assms unfolding signed_as_def by blast
  then show ?thesis
    using strip_signature(1) [OF assms(3)] by (simp add: signed_members_def delete_sorted)
qed

text \<open>The two rows of the killed log have different signatures.\<close>

lemma signature_binds_event_demo:
  "\<exists>r k. es_rows demo_killed = [r, k] \<and> pget r mac_field \<noteq> pget k mac_field"
proof -
  obtain r k where rk: "es_rows demo_killed = [r, k]" "list_all2 (signed_as demo_env) demo_killing [r, k]"
    using demo_killed_facts(3) by blast
  have s: "signed_as demo_env (hd demo_killing) r" "signed_as demo_env (demo_killing ! 1) k"
    using rk(2) by (simp_all add: demo_killing_def report_batch_def)
  have fr: "floatless (JObj (signed_members r))"
    by (subst signed_members_stored [OF s(1)])
       (simp add: demo_killing_def report_batch_def Let_def, simp_all add: flat_defs, (simp add: list_all_iff)?)
  have fk: "floatless (JObj (signed_members k))"
    by (subst signed_members_stored [OF s(2)])
       (simp add: demo_killing_def report_batch_def Let_def, simp_all add: flat_defs, (simp add: list_all_iff)?)
  have v: "verify demo_env r" "verify demo_env k"
    using demo_killed_facts(2) rk(1) by (simp_all add: authentic_def)
  have i: "inj (se_sign demo_env)"
    by (simp add: demo_env_def inj_def)
  have n: "er_event_id r \<noteq> er_event_id k"
    using s by (simp add: demo_killing_def report_batch_def signed_as_def)
  have "pget r mac_field \<noteq> pget k mac_field"
    using signature_binds_event [OF i v _ fr fk] n by blast
  with rk(1) show ?thesis
    by blast
qed

end
