(* ===== verification/ExactText.thy ===== *)
theory ExactText
  imports Timestamps Json
begin

text \<open>
  The texts that identities hash determine what they encode.  Two instants of the calendar with
  the same timestamp text are equal, and so are two Decimals with the same canonical text.  A
  Decimal is given by its value; \<open>exact_decimal\<close> runs the canonical encoder on the shortest
  representation of the value, so a value with more than 4096 decimal places has no text.
\<close>

section \<open>Instants are read back\<close>

lemma div_step_mono: "a \<le> b \<Longrightarrow> 0 < c \<Longrightarrow> a - a div c \<le> b - b div (c::int)"
proof -
  assume a: "a \<le> b" "0 < c"
  have "b \<le> a + c * (b - a)"
    using mult_right_mono [of 1 c "b - a"] a by simp
  then have "b div c \<le> (a + c * (b - a)) div c"
    using a by (intro zdiv_mono1)
  also have "\<dots> = a div c + (b - a)"
    using a by simp
  finally show ?thesis
    by simp
qed

definition year_start :: "int \<Rightarrow> int" where
  "year_start y = 365 * y + y div 4 - y div 100 + y div 400"

lemma year_of_era_mono: "a \<le> b \<Longrightarrow> year_of_era a \<le> year_of_era b"
proof -
  assume a: "a \<le> b"
  have q: "n div 146096 = n div 36524 div 4" for n :: int
    by (simp add: zdiv_zmult2_eq [symmetric])
  have "a div 36524 \<le> b div 36524"
    using a by (intro zdiv_mono1) auto
  then have "a div 36524 - a div 146096 \<le> b div 36524 - b div 146096"
    unfolding q by (rule div_step_mono) simp
  moreover have "a - a div 1460 \<le> b - b div 1460"
    using a by (rule div_step_mono) simp
  ultimately show ?thesis
    unfolding year_of_era_def by (intro zdiv_mono1) simp_all
qed

lemma year_table:
  "list_all (\<lambda>y. year_of_era (year_start y) = y \<and> year_of_era (year_start (y + 1) - 1) = y) [0..399]"
  by code_simp

lemma year_of_era_bounds:
  assumes "0 \<le> doe" "doe < 146097"
  defines "y \<equiv> year_of_era doe"
  shows "0 \<le> y" "y \<le> 399" "year_start y \<le> doe" "doe < year_start (y + 1)"
proof -
  have t: "year_of_era (year_start y) = y" "year_of_era (year_start (y + 1) - 1) = y" if "0 \<le> y" "y \<le> 399" for y
    using year_table that unfolding list_all_iff set_upto by auto
  have "year_of_era 0 = 0" "year_of_era 146096 = 399"
    by code_simp+
  then show y: "0 \<le> y" "y \<le> 399"
    unfolding y_def using year_of_era_mono [of 0 doe] year_of_era_mono [of doe 146096] assms(1,2) by simp_all
  show "year_start y \<le> doe"
  proof (rule ccontr)
    assume n: "\<not> year_start y \<le> doe"
    have "y \<noteq> 0"
      using n assms(1) by (auto simp: year_start_def)
    then have "year_of_era (year_start y - 1) = y - 1"
      using t(2) [of "y - 1"] y by simp
    then show False
      using n year_of_era_mono [of doe "year_start y - 1"] by (simp add: y_def)
  qed
  show "doe < year_start (y + 1)"
  proof (rule ccontr)
    assume n: "\<not> doe < year_start (y + 1)"
    have "y \<noteq> 399"
      using n assms(2) by (auto simp: year_start_def)
    then have "year_of_era (year_start (y + 1)) = y + 1"
      using t(1) [of "y + 1"] y by simp
    then show False
      using n year_of_era_mono [of "year_start (y + 1)" doe] by (simp add: y_def)
  qed
qed

lemma day_of_year_bounds:
  assumes "0 \<le> doe" "doe < 146097"
  shows "0 \<le> day_of_year doe" "day_of_year doe \<le> 365"
proof -
  let ?y = "year_of_era doe"
  note b = year_of_era_bounds [OF assms]
  have y: "?y div 400 = 0"
    using b by simp
  have d: "day_of_year doe = doe - year_start ?y"
    by (simp add: day_of_year_def Let_def year_start_def y)
  have q: "n div 400 = n div 100 div 4" for n :: int
    by (simp add: zdiv_zmult2_eq [symmetric])
  have "?y div 100 - ?y div 400 \<le> (?y + 1) div 100 - (?y + 1) div 400"
    unfolding q by (intro div_step_mono zdiv_mono1) auto
  moreover have "(?y + 1) div 4 \<le> ?y div 4 + 1"
    by simp
  moreover have "p' \<le> p + 1 \<Longrightarrow> r - s \<le> r' - s' \<Longrightarrow> 365 * (n + 1) + p' - r' + s' \<le> 365 * n + p - r + s + 366"
    for p p' r r' s s' n :: int
    by simp
  ultimately have "year_start (?y + 1) \<le> year_start ?y + 366"
    unfolding year_start_def by blast
  then show "0 \<le> day_of_year doe" "day_of_year doe \<le> 365"
    using b d by linarith+
qed

lemma era_split:
  assumes "a + k * 400 = b + l * 400" "0 \<le> a" "a \<le> 399" "0 \<le> b" "b \<le> (399::int)"
  shows "a = b \<and> k = l"
proof -
  have "(a + k * 400) mod 400 = a" "(b + l * 400) mod 400 = b"
    using assms(2-5) by simp_all
  with assms(1) show ?thesis
    by simp
qed

lemma month_index:
  assumes "0 \<le> x" "x \<le> (365::int)"
  shows "0 \<le> (5 * x + 2) div 153 \<and> (5 * x + 2) div 153 \<le> 11"
  using assms zdiv_mono1 [of "5 * x + 2" 1827 153] by simp

lemma civil_date_inj:
  assumes "civil_date d = civil_date e"
  shows "d = e"
proof -
  define a b where "a = day_of_era d" and "b = day_of_era e"
  have ab: "0 \<le> a" "a < 146097" "0 \<le> b" "b < 146097"
    by (simp_all add: a_def b_def day_of_era_def)
  define m n where "m = (5 * day_of_year a + 2) div 153" and "n = (5 * day_of_year b + 2) div 153"
  have r: "0 \<le> m" "m \<le> 11" "0 \<le> n" "n \<le> 11"
    unfolding m_def n_def using month_index day_of_year_bounds [OF ab(1,2)] day_of_year_bounds [OF ab(3,4)] by blast+
  note e = assms [unfolded civil_date_def Let_def, folded a_def b_def, folded m_def n_def]
  have mn: "m = n"
    using e r by (auto split: if_splits)
  have y: "day_of_year a = day_of_year b"
      "year_of_era a + (d + 719468) div 146097 * 400 = year_of_era b + (e + 719468) div 146097 * 400"
    using e unfolding mn by simp_all
  have "year_of_era a = year_of_era b \<and> (d + 719468) div 146097 = (e + 719468) div 146097"
    by (rule era_split [OF y(2) year_of_era_bounds(1,2) [OF ab(1,2)] year_of_era_bounds(1,2) [OF ab(3,4)]])
  then have "a = b" "(d + 719468) div 146097 = (e + 719468) div 146097"
    using y(1) by (simp_all add: day_of_year_def Let_def)
  then have "d + 719468 = e + 719468"
    unfolding a_def b_def day_of_era_def by (metis div_mult_mod_eq)
  then show ?thesis
    by simp
qed

text \<open>A padded number ends at the first character that is not a digit.\<close>

lemma padded_cancel:
  assumes "0 \<le> n" "0 \<le> m" "delimited u" "delimited v" "padded w n @ u = padded w m @ v"
  shows "n = m \<and> u = v"
proof -
  have p: "padded w k = digits_text (replicate (w - length (int_digits k)) 0 @ int_digits k)" if "0 \<le> k" for k
    using that by (simp add: padded_def int_text_def digits_text_append digits_text_zeros Let_def)
  have ok: "digits_ok (replicate (w - length (int_digits k)) 0 @ int_digits k)" if "0 \<le> k" for k
    using that by simp
  have e: "replicate (w - length (int_digits n)) 0 @ int_digits n = replicate (w - length (int_digits m)) 0 @ int_digits m
      \<and> u = v"
    using digits_text_cancel [OF ok [OF assms(1)] ok [OF assms(2)] assms(3,4)] assms(5) p assms(1,2) by simp
  then have "digits_value (replicate (w - length (int_digits n)) 0 @ int_digits n) =
      digits_value (replicate (w - length (int_digits m)) 0 @ int_digits m)"
    by simp
  then show ?thesis
    using e assms(1,2) unfolding digits_value_zeros by (simp only: digits_value_int_digits simp_thms)
qed

text \<open>The instants of the years 1 to 9999.\<close>

definition calendar_instant :: "instant \<Rightarrow> bool" where
  "calendar_instant t \<longleftrightarrow> - 62135596800000000 \<le> t \<and> t < 253402300800000000"

lemma civil_year_nonneg:
  assumes "calendar_instant t" "civil_date (t div 86400000000) = (y, m, d)"
  shows "0 \<le> y \<and> 0 \<le> m \<and> 0 \<le> d"
proof -
  define day where "day = t div 86400000000"
  define doe where "doe = day_of_era day"
  define mp where "mp = (5 * day_of_year doe + 2) div 153"
  have r: "0 \<le> doe" "doe < 146097"
    by (simp_all add: doe_def day_of_era_def)
  have "- 719162 \<le> day"
    using assms(1) zdiv_mono1 [of "- 62135596800000000" t 86400000000] by (simp add: day_def calendar_instant_def)
  then have era: "0 \<le> (day + 719468) div 146097"
    by (intro pos_imp_zdiv_nonneg_iff [THEN iffD2]) simp_all
  have mp: "0 \<le> mp" "mp \<le> 11"
    using month_index day_of_year_bounds [OF r] unfolding mp_def by blast+
  have md: "(153 * mp + 2) div 5 \<le> day_of_year doe"
  proof -
    have "153 * mp \<le> 5 * day_of_year doe + 2"
      unfolding mp_def by (simp add: minus_mod_eq_mult_div [symmetric])
    then have "(153 * mp + 2) div 5 \<le> (5 * day_of_year doe + 4) div 5"
      by (intro zdiv_mono1) simp_all
    then show ?thesis
      by simp
  qed
  show ?thesis
    using assms(2) era mp md year_of_era_bounds(1) [OF r]
    unfolding civil_date_def Let_def day_def [symmetric] doe_def [symmetric] mp_def [symmetric]
    by (auto split: if_splits)
qed

lemma not_digit_marks:
  "\<not> is_digit (CHR ''-'')" "\<not> is_digit (CHR ''T'')" "\<not> is_digit (CHR '':'')" "\<not> is_digit (CHR ''.'')"
  "\<not> is_digit (CHR ''Z'')"
  by (simp_all add: is_digit_def)

lemma padded_mark:
  "padded w n @ c # u = padded w m @ c # v \<Longrightarrow> 0 \<le> n \<Longrightarrow> 0 \<le> m \<Longrightarrow> \<not> is_digit c \<Longrightarrow> n = m \<and> u = v"
  using padded_cancel [of n m "c # u" "c # v" w] by simp

lemma padded_inj: "padded w n = padded w m \<Longrightarrow> 0 \<le> n \<Longrightarrow> 0 \<le> m \<Longrightarrow> n = m"
  using padded_cancel [of n m "[]" "[]" w] by simp

lemma stamp_cancel:
  assumes "padded 4 y @ ''-'' @ padded 2 m @ ''-'' @ padded 2 d @ ''T'' @ padded 2 h @ '':'' @ padded 2 i @ '':'' @
      padded 2 s @ ''.'' @ padded 6 u @ ''Z'' =
    padded 4 y' @ ''-'' @ padded 2 m' @ ''-'' @ padded 2 d' @ ''T'' @ padded 2 h' @ '':'' @ padded 2 i' @ '':'' @
      padded 2 s' @ ''.'' @ padded 6 u' @ ''Z''"
    and "0 \<le> y" "0 \<le> m" "0 \<le> d" "0 \<le> y'" "0 \<le> m'" "0 \<le> d'"
    and "0 \<le> h" "0 \<le> i" "0 \<le> s" "0 \<le> u" "0 \<le> h'" "0 \<le> i'" "0 \<le> s'" "0 \<le> u'"
  shows "(y, m, d) = (y', m', d') \<and> h = h' \<and> i = i' \<and> s = s' \<and> u = u'"
  using assms by (auto simp: not_digit_marks dest!: padded_mark padded_inj)

lemma micro_text_inj:
  assumes "calendar_instant s" "calendar_instant t" "micro_text s = micro_text t"
  shows "s = t"
proof -
  let ?day = "\<lambda>t::int. t div 86400000000" and ?r = "\<lambda>t::int. t mod 86400000000"
  let ?us = "\<lambda>t::int. ?r t mod 1000000" and ?secs = "\<lambda>t::int. ?r t div 1000000"
  obtain y m d where s: "civil_date (?day s) = (y, m, d)"
    using prod_cases3 by blast
  obtain y' m' d' where t: "civil_date (?day t) = (y', m', d')"
    using prod_cases3 by blast
  have sec: "0 \<le> ?secs k" for k
    by (simp add: pos_imp_zdiv_nonneg_iff)
  then have n: "0 \<le> ?secs k div 3600" "0 \<le> ?secs k div 60 mod 60" "0 \<le> ?secs k mod 60" "0 \<le> ?us k" for k
    by (simp_all only: pos_imp_zdiv_nonneg_iff zero_less_numeral pos_mod_sign)
  have pos: "0 \<le> y" "0 \<le> m" "0 \<le> d" "0 \<le> y'" "0 \<le> m'" "0 \<le> d'"
    using civil_year_nonneg [OF assms(1) s] civil_year_nonneg [OF assms(2) t] by simp_all
  note e = stamp_cancel [OF assms(3) [unfolded micro_text_def Let_def s t prod.case] pos n [of s] n [of t]]
  have eq: "(y, m, d) = (y', m', d')" "?secs s div 3600 = ?secs t div 3600"
      "?secs s div 60 mod 60 = ?secs t div 60 mod 60" "?secs s mod 60 = ?secs t mod 60" "?us s = ?us t"
    using e by blast+
  have split: "x = 60 * (60 * (x div 3600) + x div 60 mod 60) + x mod 60" for x :: int
  proof -
    have "x div 3600 = x div 60 div 60"
      by (simp add: zdiv_zmult2_eq [symmetric])
    then have "60 * (x div 3600) + x div 60 mod 60 = x div 60"
      by (metis mult_div_mod_eq)
    then show ?thesis
      by (metis mult_div_mod_eq)
  qed
  have "?secs s = ?secs t"
    using split [of "?secs s"] split [of "?secs t"] eq(2-4) by metis
  then have "?r s = ?r t"
    using eq(5) by (metis div_mult_mod_eq)
  moreover have "?day s = ?day t"
    using eq(1) s t civil_date_inj by metis
  ultimately show ?thesis
    by (metis div_mult_mod_eq)
qed
section \<open>Decimals\<close>

definition shortest_decimal :: "dec \<Rightarrow> int list \<Rightarrow> raw_decimal" where
  "shortest_decimal x fs = (if x = 0 then (False, [0], 0)
     else let (ds, e) = strip_zeros (int_digits \<lfloor>\<bar>x\<bar> * 10 ^ length fs\<rfloor>) (- int (length fs)) in (x < 0, ds, e))"

definition exact_decimal :: "dec \<Rightarrow> string result" where
  "exact_decimal x = (let f = \<bar>x\<bar> - of_int \<lfloor>\<bar>x\<bar>\<rfloor>; fs = frac_digits max_decimal_places f in
     if of_int (digits_value fs) \<noteq> f * 10 ^ length fs
     then Inl (ValueError ''numeric field exceeds bounded encoding'')
     else canonical_decimal (shortest_decimal x fs))"

lemma length_frac_digits: "int (length (frac_digits n x)) \<le> max n 0"
proof (induction n x rule: frac_digits.induct)
  case (1 n x)
  then show ?case
    by (subst frac_digits.simps) (auto simp: Let_def)
qed

lemma strip_zeros_exponent: "strip_zeros ds e = (ds', e') \<Longrightarrow> e \<le> e'"
proof (induction ds e rule: strip_zeros.induct)
  case (1 ds e)
  then show ?case
    by (subst (asm) (2) strip_zeros.simps) (auto split: if_splits)
qed

lemma hd_int_digits: "0 < n \<Longrightarrow> hd (int_digits n) \<noteq> 0"
proof (induction n rule: int_digits.induct)
  case (1 n)
  show ?case
  proof (cases "n < 10")
    case True
    then show ?thesis
      using 1 by (subst int_digits.simps) simp
  next
    case False
    then have "hd (int_digits (n div 10)) \<noteq> 0"
      using 1 by (intro "1.IH") auto
    then show ?thesis
      using False by (subst int_digits.simps) (simp add: hd_append)
  qed
qed

lemma shortest_decimal_value:
  assumes "\<bar>x\<bar> * 10 ^ length fs = of_int n"
  shows "raw_ok (shortest_decimal x fs) \<and> raw_value (shortest_decimal x fs) = x"
proof (cases "x = 0")
  case True
  then show ?thesis
    by (simp add: shortest_decimal_def raw_ok_def raw_value_def digits_value_Cons)
next
  case False
  then have "0 < \<bar>x\<bar> * 10 ^ length fs"
    by simp
  then have n: "0 < n"
    using assms by simp
  obtain ds e where s: "strip_zeros (int_digits n) (- int (length fs)) = (ds, e)"
    by (metis surj_pair)
  have sh: "shortest_decimal x fs = (x < 0, ds, e)"
    using False assms s by (simp add: shortest_decimal_def)
  have d: "digits_ok (int_digits n)" "int_digits n \<noteq> []"
    using n by simp_all
  have ex: "list_ex (\<lambda>d. d \<noteq> 0) (int_digits n)"
  proof (rule ccontr)
    assume "\<not> ?thesis"
    then have "digits_value (int_digits n) = 0"
      by (rule raw_value_zero)
    then show False
      using n by simp
  qed
  note z = strip_zeros_value [OF d(2) ex d(1) s]
  have hd: "hd ds \<noteq> 0"
    using z hd_int_digits [of n] n by simp
  have "of_int (digits_value ds) * pow10 e = of_int n * pow10 (- int (length fs))"
    using z n by simp
  also have "\<dots> = \<bar>x\<bar>"
    using assms by (cases "length fs = 0") (simp_all add: pow10_def field_simps)
  finally have v: "of_int (digits_value ds) * pow10 e = \<bar>x\<bar>" .
  show ?thesis
    using z hd v by (auto simp: sh raw_ok_def raw_value_def)
qed

lemma shortest_decimal_places:
  assumes "int (length fs) \<le> max_decimal_places" "shortest_decimal x fs = (sg, ds, e)"
  shows "- e \<le> max_decimal_places"
  using assms strip_zeros_exponent
  by (auto simp: shortest_decimal_def max_decimal_places_def split: if_splits prod.splits dest!: strip_zeros_exponent)

lemma exact_decimal_Inr:
  assumes "exact_decimal x = Inr t"
  shows "decimal_places_ok x \<and> t = dec_text x"
proof -
  define fs where "fs = frac_digits max_decimal_places (\<bar>x\<bar> - of_int \<lfloor>\<bar>x\<bar>\<rfloor>)"
  have e: "of_int (digits_value fs) = (\<bar>x\<bar> - of_int \<lfloor>\<bar>x\<bar>\<rfloor>) * 10 ^ length fs" and c: "canonical_decimal (shortest_decimal x fs) = Inr t"
    using assms by (simp_all add: exact_decimal_def Let_def fs_def split: if_splits)
  have "\<bar>x\<bar> * 10 ^ length fs = of_int (digits_value fs + \<lfloor>\<bar>x\<bar>\<rfloor> * 10 ^ length fs)"
    by (simp add: e algebra_simps)
  note v = shortest_decimal_value [OF this]
  obtain sg ds k where s: "shortest_decimal x fs = (sg, ds, k)"
    by (metis prod_cases3)
  have "int (length fs) \<le> max_decimal_places"
    using length_frac_digits [of max_decimal_places] by (simp add: fs_def max_decimal_places_def)
  then show ?thesis
    using v canonical_decimal_text [OF _ c] raw_value_places [OF shortest_decimal_places [OF _ s]] s by metis
qed

lemma exact_decimal_inj: "exact_decimal x = Inr t \<Longrightarrow> exact_decimal y = Inr t \<Longrightarrow> x = y"
  using exact_decimal_Inr dec_text_inj by metis

lemma exact_decimal_samples:
  "exact_decimal 0 = Inr ''0''" "exact_decimal (- 123 / 100) = Inr ''-1.23''" "exact_decimal 1500 = Inr ''1500''"
  "exact_decimal (1 / 8) = Inr ''0.125''"
  by code_simp+

end
