(* ===== verification/Approval.thy ===== *)
theory Approval
  imports SafetyLive ExactText
begin

text \<open>
  The approval service of \<open>execution/approval.py\<close>: the fingerprint of one exact order, the
  confirmations it issues through the safety authority, and their verification.  The records
  reject naive datetimes and non-finite Decimals when they are built, and the exact-type tests of
  the code hold by type; a confirmation is a plain dataclass, so its datetimes may be naive.
\<close>

section \<open>Confirmations\<close>

definition confirmation_lifetime :: int where
  "confirmation_lifetime = seconds 300"

definition fingerprint_domain :: string where
  "fingerprint_domain = ''omnimarket-sentinel:live-order-confirmation:v1'' @ [CHR 0x00]"

definition risk_domain :: string where
  "risk_domain = ''omnimarket-sentinel:risk-decision:v1'' @ [CHR 0x00]"

record order_confirmation =
  oc_confirmation_id :: string
  oc_fingerprint :: string
  oc_broker :: string
  oc_created_at :: pydt
  oc_expires_at :: pydt
  oc_nonce :: string
  oc_mac :: string

section \<open>Fields\<close>

definition broker_text :: "string \<Rightarrow> string result" where
  "broker_text v =
     (if matches Domain.is_alnum (\<lambda>c. Domain.is_alnum c \<or> c \<in> set ''_.-'') 63 v then Inr v
      else Inl (ApprovalError ''broker is malformed''))"

definition approval_text :: "string \<Rightarrow> string result" where
  "approval_text v = (if v = [] then Inl (ApprovalError ''text field is malformed'') else Inr v)"

definition decimal_text :: "dec \<Rightarrow> string result" where
  "decimal_text v = (case exact_decimal v of
     Inl _ \<Rightarrow> Inl (ApprovalError ''numeric field is malformed'') | Inr t \<Rightarrow> Inr t)"

fun optional_decimal :: "dec option \<Rightarrow> json result" where
  "optional_decimal None = Inr JNull"
| "optional_decimal (Some v) = rbind (decimal_text v) (\<lambda>t. Inr (JStr t))"

fun positive_optional_decimal :: "dec option \<Rightarrow> dec option result" where
  "positive_optional_decimal None = Inr None"
| "positive_optional_decimal (Some v) =
     (if v \<le> 0 then Inl (ApprovalError ''numeric field is malformed'') else Inr (Some v))"

definition approval_aware :: "pydt \<Rightarrow> instant result" where
  "approval_aware v = aware_utc (ApprovalError ''timestamp is malformed'') v"

definition domain_message :: "string \<Rightarrow> json \<Rightarrow> string" where
  "domain_message tag payload = tag @ dumps payload"

definition domain_hash :: "safety_env \<Rightarrow> string \<Rightarrow> json \<Rightarrow> string" where
  "domain_hash E tag payload = se_sha E (domain_message tag payload)"

definition is_hex :: "char \<Rightarrow> bool" where
  "is_hex c = (c \<in> set ''0123456789abcdef'')"

definition sha256_shape :: "string \<Rightarrow> bool" where
  "sha256_shape v = (int (length v) = 64 \<and> list_all is_hex v)"

definition hex_text :: "int \<Rightarrow> int \<Rightarrow> string \<Rightarrow> bool" where
  "hex_text minimum_bytes maximum_bytes v =
     (minimum_bytes * 2 \<le> int (length v) \<and> int (length v) \<le> maximum_bytes * 2 \<and>
      int (length v) mod 2 = 0 \<and> list_all is_hex v)"

text \<open>\<open>instrument_id.rsplit("@", 1)\<close>: the part after the last mark.\<close>

definition venue_of :: "string \<Rightarrow> string option" where
  "venue_of s = (if CHR ''@'' \<in> set s then Some (rev (takeWhile (\<lambda>c. c \<noteq> CHR ''@'') (rev s))) else None)"

definition resolve_broker :: "order_intent \<Rightarrow> string option \<Rightarrow> string result" where
  "resolve_broker intent broker = (case broker of
     Some b \<Rightarrow> broker_text b
   | None \<Rightarrow> (case venue_of (oi_instrument_id intent) of
       None \<Rightarrow> Inl (ApprovalError ''broker is required'') | Some b \<Rightarrow> broker_text b))"

section \<open>Validation\<close>

definition intent_fields_ok :: "order_intent \<Rightarrow> bool" where
  "intent_fields_ok i =
     (list_all (\<lambda>t. t \<noteq> []) [oi_intent_id i, oi_instrument_id i, oi_time_in_force i, oi_product i, oi_session i,
        oi_snapshot_hash i] \<and>
      list_all (\<lambda>v. is_ok (positive_optional_decimal v)) [oi_quantity i, oi_notional i, oi_limit_price i,
        oi_trigger_price i, oi_stop_loss i, oi_take_profit i])"

text \<open>The time is absent when a fingerprint validates its intent.\<close>

definition validate_intent :: "order_intent \<Rightarrow> instant option \<Rightarrow> unit result" where
  "validate_intent i now = (let malformed = Inl (ApprovalError ''order intent is malformed'') in
     if \<not> intent_fields_ok i then malformed
     else if (oi_quantity i = None) = (oi_notional i = None) \<or> oi_expires_at i \<le> oi_created_at i
       \<or> (oi_limit_price i \<noteq> None, oi_trigger_price i \<noteq> None) \<noteq> expected_price_fields (oi_order_type i)
       \<or> (case now of None \<Rightarrow> False | Some t \<Rightarrow> oi_created_at i > t \<or> oi_expires_at i \<le> t) then malformed
     else if oi_order_type i = STOP_LIMIT \<and> \<not> stop_limit_ok i then malformed
     else if \<not> exits_ordered i then malformed
     else Inr ())"

definition validate_risk :: "order_intent \<Rightarrow> risk_decision \<Rightarrow> instant \<Rightarrow> unit result" where
  "validate_risk i d now = (let err = (\<lambda>m. Inl (ApprovalError m)) in
     if \<not> is_ok (positive_optional_decimal (rd_approved_quantity d))
        \<or> \<not> is_ok (positive_optional_decimal (rd_approved_notional d)) \<or> rd_portfolio_hash d = []
     then err ''risk decision is malformed''
     else if rd_decided_at d > now then err ''risk decision is from the future''
     else if rd_expires_at d \<le> now then err ''risk decision expired''
     else if rd_expires_at d \<le> rd_decided_at d \<or> rd_expires_at d - rd_decided_at d > seconds 60
     then err ''risk decision freshness window is malformed''
     else if \<not> rd_approved d \<or> rd_reason_codes d \<noteq> [] then err ''risk decision is not approved''
     else if rd_approved_quantity d = None \<or> rd_approved_notional d = None then err ''risk decision is not exact''
     else if rd_portfolio_hash d \<noteq> oi_snapshot_hash i then err ''risk snapshot mismatch''
     else if oi_quantity i \<noteq> None \<and> rd_approved_quantity d \<noteq> oi_quantity i then err ''risk quantity mismatch''
     else if oi_notional i \<noteq> None \<and> rd_approved_notional d \<noteq> oi_notional i then err ''risk notional mismatch''
     else Inr ())"

section \<open>Fingerprints\<close>

definition risk_payload :: "risk_decision \<Rightarrow> json result" where
  "risk_payload d =
     rbind (optional_decimal (rd_approved_notional d)) (\<lambda>notional.
     rbind (optional_decimal (rd_approved_quantity d)) (\<lambda>quantity.
     rbind (approval_text (rd_portfolio_hash d)) (\<lambda>_.
     rbind (traverse approval_text (rd_reason_codes d)) (\<lambda>_.
     Inr (JObj [(''approved'', JBool (rd_approved d)), (''approved_notional'', notional),
       (''approved_quantity'', quantity), (''decided_at'', JStr (micro_text (rd_decided_at d))),
       (''expires_at'', JStr (micro_text (rd_expires_at d))), (''portfolio_hash'', JStr (rd_portfolio_hash d)),
       (''reason_codes'', JList (map JStr (rd_reason_codes d)))])))))"

definition risk_decision_hash :: "safety_env \<Rightarrow> risk_decision \<Rightarrow> string result" where
  "risk_decision_hash E d = rbind (risk_payload d) (\<lambda>p. Inr (domain_hash E risk_domain p))"

definition intent_payload :: "order_intent \<Rightarrow> json \<Rightarrow> json \<Rightarrow> json \<Rightarrow> json \<Rightarrow> json \<Rightarrow> json \<Rightarrow> json" where
  "intent_payload i limit notional quantity stop target trigger = JObj [
     (''created_at'', JStr (micro_text (oi_created_at i))), (''expires_at'', JStr (micro_text (oi_expires_at i))),
     (''instrument_id'', JStr (oi_instrument_id i)), (''intent_id'', JStr (oi_intent_id i)),
     (''limit_price'', limit), (''notional'', notional),
     (''order_type'', JStr (order_type_value (oi_order_type i))), (''product'', JStr (oi_product i)),
     (''quantity'', quantity), (''session'', JStr (oi_session i)), (''side'', JStr (side_value (oi_side i))),
     (''snapshot_hash'', JStr (oi_snapshot_hash i)), (''stop_loss'', stop), (''take_profit'', target),
     (''time_in_force'', JStr (oi_time_in_force i)), (''trigger_price'', trigger)]"

text \<open>The text fields of a validated intent are not empty, so encoding them raises nothing more.\<close>

definition fingerprint_payload ::
  "safety_env \<Rightarrow> order_intent \<Rightarrow> risk_decision \<Rightarrow> string \<Rightarrow> instant \<Rightarrow> json result" where
  "fingerprint_payload E i d broker expires_at =
     rbind (validate_intent i None) (\<lambda>_.
     rbind (broker_text broker) (\<lambda>b.
     rbind (optional_decimal (oi_limit_price i)) (\<lambda>limit.
     rbind (optional_decimal (oi_notional i)) (\<lambda>notional.
     rbind (optional_decimal (oi_quantity i)) (\<lambda>quantity.
     rbind (optional_decimal (oi_stop_loss i)) (\<lambda>stop.
     rbind (optional_decimal (oi_take_profit i)) (\<lambda>target.
     rbind (optional_decimal (oi_trigger_price i)) (\<lambda>trigger.
     rbind (risk_decision_hash E d) (\<lambda>risk.
     Inr (JObj [(''broker'', JStr b), (''confirmation_expires_at'', JStr (micro_text expires_at)),
       (''intent'', intent_payload i limit notional quantity stop target trigger),
       (''risk_decision_hash'', JStr risk)]))))))))))"

definition fingerprint :: "safety_env \<Rightarrow> order_intent \<Rightarrow> risk_decision \<Rightarrow> string \<Rightarrow> instant \<Rightarrow> string result" where
  "fingerprint E i d broker expires_at =
     rbind (fingerprint_payload E i d broker expires_at) (\<lambda>p. Inr (domain_hash E fingerprint_domain p))"

section \<open>The service\<close>

text \<open>\<open>now\<close> is the clock reading; the nonces are drawn by the safety authority.\<close>

definition create_confirmation ::
  "safety_env \<Rightarrow> string option \<Rightarrow> string option \<Rightarrow> pydt \<Rightarrow> order_intent \<Rightarrow> risk_decision \<Rightarrow> string \<Rightarrow>
   string option \<Rightarrow> int \<Rightarrow> (event_store, order_confirmation) action" where
  "create_confirmation E seed_source nonce_source now i d phrase broker lifetime =
     then_do (stop_if (phrase \<noteq> confirmation_phrase) (ApprovalError ''confirmation phrase is not exact'')) (\<lambda>_.
     then_do (check (approval_aware now)) (\<lambda>t.
     then_do (check (resolve_broker i broker)) (\<lambda>b.
     then_do (stop_if (\<not> (0 < lifetime \<and> lifetime \<le> confirmation_lifetime))
        (ApprovalError ''confirmation lifetime is malformed'')) (\<lambda>_.
     then_do (check (validate_intent i (Some t))) (\<lambda>_.
     then_do (check (validate_risk i d t)) (\<lambda>_.
     let expires = t + lifetime in
     then_do (check (fingerprint E i d b expires)) (\<lambda>fp.
     then_do (rescue
        (then_do (check (risk_decision_hash E d)) (\<lambda>risk.
           issue_confirmation E seed_source nonce_source phrase b (Aware t) (Aware expires) fp risk))
        (\<lambda>_. Some (raises (ApprovalError ''confirmation persistence failed'')))) (\<lambda>(cid, nonce, mac).
     give \<lparr>oc_confirmation_id = cid, oc_fingerprint = fp, oc_broker = b, oc_created_at = Aware t,
       oc_expires_at = Aware expires, oc_nonce = nonce, oc_mac = mac\<rparr>))))))))"

text \<open>What the stored issuance and the presented confirmation must say.\<close>

definition confirmation_matches ::
  "order_confirmation \<Rightarrow> event_record \<Rightarrow> string \<Rightarrow> instant \<Rightarrow> instant \<Rightarrow> string \<Rightarrow> string \<Rightarrow> bool" where
  "confirmation_matches c issued b created expires expected risk =
     (oc_broker c = b \<and> sha256_shape (oc_confirmation_id c) \<and> sha256_shape (oc_fingerprint c) \<and>
      hex_text 16 64 (oc_nonce c) \<and> sha256_shape (oc_mac c) \<and> oc_fingerprint c = expected \<and>
      er_kind issued = ''confirmation.issued'' \<and>
      er_event_id issued = ''confirmation-issued-'' @ oc_confirmation_id c \<and> er_occurred_at issued = created \<and>
      pget issued ''broker'' = Some (JStr b) \<and> pget issued ''created_at'' = Some (JStr (micro_text created)) \<and>
      pget issued ''expires_at'' = Some (JStr (micro_text expires)) \<and>
      pget issued ''fingerprint'' = Some (JStr (oc_fingerprint c)) \<and>
      pget issued ''nonce'' = Some (JStr (oc_nonce c)) \<and>
      pget issued ''risk_decision_hash'' = Some (JStr risk) \<and> pget issued mac_field = Some (JStr (oc_mac c)))"

definition confirmation_times :: "pydt \<Rightarrow> order_confirmation \<Rightarrow> (instant \<times> instant \<times> instant) result" where
  "confirmation_times now c = (case (now, oc_created_at c, oc_expires_at c) of
     (Aware t, Aware created, Aware expires) \<Rightarrow> Inr (t, created, expires)
   | _ \<Rightarrow> Inl (ApprovalError ''confirmation is malformed''))"

text \<open>
  Only the authentication failure of the stored rows is turned into an empty stream; the
  \<open>ValueError\<close> of a malformed identifier passes through.
\<close>

definition issued_rows :: "safety_env \<Rightarrow> string \<Rightarrow> event_store \<Rightarrow> event_record list result" where
  "issued_rows E cid st = (case confirmation_events E cid st of
     Inl (SafetyIntegrityError _) \<Rightarrow> Inr [] | r \<Rightarrow> r)"

definition verify_confirmation ::
  "safety_env \<Rightarrow> pydt \<Rightarrow> order_intent \<Rightarrow> risk_decision \<Rightarrow> order_confirmation \<Rightarrow> string option \<Rightarrow> event_store \<Rightarrow>
   unit result" where
  "verify_confirmation E now i d c broker st =
     rbind (confirmation_times now c) (\<lambda>(t, created, expires).
     if created > t then Inl (ApprovalError ''confirmation is from the future'')
     else if expires \<le> t then Inl (ApprovalError ''confirmation expired'')
     else if expires \<le> created \<or> expires - created > confirmation_lifetime
     then Inl (ApprovalError ''confirmation is malformed'')
     else case rbind (resolve_broker i broker) (\<lambda>b. rbind (validate_intent i (Some t)) (\<lambda>_.
         rbind (fingerprint E i d b expires) (\<lambda>fp. Inr (b, fp)))) of
       Inl _ \<Rightarrow> Inl (ApprovalError ''confirmation input is malformed'')
     | Inr (b, expected) \<Rightarrow>
         rbind (issued_rows E (oc_confirmation_id c) st) (\<lambda>rows.
         if rows = [] then Inl (ApprovalError ''confirmation issuance is not authenticated'')
         else rbind (risk_decision_hash E d) (\<lambda>risk.
         if \<not> confirmation_matches c (hd rows) b created expires expected risk
         then Inl (ApprovalError ''confirmation fingerprint mismatch'')
         else validate_risk i d t)))"

section \<open>A fingerprint determines its order\<close>

lemma decimal_text_inj: "decimal_text x = Inr t \<Longrightarrow> decimal_text y = Inr t \<Longrightarrow> x = y"
  by (auto simp: decimal_text_def split: sum.splits dest: exact_decimal_inj)

lemma optional_decimal_inj: "optional_decimal v = Inr j \<Longrightarrow> optional_decimal w = Inr j \<Longrightarrow> v = w"
  by (cases v; cases w) (auto simp: result_simps dest: decimal_text_inj)

lemma optional_decimal_text: "optional_decimal v = Inr j \<Longrightarrow> floatless j \<and> sort_members j = j"
  by (cases v) (auto simp: result_simps)

definition dated :: "order_intent \<Rightarrow> risk_decision \<Rightarrow> bool" where
  "dated i d \<longleftrightarrow> list_all calendar_instant [oi_created_at i, oi_expires_at i, rd_decided_at d, rd_expires_at d]"

lemma objects_agree:
  assumes "sort_members (JObj kvs) = sort_members (JObj kws)" "floatless (JObj kvs)" "floatless (JObj kws)"
    and "dict_ok kvs" "dict_ok kws"
  shows "map_option sort_members (dget kvs k) = map_option sort_members (dget kws k)"
  using dumps_fields [OF assms(2-5)] assms(1) by (simp add: dumps_def)

lemma order_type_value_inj: "order_type_value a = order_type_value b \<longleftrightarrow> a = b"
  by (cases a; cases b) simp_all

lemma side_value_inj: "side_value a = side_value b \<longleftrightarrow> a = b"
  by (cases a; cases b) simp_all

lemma dumps_payload_fields:
  assumes "dumps a = dumps b" "a = JObj kvs" "b = JObj kws" "floatless a" "floatless b" "dict_ok kvs" "dict_ok kws"
  shows "map_option sort_members (dget kvs k) = map_option sort_members (dget kws k)"
  using assms dumps_fields by blast

lemma risk_payload_inj:
  assumes "risk_payload d = Inr p" "risk_payload d' = Inr p'" "dumps p = dumps p'"
    and "list_all calendar_instant [rd_decided_at d, rd_expires_at d]"
    and "list_all calendar_instant [rd_decided_at d', rd_expires_at d']"
  shows "d = d'"
proof -
  obtain n q where d: "optional_decimal (rd_approved_notional d) = Inr n" "optional_decimal (rd_approved_quantity d) = Inr q"
      and p: "p = JObj [(''approved'', JBool (rd_approved d)), (''approved_notional'', n), (''approved_quantity'', q),
        (''decided_at'', JStr (micro_text (rd_decided_at d))), (''expires_at'', JStr (micro_text (rd_expires_at d))),
        (''portfolio_hash'', JStr (rd_portfolio_hash d)), (''reason_codes'', JList (map JStr (rd_reason_codes d)))]"
    using assms(1) by (auto simp: risk_payload_def result_simps)
  obtain n' q' where d': "optional_decimal (rd_approved_notional d') = Inr n'" "optional_decimal (rd_approved_quantity d') = Inr q'"
      and p': "p' = JObj [(''approved'', JBool (rd_approved d')), (''approved_notional'', n'), (''approved_quantity'', q'),
        (''decided_at'', JStr (micro_text (rd_decided_at d'))), (''expires_at'', JStr (micro_text (rd_expires_at d'))),
        (''portfolio_hash'', JStr (rd_portfolio_hash d')), (''reason_codes'', JList (map JStr (rd_reason_codes d')))]"
    using assms(2) by (auto simp: risk_payload_def result_simps)
  note j = d(1,2) [THEN optional_decimal_text] d'(1,2) [THEN optional_decimal_text]
  have fl: "floatless p" "floatless p'"
    using j by (simp_all add: p p' list_all_iff)
  note f = dumps_payload_fields [OF assms(3) p p' fl, unfolded dict_ok_def, simplified]
  have "rd_approved d = rd_approved d'" "micro_text (rd_decided_at d) = micro_text (rd_decided_at d')"
    "micro_text (rd_expires_at d) = micro_text (rd_expires_at d')" "rd_portfolio_hash d = rd_portfolio_hash d'"
    "map JStr (rd_reason_codes d) = map JStr (rd_reason_codes d')" "n = n'" "q = q'"
    using f [of "''approved''"] f [of "''decided_at''"] f [of "''expires_at''"] f [of "''portfolio_hash''"]
      f [of "''reason_codes''"] f [of "''approved_notional''"] f [of "''approved_quantity''"] j
    by (simp_all add: comp_def)
  moreover from this(5) have "rd_reason_codes d = rd_reason_codes d'"
    by (rule map_injective) (simp add: inj_def)
  ultimately show ?thesis
    using d d' assms(4,5) optional_decimal_inj micro_text_inj by (intro risk_decision.equality) auto
qed

lemma fingerprint_payload_InrD:
  assumes "fingerprint_payload E i d b e = Inr p"
  shows "\<exists>l n q s t r risk. optional_decimal (oi_limit_price i) = Inr l \<and> optional_decimal (oi_notional i) = Inr n \<and>
    optional_decimal (oi_quantity i) = Inr q \<and> optional_decimal (oi_stop_loss i) = Inr s \<and>
    optional_decimal (oi_take_profit i) = Inr t \<and> optional_decimal (oi_trigger_price i) = Inr r \<and>
    risk_decision_hash E d = Inr risk \<and>
    p = JObj [(''broker'', JStr b), (''confirmation_expires_at'', JStr (micro_text e)),
      (''intent'', intent_payload i l n q s t r), (''risk_decision_hash'', JStr risk)]"
  using assms by (auto simp: fingerprint_payload_def broker_text_def result_simps split: if_splits)

lemma intent_payload_inj:
  assumes "sort_members (intent_payload i l n q s t r) = sort_members (intent_payload i' l' n' q' s' t' r')"
    and "list_all (\<lambda>(v, j). optional_decimal v = Inr j) [(oi_limit_price i, l), (oi_notional i, n), (oi_quantity i, q),
      (oi_stop_loss i, s), (oi_take_profit i, t), (oi_trigger_price i, r)]"
    and "list_all (\<lambda>(v, j). optional_decimal v = Inr j) [(oi_limit_price i', l'), (oi_notional i', n'), (oi_quantity i', q'),
      (oi_stop_loss i', s'), (oi_take_profit i', t'), (oi_trigger_price i', r')]"
    and "list_all calendar_instant [oi_created_at i, oi_expires_at i, oi_created_at i', oi_expires_at i']"
  shows "i = i'"
proof -
  have j: "list_all (\<lambda>j. floatless j \<and> sort_members j = j) [l, n, q, s, t, r, l', n', q', s', t', r']"
    using assms(2,3) by (auto dest: optional_decimal_text)
  have f: "map_option sort_members (dget kvs k) = map_option sort_members (dget kws k)"
    if "intent_payload i l n q s t r = JObj kvs" "intent_payload i' l' n' q' s' t' r' = JObj kws" for kvs kws k
    using that j assms(1) by (intro objects_agree) (auto simp: intent_payload_def dict_ok_def)
  note f = f [unfolded intent_payload_def, OF refl refl]
  have texts: "micro_text (oi_created_at i) = micro_text (oi_created_at i')"
    "micro_text (oi_expires_at i) = micro_text (oi_expires_at i')"
    "oi_instrument_id i = oi_instrument_id i'" "oi_intent_id i = oi_intent_id i'" "oi_order_type i = oi_order_type i'"
    "oi_product i = oi_product i'" "oi_session i = oi_session i'" "oi_side i = oi_side i'"
    "oi_snapshot_hash i = oi_snapshot_hash i'" "oi_time_in_force i = oi_time_in_force i'"
    using f [of "''created_at''"] f [of "''expires_at''"] f [of "''instrument_id''"] f [of "''intent_id''"]
      f [of "''order_type''"] f [of "''product''"] f [of "''session''"] f [of "''side''"] f [of "''snapshot_hash''"]
      f [of "''time_in_force''"] by (simp_all add: order_type_value_inj side_value_inj)
  have "l = l'" "n = n'" "q = q'" "s = s'" "t = t'" "r = r'"
    using f [of "''limit_price''"] f [of "''notional''"] f [of "''quantity''"] f [of "''stop_loss''"]
      f [of "''take_profit''"] f [of "''trigger_price''"] j by auto
  moreover have "optional_decimal (oi_limit_price i) = Inr l" "optional_decimal (oi_limit_price i') = Inr l'"
    "optional_decimal (oi_notional i) = Inr n" "optional_decimal (oi_notional i') = Inr n'"
    "optional_decimal (oi_quantity i) = Inr q" "optional_decimal (oi_quantity i') = Inr q'"
    "optional_decimal (oi_stop_loss i) = Inr s" "optional_decimal (oi_stop_loss i') = Inr s'"
    "optional_decimal (oi_take_profit i) = Inr t" "optional_decimal (oi_take_profit i') = Inr t'"
    "optional_decimal (oi_trigger_price i) = Inr r" "optional_decimal (oi_trigger_price i') = Inr r'"
    using assms(2,3) by simp_all
  ultimately have "oi_limit_price i = oi_limit_price i'" "oi_notional i = oi_notional i'" "oi_quantity i = oi_quantity i'"
    "oi_stop_loss i = oi_stop_loss i'" "oi_take_profit i = oi_take_profit i'" "oi_trigger_price i = oi_trigger_price i'"
    by (metis optional_decimal_inj)+
  then show ?thesis
    using texts assms(4) micro_text_inj by (intro order_intent.equality) auto
qed

text \<open>The messages hashed for one order.\<close>

definition hashed :: "safety_env \<Rightarrow> order_intent \<Rightarrow> risk_decision \<Rightarrow> string \<Rightarrow> instant \<Rightarrow> string set" where
  "hashed E i d b e = {m. (\<exists>p. risk_payload d = Inr p \<and> m = domain_message risk_domain p) \<or>
     (\<exists>p. fingerprint_payload E i d b e = Inr p \<and> m = domain_message fingerprint_domain p)}"

lemma fingerprint_inj:
  assumes "fingerprint E i d b e = Inr fp" "fingerprint E i' d' b' e' = Inr fp"
    and "inj_on (se_sha E) (hashed E i d b e \<union> hashed E i' d' b' e')"
    and "dated i d" "dated i' d'" "calendar_instant e" "calendar_instant e'"
  shows "i = i' \<and> d = d' \<and> b = b' \<and> e = e'"
proof -
  obtain p p' where p: "fingerprint_payload E i d b e = Inr p" "fingerprint_payload E i' d' b' e' = Inr p'"
      "domain_hash E fingerprint_domain p = domain_hash E fingerprint_domain p'"
    using assms(1,2) by (auto simp: fingerprint_def result_simps)
  have "domain_message fingerprint_domain p = domain_message fingerprint_domain p'"
    by (rule inj_onD [OF assms(3)]) (use p in \<open>auto simp: hashed_def domain_hash_def\<close>)
  then have same: "dumps p = dumps p'"
    by (simp add: domain_message_def)
  obtain l n q s t r risk where o: "optional_decimal (oi_limit_price i) = Inr l" "optional_decimal (oi_notional i) = Inr n"
    "optional_decimal (oi_quantity i) = Inr q" "optional_decimal (oi_stop_loss i) = Inr s"
    "optional_decimal (oi_take_profit i) = Inr t" "optional_decimal (oi_trigger_price i) = Inr r"
    "risk_decision_hash E d = Inr risk"
    and pp: "p = JObj [(''broker'', JStr b), (''confirmation_expires_at'', JStr (micro_text e)),
      (''intent'', intent_payload i l n q s t r), (''risk_decision_hash'', JStr risk)]"
    using fingerprint_payload_InrD [OF p(1)] by blast
  obtain l' n' q' s' t' r' risk' where o': "optional_decimal (oi_limit_price i') = Inr l'" "optional_decimal (oi_notional i') = Inr n'"
    "optional_decimal (oi_quantity i') = Inr q'" "optional_decimal (oi_stop_loss i') = Inr s'"
    "optional_decimal (oi_take_profit i') = Inr t'" "optional_decimal (oi_trigger_price i') = Inr r'"
    "risk_decision_hash E d' = Inr risk'"
    and pp': "p' = JObj [(''broker'', JStr b'), (''confirmation_expires_at'', JStr (micro_text e')),
      (''intent'', intent_payload i' l' n' q' s' t' r'), (''risk_decision_hash'', JStr risk')]"
    using fingerprint_payload_InrD [OF p(2)] by blast
  note j = o(1-6) [THEN optional_decimal_text] o'(1-6) [THEN optional_decimal_text]
  have fl: "floatless p" "floatless p'"
    using j by (simp_all add: pp pp' intent_payload_def)
  note g = dumps_payload_fields [OF same pp pp' fl, unfolded dict_ok_def, simplified]
  have m: "b = b'" "micro_text e = micro_text e'" "risk = risk'"
    "sort_members (intent_payload i l n q s t r) = sort_members (intent_payload i' l' n' q' s' t' r')"
    using g [of "''broker''"] g [of "''confirmation_expires_at''"] g [of "''risk_decision_hash''"] g [of "''intent''"]
    by simp_all
  obtain u u' where u: "risk_payload d = Inr u" "risk_payload d' = Inr u'" "domain_hash E risk_domain u = domain_hash E risk_domain u'"
    using o(7) o'(7) m(3) by (auto simp: risk_decision_hash_def result_simps)
  have "domain_message risk_domain u = domain_message risk_domain u'"
    by (rule inj_onD [OF assms(3)]) (use u in \<open>auto simp: hashed_def domain_hash_def\<close>)
  then have "dumps u = dumps u'"
    by (simp add: domain_message_def)
  then have "d = d'"
    using risk_payload_inj [OF u(1,2)] assms(4,5) by (simp add: dated_def)
  moreover have "i = i'"
    using assms(4,5) o o' by (intro intent_payload_inj [OF m(4)]) (simp_all add: dated_def)
  ultimately show ?thesis
    using m micro_text_inj assms(6,7) by blast
qed

section \<open>What a verified confirmation says\<close>

lemma verify_confirmation_InrD:
  assumes "verify_confirmation E now i d c broker st = Inr u"
  shows "\<exists>t created expires b risk rows. now = Aware t \<and> oc_created_at c = Aware created \<and> oc_expires_at c = Aware expires \<and>
    created \<le> t \<and> t < expires \<and> created < expires \<and> expires \<le> created + confirmation_lifetime \<and>
    resolve_broker i broker = Inr b \<and> validate_intent i (Some t) = Inr () \<and>
    fingerprint E i d b expires = Inr (oc_fingerprint c) \<and> risk_decision_hash E d = Inr risk \<and>
    confirmation_events E (oc_confirmation_id c) st = Inr rows \<and> rows \<noteq> [] \<and>
    confirmation_matches c (hd rows) b created expires (oc_fingerprint c) risk \<and> validate_risk i d t = Inr ()"
proof -
  have fp: "confirmation_matches c r b created expires expected risk \<Longrightarrow> oc_fingerprint c = expected"
    for r b created expires expected risk
    by (simp add: confirmation_matches_def)
  have ir: "issued_rows E cid st = Inr rows \<Longrightarrow> rows \<noteq> [] \<Longrightarrow> confirmation_events E cid st = Inr rows" for cid rows
    by (auto simp: issued_rows_def split: sum.splits exn.splits)
  show ?thesis
    using assms unfolding verify_confirmation_def confirmation_times_def
    by (auto simp: result_simps split: pydt.splits if_splits sum.splits dest!: ir) (metis fp)+
qed

section \<open>Created confirmations\<close>

lemma sha256_shape_text: "sha256_text v = Inr w \<longleftrightarrow> w = v \<and> sha256_shape v"
proof -
  have "int (length v) = 64 \<longleftrightarrow> length v = 64"
    by linarith
  then show ?thesis
    by (auto simp: sha256_text_def exact_text_def sha256_shape_def is_hex_def list_all_iff result_simps split: if_splits)
qed

lemma hex_digit_hex: "d < 16 \<Longrightarrow> is_hex (hex_digit_char d)"
proof -
  have "list_all (\<lambda>d. is_hex (hex_digit_char d)) [0..<16]"
    by code_simp
  then show "d < 16 \<Longrightarrow> is_hex (hex_digit_char d)"
    unfolding list_all_iff set_upt by auto
qed

lemma nonce_shape:
  assumes "new_nonce source = Inr n"
  shows "hex_text 16 64 n"
proof -
  obtain v where v: "16 \<le> int (length v)" "int (length v) \<le> 64" "n = bytes_hex v"
    using assms by (auto simp: new_nonce_def split: option.splits if_splits)
  have l: "length (bytes_hex v) = 2 * length v"
    by (induction v) (simp_all add: bytes_hex_def)
  have c: "(of_char c :: nat) div 16 < 16" for c :: char
    by (rule less_mult_imp_div_less) (use nat_of_char_less_256 [of c] in simp)
  have "list_all is_hex (bytes_hex v)"
    using c hex_digit_hex by (induction v) (simp_all add: bytes_hex_def)
  then show ?thesis
    using v l by (simp add: hex_text_def)
qed

lemma mac_case:
  "(case p of Some (JStr mac) \<Rightarrow> Inr (a, b, mac) | _ \<Rightarrow> Inl e) = Inr (c, d, mac') \<longleftrightarrow>
     p = Some (JStr mac') \<and> a = c \<and> b = d"
  by (auto split: option.splits json.splits)

lemma issue_confirmation_InrD:
  assumes "issue_confirmation E seed source phrase b (Aware created) (Aware expires) fp risk st = (Inr (cid, nonce, mac), st')"
    and "log_ok st"
  shows "\<exists>r. cid = confirmation_id E seed \<and> hex_text 16 64 nonce \<and> sha256_shape fp \<and>
    signed_as E (hd (issue_batch cid nonce b created expires fp risk)) r \<and>
    es_rows st' = es_rows st @ [r] \<and> rows_of (confirmation_aggregate cid) st' = [r] \<and>
    pget r mac_field = Some (JStr mac) \<and> log_ok st'"
proof -
  obtain rows where i: "cid = confirmation_id E seed" "new_nonce source = Inr nonce" "sha256_shape fp"
    and w: "safety_record_if_heads E (issue_batch cid nonce b created expires fp risk) [(confirmation_aggregate cid, None)] st = Inr st'"
    and s: "stream_verified E (confirmation_aggregate cid) st' = Inr rows" "length rows = 1"
      "pget (hd rows) mac_field = Some (JStr mac)"
    using assms(1) unfolding issue_confirmation_def Let_def
    by (auto simp: action_simps safety_aware_def mac_case sha256_shape_text)
  obtain r where r: "log_ok st'" "es_rows st' = es_rows st @ [r]" "signed_as E (hd (issue_batch cid nonce b created expires fp risk)) r"
    using safety_record_if_heads_InrD [OF assms(2) w] by (auto simp: issue_batch_def list_all2_Cons1)
  have a: "er_aggregate_id r = confirmation_aggregate cid"
    using r(3) by (simp add: issue_batch_def signed_as_def)
  have rows: "rows = rows_of (confirmation_aggregate cid) st'"
    using stream_verified_InrD [OF r(1) s(1)] by simp
  then have "rows = [r]"
    using s(2) a rows_of_append [OF r(2)] by (cases "rows_of (confirmation_aggregate cid) st") simp_all
  then show ?thesis
    using i r s nonce_shape rows by (auto simp: sha256_shape_text)
qed

lemma signed_stores_mac:
  assumes "signed_as E a r" "ea_payload a = JObj kvs" "flat_payload kvs"
  shows "\<exists>m. pget r mac_field = Some (JStr (se_sign E m))"
proof -
  obtain m where m: "er_payload r = JObj (sorted_items (dset mac_field (JStr (se_sign E m))
      (dset version_field (JInt safety_version) kvs)))"
    using assms(1-3) unfolding signed_as_def by blast
  have "dict_ok (dset mac_field (JStr (se_sign E m)) (dset version_field (JInt safety_version) kvs))"
    using assms(3) by (simp add: flat_payload_def)
  then show ?thesis
    using m by (auto simp: pget_def)
qed

lemma create_confirmation_InrD:
  assumes "create_confirmation E seed source (Aware t) i d phrase broker lifetime st = (Inr c, st')"
  shows "\<exists>b fp risk cid nonce mac. phrase = confirmation_phrase \<and> resolve_broker i broker = Inr b \<and>
    0 < lifetime \<and> lifetime \<le> confirmation_lifetime \<and> validate_intent i (Some t) = Inr () \<and>
    validate_risk i d t = Inr () \<and> fingerprint E i d b (t + lifetime) = Inr fp \<and> risk_decision_hash E d = Inr risk \<and>
    issue_confirmation E seed source phrase b (Aware t) (Aware (t + lifetime)) fp risk st = (Inr (cid, nonce, mac), st') \<and>
    c = \<lparr>oc_confirmation_id = cid, oc_fingerprint = fp, oc_broker = b, oc_created_at = Aware t,
       oc_expires_at = Aware (t + lifetime), oc_nonce = nonce, oc_mac = mac\<rparr>"
  using assms unfolding create_confirmation_def Let_def
  by (auto simp: action_simps approval_aware_def)

lemma validate_intent_later:
  "validate_intent i (Some t) = Inr () \<Longrightarrow> t \<le> t' \<Longrightarrow> t' < oi_expires_at i \<Longrightarrow> validate_intent i (Some t') = Inr ()"
  by (auto simp: validate_intent_def Let_def split: if_splits)

lemma validate_risk_later:
  "validate_risk i d t = Inr () \<Longrightarrow> t \<le> t' \<Longrightarrow> t' < rd_expires_at d \<Longrightarrow> validate_risk i d t' = Inr ()"
  by (cases "oi_quantity i"; cases "oi_notional i") (auto simp: validate_risk_def Let_def split: if_splits)

lemma created_verifies:
  assumes "create_confirmation E seed source (Aware t) i d phrase broker lifetime st = (Inr c, st')" "log_ok st"
    and "\<And>m. sha256_shape (se_sha E m)" "\<And>m. sha256_shape (se_sign E m)"
    and "authentic E st''" "es_rows st'' = es_rows st' @ later"
    and "t \<le> t'" "t' < t + lifetime" "t' < oi_expires_at i" "t' < rd_expires_at d"
  shows "verify_confirmation E (Aware t') i d c broker st'' = Inr ()"
proof -
  obtain b fp risk cid nonce mac where c: "resolve_broker i broker = Inr b" "0 < lifetime" "lifetime \<le> confirmation_lifetime"
      "validate_intent i (Some t) = Inr ()" "validate_risk i d t = Inr ()" "fingerprint E i d b (t + lifetime) = Inr fp"
      "risk_decision_hash E d = Inr risk"
    and iss: "issue_confirmation E seed source phrase b (Aware t) (Aware (t + lifetime)) fp risk st = (Inr (cid, nonce, mac), st')"
    and cc: "c = \<lparr>oc_confirmation_id = cid, oc_fingerprint = fp, oc_broker = b, oc_created_at = Aware t,
       oc_expires_at = Aware (t + lifetime), oc_nonce = nonce, oc_mac = mac\<rparr>"
    using create_confirmation_InrD [OF assms(1)] by blast
  obtain r where r: "cid = confirmation_id E seed" "hex_text 16 64 nonce" "sha256_shape fp"
      "signed_as E (hd (issue_batch cid nonce b t (t + lifetime) fp risk)) r"
      "rows_of (confirmation_aggregate cid) st' = [r]" "pget r mac_field = Some (JStr mac)"
    using issue_confirmation_InrD [OF iss assms(2)] by blast
  have fl: "flat_payload [(''broker'', JStr b), (''created_at'', JStr (micro_text t)),
      (''expires_at'', JStr (micro_text (t + lifetime))), (''fingerprint'', JStr fp), (''nonce'', JStr nonce),
      (''risk_decision_hash'', JStr risk)]"
    by (simp add: flat_defs)
  note p = signed_pget [OF r(4) _ fl] signed_stores_mac [OF r(4) _ fl]
  have m: "sha256_shape mac" "sha256_shape cid"
    using p(2) assms(3,4) r(1,6) by (auto simp: issue_batch_def confirmation_id_def)
  have "confirmation_matches c r b t (t + lifetime) fp risk"
    using r(2-4,6) m p(1) unfolding cc
    by (simp add: confirmation_matches_def issue_batch_def signed_as_def mac_field_def version_field_def)
  moreover have "rows_of (confirmation_aggregate cid) st'' = r # filter (\<lambda>r. er_aggregate_id r = confirmation_aggregate cid) later"
    using rows_of_append [OF assms(6)] r(5) by simp
  then have "issued_rows E cid st'' = Inr (r # filter (\<lambda>r. er_aggregate_id r = confirmation_aggregate cid) later)"
    using authentic_stream [OF assms(5), of "confirmation_aggregate cid"] m(2)
    by (simp add: issued_rows_def confirmation_events_def sha256_shape_text [THEN iffD2] confirmation_aggregate_def)
  ultimately show ?thesis
    using c assms(7-10) validate_intent_later [OF c(4)] validate_risk_later [OF c(5)]
    by (simp add: verify_confirmation_def confirmation_times_def cc)
qed
end
