(* ===== verification/Reconcile.thy ===== *)
theory Reconcile
  imports Safety Ledger ExactText
begin

text \<open>
  The reconciler of \<open>execution/reconcile.py\<close>: the strict broker records, the comparison of a
  broker snapshot with the portfolio ledger, the durable report, and the readings the live path
  takes from the log (current report, kill switch, fence).  A provider answer that is no snapshot
  is \<open>None\<close>; one that raised is absent altogether.  The clock reading is an argument, and the
  UUIDs of a report are drawn by the safety authority.
\<close>

section \<open>Broker records\<close>

record broker_position =
  bp_instrument_id :: string
  bp_side :: side
  bp_quantity :: dec

record open_order =
  oo_client_intent_id :: string
  oo_broker_order_id :: string
  oo_instrument_id :: string
  oo_side :: side
  oo_quantity :: dec
  oo_filled_quantity :: dec
  oo_status :: order_status

record broker_snapshot =
  bs_broker :: string
  bs_currency :: string
  bs_cash :: dec
  bs_positions :: "broker_position list"
  bs_open_orders :: "open_order list"
  bs_observed_at :: pydt

record reconciliation_report =
  rr_report_id :: string
  rr_broker :: string
  rr_healthy :: bool
  rr_reason_codes :: "string list"
  rr_broker_hash :: string
  rr_ledger_hash :: string
  rr_checked_at :: pydt
  rr_sequence :: int

record safety_fence =
  sf_reconciliation_head :: string
  sf_kill_switch_head :: "string option"
  sf_interlock_head :: "string option"

definition reconciliation_max_age :: int where
  "reconciliation_max_age = seconds 60"

definition broker_hash_domain :: string where
  "broker_hash_domain = ''omnimarket-sentinel:broker-reconciliation:v1'' @ [CHR 0x00]"

definition ledger_hash_domain :: string where
  "ledger_hash_domain = ''omnimarket-sentinel:ledger-reconciliation:v1'' @ [CHR 0x00]"

definition report_reason_order :: "string list" where
  "report_reason_order = [''PROVIDER_UNAVAILABLE'', ''PROVIDER_DATA_INVALID'', ''PROVIDER_DATA_FUTURE'',
     ''PROVIDER_DATA_STALE'', ''CURRENCY_MISMATCH'', ''CASH_MISMATCH'', ''POSITION_UNKNOWN'',
     ''POSITION_MISSING'', ''POSITION_SIDE_MISMATCH'', ''POSITION_QUANTITY_MISMATCH'', ''ORDER_UNKNOWN'',
     ''ORDER_MISSING'', ''ORDER_INSTRUMENT_MISMATCH'', ''ORDER_SIDE_MISMATCH'', ''ORDER_QUANTITY_MISMATCH'',
     ''ORDER_FILL_MISMATCH'', ''ORDER_STATUS_MISMATCH'']"

section \<open>Validation\<close>

definition nonempty_text :: "string \<Rightarrow> string result" where
  "nonempty_text v = (if v = [] \<or> v \<noteq> strip v then Inl (ValueError ''text field must be nonempty and trimmed'')
     else Inr v)"

definition reconcile_positive :: "dec \<Rightarrow> dec result" where
  "reconcile_positive v = (if v \<le> 0 then Inl (ValueError ''numeric field must be positive'') else Inr v)"

definition reconcile_nonnegative :: "dec \<Rightarrow> dec result" where
  "reconcile_nonnegative v = (if v < 0 then Inl (ValueError ''numeric field must be nonnegative'') else Inr v)"

definition reconcile_aware :: "pydt \<Rightarrow> instant result" where
  "reconcile_aware v = aware_utc (ValueError ''timestamp must be timezone-aware'') v"

definition check_position :: "broker_position \<Rightarrow> broker_position result" where
  "check_position p = rbind (nonempty_text (bp_instrument_id p)) (\<lambda>_.
     rbind (reconcile_positive (bp_quantity p)) (\<lambda>_. Inr p))"

definition check_open_order :: "open_order \<Rightarrow> open_order result" where
  "check_open_order e =
     rbind (traverse nonempty_text [oo_client_intent_id e, oo_broker_order_id e, oo_instrument_id e]) (\<lambda>_.
     rbind (reconcile_positive (oo_quantity e)) (\<lambda>quantity.
     rbind (reconcile_nonnegative (oo_filled_quantity e)) (\<lambda>filled.
     if filled > quantity then Inl (ValueError ''filled quantity exceeds requested quantity'') else Inr e)))"

text \<open>The parts of a snapshot are validated when they are built.\<close>

definition check_snapshot :: "broker_snapshot \<Rightarrow> broker_snapshot result" where
  "check_snapshot s = rbind (nonempty_text (bs_broker s)) (\<lambda>_. rbind (nonempty_text (bs_currency s)) (\<lambda>_.
     rbind (reconcile_aware (bs_observed_at s)) (\<lambda>_. Inr s)))"

definition valid_source :: "broker_snapshot \<Rightarrow> bool" where
  "valid_source s = (is_ok (check_snapshot s) \<and> distinct (map bp_instrument_id (bs_positions s)) \<and>
     distinct (map oo_client_intent_id (bs_open_orders s)))"

definition valid_expected_orders :: "open_order list \<Rightarrow> bool" where
  "valid_expected_orders orders = (list_all (\<lambda>e. is_ok (check_open_order e)) orders \<and>
     distinct (map oo_client_intent_id orders))"

section \<open>Hashes\<close>

definition decimal_json :: "dec \<Rightarrow> json result" where
  "decimal_json v = (case exact_decimal v of
     Inl _ \<Rightarrow> Inl (ValueError ''numeric field is malformed'') | Inr t \<Rightarrow> Inr (JStr t))"

definition reconcile_hash :: "safety_env \<Rightarrow> string \<Rightarrow> json \<Rightarrow> string" where
  "reconcile_hash E tag payload = se_sha E (tag @ dumps payload)"

definition open_order_json :: "open_order \<Rightarrow> json result" where
  "open_order_json e = rbind (decimal_json (oo_quantity e)) (\<lambda>quantity.
     rbind (decimal_json (oo_filled_quantity e)) (\<lambda>filled.
     Inr (JList [JStr (oo_client_intent_id e), JStr (oo_broker_order_id e), JStr (oo_instrument_id e),
       JStr (side_value (oo_side e)), quantity, filled, JStr (order_status_value (oo_status e))])))"

definition position_json :: "broker_position \<Rightarrow> json result" where
  "position_json p = rbind (decimal_json (bp_quantity p)) (\<lambda>quantity.
     Inr (JList [JStr (bp_instrument_id p), JStr (side_value (bp_side p)), quantity]))"

definition broker_hash :: "safety_env \<Rightarrow> broker_snapshot \<Rightarrow> string result" where
  "broker_hash E s =
     rbind (decimal_json (bs_cash s)) (\<lambda>cash.
     rbind (reconcile_aware (bs_observed_at s)) (\<lambda>observed.
     rbind (traverse open_order_json (sort_key oo_client_intent_id (bs_open_orders s))) (\<lambda>orders.
     rbind (traverse position_json (sort_key bp_instrument_id (bs_positions s))) (\<lambda>positions.
     Inr (reconcile_hash E broker_hash_domain (JObj [(''broker'', JStr (bs_broker s)), (''cash'', cash),
       (''currency'', JStr (bs_currency s)), (''observed_at'', JStr (micro_text observed)),
       (''open_orders'', JList orders), (''positions'', JList positions)]))))))"

definition ledger_position_json :: "ledger_position \<Rightarrow> json result" where
  "ledger_position_json q = rbind (decimal_json (lp_quantity q)) (\<lambda>quantity.
     rbind (decimal_json (lp_average_price q)) (\<lambda>price.
     Inr (JList [JStr (lp_instrument_id q), quantity, price])))"

definition market_price_json :: "string \<times> dec \<Rightarrow> json result" where
  "market_price_json ip = rbind (decimal_json (snd ip)) (\<lambda>price. Inr (JList [JStr (fst ip), price]))"

definition ledger_hash :: "safety_env \<Rightarrow> ledger \<Rightarrow> string result" where
  "ledger_hash E L = (let state = compact_state L in
     rbind (decimal_json (lc_cash state)) (\<lambda>cash.
     rbind (decimal_json (lc_drawdown state)) (\<lambda>drawdown.
     rbind (decimal_json (lc_equity state)) (\<lambda>equity.
     rbind (decimal_json (lc_fees state)) (\<lambda>fees.
     rbind (decimal_json (lc_gross_realized_pnl state)) (\<lambda>gross.
     rbind (traverse market_price_json (lc_market_prices state)) (\<lambda>prices.
     rbind (decimal_json (lc_peak_equity state)) (\<lambda>peak.
     rbind (traverse ledger_position_json (lc_positions state)) (\<lambda>positions.
     rbind (decimal_json (lc_starting_cash state)) (\<lambda>starting.
     Inr (reconcile_hash E ledger_hash_domain (JObj [(''cash'', cash), (''currency'', JStr (lc_currency state)),
       (''drawdown'', drawdown), (''equity'', equity), (''fees'', fees),
       (''fill_count'', JInt (int (lc_fill_count state))), (''gross_realized_pnl'', gross),
       (''market_prices'', JList prices), (''peak_equity'', peak), (''positions'', JList positions),
       (''starting_cash'', starting)]))))))))))))"

section \<open>Comparison\<close>

text \<open>\<open>{key(item): item for item in items}\<close>.\<close>

definition by_key :: "('a \<Rightarrow> string) \<Rightarrow> 'a list \<Rightarrow> (string, 'a) dict" where
  "by_key f xs = foldl (\<lambda>d x. dset (f x) x d) [] xs"

definition reason_if :: "bool \<Rightarrow> string \<Rightarrow> string list" where
  "reason_if c r = (if c then [r] else [])"

definition key_reasons ::
  "(string, 'a) dict \<Rightarrow> (string, 'b) dict \<Rightarrow> nat \<Rightarrow> string \<Rightarrow> string \<Rightarrow> string list" where
  "key_reasons actual expected n unknown missing =
     reason_if (length actual \<noteq> n) ''PROVIDER_DATA_INVALID'' @
     reason_if (list_ex (\<lambda>k. k \<notin> set (dkeys expected)) (dkeys actual)) unknown @
     reason_if (list_ex (\<lambda>k. k \<notin> set (dkeys actual)) (dkeys expected)) missing"

definition position_reasons :: "broker_position \<Rightarrow> ledger_position \<Rightarrow> string list" where
  "position_reasons p q = reason_if (bp_side p \<noteq> BUY) ''POSITION_SIDE_MISMATCH'' @
     reason_if (bp_quantity p \<noteq> lp_quantity q) ''POSITION_QUANTITY_MISMATCH''"

definition order_reasons :: "open_order \<Rightarrow> open_order \<Rightarrow> string list" where
  "order_reasons l r =
     reason_if (oo_broker_order_id l \<noteq> oo_broker_order_id r \<or> oo_instrument_id l \<noteq> oo_instrument_id r)
       ''ORDER_INSTRUMENT_MISMATCH'' @
     reason_if (oo_side l \<noteq> oo_side r) ''ORDER_SIDE_MISMATCH'' @
     reason_if (oo_quantity l \<noteq> oo_quantity r) ''ORDER_QUANTITY_MISMATCH'' @
     reason_if (oo_filled_quantity l \<noteq> oo_filled_quantity r) ''ORDER_FILL_MISMATCH'' @
     reason_if (oo_status l \<noteq> oo_status r) ''ORDER_STATUS_MISMATCH''"

text \<open>The loop over the common keys; only the set of reasons matters.\<close>

definition common_reasons :: "('a \<Rightarrow> 'b \<Rightarrow> string list) \<Rightarrow> (string, 'a) dict \<Rightarrow> (string, 'b) dict \<Rightarrow> string list" where
  "common_reasons f actual expected =
     concat (map (\<lambda>(k, a). case dget expected k of None \<Rightarrow> [] | Some e \<Rightarrow> f a e) actual)"

definition compare_positions :: "broker_position list \<Rightarrow> ledger_position list \<Rightarrow> string list" where
  "compare_positions actual expected =
     (let a = by_key bp_instrument_id actual; e = by_key lp_instrument_id expected in
      key_reasons a e (length actual) ''POSITION_UNKNOWN'' ''POSITION_MISSING'' @ common_reasons position_reasons a e)"

definition compare_orders :: "open_order list \<Rightarrow> open_order list \<Rightarrow> string list" where
  "compare_orders actual expected =
     (let a = by_key oo_client_intent_id actual; e = by_key oo_client_intent_id expected in
      key_reasons a e (length actual) ''ORDER_UNKNOWN'' ''ORDER_MISSING'' @ common_reasons order_reasons a e)"

definition source_reasons :: "broker_snapshot \<Rightarrow> instant \<Rightarrow> ledger \<Rightarrow> open_order list \<Rightarrow> instant \<Rightarrow> string list" where
  "source_reasons s observed L expected t = (let state = export_state L in
     (if observed > t then [''PROVIDER_DATA_FUTURE'']
      else reason_if (t - observed > reconciliation_max_age) ''PROVIDER_DATA_STALE'') @
     reason_if (bs_currency s \<noteq> ls_currency state) ''CURRENCY_MISMATCH'' @
     reason_if (bs_cash s \<noteq> ls_cash state) ''CASH_MISMATCH'' @
     compare_positions (bs_positions s) (ls_positions state) @
     compare_orders (bs_open_orders s) expected)"

section \<open>Reports\<close>

definition record_report ::
  "safety_env \<Rightarrow> string \<Rightarrow> string \<Rightarrow> string \<Rightarrow> string \<Rightarrow> string \<Rightarrow> string list \<Rightarrow> instant \<Rightarrow>
   (event_store, reconciliation_report) action" where
  "record_report E report_uuid kill_uuid broker bh lh reasons t =
     (let ordered = filter (\<lambda>c. c \<in> set reasons) report_reason_order in
      then_do (rescue (persist_report E report_uuid kill_uuid broker bh lh ordered (Aware t))
        (\<lambda>_. Some (raises (RuntimeError ''reconciliation persistence could not be verified'')))) (\<lambda>persisted.
      give \<lparr>rr_report_id = er_event_id persisted, rr_broker = broker, rr_healthy = (ordered = []),
        rr_reason_codes = ordered, rr_broker_hash = bh, rr_ledger_hash = lh, rr_checked_at = Aware t,
        rr_sequence = er_sequence persisted\<rparr>))"

definition state_hash :: "safety_env \<Rightarrow> string \<Rightarrow> string" where
  "state_hash E v = reconcile_hash E broker_hash_domain (JObj [(''state'', JStr v)])"

definition reconcile_compare ::
  "safety_env \<Rightarrow> string \<Rightarrow> string \<Rightarrow> pydt \<Rightarrow> broker_snapshot option \<Rightarrow> ledger \<Rightarrow> open_order list \<Rightarrow>
   (event_store, reconciliation_report) action" where
  "reconcile_compare E report_uuid kill_uuid now source L expected =
     then_do (check (reconcile_aware now)) (\<lambda>t.
     let valid = valid_expected_orders expected; orders = (if valid then expected else []) in
     case source of
       Some s \<Rightarrow>
         if valid_source s
         then then_do (check (reconcile_aware (bs_observed_at s))) (\<lambda>observed.
           then_do (check (broker_hash E s)) (\<lambda>bh.
           then_do (check (ledger_hash E L)) (\<lambda>lh.
           record_report E report_uuid kill_uuid (bs_broker s) bh lh
             (reason_if (\<not> valid) ''PROVIDER_DATA_INVALID'' @ source_reasons s observed L orders t) t)))
         else then_do (check (ledger_hash E L)) (\<lambda>lh.
           record_report E report_uuid kill_uuid ''unavailable'' (state_hash E ''invalid'') lh [''PROVIDER_DATA_INVALID''] t)
     | None \<Rightarrow> then_do (check (ledger_hash E L)) (\<lambda>lh.
         record_report E report_uuid kill_uuid ''unavailable'' (state_hash E ''invalid'') lh [''PROVIDER_DATA_INVALID''] t))"

text \<open>\<open>answer\<close> is what the provider returned, absent when it raised.\<close>

definition read_and_compare ::
  "safety_env \<Rightarrow> string \<Rightarrow> string \<Rightarrow> pydt \<Rightarrow> broker_snapshot option option \<Rightarrow> ledger \<Rightarrow> open_order list \<Rightarrow>
   (event_store, reconciliation_report) action" where
  "read_and_compare E report_uuid kill_uuid now answer L expected = (case answer of
     None \<Rightarrow> then_do (check (reconcile_aware now)) (\<lambda>t. then_do (check (ledger_hash E L)) (\<lambda>lh.
       record_report E report_uuid kill_uuid ''unavailable'' (state_hash E ''unavailable'') lh [''PROVIDER_UNAVAILABLE''] t))
   | Some source \<Rightarrow> reconcile_compare E report_uuid kill_uuid now source L expected)"

section \<open>Readings\<close>

text \<open>The reason tuple of an activation.\<close>

definition reason_texts_ok :: "event_record \<Rightarrow> bool" where
  "reason_texts_ok r = (case pget r ''reason_codes'' of
     Some (JList xs) \<Rightarrow> xs \<noteq> [] \<and> list_all (\<lambda>x. case x of JStr t \<Rightarrow> t \<noteq> [] | _ \<Rightarrow> False) xs | _ \<Rightarrow> False)"

definition clear_names :: "event_record \<Rightarrow> event_record \<Rightarrow> bool" where
  "clear_names activation row = (case (pget row ''activation_event_id'', pget row ''activation_sequence'') of
     (Some (JStr i), Some (JInt n)) \<Rightarrow> i \<noteq> [] \<and> 0 < n \<and> er_event_id activation = i \<and> er_sequence activation = n \<and>
       n < er_sequence row
   | _ \<Rightarrow> False)"

fun kill_rows_scan :: "event_record option \<Rightarrow> bool \<Rightarrow> event_record list \<Rightarrow> bool" where
  "kill_rows_scan latest active [] = active"
| "kill_rows_scan latest active (row # rows) =
     (if er_kind row = ''kill_switch.activated''
      then \<not> reason_texts_ok row \<or> kill_rows_scan (Some row) True rows
      else if er_kind row = ''kill_switch.cleared''
      then (case latest of
          None \<Rightarrow> True
        | Some a \<Rightarrow> \<not> clear_names a row \<or> kill_rows_scan latest False rows)
      else True)"

definition kill_rows_active :: "event_record list \<Rightarrow> bool" where
  "kill_rows_active rows = kill_rows_scan None False rows"

fun interlock_rows_scan :: "string list \<Rightarrow> string list \<Rightarrow> event_record list \<Rightarrow> bool" where
  "interlock_rows_scan started resolved_ids [] = list_ex (\<lambda>s. s \<notin> set resolved_ids) started"
| "interlock_rows_scan started resolved_ids (row # rows) =
     (case pget row ''submission_id'' of
        Some (JStr s) \<Rightarrow>
          if s = [] then True
          else if er_kind row = ''live.interlock_started''
          then s \<in> set started \<or> interlock_rows_scan (s # started) resolved_ids rows
          else if er_kind row = ''live.interlock_resolved''
          then s \<notin> set started \<or> s \<in> set resolved_ids \<or> interlock_rows_scan started (s # resolved_ids) rows
          else True
      | _ \<Rightarrow> True)"

definition interlock_rows_active :: "event_record list \<Rightarrow> bool" where
  "interlock_rows_active rows = interlock_rows_scan [] [] rows"

text \<open>The claims of a report that need no clock: \<open>healthy\<close>, its broker and the ledger it saw.\<close>

definition report_claims :: "safety_env \<Rightarrow> reconciliation_report \<Rightarrow> string \<Rightarrow> ledger \<Rightarrow> bool result" where
  "report_claims E r broker L =
     (if \<not> rr_healthy r \<or> rr_reason_codes r \<noteq> [] \<or> rr_broker r \<noteq> broker then Inr False
      else rbind (ledger_hash E L) (\<lambda>h. Inr (rr_ledger_hash r = h)))"

definition head_is_report :: "event_record \<Rightarrow> reconciliation_report \<Rightarrow> instant \<Rightarrow> bool" where
  "head_is_report head r checked =
     (er_event_id head = rr_report_id r \<and> er_sequence head = rr_sequence r \<and>
      er_kind head = ''reconciliation.healthy'' \<and> pget head ''healthy'' = Some (JBool True) \<and>
      pget head ''broker'' = Some (JStr (rr_broker r)) \<and> pget head ''broker_hash'' = Some (JStr (rr_broker_hash r)) \<and>
      pget head ''ledger_hash'' = Some (JStr (rr_ledger_hash r)) \<and> er_occurred_at head = checked)"

definition is_current_healthy ::
  "safety_env \<Rightarrow> pydt \<Rightarrow> reconciliation_report \<Rightarrow> string \<Rightarrow> ledger \<Rightarrow> event_store \<Rightarrow> bool result" where
  "is_current_healthy E now r broker L st =
     rbind (report_claims E r broker L) (\<lambda>claims.
     if \<not> claims then Inr False
     else case (rr_checked_at r, now) of
         (Aware checked, Aware t) \<Rightarrow>
           if checked > t \<or> t - checked > reconciliation_max_age then Inr False
           else (case reconciliation_events E st of
               Inl _ \<Rightarrow> Inr False
             | Inr rows \<Rightarrow> Inr (rows \<noteq> [] \<and> head_is_report (last rows) r checked))
       | _ \<Rightarrow> Inr False)"

definition kill_switch_active :: "safety_env \<Rightarrow> event_store \<Rightarrow> bool" where
  "kill_switch_active E st = (case (kill_switch_events E st, interlock_events E st) of
     (Inr kills, Inr interlocks) \<Rightarrow> kill_rows_active kills \<or> interlock_rows_active interlocks
   | _ \<Rightarrow> True)"

definition make_fence ::
  "safety_env \<Rightarrow> pydt \<Rightarrow> reconciliation_report \<Rightarrow> string \<Rightarrow> ledger \<Rightarrow> event_store \<Rightarrow> safety_fence result" where
  "make_fence E now r broker L st =
     rbind (report_claims E r broker L) (\<lambda>claims.
     if \<not> claims then Inl (KillSwitchError ''reconciliation report is not current'')
     else rbind (reconcile_aware now) (\<lambda>t.
       case (reconciliation_events E st, kill_switch_events E st, interlock_events E st) of
         (Inr reports, Inr kills, Inr interlocks) \<Rightarrow>
           if reports = [] then Inl (KillSwitchError ''reconciliation report is not current'')
           else let head = last reports in
           if er_event_id head \<noteq> rr_report_id r \<or> er_sequence head \<noteq> rr_sequence r
             \<or> er_kind head \<noteq> ''reconciliation.healthy'' \<or> Aware (er_occurred_at head) \<noteq> rr_checked_at r
             \<or> er_occurred_at head > t \<or> t - er_occurred_at head > reconciliation_max_age
           then Inl (KillSwitchError ''reconciliation report is not current'')
           else if kill_rows_active kills \<or> interlock_rows_active interlocks
           then Inl (KillSwitchError ''kill switch is active'')
           else Inr \<lparr>sf_reconciliation_head = er_event_id head, sf_kill_switch_head = last_id kills,
             sf_interlock_head = last_id interlocks\<rparr>
       | _ \<Rightarrow> Inl (KillSwitchError ''safety state failed authentication'')))"

text \<open>The messages of the safety authority pass through; every other failure has a fixed text.\<close>

fun clear_failure :: "exn \<Rightarrow> exn" where
  "clear_failure (EventHeadConflict m) = KillSwitchError ''safety state changed''"
| "clear_failure (SafetyIntegrityError m) = KillSwitchError m"
| "clear_failure (ValueError m) = KillSwitchError m"
| "clear_failure _ = KillSwitchError ''kill-switch persistence failed''"

definition reconciler_clear :: "safety_env \<Rightarrow> string \<Rightarrow> pydt \<Rightarrow> string \<Rightarrow> (event_store, unit) action" where
  "reconciler_clear E uuid now acknowledgement =
     rescue (then_do (check (reconcile_aware now)) (\<lambda>t. clear_kill_switch E uuid acknowledgement (Aware t)))
       (\<lambda>e. Some (raises (clear_failure e)))"

end
