(* ===== verification/Capabilities.thy ===== *)
theory Capabilities
  imports Domain
begin

text \<open>
  The capability record every broker adapter declares, of \<open>execution/base.py\<close>.
\<close>

section \<open>Capabilities\<close>

record broker_capabilities =
  bc_broker :: string
  bc_supported_asset_classes :: "asset_class list"
  bc_supported_order_types :: "order_type list"
  bc_supports_fractional_quantity :: bool
  bc_supports_notional_orders :: bool
  bc_supports_partial_fills :: bool
  bc_supports_shorting :: bool
  bc_supports_leverage :: bool
  bc_supports_derivatives :: bool
  bc_supports_cancel :: bool
  bc_is_paper :: bool

definition check_capabilities :: "broker_capabilities \<Rightarrow> broker_capabilities result" where
  "check_capabilities c =
     (if matches Domain.is_alnum (\<lambda>x. Domain.is_alnum x \<or> x \<in> set ''_.-'') 63 (bc_broker c) then Inr c
      else Inl (ValueError ''broker capability identity must be nonempty and trimmed''))"

end
