(* ===== verification/Live.thy ===== *)
theory Live
  imports Approval Reconcile Capabilities
begin

text \<open>
  Live submission, \<open>execution/live.py\<close>: every gate in its fixed order, the claim under the fence,
  one call of the broker, and the recording of what is known afterwards.  The broker is outside the
  program: what it answers during one submission is the parameter \<open>broker_answers\<close> (absent where it
  raises or returns something of another type), and the calls made to it are logged in the state.
  The readings of the clock are arguments, one per place; the free-text redactor is the argument
  \<open>redact_text\<close>.  Readiness manifests are those of \<open>brokers/preflight.py\<close>.
\<close>

section \<open>Readiness\<close>

record preflight_report =
  pr_broker :: string
  pr_gates :: "gate_result list"

definition preflight_ready :: "preflight_report \<Rightarrow> bool" where
  "preflight_ready r = list_all gr_passed (pr_gates r)"

definition missing_gate_names :: "preflight_report \<Rightarrow> string list" where
  "missing_gate_names r = map gr_name (filter (\<lambda>g. \<not> gr_passed g) (pr_gates r))"

definition contains_text :: "string \<Rightarrow> string \<Rightarrow> bool" where
  "contains_text part text = list_ex (\<lambda>n. take (length part) (drop n text) = part) [0..<Suc (length text)]"

definition credential_term :: "string \<Rightarrow> bool" where
  "credential_term v = (let lowered = lower v in contains_text ''secret'' lowered \<or>
     contains_text ''api_key'' lowered \<or> contains_text ''access_token'' lowered)"

fun comma_separated :: "string list \<Rightarrow> string" where
  "comma_separated [] = []"
| "comma_separated [x] = x"
| "comma_separated (x # xs) = x @ '','' @ comma_separated xs"

definition safe_summary :: "preflight_report \<Rightarrow> string" where
  "safe_summary r = (let missing = comma_separated (filter (\<lambda>n. \<not> credential_term n) (missing_gate_names r)) in
     ''broker='' @ pr_broker r @ '' missing_gates='' @ (if missing = [] then ''none'' else missing))"

definition readiness_gate :: "string \<Rightarrow> bool \<Rightarrow> string option \<Rightarrow> gate_result" where
  "readiness_gate gate_name passed reason = \<lparr>gr_name = gate_name, gr_passed = passed,
     gr_reason_code = (if passed then ''OK''
       else case reason of None \<Rightarrow> ''GATE_NOT_SATISFIED'' | Some [] \<Rightarrow> ''GATE_NOT_SATISFIED'' | Some r \<Rightarrow> r)\<rparr>"

definition required_preflight_gates :: "(string \<times> string list) list" where
  "required_preflight_gates =
    [(''alpaca'', [''MARKET_SENTINEL_MODE'', ''ALPACA_LIVE_TRADING_ENABLED'', ''ALPACA_REAL_API_ENABLED'',
        ''ALPACA_LIVE_ENDPOINT'', ''ALPACA_ACCOUNT_ID_PRESENT'', ''ALPACA_LOCAL_CREDENTIALS_PRESENT'',
        ''ALPACA_ACCOUNT_ID_MATCHED'', ''ALPACA_ACCOUNT_ACTIVE'', ''ALPACA_ACCOUNT_UNBLOCKED'',
        ''ALPACA_SUFFICIENT_BUYING_POWER'']),
     (''groww'', [''GROWW_PRIMARY_BROKER'', ''MARKET_SENTINEL_MODE'', ''INDIA_LIVE_TRADING_ENABLED'',
        ''INDIA_ALGO_COMPLIANCE_VERIFIED'', ''GROWW_REAL_API_ENABLED'', ''GROWW_API_SUBSCRIPTION_ACTIVE'',
        ''GROWW_PROTECTED_ORDER_CLIENT'', ''GROWW_STATIC_OUTBOUND_IPV4'', ''GROWW_STATIC_IP_ALLOWLISTED'',
        ''GROWW_BROKER_APPROVED_ALGO_ID'', ''GROWW_LOCAL_CREDENTIALS_PRESENT'', ''GROWW_AUTH_SESSION_FRESH'',
        ''GROWW_READ_ONLY_PROFILE_ACCESS'', ''GROWW_PROFILE_ACTIVE'', ''GROWW_REGULAR_SESSION_SUPPORTED'',
        ''GROWW_PROTECTED_ORDERS_SUPPORTED'']),
     (''ccxt-spot'', [''MARKET_SENTINEL_MODE'', ''CCXT_LIVE_TRADING_ENABLED'', ''CCXT_REAL_API_ENABLED'',
        ''CCXT_EXCHANGE_ID_CONFIGURED'', ''CCXT_SPOT_ONLY'', ''CCXT_LOCAL_CREDENTIALS_PRESENT'',
        ''CCXT_WITHDRAWALS_DISABLED_CONFIRMED'', ''CCXT_IP_RESTRICTED_CONFIRMED'',
        ''CCXT_NO_SANDBOX_ACKNOWLEDGED'', ''CCXT_EXCHANGE_CONFIGURED'', ''CCXT_SPOT_MARKETS_AVAILABLE'',
        ''CCXT_CREATE_ORDER_SUPPORTED''])]"

definition required_gate_names :: "string \<Rightarrow> string list result" where
  "required_gate_names broker = (case map_of required_preflight_gates broker of
     None \<Rightarrow> Inl (ValueError ''unknown live broker preflight manifest'') | Some names \<Rightarrow> Inr names)"

definition gate_well_formed :: "gate_result \<Rightarrow> bool" where
  "gate_well_formed g = (gr_name g \<noteq> [] \<and> gr_reason_code g \<noteq> [] \<and> (gr_passed g \<longrightarrow> gr_reason_code g = ''OK''))"

definition valid_preflight :: "preflight_report \<Rightarrow> string \<Rightarrow> bool" where
  "valid_preflight r broker =
     (pr_broker r = broker \<and> pr_gates r \<noteq> [] \<and> list_all gate_well_formed (pr_gates r) \<and>
      distinct (map gr_name (pr_gates r)) \<and>
      (case required_gate_names broker of
         Inl _ \<Rightarrow> False
       | Inr names \<Rightarrow> set (map gr_name (pr_gates r)) = set names \<and> preflight_ready r))"

section \<open>The broker and the clock\<close>

datatype broker_call = Preflight_call | Capabilities_call | Submit_call order_intent market_snapshot
  | Query_call string

record broker_answers =
  ba_preflight :: "preflight_report option"
  ba_capabilities :: "broker_capabilities option"
  ba_submit :: "broker_order option"
  ba_query :: "broker_order option"

record clock_readings =
  ck_gates :: pydt
  ck_report :: pydt
  ck_confirm :: pydt
  ck_fence :: pydt
  ck_claim :: pydt
  ck_reconfirm :: pydt
  ck_response :: pydt
  ck_query :: pydt
  ck_acknowledge :: pydt
  ck_unknown :: pydt

record live_world =
  lw_store :: event_store
  lw_calls :: "broker_call list"

definition on_store :: "(event_store, 'a) action \<Rightarrow> (live_world, 'a) action" where
  "on_store m w = (case m (lw_store w) of (r, st) \<Rightarrow> (r, w\<lparr>lw_store := st\<rparr>))"

definition calling :: "broker_call \<Rightarrow> 'a \<Rightarrow> (live_world, 'a) action" where
  "calling c x w = (Inr x, w\<lparr>lw_calls := lw_calls w @ [c]\<rparr>)"

definition live_aware :: "pydt \<Rightarrow> instant result" where
  "live_aware v = aware_utc (ValueError ''timestamp must be timezone-aware'') v"

text \<open>The fixed parts of the service and of one submission.\<close>

record live_service =
  sv_env :: safety_env
  sv_broker :: string
  sv_ledger :: ledger
  sv_redact :: "string \<Rightarrow> string"
  sv_boundary :: bool
  sv_claim_nonce :: string
  sv_ack_nonce :: string
  sv_unknown_nonce :: string

record live_request =
  lr_intent :: order_intent
  lr_decision :: risk_decision
  lr_snapshot :: market_snapshot
  lr_confirmation :: order_confirmation
  lr_preflight :: preflight_report
  lr_report :: reconciliation_report

section \<open>Gates\<close>

definition positive_decimal :: "dec option \<Rightarrow> bool" where
  "positive_decimal v = (case v of None \<Rightarrow> False | Some x \<Rightarrow> 0 < x)"

definition require_risk :: "live_service \<Rightarrow> order_intent \<Rightarrow> risk_decision \<Rightarrow> instant \<Rightarrow> unit result" where
  "require_risk V i d now =
     (if rd_decided_at d > now \<or> rd_expires_at d \<le> now \<or> rd_expires_at d \<le> rd_decided_at d
         \<or> rd_expires_at d - rd_decided_at d > seconds 60 \<or> oi_created_at i > now \<or> oi_expires_at i \<le> now
      then Inl (LiveOrderError ''RISK_STALE'')
      else if \<not> rd_approved d \<or> rd_reason_codes d \<noteq> []
         \<or> rd_portfolio_hash d \<noteq> position_hash (se_sha (sv_env V)) (sv_ledger V)
         \<or> oi_snapshot_hash i \<noteq> rd_portfolio_hash d
         \<or> \<not> positive_decimal (rd_approved_quantity d) \<or> \<not> positive_decimal (rd_approved_notional d)
      then Inl (LiveOrderError ''RISK_NOT_APPROVED'')
      else if oi_quantity i \<noteq> None \<and> rd_approved_quantity d \<noteq> oi_quantity i
      then Inl (LiveOrderError ''RISK_NOT_APPROVED'')
      else if oi_notional i \<noteq> None \<and> rd_approved_notional d \<noteq> oi_notional i
      then Inl (LiveOrderError ''RISK_NOT_APPROVED'')
      else Inr ())"

definition require_snapshot :: "order_intent \<Rightarrow> market_snapshot \<Rightarrow> instant \<Rightarrow> unit result" where
  "require_snapshot i m now =
     (if ms_instrument_id m \<noteq> oi_instrument_id i then Inl (LiveOrderError ''SNAPSHOT_INVALID'')
      else if ms_max_age_seconds m < 0 \<or> ms_source_at m > ms_observed_at m \<or> ms_observed_at m > now
         \<or> ms_source_at m > now \<or> now - ms_source_at m > seconds (ms_max_age_seconds m)
      then Inl (LiveOrderError ''SNAPSHOT_INVALID'')
      else Inr ())"

definition require_preflight ::
  "live_service \<Rightarrow> broker_answers \<Rightarrow> preflight_report \<Rightarrow> (live_world, unit) action" where
  "require_preflight V A report =
     then_do (calling Preflight_call (ba_preflight A)) (\<lambda>fresh.
     stop_if (case fresh of None \<Rightarrow> True | Some f \<Rightarrow> \<not> valid_preflight f (sv_broker V) \<or> report \<noteq> f)
       (LiveOrderError ''PREFLIGHT_NOT_READY''))"

definition require_capabilities ::
  "live_service \<Rightarrow> broker_answers \<Rightarrow> order_intent \<Rightarrow> (live_world, unit) action" where
  "require_capabilities V A i =
     then_do (calling Capabilities_call (ba_capabilities A)) (\<lambda>capabilities.
     stop_if (case capabilities of None \<Rightarrow> True
        | Some c \<Rightarrow> bc_broker c \<noteq> sv_broker V \<or> oi_notional i \<noteq> None \<and> \<not> bc_supports_notional_orders c)
       (LiveOrderError ''ORDER_UNSUPPORTED''))"

definition require_confirmation :: "live_service \<Rightarrow> live_request \<Rightarrow> pydt \<Rightarrow> (live_world, unit) action" where
  "require_confirmation V Q now =
     then_do (reads (\<lambda>w. Inr (is_ok (verify_confirmation (sv_env V) now (lr_intent Q) (lr_decision Q)
       (lr_confirmation Q) (Some (sv_broker V)) (lw_store w))))) (\<lambda>ok.
     stop_if (\<not> ok) (LiveOrderError ''CONFIRMATION_INVALID''))"

definition require_current_report :: "live_service \<Rightarrow> live_request \<Rightarrow> pydt \<Rightarrow> (live_world, unit) action" where
  "require_current_report V Q now =
     then_do (reads (\<lambda>w. Inr (is_current_healthy (sv_env V) now (lr_report Q) (sv_broker V) (sv_ledger V)
       (lw_store w) = Inr True))) (\<lambda>current.
     stop_if (\<not> current) (LiveOrderError ''RECONCILIATION_NOT_CURRENT''))"

definition require_kill_switch_off :: "live_service \<Rightarrow> (live_world, unit) action" where
  "require_kill_switch_off V =
     then_do (reads (\<lambda>w. Inr (kill_switch_active (sv_env V) (lw_store w)))) (\<lambda>active.
     stop_if active (LiveOrderError ''KILL_SWITCH_ACTIVE''))"

fun fence_failure :: "exn \<Rightarrow> exn" where
  "fence_failure (KillSwitchError m) = LiveOrderError ''SAFETY_STATE_CHANGED''"
| "fence_failure _ = LiveOrderError ''AUDIT_PERSISTENCE_FAILED''"

definition take_fence :: "live_service \<Rightarrow> live_request \<Rightarrow> pydt \<Rightarrow> (live_world, safety_fence) action" where
  "take_fence V Q now =
     rescue (reads (\<lambda>w. make_fence (sv_env V) now (lr_report Q) (sv_broker V) (sv_ledger V) (lw_store w)))
       (\<lambda>e. Some (raises (fence_failure e)))"

section \<open>The claim\<close>

fun claim_failure :: "exn \<Rightarrow> exn" where
  "claim_failure (SafetyAlreadyUsedError m) = LiveOrderError ''CONFIRMATION_USED''"
| "claim_failure (SafetyStateChangedError m) = LiveOrderError ''SAFETY_STATE_CHANGED''"
| "claim_failure (SafetyIntegrityError m) = LiveOrderError ''CONFIRMATION_INVALID''"
| "claim_failure (EventHeadConflict m) = LiveOrderError ''SAFETY_STATE_CHANGED''"
| "claim_failure _ = LiveOrderError ''AUDIT_PERSISTENCE_FAILED''"

definition live_claim :: "live_service \<Rightarrow> live_request \<Rightarrow> instant \<Rightarrow> safety_fence \<Rightarrow> (live_world, unit) action" where
  "live_claim V Q t fence = (let c = lr_confirmation Q in
     rescue (on_store (claim_and_start (sv_env V) (sv_claim_nonce V) (oi_intent_id (lr_intent Q)) (sv_broker V)
         (oc_confirmation_id c) (oc_fingerprint c) (oc_expires_at c) (sf_reconciliation_head fence)
         (sf_kill_switch_head fence) (sf_interlock_head fence) (Aware t)))
       (\<lambda>e. Some (raises (claim_failure e))))"

section \<open>Acknowledgement\<close>

definition amounts_match :: "broker_order \<Rightarrow> order_intent \<Rightarrow> bool" where
  "amounts_match b i = (case oi_quantity i of
     Some q \<Rightarrow> (case bo_requested_quantity b of
         None \<Rightarrow> False
       | Some r \<Rightarrow> 0 < r \<and> r = q \<and> bo_requested_notional b = None \<and> bo_filled_quantity b \<le> r)
   | None \<Rightarrow> (case (oi_notional i, bo_requested_notional b) of
         (Some n, Some m) \<Rightarrow> bo_requested_quantity b = None \<and> 0 < m \<and> m = n
       | _ \<Rightarrow> False))"

definition status_consistent :: "broker_order \<Rightarrow> bool" where
  "status_consistent b = (let filled = bo_filled_quantity b; average = bo_average_fill_price b in
     bo_status b = ACKNOWLEDGED \<and> filled = 0 \<and> average = None \<or>
     bo_status b = PARTIALLY_FILLED \<and> 0 < filled \<and> average \<noteq> None \<and>
       (case bo_requested_quantity b of None \<Rightarrow> False | Some r \<Rightarrow> filled < r) \<or>
     bo_status b = FILLED \<and> 0 < filled \<and> average \<noteq> None \<and> bo_requested_quantity b = Some filled)"

definition valid_acknowledgement :: "broker_order \<Rightarrow> order_intent \<Rightarrow> string \<Rightarrow> instant \<Rightarrow> bool" where
  "valid_acknowledgement b i broker now =
     (bo_order_id b \<noteq> [] \<and> bo_client_order_id b = oi_intent_id i \<and> bo_broker b = broker \<and>
      bo_instrument_id b = oi_instrument_id i \<and> 0 \<le> bo_filled_quantity b \<and>
      (bo_average_fill_price b = None \<or> positive_decimal (bo_average_fill_price b)) \<and>
      amounts_match b i \<and> bo_status b \<in> {ACKNOWLEDGED, PARTIALLY_FILLED, FILLED} \<and> status_consistent b \<and>
      (bo_filled_quantity b = 0 \<or> bo_average_fill_price b \<noteq> None) \<and>
      oi_created_at i \<le> bo_submitted_at b \<and> bo_submitted_at b \<le> bo_updated_at b \<and> bo_updated_at b \<le> now)"

section \<open>Submission\<close>

text \<open>The one submission; an answer that is not a valid acknowledgement counts as none.\<close>

definition place_order ::
  "live_service \<Rightarrow> broker_answers \<Rightarrow> clock_readings \<Rightarrow> live_request \<Rightarrow> (live_world, broker_order option) action" where
  "place_order V A K Q =
     then_do (calling (Submit_call (lr_intent Q) (lr_snapshot Q)) (ba_submit A)) (\<lambda>candidate.
     give (case (candidate, ck_response K) of
         (Some b, Aware t) \<Rightarrow> if valid_acknowledgement b (lr_intent Q) (sv_broker V) t then Some b else None
       | _ \<Rightarrow> None))"

definition query_ambiguous ::
  "live_service \<Rightarrow> broker_answers \<Rightarrow> clock_readings \<Rightarrow> live_request \<Rightarrow> (live_world, broker_order option) action" where
  "query_ambiguous V A K Q =
     then_do (calling (Query_call (oi_intent_id (lr_intent Q))) (ba_query A)) (\<lambda>candidate.
     then_do (check (live_aware (ck_query K))) (\<lambda>t.
     give (case candidate of
         Some b \<Rightarrow> if valid_acknowledgement b (lr_intent Q) (sv_broker V) t then Some b else None
       | None \<Rightarrow> None)))"

definition persist_unknown :: "live_service \<Rightarrow> clock_readings \<Rightarrow> live_request \<Rightarrow> (live_world, unit) action" where
  "persist_unknown V K Q =
     rescue (then_do (check (live_aware (ck_unknown K))) (\<lambda>t.
        on_store (record_unknown (sv_env V) (sv_unknown_nonce V) (oi_intent_id (lr_intent Q))
          (oc_confirmation_id (lr_confirmation Q)) (Aware t))))
       (\<lambda>_. Some (raises (LiveOrderError ''UNKNOWN_PERSISTENCE_FAILED'')))"

definition give_up :: "live_service \<Rightarrow> clock_readings \<Rightarrow> live_request \<Rightarrow> (live_world, broker_order) action" where
  "give_up V K Q = then_do (persist_unknown V K Q) (\<lambda>_. raises (LiveOrderError ''SUBMISSION_UNKNOWN''))"

definition acknowledge ::
  "live_service \<Rightarrow> clock_readings \<Rightarrow> live_request \<Rightarrow> broker_order \<Rightarrow> (live_world, broker_order) action" where
  "acknowledge V K Q b =
     rescue (then_do (check (live_aware (ck_acknowledge K))) (\<lambda>t.
        then_do (on_store (record_acknowledgement (sv_env V) (sv_ack_nonce V) (oi_intent_id (lr_intent Q)) (sv_broker V)
          (sv_redact V (bo_order_id b)) (order_status_value (bo_status b)) (oc_confirmation_id (lr_confirmation Q))
          (Aware t))) (\<lambda>_. give b)))
       (\<lambda>_. Some (give_up V K Q))"

definition all_gates ::
  "live_service \<Rightarrow> broker_answers \<Rightarrow> clock_readings \<Rightarrow> live_request \<Rightarrow> (live_world, instant \<times> safety_fence) action" where
  "all_gates V A K Q =
     then_do (stop_if (\<not> sv_boundary V) (LiveOrderError ''AUDIT_PERSISTENCE_FAILED'')) (\<lambda>_.
     then_do (require_preflight V A (lr_preflight Q)) (\<lambda>_.
     then_do (require_capabilities V A (lr_intent Q)) (\<lambda>_.
     then_do (check (live_aware (ck_gates K))) (\<lambda>t.
     then_do (check (require_risk V (lr_intent Q) (lr_decision Q) t)) (\<lambda>_.
     then_do (require_current_report V Q (ck_report K)) (\<lambda>_.
     then_do (require_kill_switch_off V) (\<lambda>_.
     then_do (require_confirmation V Q (ck_confirm K)) (\<lambda>_.
     then_do (check (require_snapshot (lr_intent Q) (lr_snapshot Q) t)) (\<lambda>_.
     then_do (take_fence V Q (ck_fence K)) (\<lambda>fence.
     then_do (check (live_aware (ck_claim K))) (\<lambda>t'.
     then_do (check (require_risk V (lr_intent Q) (lr_decision Q) t')) (\<lambda>_.
     then_do (require_confirmation V Q (ck_reconfirm K)) (\<lambda>_.
     then_do (check (require_snapshot (lr_intent Q) (lr_snapshot Q) t')) (\<lambda>_.
     give (t', fence)))))))))))))))"

definition submit_confirmed ::
  "live_service \<Rightarrow> broker_answers \<Rightarrow> clock_readings \<Rightarrow> live_request \<Rightarrow> (live_world, broker_order) action" where
  "submit_confirmed V A K Q =
     then_do (all_gates V A K Q) (\<lambda>(t, fence).
     then_do (live_claim V Q t fence) (\<lambda>_.
     then_do (place_order V A K Q) (\<lambda>placed.
     then_do (case placed of Some b \<Rightarrow> give (Some b) | None \<Rightarrow> query_ambiguous V A K Q) (\<lambda>submitted.
     case submitted of None \<Rightarrow> give_up V K Q | Some b \<Rightarrow> acknowledge V K Q b))))"

end
