(* ===== verification/LiveFacts.thy ===== *)
theory LiveFacts
  imports Live SafetyMachine
begin

text \<open>
  What live submission guarantees: one submission at most, only after every gate and a durable claim;
  an ambiguous outcome stops trading; a returned order is valid and acknowledged in the log.
\<close>

section \<open>What a submission can change\<close>

fun is_submission :: "broker_call \<Rightarrow> bool" where
  "is_submission (Submit_call i m) = True"
| "is_submission _ = False"

definition submissions :: "live_world \<Rightarrow> broker_call list" where
  "submissions w = filter is_submission (lw_calls w)"

text \<open>Before the claim nothing is stored and nothing is submitted; after the submission nothing more is submitted.\<close>

definition quiet :: "live_world \<Rightarrow> live_world \<Rightarrow> bool" where
  "quiet w w' \<longleftrightarrow> lw_store w' = lw_store w \<and> submissions w' = submissions w"

definition asking :: "live_world \<Rightarrow> live_world \<Rightarrow> bool" where
  "asking w w' \<longleftrightarrow> submissions w' = submissions w"

lemma quiet_order: "reflp quiet" "transp quiet" "reflp asking" "transp asking"
  by (auto simp: quiet_def asking_def intro!: reflpI transpI)

lemma along_calling:
  "\<not> is_submission c \<Longrightarrow> along quiet (calling c x)" "\<not> is_submission c \<Longrightarrow> along asking (calling c x)"
  by (simp_all add: along_def calling_def quiet_def asking_def submissions_def)

lemma on_store_eq: "on_store m w = (r, w') \<longleftrightarrow> (\<exists>st. m (lw_store w) = (r, st) \<and> w' = w\<lparr>lw_store := st\<rparr>)"
  by (auto simp: on_store_def split: prod.splits)

lemma along_on_store: "along asking (on_store m)"
  by (auto simp: along_def on_store_def asking_def submissions_def split: prod.splits)

lemmas quiet_intros = along_intros quiet_order along_calling along_on_store

lemma all_gates_quiet: "along quiet (all_gates V A K Q)"
  unfolding all_gates_def require_preflight_def require_capabilities_def require_current_report_def
    require_kill_switch_off_def require_confirmation_def take_fence_def
  by (intro quiet_intros) (auto intro!: quiet_intros)

lemma query_quiet: "along quiet (query_ambiguous V A K Q)"
  unfolding query_ambiguous_def by (intro quiet_intros) auto

lemma persist_unknown_asking: "along asking (persist_unknown V K Q)"
  unfolding persist_unknown_def by (intro quiet_intros) (auto intro!: quiet_intros)

lemma give_up_asking: "along asking (give_up V K Q)"
  unfolding give_up_def by (intro quiet_intros persist_unknown_asking)

lemma acknowledge_asking: "along asking (acknowledge V K Q b)"
  unfolding acknowledge_def by (intro quiet_intros) (auto intro!: quiet_intros give_up_asking)

lemma then_check_Inr: "then_do (check v) f s = (Inr y, s'') \<longleftrightarrow> (\<exists>x. v = Inr x \<and> f x s = (Inr y, s''))"
  by (auto simp: action_simps)

text \<open>What holds when every gate has passed.\<close>

definition gates_hold ::
  "live_service \<Rightarrow> broker_answers \<Rightarrow> clock_readings \<Rightarrow> live_request \<Rightarrow> event_store \<Rightarrow> instant \<Rightarrow> bool" where
  "gates_hold V A K Q st t \<longleftrightarrow>
     sv_boundary V \<and> ba_preflight A = Some (lr_preflight Q) \<and> valid_preflight (lr_preflight Q) (sv_broker V) \<and>
     (\<exists>c. ba_capabilities A = Some c \<and> bc_broker c = sv_broker V \<and>
        (oi_notional (lr_intent Q) = None \<or> bc_supports_notional_orders c)) \<and>
     ck_claim K = Aware t \<and> require_risk V (lr_intent Q) (lr_decision Q) t = Inr () \<and>
     is_current_healthy (sv_env V) (ck_report K) (lr_report Q) (sv_broker V) (sv_ledger V) st = Inr True \<and>
     \<not> kill_switch_active (sv_env V) st \<and>
     verify_confirmation (sv_env V) (ck_reconfirm K) (lr_intent Q) (lr_decision Q) (lr_confirmation Q)
       (Some (sv_broker V)) st = Inr () \<and>
     require_snapshot (lr_intent Q) (lr_snapshot Q) t = Inr ()"

lemma live_aware_Inr: "live_aware v = Inr t \<longleftrightarrow> v = Aware t"
  by (cases v) (simp_all add: live_aware_def)

lemma is_ok_unit: "is_ok (r :: unit result) \<longleftrightarrow> r = Inr ()"
  by (cases r) auto

lemma all_gates_InrD:
  assumes "all_gates V A K Q w = (Inr (t, fence), w')"
  shows "gates_hold V A K Q (lw_store w) t \<and>
    make_fence (sv_env V) (ck_fence K) (lr_report Q) (sv_broker V) (sv_ledger V) (lw_store w) = Inr fence \<and>
    quiet w w'"
proof -
  have "quiet w w'"
    using alongD [OF all_gates_quiet assms] .
  with assms show ?thesis
    unfolding all_gates_def require_preflight_def require_capabilities_def require_current_report_def
      require_kill_switch_off_def require_confirmation_def take_fence_def
    by (auto simp: action_simps calling_def live_aware_Inr gates_hold_def is_ok_unit split: option.splits)
qed

lemma live_claim_outcome:
  assumes "live_claim V Q t fence w = (r, w')" "log_ok (lw_store w)"
  shows "(w' = w \<and> \<not> is_ok r) \<or> (r = Inr () \<and> lw_calls w' = lw_calls w \<and>
    (\<exists>e heads. oc_expires_at (lr_confirmation Q) = Aware e \<and>
      claim_allowed (lw_store w) (sv_broker V) (oc_confirmation_id (lr_confirmation Q))
        (oc_fingerprint (lr_confirmation Q)) e t \<and>
      safety_record_if_heads (sv_env V) (claim_batch (sv_claim_nonce V) (oi_intent_id (lr_intent Q)) (sv_broker V)
        (oc_confirmation_id (lr_confirmation Q)) (oc_fingerprint (lr_confirmation Q)) e t) heads (lw_store w)
        = Inr (lw_store w')))"
proof -
  let ?c = "lr_confirmation Q"
  let ?m = "claim_and_start (sv_env V) (sv_claim_nonce V) (oi_intent_id (lr_intent Q)) (sv_broker V)
    (oc_confirmation_id ?c) (oc_fingerprint ?c) (oc_expires_at ?c) (sf_reconciliation_head fence)
    (sf_kill_switch_head fence) (sf_interlock_head fence) (Aware t)"
  obtain r1 st1 where m: "?m (lw_store w) = (r1, st1)"
    by fastforce
  show ?thesis
  proof (cases r1)
    case (Inl x)
    then have "st1 = lw_store w"
      using m by (auto simp: claim_and_start_def outcome_simps split: prod.splits)
    then have "live_claim V Q t fence w = (Inl (claim_failure x), w)"
      using m Inl by (simp add: live_claim_def Let_def rescue_def on_store_def raises_def)
    then show ?thesis
      using assms(1) by simp
  next
    case (Inr u)
    then have "live_claim V Q t fence w = (Inr (), w\<lparr>lw_store := st1\<rparr>)"
      using m by (simp add: live_claim_def Let_def rescue_def on_store_def)
    moreover have "\<exists>e heads. oc_expires_at ?c = Aware e \<and>
        claim_allowed (lw_store w) (sv_broker V) (oc_confirmation_id ?c) (oc_fingerprint ?c) e t \<and>
        safety_record_if_heads (sv_env V) (claim_batch (sv_claim_nonce V) (oi_intent_id (lr_intent Q)) (sv_broker V)
          (oc_confirmation_id ?c) (oc_fingerprint ?c) e t) heads (lw_store w) = Inr st1"
    proof -
      obtain batch heads where p: "claim_plan (sv_env V) (sv_claim_nonce V) (oi_intent_id (lr_intent Q)) (sv_broker V)
          (oc_confirmation_id ?c) (oc_fingerprint ?c) (oc_expires_at ?c) (sf_reconciliation_head fence)
          (sf_kill_switch_head fence) (sf_interlock_head fence) (Aware t) (lw_store w) = Inr (batch, heads)"
          "safety_record_if_heads (sv_env V) batch heads (lw_store w) = Inr st1"
        using m Inr claim_and_start_Inr by (metis old.unit.exhaust)
      from claim_plan_InrD [OF assms(2) p(1)] p(2) show ?thesis
        by auto
    qed
    ultimately show ?thesis
      using assms(1) by auto
  qed
qed


lemma calls_of:
  "submissions (w\<lparr>lw_store := st\<rparr>) = submissions w"
  by (simp add: submissions_def)

section \<open>After the claim\<close>

text \<open>No further claim can be planned: a submission is open or the kill switch is on.\<close>

definition trading_stopped :: "event_store \<Rightarrow> bool" where
  "trading_stopped st \<longleftrightarrow> log_ok st \<and> (interlock_active (rows_of interlock_aggregate st) \<or>
     (\<forall>reports. kill_active (rows_of kill_switch_aggregate st) reports))"

lemma stopped_no_claim:
  assumes "trading_stopped st"
  shows "\<not> is_ok (claim_plan E nonce intent_id broker cid fp expires_at rh kh ih at1 st)"
proof
  assume "is_ok (claim_plan E nonce intent_id broker cid fp expires_at rh kh ih at1 st)"
  then obtain batch heads where "claim_plan E nonce intent_id broker cid fp expires_at rh kh ih at1 st = Inr (batch, heads)"
    by (auto simp: is_ok_iff)
  with assms show False
    using claim_plan_InrD by (fastforce simp: trading_stopped_def claim_allowed_def Let_def)
qed

lemma unknown_stops:
  assumes "record_unknown E nonce intent_id sid at1 st = (r, st')" "trading_stopped st"
  shows "trading_stopped st'"
proof (cases "st' = st")
  case False
  obtain k ks where "log_ok st'" "rows_of kill_switch_aggregate st' = ks @ [k]" "er_kind k = ''kill_switch.activated''"
    using killed_row [OF _ disjI2 [OF assms(1)] False] assms(2) by (auto simp: trading_stopped_def)
  then show ?thesis
    using kill_active_stays [of k "[]" ks] by (simp add: trading_stopped_def)
qed (use assms(2) in simp)

lemma persist_unknown_stops:
  assumes "persist_unknown V K Q w = (r, w')" "trading_stopped (lw_store w)"
  shows "trading_stopped (lw_store w')"
  using assms(1) unfolding persist_unknown_def
  by (auto simp: outcome_simps on_store_eq assms(2) dest!: unknown_stops)

lemma give_up_stops:
  assumes "give_up V K Q w = (r, w')" "trading_stopped (lw_store w)"
  shows "trading_stopped (lw_store w') \<and>
    (r = Inl (LiveOrderError ''SUBMISSION_UNKNOWN'') \<or> r = Inl (LiveOrderError ''UNKNOWN_PERSISTENCE_FAILED''))"
proof -
  have p: "x = Inl (LiveOrderError ''UNKNOWN_PERSISTENCE_FAILED'') \<or> x = Inr ()"
    if "persist_unknown V K Q w = (x, w1)" for x w1
    using that unfolding persist_unknown_def by (auto simp: outcome_simps)
  show ?thesis
    using assms persist_unknown_stops p unfolding give_up_def by (auto simp: outcome_simps)
qed

lemma acknowledge_outcome:
  assumes "acknowledge V K Q b w = (r, w')" "trading_stopped (lw_store w)"
  shows "r = Inr b \<or> trading_stopped (lw_store w') \<and>
    (r = Inl (LiveOrderError ''SUBMISSION_UNKNOWN'') \<or> r = Inl (LiveOrderError ''UNKNOWN_PERSISTENCE_FAILED''))"
proof -
  have k: "st' = st" if "record_acknowledgement E nonce intent_id broker oid status sid at1 st = (Inl e, st')"
    for E nonce intent_id broker oid status sid at1 st st' e
    using that unfolding record_acknowledgement_def by (auto simp: outcome_simps)
  let ?m = "then_do (check (live_aware (ck_acknowledge K))) (\<lambda>t.
      then_do (on_store (record_acknowledgement (sv_env V) (sv_ack_nonce V) (oi_intent_id (lr_intent Q)) (sv_broker V)
        (sv_redact V (bo_order_id b)) (order_status_value (bo_status b)) (oc_confirmation_id (lr_confirmation Q))
        (Aware t))) (\<lambda>_. give b))"
  have "r = Inr b \<or> (\<exists>e w1. ?m w = (Inl e, w1) \<and> give_up V K Q w1 = (r, w'))"
    using assms(1) unfolding acknowledge_def rescue_eq by (auto simp: action_simps)
  moreover have "lw_store w1 = lw_store w" if "?m w = (Inl e, w1)" for e w1
    using that by (auto simp: outcome_simps on_store_eq dest: k)
  ultimately show ?thesis
    using give_up_stops assms(2) by metis
qed

section \<open>The log only grows\<close>

definition extending :: "live_world \<Rightarrow> live_world \<Rightarrow> bool" where
  "extending w w' \<longleftrightarrow> (log_ok (lw_store w) \<longrightarrow> grows (lw_store w) (lw_store w'))"

lemma extending_order: "reflp extending" "transp extending"
  by (auto simp: extending_def grows_def intro!: reflpI transpI)

lemma recorded_grows:
  "log_ok st \<Longrightarrow> safety_record_if_heads E batch heads st = Inr st' \<Longrightarrow> grows st st'"
  using safety_record_if_heads_InrD by (fastforce simp: grows_def)

lemma along_extending:
  assumes "\<And>st r st'. m st = (r, st') \<Longrightarrow> log_ok st \<Longrightarrow> grows st st'"
  shows "along extending (on_store m)"
  unfolding along_def extending_def
proof (intro allI impI)
  fix w :: live_world assume "log_ok (lw_store w)"
  then show "grows (lw_store w) (lw_store (snd (on_store m w)))"
    using assms by (cases "m (lw_store w)") (simp add: on_store_def)
qed

lemma unknown_extending: "along extending (on_store (record_unknown E nonce intent_id sid at1))"
proof (rule along_extending)
  fix st r st' assume r: "record_unknown E nonce intent_id sid at1 st = (r, st')" "log_ok st"
  from record_unknown_effect [OF r] show "grows st st'"
    using recorded_grows [OF r(2)] r(2) by (auto simp: grows_def)
qed

lemma acknowledgement_extending:
  "along extending (on_store (record_acknowledgement E nonce intent_id broker oid status sid at1))"
proof (rule along_extending)
  fix st r st' assume r: "record_acknowledgement E nonce intent_id broker oid status sid at1 st = (r, st')" "log_ok st"
  from record_acknowledgement_effect [OF r] show "grows st st'"
    using recorded_grows [OF r(2)] r(2) by (auto simp: grows_def)
qed

lemmas extending_intros = along_intros extending_order unknown_extending acknowledgement_extending

lemma give_up_extending: "along extending (give_up V K Q)"
  unfolding give_up_def persist_unknown_def by (intro extending_intros) (auto intro!: extending_intros)

lemma acknowledge_extending: "along extending (acknowledge V K Q b)"
  unfolding acknowledge_def by (intro extending_intros) (auto intro!: extending_intros give_up_extending)

text \<open>What follows the one submission.\<close>

definition conclude ::
  "live_service \<Rightarrow> broker_answers \<Rightarrow> clock_readings \<Rightarrow> live_request \<Rightarrow> broker_order option \<Rightarrow>
   (live_world, broker_order) action" where
  "conclude V A K Q placed =
     then_do (case placed of Some b \<Rightarrow> give (Some b) | None \<Rightarrow> query_ambiguous V A K Q) (\<lambda>submitted.
     case submitted of None \<Rightarrow> give_up V K Q | Some b \<Rightarrow> acknowledge V K Q b)"

lemma quiet_asking: "along quiet m \<Longrightarrow> along asking m" "along quiet m \<Longrightarrow> along extending m"
  by (auto simp: along_def quiet_def asking_def extending_def grows_def)

lemma conclude_relations: "along asking (conclude V A K Q placed)" "along extending (conclude V A K Q placed)"
  unfolding conclude_def
  by (intro quiet_intros quiet_asking query_quiet give_up_asking acknowledge_asking)
     (intro extending_intros quiet_asking query_quiet give_up_extending acknowledge_extending)

lemma place_order_eq:
  "place_order V A K Q w = (r, w') \<longleftrightarrow> w' = w\<lparr>lw_calls := lw_calls w @ [Submit_call (lr_intent Q) (lr_snapshot Q)]\<rparr> \<and>
     r = Inr (case (ba_submit A, ck_response K) of
         (Some b, Aware t) \<Rightarrow> if valid_acknowledgement b (lr_intent Q) (sv_broker V) t then Some b else None
       | _ \<Rightarrow> None)"
  by (auto simp: place_order_def outcome_simps calling_def)

lemma submit_outcome:
  assumes "submit_confirmed V A K Q w = (r, w')" "log_ok (lw_store w)"
  obtains "quiet w w'" "\<not> is_ok r"
  | t e heads w1 placed w2 where "gates_hold V A K Q (lw_store w) t" "submissions w1 = submissions w"
      "oc_expires_at (lr_confirmation Q) = Aware e"
      "claim_allowed (lw_store w) (sv_broker V) (oc_confirmation_id (lr_confirmation Q))
        (oc_fingerprint (lr_confirmation Q)) e t"
      "safety_record_if_heads (sv_env V) (claim_batch (sv_claim_nonce V) (oi_intent_id (lr_intent Q)) (sv_broker V)
        (oc_confirmation_id (lr_confirmation Q)) (oc_fingerprint (lr_confirmation Q)) e t) heads (lw_store w)
        = Inr (lw_store w1)"
      "place_order V A K Q w1 = (Inr placed, w2)" "conclude V A K Q placed w2 = (r, w')"
proof -
  have run: "then_do (all_gates V A K Q) (\<lambda>(t, fence). then_do (live_claim V Q t fence) (\<lambda>_.
      then_do (place_order V A K Q) (conclude V A K Q))) w = (r, w')"
    using assms(1) by (simp add: submit_confirmed_def conclude_def [abs_def])
  consider (stopped) x where "all_gates V A K Q w = (Inl x, w')" "r = Inl x"
    | (passed) t fence w0 where "all_gates V A K Q w = (Inr (t, fence), w0)"
      "then_do (live_claim V Q t fence) (\<lambda>_. then_do (place_order V A K Q) (conclude V A K Q)) w0 = (r, w')"
    using run by (auto simp: then_do_eq)
  then show thesis
  proof cases
    case stopped
    then show thesis
      using alongD [OF all_gates_quiet stopped(1)] that(1) by simp
  next
    case passed
    note g = all_gates_InrD [OF passed(1)]
    then have q: "lw_store w0 = lw_store w" "submissions w0 = submissions w" "quiet w w0"
      by (simp_all add: quiet_def)
    consider x w1 where "live_claim V Q t fence w0 = (Inl x, w1)" "r = Inl x" "w' = w1"
      | w1 placed w2 where "live_claim V Q t fence w0 = (Inr (), w1)" "place_order V A K Q w1 = (Inr placed, w2)"
        "conclude V A K Q placed w2 = (r, w')"
      using passed(2) by (auto simp: then_do_eq place_order_eq)
    then show thesis
    proof cases
      case 1
      have "w1 = w0"
        using live_claim_outcome [OF 1(1)] assms(2) q by auto
      then show thesis
        using 1 q that(1) by simp
    next
      case 2
      have sub: "submissions w1 = submissions w"
        using live_claim_outcome [OF 2(1)] assms(2) q by (auto simp: submissions_def)
      from live_claim_outcome [OF 2(1)] assms(2) q obtain e heads where "oc_expires_at (lr_confirmation Q) = Aware e"
          "claim_allowed (lw_store w) (sv_broker V) (oc_confirmation_id (lr_confirmation Q))
            (oc_fingerprint (lr_confirmation Q)) e t"
          "safety_record_if_heads (sv_env V) (claim_batch (sv_claim_nonce V) (oi_intent_id (lr_intent Q)) (sv_broker V)
            (oc_confirmation_id (lr_confirmation Q)) (oc_fingerprint (lr_confirmation Q)) e t) heads (lw_store w)
            = Inr (lw_store w1)"
        by auto
      from that(2) [OF conjunct1 [OF g] sub this 2(2,3)] show thesis .
    qed
  qed
qed

lemma scan_resolves:
  assumes "er_kind r = ''live.interlock_started''" "pget r ''submission_id'' = Some (JStr x)"
    and "er_kind q = ''live.interlock_resolved''" "pget q ''submission_id'' = Some (JStr x)"
  shows "interlock_scan s a rows = Some False \<Longrightarrow> interlock_scan s a (rows @ [r, q]) = Some False"
  using assms by (induction s a rows rule: interlock_scan.induct) (auto split: if_splits option.splits json.splits)

lemma record_acknowledgement_Inr:
  assumes "record_acknowledgement E nonce intent_id broker oid status sid at1 st = (Inr u, st')"
  shows "\<exists>t heads. at1 = Aware t \<and>
    safety_record_if_heads E (acknowledgement_batch nonce intent_id broker oid status sid t) heads st = Inr st'"
  using assms unfolding record_acknowledgement_def by (auto simp: action_simps safety_aware_def result_simps)

text \<open>A claim and its acknowledgement leave no submission open.\<close>

lemma acknowledged_closed:
  assumes "log_ok st" "\<not> interlock_active (rows_of interlock_aggregate st)"
    and c: "safety_record_if_heads E (claim_batch nonce intent_id broker cid fp e t) heads st = Inr st1"
    and a: "safety_record_if_heads E (acknowledgement_batch nonce' intent_id broker' oid status cid t') heads' st1 = Inr st2"
  shows "\<exists>claim ack. es_rows st2 = es_rows st @ claim @ ack \<and>
    list_all2 (signed_as E) (claim_batch nonce intent_id broker cid fp e t) claim \<and>
    list_all2 (signed_as E) (acknowledgement_batch nonce' intent_id broker' oid status cid t') ack \<and>
    (intent_id \<noteq> interlock_aggregate \<longrightarrow> \<not> interlock_active (rows_of interlock_aggregate st2)) \<and> log_ok st2"
proof -
  obtain r1 r2 r3 r4 where r: "es_rows st1 = es_rows st @ [r1, r2, r3, r4]"
    and rs: "list_all2 (signed_as E) (claim_batch nonce intent_id broker cid fp e t) [r1, r2, r3, r4]"
    using claim_write [OF assms(1) c] by blast
  have ok1: "log_ok st1"
    using safety_record_if_heads_InrD [OF assms(1) c] by blast
  obtain q1 q2 where q: "es_rows st2 = es_rows st1 @ [q1, q2]" "log_ok st2"
    and qs: "list_all2 (signed_as E) (acknowledgement_batch nonce' intent_id broker' oid status cid t') [q1, q2]"
    using safety_record_if_heads_InrD [OF ok1 a] by (force simp: acknowledgement_batch_def list_all2_Cons1)
  have s4: "signed_as E (last (claim_batch nonce intent_id broker cid fp e t)) r4"
    and s2: "signed_as E (last (acknowledgement_batch nonce' intent_id broker' oid status cid t')) q2"
    using rs qs by (simp_all add: batch_defs)
  have k: "er_kind r4 = ''live.interlock_started''" "pget r4 ''submission_id'' = Some (JStr cid)"
      "er_kind q2 = ''live.interlock_resolved''" "pget q2 ''submission_id'' = Some (JStr cid)"
    using s4 s2 signed_pget [OF s4] signed_pget [OF s2] by (simp_all add: batch_defs signed_as_def flat_defs)
  have g: "er_aggregate_id r4 = interlock_aggregate" "er_aggregate_id q2 = interlock_aggregate"
      "er_aggregate_id r2 = confirmation_aggregate cid" "er_aggregate_id r1 = intent_id" "er_aggregate_id r3 = intent_id"
      "er_aggregate_id q1 = intent_id"
    using rs qs by (simp_all add: batch_defs signed_as_def)
  have "\<not> interlock_active (rows_of interlock_aggregate st2)" if "intent_id \<noteq> interlock_aggregate"
  proof -
    have "rows_of interlock_aggregate st2 = rows_of interlock_aggregate st @ [r4, q2]"
      using that rows_of_append [OF r, of interlock_aggregate] rows_of_append [OF q(1), of interlock_aggregate] g by simp
    moreover have "interlock_scan [] False (rows_of interlock_aggregate st) = Some False"
      using assms(2) by (auto simp: interlock_active_def split: option.splits)
    ultimately show ?thesis
      using scan_resolves [OF k] by (simp add: interlock_active_def)
  qed
  moreover have "es_rows st2 = es_rows st @ [r1, r2, r3, r4] @ [q1, q2]"
    using r q(1) by simp
  ultimately show ?thesis
    using q(2) rs qs by blast
qed

lemma acknowledge_Inr:
  assumes "acknowledge V K Q b w = (Inr x, w')"
  shows "x = b \<and> (\<exists>t heads. ck_acknowledge K = Aware t \<and>
    safety_record_if_heads (sv_env V) (acknowledgement_batch (sv_ack_nonce V) (oi_intent_id (lr_intent Q)) (sv_broker V)
      (sv_redact V (bo_order_id b)) (order_status_value (bo_status b)) (oc_confirmation_id (lr_confirmation Q)) t) heads
      (lw_store w) = Inr (lw_store w'))"
  using assms unfolding acknowledge_def give_up_def
  by (auto simp: action_simps on_store_eq live_aware_Inr dest!: record_acknowledgement_Inr)

text \<open>The answers of the broker that count.\<close>

definition answered ::
  "live_service \<Rightarrow> broker_answers \<Rightarrow> clock_readings \<Rightarrow> live_request \<Rightarrow> broker_order \<Rightarrow> bool" where
  "answered V A K Q b \<longleftrightarrow>
     (ba_submit A = Some b \<and> (\<exists>t. ck_response K = Aware t \<and> valid_acknowledgement b (lr_intent Q) (sv_broker V) t)) \<or>
     (ba_query A = Some b \<and> (\<exists>t. ck_query K = Aware t \<and> valid_acknowledgement b (lr_intent Q) (sv_broker V) t))"

lemma conclude_Inr:
  assumes "place_order V A K Q w0 = (Inr placed, w)" "conclude V A K Q placed w = (Inr b, w')"
  shows "answered V A K Q b \<and> (\<exists>w1. lw_store w1 = lw_store w0 \<and> acknowledge V K Q b w1 = (Inr b, w'))"
proof -
  obtain s w1 where s: "(case placed of Some b \<Rightarrow> give (Some b) | None \<Rightarrow> query_ambiguous V A K Q) w = (Inr s, w1)"
      "(case s of None \<Rightarrow> give_up V K Q | Some b \<Rightarrow> acknowledge V K Q b) w1 = (Inr b, w')"
    using assms(2) by (auto simp: conclude_def action_simps)
  then obtain b' where b': "s = Some b'" "acknowledge V K Q b' w1 = (Inr b, w')"
    by (cases s) (auto simp: give_up_def action_simps)
  then have a: "s = Some b" "acknowledge V K Q b w1 = (Inr b, w')"
    using acknowledge_Inr [OF b'(2)] by simp_all
  have "lw_store w1 = lw_store w0"
    using s(1) assms(1) alongD [OF query_quiet] by (auto simp: give_eq quiet_def place_order_eq split: option.splits)
  moreover have "answered V A K Q b"
  proof (cases placed)
    case None
    then show ?thesis
      using s(1) a(1) by (auto simp: answered_def query_ambiguous_def action_simps live_aware_Inr calling_def
          split: option.splits if_splits)
  next
    case (Some b')
    then show ?thesis
      using s(1) a(1) assms(1) by (auto simp: answered_def place_order_eq give_eq split: option.splits pydt.splits if_splits)
  qed
  ultimately show ?thesis
    using a(2) by blast
qed

section \<open>Properties\<close>

text \<open>C2: a live order is submitted only after every gate and after its claim is durable, and at most once:
  either no submission is made, the log is unchanged and an exception is returned, or exactly the given
  order is submitted once, and then every gate held on the log before, the claim was allowed there, and
  the log is that log followed by the four signed rows of the claim and what was recorded afterwards.\<close>

theorem one_submission_after_every_gate:
  assumes "submit_confirmed V A K Q w = (r, w')" "log_ok (lw_store w)"
  shows "(submissions w' = submissions w \<and> lw_store w' = lw_store w \<and> \<not> is_ok r) \<or>
    (submissions w' = submissions w @ [Submit_call (lr_intent Q) (lr_snapshot Q)] \<and>
     (\<exists>t e claim later. gates_hold V A K Q (lw_store w) t \<and> oc_expires_at (lr_confirmation Q) = Aware e \<and>
        claim_allowed (lw_store w) (sv_broker V) (oc_confirmation_id (lr_confirmation Q))
          (oc_fingerprint (lr_confirmation Q)) e t \<and>
        es_rows (lw_store w') = es_rows (lw_store w) @ claim @ later \<and>
        list_all2 (signed_as (sv_env V)) (claim_batch (sv_claim_nonce V) (oi_intent_id (lr_intent Q)) (sv_broker V)
          (oc_confirmation_id (lr_confirmation Q)) (oc_fingerprint (lr_confirmation Q)) e t) claim))"
proof (rule submit_outcome [OF assms])
  fix t e heads w1 placed w2
  assume o: "gates_hold V A K Q (lw_store w) t" "submissions w1 = submissions w"
      "oc_expires_at (lr_confirmation Q) = Aware e"
      "claim_allowed (lw_store w) (sv_broker V) (oc_confirmation_id (lr_confirmation Q))
        (oc_fingerprint (lr_confirmation Q)) e t"
      "safety_record_if_heads (sv_env V) (claim_batch (sv_claim_nonce V) (oi_intent_id (lr_intent Q)) (sv_broker V)
        (oc_confirmation_id (lr_confirmation Q)) (oc_fingerprint (lr_confirmation Q)) e t) heads (lw_store w)
        = Inr (lw_store w1)"
      "place_order V A K Q w1 = (Inr placed, w2)" "conclude V A K Q placed w2 = (r, w')"
  have w2: "lw_store w2 = lw_store w1" "submissions w2 = submissions w @ [Submit_call (lr_intent Q) (lr_snapshot Q)]"
    using o(2,6) by (simp_all add: place_order_eq submissions_def)
  note c = safety_record_if_heads_InrD [OF assms(2) o(5)]
  have "submissions w' = submissions w2" "grows (lw_store w2) (lw_store w')"
    using alongD [OF conclude_relations(1) o(7)] alongD [OF conclude_relations(2) o(7)] c w2
    by (auto simp: asking_def extending_def)
  then show ?thesis
    using o(1,3,4) w2 c by (fastforce simp: grows_def)
qed (auto simp: quiet_def)

lemma conclude_stops:
  assumes "conclude V A K Q placed w = (Inl x, w')" "trading_stopped (lw_store w)"
  shows "trading_stopped (lw_store w')"
proof -
  consider s w1 where "(case placed of Some b \<Rightarrow> give (Some b) | None \<Rightarrow> query_ambiguous V A K Q) w = (Inr s, w1)"
      "(case s of None \<Rightarrow> give_up V K Q | Some b \<Rightarrow> acknowledge V K Q b) w1 = (Inl x, w')"
    | "query_ambiguous V A K Q w = (Inl x, w')"
    using assms(1) by (auto simp: conclude_def then_do_eq give_eq split: option.splits)
  then show ?thesis
  proof cases
    case 1
    have "lw_store w1 = lw_store w"
      using 1(1) alongD [OF query_quiet] by (auto simp: give_eq quiet_def split: option.splits)
    then show ?thesis
      using 1(2) assms(2) give_up_stops acknowledge_outcome by (fastforce split: option.splits)
  next
    case 2
    then show ?thesis
      using alongD [OF query_quiet] assms(2) by (simp add: quiet_def)
  qed
qed

text \<open>C4: an ambiguous submission stops trading: if an order was submitted and the service then raised, for
  whatever reason (no valid answer, a failed acknowledgement or a failed record of the unknown state), a
  submission is still open or the kill switch is on, so that every further claim on the log fails.\<close>

theorem ambiguity_stops_trading:
  assumes "submit_confirmed V A K Q w = (Inl x, w')" "log_ok (lw_store w)" "submissions w' \<noteq> submissions w"
  shows "trading_stopped (lw_store w') \<and>
    \<not> is_ok (claim_plan E nonce intent_id broker cid fp expires_at rh kh ih at1 (lw_store w'))"
proof (rule submit_outcome [OF assms(1,2)])
  fix t e heads w1 placed w2
  assume o: "safety_record_if_heads (sv_env V) (claim_batch (sv_claim_nonce V) (oi_intent_id (lr_intent Q)) (sv_broker V)
        (oc_confirmation_id (lr_confirmation Q)) (oc_fingerprint (lr_confirmation Q)) e t) heads (lw_store w)
        = Inr (lw_store w1)"
      "place_order V A K Q w1 = (Inr placed, w2)" "conclude V A K Q placed w2 = (Inl x, w')"
  have "trading_stopped (lw_store w2)"
    using claim_opens [OF assms(2) o(1)] safety_record_if_heads_InrD [OF assms(2) o(1)] o(2)
    by (simp add: trading_stopped_def place_order_eq)
  then show ?thesis
    using conclude_stops [OF o(3)] stopped_no_claim by blast
qed (use assms(3) in \<open>simp add: quiet_def\<close>)

text \<open>C28: a returned order is an acknowledged one: when the service returns an order, the broker gave it as
  its answer to the submission or to the query, it is a valid acknowledgement of the intent, and the log has
  grown by exactly the signed claim and the signed acknowledgement, which carries the status of the order
  and its redacted identifier; no submission is left open, except that an intent named like the interlock
  aggregate keeps it blocked.\<close>

theorem returned_order_is_acknowledged:
  assumes "submit_confirmed V A K Q w = (Inr b, w')" "log_ok (lw_store w)"
  shows "answered V A K Q b \<and> (\<exists>t e t' claim ack. es_rows (lw_store w') = es_rows (lw_store w) @ claim @ ack \<and>
      list_all2 (signed_as (sv_env V)) (claim_batch (sv_claim_nonce V) (oi_intent_id (lr_intent Q)) (sv_broker V)
        (oc_confirmation_id (lr_confirmation Q)) (oc_fingerprint (lr_confirmation Q)) e t) claim \<and>
      list_all2 (signed_as (sv_env V)) (acknowledgement_batch (sv_ack_nonce V) (oi_intent_id (lr_intent Q)) (sv_broker V)
        (sv_redact V (bo_order_id b)) (order_status_value (bo_status b)) (oc_confirmation_id (lr_confirmation Q)) t') ack) \<and>
    (oi_intent_id (lr_intent Q) \<noteq> interlock_aggregate \<longrightarrow> \<not> interlock_active (rows_of interlock_aggregate (lw_store w')))"
proof (rule submit_outcome [OF assms])
  fix t e heads w1 placed w2
  assume o: "claim_allowed (lw_store w) (sv_broker V) (oc_confirmation_id (lr_confirmation Q))
        (oc_fingerprint (lr_confirmation Q)) e t"
      "safety_record_if_heads (sv_env V) (claim_batch (sv_claim_nonce V) (oi_intent_id (lr_intent Q)) (sv_broker V)
        (oc_confirmation_id (lr_confirmation Q)) (oc_fingerprint (lr_confirmation Q)) e t) heads (lw_store w)
        = Inr (lw_store w1)"
      "place_order V A K Q w1 = (Inr placed, w2)" "conclude V A K Q placed w2 = (Inr b, w')"
  obtain w3 where a: "answered V A K Q b" "lw_store w3 = lw_store w1" "acknowledge V K Q b w3 = (Inr b, w')"
    using conclude_Inr [OF o(3,4)] by blast
  obtain t' heads' where "safety_record_if_heads (sv_env V) (acknowledgement_batch (sv_ack_nonce V)
      (oi_intent_id (lr_intent Q)) (sv_broker V) (sv_redact V (bo_order_id b)) (order_status_value (bo_status b))
      (oc_confirmation_id (lr_confirmation Q)) t') heads' (lw_store w1) = Inr (lw_store w')"
    using acknowledge_Inr [OF a(3)] a(2) by auto
  from acknowledged_closed [OF assms(2) _ o(2) this] o(1) a(1) show ?thesis
    unfolding claim_allowed_def by blast
qed simp

end
