(* ===== verification/Confirmations.thy ===== *)
theory Confirmations
  imports Approval
begin

text \<open>
  The properties of the approval service: a created confirmation verifies until it expires, and
  one confirmation covers one order only; with a concrete order on which they are applied.
\<close>

section \<open>Issuing goes through\<close>

lemma issue_goes_through:
  assumes "authentic E st" "b \<noteq> []" "created < expires" "expires - created \<le> seconds 300"
    and "sha256_shape fp" "sha256_shape risk" "new_nonce seed = Inr x" "new_nonce source = Inr nonce"
    and cid: "cid = confirmation_id E seed" and "list_all (fits E) (issue_batch cid nonce b created expires fp risk)"
    and "rows_of (confirmation_aggregate cid) st = []" "''confirmation-issued-'' @ cid \<notin> er_event_id ` set (es_rows st)"
  shows "\<exists>mac st'. issue_confirmation E seed source confirmation_phrase b (Aware created) (Aware expires) fp risk st =
    (Inr (cid, nonce, mac), st') \<and> authentic E st'"
proof -
  let ?b = "issue_batch cid nonce b created expires fp risk"
  have ok: "log_ok st"
    using assms(1) by (simp add: authentic_def)
  have d: "?b \<noteq> []" "distinct (map ea_event_id ?b)" "set (map ea_event_id ?b) \<inter> er_event_id ` set (es_rows st) = {}"
    using assms(12) by (simp_all add: issue_batch_def)
  note rf = record_fits [OF ok d(1) assms(10) d(2,3)]
  have "validate_heads [(confirmation_aggregate cid, None)] = Inr ()"
    by (simp add: validate_heads_def max_collection_items_def confirmation_aggregate_def)
  then obtain st' where w: "safety_record_if_heads E ?b [(confirmation_aggregate cid, None)] st = Inr st'"
    using rf(2,3) assms(11) by (auto simp: is_ok_iff last_id_def)
  have au: "authentic E st'"
    using recorded_authentic [OF assms(1) fits_authentic [OF assms(10)]] w by blast
  obtain r where r: "es_rows st' = es_rows st @ [r]" "signed_as E (hd ?b) r"
    using safety_record_if_heads_InrD [OF ok w] by (auto simp: issue_batch_def list_all2_Cons1)
  have rows: "rows_of (confirmation_aggregate cid) st' = [r]"
    using rows_of_append [OF r(1)] assms(11) r(2) by (simp add: issue_batch_def signed_as_def)
  have id: "er_event_id r = ''confirmation-issued-'' @ cid"
    using r(2) by (simp add: issue_batch_def signed_as_def)
  have fl: "flat_payload [(''broker'', JStr b), (''created_at'', JStr (micro_text created)),
      (''expires_at'', JStr (micro_text expires)), (''fingerprint'', JStr fp), (''nonce'', JStr nonce),
      (''risk_decision_hash'', JStr risk)]"
    by (simp add: flat_defs)
  obtain m where m: "pget r mac_field = Some (JStr (se_sign E m))"
    using signed_stores_mac [OF r(2) _ fl] by (auto simp: issue_batch_def)
  have sv: "stream_verified E (confirmation_aggregate cid) st' = Inr [r]"
    using authentic_stream [OF au, of "confirmation_aggregate cid"] rows by (simp add: confirmation_aggregate_def)
  have "issue_confirmation E seed source confirmation_phrase b (Aware created) (Aware expires) fp risk st =
      (Inr (cid, nonce, se_sign E m), st')"
    using assms(2-8) id m
    by (simp add: issue_confirmation_def exact_text_def safety_aware_def sha256_shape_text [THEN iffD2] Let_def
        cid [symmetric] then_do_steps(1) [where f = "safety_record_if_heads _ _ _", OF w] then_do_steps(2) [where h = "stream_verified _ _", OF sv] check_def)
  then show ?thesis
    using au by blast
qed

lemma create_goes_through:
  assumes "authentic E st" "resolve_broker i broker = Inr b" "0 < lifetime" "lifetime \<le> confirmation_lifetime"
    and "validate_intent i (Some t) = Inr ()" "validate_risk i d t = Inr ()"
    and "fingerprint E i d b (t + lifetime) = Inr fp" "risk_decision_hash E d = Inr risk" "sha256_shape fp" "sha256_shape risk"
    and "new_nonce seed = Inr x" "new_nonce source = Inr nonce"
    and "list_all (fits E) (issue_batch (confirmation_id E seed) nonce b t (t + lifetime) fp risk)"
    and "rows_of (confirmation_aggregate (confirmation_id E seed)) st = []"
    and "''confirmation-issued-'' @ confirmation_id E seed \<notin> er_event_id ` set (es_rows st)"
  shows "\<exists>c st'. create_confirmation E seed source (Aware t) i d confirmation_phrase broker lifetime st = (Inr c, st') \<and>
    authentic E st'"
proof -
  have "b \<noteq> []"
    using assms(2) by (auto simp: resolve_broker_def broker_text_def split: option.splits if_splits)
  then obtain mac st' where iss: "issue_confirmation E seed source confirmation_phrase b (Aware t) (Aware (t + lifetime)) fp risk st =
      (Inr (confirmation_id E seed, nonce, mac), st')" and au: "authentic E st'"
    using issue_goes_through [OF assms(1) _ _ _ assms(9-12) refl assms(13-15)] assms(3,4)
    by (auto simp: confirmation_lifetime_def)
  have "rescue (then_do (check (Inr risk)) (issue_confirmation E seed source confirmation_phrase b (Aware t)
      (Aware (t + lifetime)) fp)) h st = (Inr (confirmation_id E seed, nonce, mac), st')" for h
    by (simp add: rescue_def iss)
  then show ?thesis
    using assms(2-8) au
    by (simp add: create_confirmation_def approval_aware_def Let_def then_do_steps(3) [where m = "rescue _ _"]) (simp add: give_def)
qed


section \<open>A concrete order\<close>

definition demo_intent :: order_intent where
  "demo_intent = \<lparr>oi_intent_id = ''i1'', oi_instrument_id = ''ABC@alpaca'', oi_side = BUY, oi_quantity = Some 2,
     oi_notional = None, oi_order_type = LIMIT, oi_limit_price = Some (21 / 2), oi_stop_loss = Some 9,
     oi_take_profit = Some 15, oi_time_in_force = ''day'', oi_product = ''cash'', oi_session = ''regular'',
     oi_snapshot_hash = ''h1'', oi_created_at = 0, oi_expires_at = seconds 600, oi_trigger_price = None\<rparr>"

definition demo_decision :: risk_decision where
  "demo_decision = \<lparr>rd_approved = True, rd_reason_codes = [], rd_approved_quantity = Some 2,
     rd_approved_notional = Some 21, rd_portfolio_hash = ''h1'', rd_decided_at = 0, rd_expires_at = seconds 60\<rparr>"

text \<open>A digest that tells the messages of the example apart by their lengths.\<close>

fun spread :: "char \<Rightarrow> string" where
  "spread (Char b0 b1 b2 b3 b4 b5 b6 b7) = replicate 64 (Char b0 b1 b2 b3 b4 b5 b6 b7)"

definition length_digest :: "string \<Rightarrow> string" where
  "length_digest m = spread (hex_digit_char (nat (int (length m) mod 16)))"

definition approval_env :: safety_env where
  "approval_env = \<lparr>se_sha = length_digest, se_sign = length_digest, se_unicode = demo_unicode\<rparr>"

lemma length_digest_shape: "sha256_shape (length_digest m)"
proof -
  have "spread c = replicate 64 c" for c
    by (cases c) simp
  then show ?thesis
    using hex_digit_hex [of "nat (int (length m) mod 16)"] by (simp add: sha256_shape_def length_digest_def list_all_iff)
qed

lemma demo_validations:
  "resolve_broker demo_intent None = Inr ''alpaca''" "validate_intent demo_intent (Some 1) = Inr ()"
  "validate_risk demo_intent demo_decision 1 = Inr ()"
  by code_simp+

lemma demo_messages:
  "risk_decision_hash approval_env demo_decision = Inr (replicate 64 (CHR ''5''))"
  "fingerprint approval_env demo_intent demo_decision ''alpaca'' 100000001 = Inr (replicate 64 (CHR ''f''))"
  "fingerprint approval_env (demo_intent\<lparr>oi_intent_id := ''i25''\<rparr>) demo_decision ''alpaca'' 100000001 =
     Inr (replicate 64 (CHR ''0''))"
  by code_simp+

definition demo_seed :: string where
  "demo_seed = replicate 16 (CHR ''w'')"

definition demo_cid :: string where
  "demo_cid = confirmation_id approval_env (Some demo_seed)"

definition demo_issue :: "event_append list" where
  "demo_issue = issue_batch demo_cid (replicate 32 (CHR ''7'')) ''alpaca'' 1 100000001
     (replicate 64 (CHR ''f'')) (replicate 64 (CHR ''5''))"

lemma demo_issue_fits: "list_all (fits approval_env) demo_issue" "new_nonce (Some demo_seed) = Inr (replicate 32 (CHR ''7''))"
  by code_simp+

lemma demo_created:
  obtains c st where "create_confirmation approval_env (Some demo_seed) (Some demo_seed) (Aware 1) demo_intent demo_decision
      confirmation_phrase None 100000000 empty_store = (Inr c, st)" "authentic approval_env st"
proof -
  have sh: "sha256_shape (replicate 64 (CHR ''f''))" "sha256_shape (replicate 64 (CHR ''5''))"
    by (simp_all add: sha256_shape_def is_hex_def list_all_iff)
  have l: "(0::int) < 100000000" "(100000000::int) \<le> confirmation_lifetime"
    by (simp_all add: confirmation_lifetime_def seconds_def)
  have e: "rows_of (confirmation_aggregate (confirmation_id approval_env (Some demo_seed))) empty_store = []"
      "''confirmation-issued-'' @ confirmation_id approval_env (Some demo_seed) \<notin> er_event_id ` set (es_rows empty_store)"
    by simp_all
  have "fingerprint approval_env demo_intent demo_decision ''alpaca'' (1 + 100000000) = Inr (replicate 64 (CHR ''f''))"
    using demo_messages(2) by simp
  from create_goes_through [OF authentic_empty demo_validations(1) l demo_validations(2,3) this demo_messages(1) sh
      demo_issue_fits(2) demo_issue_fits(2) _ e] demo_issue_fits(1)
  show ?thesis
    using that by (auto simp: demo_issue_def demo_cid_def)
qed

section \<open>Properties\<close>

text \<open>C25: a created confirmation verifies until it expires: when the service has created a confirmation for
  an order, every later verification of the same order, decision and broker succeeds on any log
  that extends the one it left and still authenticates, as long as neither the confirmation nor
  the order nor the risk decision has expired.  SHA-256 and the HMAC return 64 hex digits.\<close>

theorem created_confirmation_verifies:
  assumes "create_confirmation E seed source (Aware t) i d phrase broker lifetime st = (Inr c, st')" "log_ok st"
    and "\<And>m. sha256_shape (se_sha E m)" "\<And>m. sha256_shape (se_sign E m)"
    and "authentic E st''" "es_rows st'' = es_rows st' @ later"
    and "t \<le> t'" "t' < t + lifetime" "t' < oi_expires_at i" "t' < rd_expires_at d"
  shows "verify_confirmation E (Aware t') i d c broker st'' = Inr ()"
  by (rule created_verifies [OF assms])

lemma approval_env_shapes: "sha256_shape (se_sha approval_env m)" "sha256_shape (se_sign approval_env m)"
  by (simp_all add: approval_env_def length_digest_shape)

theorem created_confirmation_verifies_witness:
  "\<exists>c st. create_confirmation approval_env (Some demo_seed) (Some demo_seed) (Aware 1) demo_intent demo_decision
      confirmation_phrase None 100000000 empty_store = (Inr c, st) \<and>
     verify_confirmation approval_env (Aware 2) demo_intent demo_decision c None st = Inr ()"
proof -
  obtain c st where c: "create_confirmation approval_env (Some demo_seed) (Some demo_seed) (Aware 1) demo_intent demo_decision
      confirmation_phrase None 100000000 empty_store = (Inr c, st)" "authentic approval_env st"
    by (rule demo_created)
  have e: "es_rows st = es_rows st @ []"
    by simp
  have x: "2 < oi_expires_at demo_intent" "2 < rd_expires_at demo_decision"
    by (simp_all add: demo_intent_def demo_decision_def seconds_def)
  have "verify_confirmation approval_env (Aware 2) demo_intent demo_decision c None st = Inr ()"
    by (rule created_confirmation_verifies [OF c(1) log_ok_empty approval_env_shapes c(2) e _ _ x]) simp_all
  with c show ?thesis
    by blast
qed

text \<open>C26: one confirmation covers one order: if the same confirmation verifies for two orders with their risk
  decisions, whenever and on whatever logs, the orders agree in every field and so do the
  decisions, provided that SHA-256 has no collision among the messages hashed for them and that
  all times lie in the calendar.\<close>

theorem confirmation_covers_one_order:
  assumes "verify_confirmation E now i d c broker st = Inr ()" "verify_confirmation E now' i' d' c broker' st' = Inr ()"
    and "oc_expires_at c = Aware e" "calendar_instant e" "dated i d" "dated i' d'"
    and "inj_on (se_sha E) (hashed E i d (oc_broker c) e \<union> hashed E i' d' (oc_broker c) e)"
  shows "i = i' \<and> d = d'"
proof -
  have "fingerprint E i d (oc_broker c) e = Inr (oc_fingerprint c)" "fingerprint E i' d' (oc_broker c) e = Inr (oc_fingerprint c)"
    using verify_confirmation_InrD [OF assms(1)] verify_confirmation_InrD [OF assms(2)] assms(3)
    by (auto simp: confirmation_matches_def)
  then show ?thesis
    using fingerprint_inj assms(4-7) by blast
qed

definition other_intent :: order_intent where
  "other_intent = demo_intent\<lparr>oi_intent_id := ''i25''\<rparr>"

lemma demo_hashes:
  assumes "m \<in> hashed approval_env demo_intent demo_decision ''alpaca'' 100000001 \<union>
    hashed approval_env other_intent demo_decision ''alpaca'' 100000001"
  shows "se_sha approval_env m = replicate 64 (CHR ''5'') \<and> (\<exists>p. risk_payload demo_decision = Inr p \<and> m = domain_message risk_domain p) \<or>
    se_sha approval_env m = replicate 64 (CHR ''f'') \<and>
      (\<exists>p. fingerprint_payload approval_env demo_intent demo_decision ''alpaca'' 100000001 = Inr p \<and> m = domain_message fingerprint_domain p) \<or>
    se_sha approval_env m = replicate 64 (CHR ''0'') \<and>
      (\<exists>p. fingerprint_payload approval_env other_intent demo_decision ''alpaca'' 100000001 = Inr p \<and> m = domain_message fingerprint_domain p)"
  using assms demo_messages
  by (auto simp: hashed_def risk_decision_hash_def fingerprint_def domain_hash_def other_intent_def result_simps)

lemma demo_collision_free:
  "inj_on (se_sha approval_env) (hashed approval_env demo_intent demo_decision ''alpaca'' 100000001 \<union>
    hashed approval_env other_intent demo_decision ''alpaca'' 100000001)"
proof (rule inj_onI)
  have ne: "replicate 64 (CHR ''5'') \<noteq> replicate 64 (CHR ''f'')" "replicate 64 (CHR ''5'') \<noteq> replicate 64 (CHR ''0'')"
      "replicate 64 (CHR ''f'') \<noteq> replicate 64 (CHR ''0'')"
    by simp_all
  fix x y
  assume xy: "x \<in> hashed approval_env demo_intent demo_decision ''alpaca'' 100000001 \<union>
      hashed approval_env other_intent demo_decision ''alpaca'' 100000001"
    "y \<in> hashed approval_env demo_intent demo_decision ''alpaca'' 100000001 \<union>
      hashed approval_env other_intent demo_decision ''alpaca'' 100000001"
    "se_sha approval_env x = se_sha approval_env y"
  show "x = y"
    using demo_hashes [OF xy(1)] demo_hashes [OF xy(2)] xy(3) ne by (elim disjE conjE exE) simp_all
qed

text \<open>The confirmation of the example verifies for its order and for no other intent identifier.\<close>

theorem confirmation_covers_one_order_witness:
  "\<exists>c st. verify_confirmation approval_env (Aware 2) demo_intent demo_decision c None st = Inr () \<and>
     verify_confirmation approval_env (Aware 2) other_intent demo_decision c None st \<noteq> Inr ()"
proof -
  obtain c st where c: "create_confirmation approval_env (Some demo_seed) (Some demo_seed) (Aware 1) demo_intent demo_decision
      confirmation_phrase None 100000000 empty_store = (Inr c, st)" "authentic approval_env st"
    by (rule demo_created)
  have e: "es_rows st = es_rows st @ []"
    by simp
  have x: "2 < oi_expires_at demo_intent" "2 < rd_expires_at demo_decision"
    by (simp_all add: demo_intent_def demo_decision_def seconds_def)
  have v: "verify_confirmation approval_env (Aware 2) demo_intent demo_decision c None st = Inr ()"
    by (rule created_verifies [OF c(1) log_ok_empty approval_env_shapes c(2) e _ _ x]) simp_all
  have cx: "oc_expires_at c = Aware 100000001" "oc_broker c = ''alpaca''"
    using create_confirmation_InrD [OF c(1)] demo_validations(1) by auto
  have k: "calendar_instant 100000001" "dated demo_intent demo_decision" "dated other_intent demo_decision"
    by (simp_all add: dated_def demo_intent_def other_intent_def demo_decision_def calendar_instant_def seconds_def)
  have "demo_intent \<noteq> other_intent"
    by (simp add: demo_intent_def other_intent_def)
  then have "verify_confirmation approval_env (Aware 2) other_intent demo_decision c None st \<noteq> Inr ()"
    using confirmation_covers_one_order [OF v _ cx(1) k] demo_collision_free cx(2) by metis
  with v show ?thesis
    by blast
qed
end
