(* ===== verification/ReconcileFacts.thy ===== *)
theory ReconcileFacts
  imports Reconcile SafetyLive
begin

text \<open>
  What the reconciler's verdict means: a report is healthy exactly when the broker's account and
  the ledger agree, and a healthy report is the current one, opening the fence, for a minute.
\<close>

section \<open>Keyed comparison\<close>

lemma by_key_distinct: "distinct (map f xs) \<Longrightarrow> by_key f xs = map (\<lambda>x. (f x, x)) xs"
proof -
  assume d: "distinct (map f xs)"
  have fold: "foldl (\<lambda>d x. dset (f x) x d) d xs = foldl (\<lambda>a (k, v). dset k v a) d (map (\<lambda>x. (f x, x)) xs)" for d
    by (induction xs arbitrary: d) simp_all
  show ?thesis
    using d unfolding by_key_def fold by (subst rebuild_dict) (simp_all add: comp_def)
qed

lemma reason_if_Nil [simp]: "reason_if c r = [] \<longleftrightarrow> \<not> c"
  by (simp add: reason_if_def)

lemma keyed_agreement:
  assumes "distinct (map f xs)" "distinct (map g ys)" and r: "\<And>x y. r x y = [] \<longleftrightarrow> u x = v y"
  defines "a \<equiv> by_key f xs" and "e \<equiv> by_key g ys"
  shows "key_reasons a e (length xs) unknown missing @ common_reasons r a e = [] \<longleftrightarrow>
    (\<lambda>x. (f x, u x)) ` set xs = (\<lambda>y. (g y, v y)) ` set ys"
proof -
  have ae: "a = map (\<lambda>x. (f x, x)) xs" "e = map (\<lambda>y. (g y, y)) ys"
    using assms(1,2) by (simp_all add: a_def e_def by_key_distinct)
  have ok: "dict_ok e"
    using assms(2) by (simp add: ae dict_ok_def comp_def)
  have d: "dget e k = Some y \<longleftrightarrow> y \<in> set ys \<and> g y = k" for k y
    unfolding dget_Some_iff [OF ok] by (auto simp: ae)
  have cr: "common_reasons r a e = [] \<longleftrightarrow> (\<forall>x \<in> set xs. \<forall>y \<in> set ys. g y = f x \<longrightarrow> u x = v y)"
    unfolding common_reasons_def by (auto simp: ae(1) r d split: option.splits)
  have kr: "key_reasons a e (length xs) unknown missing = [] \<longleftrightarrow>
      (\<forall>x \<in> set xs. \<exists>y \<in> set ys. g y = f x) \<and> (\<forall>y \<in> set ys. \<exists>x \<in> set xs. f x = g y)"
  proof -
    have k: "dkeys a = map f xs" "dkeys e = map g ys" "length a = length xs"
      by (simp_all add: ae comp_def)
    have m: "list_ex (\<lambda>k. k \<notin> set (map h ws)) (map h' zs) \<longleftrightarrow> (\<exists>z \<in> set zs. \<forall>w \<in> set ws. h w \<noteq> h' z)"
      for h :: "'x \<Rightarrow> string" and ws and h' :: "'y \<Rightarrow> string" and zs
      by (induction zs) (auto, metis imageI)
    show ?thesis
      unfolding key_reasons_def append_is_Nil_conv reason_if_Nil k m by blast
  qed
  have uniq: "y = y'" if "y \<in> set ys" "y' \<in> set ys" "g y = g y'" for y y'
    using assms(2) that by (simp add: distinct_map inj_on_def)
  show ?thesis
  proof
    assume l: "key_reasons a e (length xs) unknown missing @ common_reasons r a e = []"
    have x: "\<And>x. x \<in> set xs \<Longrightarrow> \<exists>y \<in> set ys. g y = f x" and y: "\<And>y. y \<in> set ys \<Longrightarrow> \<exists>x \<in> set xs. f x = g y"
      and uv: "\<And>x y. x \<in> set xs \<Longrightarrow> y \<in> set ys \<Longrightarrow> g y = f x \<Longrightarrow> u x = v y"
      using l unfolding append_is_Nil_conv cr kr by simp_all
    show "(\<lambda>x. (f x, u x)) ` set xs = (\<lambda>y. (g y, v y)) ` set ys"
    proof (intro equalityI image_subsetI)
      fix a
      assume a: "a \<in> set xs"
      then obtain b where "b \<in> set ys" "g b = f a"
        using x by blast
      with uv [OF a] show "(f a, u a) \<in> (\<lambda>y. (g y, v y)) ` set ys"
        by (auto intro!: image_eqI [of _ _ b])
    next
      fix b
      assume b: "b \<in> set ys"
      then obtain a where "a \<in> set xs" "f a = g b"
        using y by blast
      with uv [of a b] b show "(g b, v b) \<in> (\<lambda>x. (f x, u x)) ` set xs"
        by (auto intro!: image_eqI [of _ _ a])
    qed
  next
    assume eq: "(\<lambda>x. (f x, u x)) ` set xs = (\<lambda>y. (g y, v y)) ` set ys"
    have "(f x, u x) \<in> (\<lambda>y. (g y, v y)) ` set ys" if "x \<in> set xs" for x
      unfolding eq [symmetric] using that by (rule imageI)
    then have x: "\<exists>y \<in> set ys. g y = f x \<and> u x = v y" if "x \<in> set xs" for x
      using that by fastforce
    have "(g y, v y) \<in> (\<lambda>x. (f x, u x)) ` set xs" if "y \<in> set ys" for y
      unfolding eq using that by (rule imageI)
    then have y: "\<exists>x \<in> set xs. f x = g y" if "y \<in> set ys" for y
      using that by fastforce
    have "u x = v y" if "x \<in> set xs" "y \<in> set ys" "g y = f x" for x y
      using x [OF that(1)] uniq [OF that(2)] that(3) by metis
    then show "key_reasons a e (length xs) unknown missing @ common_reasons r a e = []"
      unfolding append_is_Nil_conv cr kr using x y by blast
  qed
qed

section \<open>Agreement\<close>

text \<open>The account holds the ledger's cash and exactly its positions, all long, and the expected orders.\<close>

definition broker_agrees :: "broker_snapshot \<Rightarrow> ledger \<Rightarrow> open_order list \<Rightarrow> instant \<Rightarrow> bool" where
  "broker_agrees s L expected t \<longleftrightarrow> valid_source s \<and> valid_expected_orders expected \<and>
     (\<exists>observed. bs_observed_at s = Aware observed \<and> observed \<le> t \<and> t \<le> observed + seconds 60) \<and>
     bs_currency s = lg_currency L \<and> bs_cash s = lg_cash L \<and>
     (\<lambda>p. (bp_instrument_id p, bp_side p, bp_quantity p)) ` set (bs_positions s) =
       (\<lambda>(i, q). (i, BUY, pst_quantity q)) ` set (lg_positions L) \<and>
     set (bs_open_orders s) = set expected"

lemma positions_agree:
  assumes "distinct (map bp_instrument_id ps)" "dict_ok (lg_positions L)"
  shows "compare_positions ps (export_positions L) = [] \<longleftrightarrow>
    (\<lambda>p. (bp_instrument_id p, bp_side p, bp_quantity p)) ` set ps =
      (\<lambda>(i, q). (i, BUY, pst_quantity q)) ` set (lg_positions L)"
proof -
  have d: "distinct (map lp_instrument_id (export_positions L))"
    using assms(2) dict_ok_sorted_items [of "lg_positions L"]
    by (simp add: export_positions_def dict_ok_def comp_def case_prod_beta)
  have r: "position_reasons p q = [] \<longleftrightarrow> (bp_side p, bp_quantity p) = (BUY, lp_quantity q)" for p q
    by (auto simp: position_reasons_def)
  have i: "(\<lambda>q. (lp_instrument_id q, BUY, lp_quantity q)) ` set (export_positions L) =
      (\<lambda>(i, q). (i, BUY, pst_quantity q)) ` set (lg_positions L)"
    by (auto simp: export_positions_def image_image case_prod_beta)
  show ?thesis
    using keyed_agreement [where r = position_reasons and u = "\<lambda>p. (bp_side p, bp_quantity p)" and
        v = "\<lambda>q. (BUY, lp_quantity q)", OF assms(1) d r]
    unfolding i [symmetric] compare_positions_def Let_def append_assoc by simp
qed

lemma orders_agree:
  fixes xs ys :: "open_order list"
  assumes "distinct (map oo_client_intent_id xs)" "distinct (map oo_client_intent_id ys)"
  shows "compare_orders xs ys = [] \<longleftrightarrow> set xs = set ys"
proof -
  let ?u = "\<lambda>x :: open_order. (oo_broker_order_id x, oo_instrument_id x, oo_side x, oo_quantity x, oo_filled_quantity x, oo_status x)"
  have r: "order_reasons x y = [] \<longleftrightarrow> ?u x = ?u y" for x y
    by (auto simp: order_reasons_def)
  have "inj (\<lambda>x :: open_order. (oo_client_intent_id x, ?u x))"
    by (auto simp: inj_def intro!: open_order.equality)
  then have "(\<lambda>x. (oo_client_intent_id x, ?u x)) ` set xs = (\<lambda>x. (oo_client_intent_id x, ?u x)) ` set ys \<longleftrightarrow> set xs = set ys"
    by (simp add: inj_image_eq_iff)
  then show ?thesis
    using keyed_agreement [where r = order_reasons and u = ?u and v = ?u, OF assms r]
    unfolding compare_orders_def Let_def append_assoc by simp
qed

lemma reasons_known:
  "set (reason_if (\<not> valid) ''PROVIDER_DATA_INVALID'' @ source_reasons s observed L orders t) \<subseteq> set report_reason_order"
proof -
  have c: "set (common_reasons f a e) \<subseteq> set report_reason_order" if "\<And>x y. set (f x y) \<subseteq> set report_reason_order"
    for f and a :: "(string, 'a) dict" and e :: "(string, 'b) dict"
    using that by (auto simp: common_reasons_def split: option.splits)
  have p: "set (position_reasons x y) \<subseteq> set report_reason_order" "set (order_reasons x' y') \<subseteq> set report_reason_order"
    for x y x' y'
    by (auto simp: position_reasons_def order_reasons_def reason_if_def report_reason_order_def)
  have ri: "set (reason_if b q) \<subseteq> set report_reason_order" if "q \<in> set report_reason_order" for b q
    using that by (auto simp: reason_if_def)
  have kr: "set (key_reasons a e n u m) \<subseteq> set report_reason_order"
    if "u \<in> set report_reason_order" "m \<in> set report_reason_order"
    for a :: "(string, 'a) dict" and e :: "(string, 'b) dict" and n u m
    unfolding key_reasons_def set_append by (intro Un_least ri that) (simp add: report_reason_order_def)
  have cp: "set (compare_positions x y) \<subseteq> set report_reason_order" "set (compare_orders x' y') \<subseteq> set report_reason_order"
    for x y x' y'
    unfolding compare_positions_def compare_orders_def Let_def set_append
    by (intro Un_least c p kr; simp add: report_reason_order_def)+
  have r: "set (if b then [''PROVIDER_DATA_FUTURE''] else reason_if b' ''PROVIDER_DATA_STALE'') \<subseteq> set report_reason_order" for b b'
    by (auto simp: reason_if_def report_reason_order_def)
  show ?thesis
    unfolding source_reasons_def Let_def set_append
    by (intro Un_least cp r ri) (simp_all add: report_reason_order_def)
qed

lemma ordered_Nil: "set rs \<subseteq> set order \<Longrightarrow> filter (\<lambda>c. c \<in> set rs) order = [] \<longleftrightarrow> rs = []"
  by (cases rs) (auto simp: filter_empty_conv)

lemma source_reasons_Nil:
  assumes "valid_source s" "dict_ok (lg_positions L)" "bs_observed_at s = Aware observed"
  shows "reason_if (\<not> valid_expected_orders expected) ''PROVIDER_DATA_INVALID'' @
      source_reasons s observed L (if valid_expected_orders expected then expected else []) t = [] \<longleftrightarrow>
    broker_agrees s L expected t"
proof (cases "valid_expected_orders expected")
  case True
  have "distinct (map bp_instrument_id (bs_positions s))" "distinct (map oo_client_intent_id (bs_open_orders s))"
      "distinct (map oo_client_intent_id expected)"
    using assms(1) True by (simp_all add: valid_source_def valid_expected_orders_def)
  then show ?thesis
    using True assms positions_agree orders_agree
    by (auto simp: broker_agrees_def source_reasons_def export_state_def Let_def reconciliation_max_age_def split: if_splits)
qed (simp add: broker_agrees_def)

section \<open>Recorded reports\<close>

lemma record_report_InrD:
  "record_report E ru ku broker bh lh reasons t st = (Inr r, st') \<Longrightarrow>
     \<exists>p. let ordered = filter (\<lambda>c. c \<in> set reasons) report_reason_order in
       persist_report E ru ku broker bh lh ordered (Aware t) st = (Inr p, st') \<and>
       r = \<lparr>rr_report_id = er_event_id p, rr_broker = broker, rr_healthy = (ordered = []),
        rr_reason_codes = ordered, rr_broker_hash = bh, rr_ledger_hash = lh, rr_checked_at = Aware t,
        rr_sequence = er_sequence p\<rparr>"
  unfolding record_report_def Let_def by (auto simp: action_simps)

lemma invalid_unhealthy:
  "record_report E ru ku broker bh lh [''PROVIDER_DATA_INVALID''] t st = (Inr r, st') \<Longrightarrow> \<not> rr_healthy r"
  by (drule record_report_InrD) (auto simp: report_reason_order_def Let_def)

lemma compare_InrD:
  assumes "reconcile_compare E ru ku (Aware t) source L expected st = (Inr r, st')" "dict_ok (lg_positions L)"
  shows "(rr_healthy r \<longleftrightarrow> (\<exists>s. source = Some s \<and> broker_agrees s L expected t)) \<and>
    (rr_healthy r \<longrightarrow> (\<exists>s bh lh. source = Some s \<and> ledger_hash E L = Inr lh \<and>
      record_report E ru ku (bs_broker s) bh lh [] t st = (Inr r, st')))"
proof -
  consider (bad) "\<not> (\<exists>s. source = Some s \<and> valid_source s)"
      "\<exists>lh. record_report E ru ku ''unavailable'' (state_hash E ''invalid'') lh [''PROVIDER_DATA_INVALID''] t st = (Inr r, st')"
    | (good) s observed bh lh where "source = Some s" "valid_source s" "bs_observed_at s = Aware observed"
      "ledger_hash E L = Inr lh"
      "record_report E ru ku (bs_broker s) bh lh (reason_if (\<not> valid_expected_orders expected) ''PROVIDER_DATA_INVALID'' @
        source_reasons s observed L (if valid_expected_orders expected then expected else []) t) t st = (Inr r, st')"
    using assms(1) unfolding reconcile_compare_def Let_def
    by (auto simp: action_simps reconcile_aware_def aware_utc_Inr split: option.splits if_splits)
  then show ?thesis
  proof cases
    case bad
    then show ?thesis
      using invalid_unhealthy by (auto simp: broker_agrees_def)
  next
    case good
    define rs where "rs = reason_if (\<not> valid_expected_orders expected) ''PROVIDER_DATA_INVALID'' @
        source_reasons s observed L (if valid_expected_orders expected then expected else []) t"
    have "set rs \<subseteq> set report_reason_order"
      unfolding rs_def by (rule reasons_known)
    then have h: "rr_healthy r \<longleftrightarrow> rs = []"
      using record_report_InrD [OF good(5) [folded rs_def]] ordered_Nil [of rs] unfolding Let_def by auto
    then show ?thesis
      using source_reasons_Nil [OF good(2) assms(2) good(3), of expected t, folded rs_def] good(5) [folded rs_def] good(1,4)
      by auto
  qed
qed

text \<open>C27: a reconciliation report is healthy exactly when the broker and the ledger agree: the provider
  returned a valid snapshot at most a minute old and not from the future, in the ledger's currency
  and with its cash, holding exactly the ledger's positions, all long and with the same quantities,
  and exactly the expected open orders.\<close>

theorem healthy_means_agreement:
  assumes "reconcile_compare E ru ku (Aware t) source L expected st = (Inr r, st')" "dict_ok (lg_positions L)"
  shows "rr_healthy r \<longleftrightarrow> (\<exists>s. source = Some s \<and> broker_agrees s L expected t)"
  using compare_InrD [OF assms] by (rule conjunct1)


section \<open>A healthy report opens the fence\<close>

definition healthy_event :: "string \<Rightarrow> string \<Rightarrow> string \<Rightarrow> string \<Rightarrow> instant \<Rightarrow> event_append" where
  "healthy_event ru broker bh lh t = safety_event (''reconciliation-'' @ ru) ''reconciliation.healthy''
     reconciliation_aggregate [(''broker'', JStr broker), (''broker_hash'', JStr bh), (''healthy'', JBool True),
       (''ledger_hash'', JStr lh), (''reason_codes'', JList [])] t"

lemma healthy_batch: "report_batch ru ku broker bh lh [] t = [healthy_event ru broker bh lh t]"
  by (simp add: report_batch_def healthy_event_def Let_def)

lemma healthy_flat:
  "flat_payload [(''broker'', JStr broker), (''broker_hash'', JStr bh), (''healthy'', JBool True),
     (''ledger_hash'', JStr lh), (''reason_codes'', JList [])]"
  by (simp add: flat_defs)

lemma single_match:
  "(case xs of [r] \<Rightarrow> Inr r | _ \<Rightarrow> Inl e) = Inr p \<longleftrightarrow> xs = [p]"
  by (auto split: list.splits)

lemma persist_healthy_InrD:
  assumes "persist_report E ru ku broker bh lh [] (Aware t) st = (Inr p, st')" "log_ok st"
  shows "log_ok st' \<and> es_rows st' = es_rows st @ [p] \<and> signed_as E (healthy_event ru broker bh lh t) p \<and>
    safety_record E [healthy_event ru broker bh lh t] st = Inr st'"
proof -
  obtain rows where w: "safety_record E [healthy_event ru broker bh lh t] st = Inr st'"
    and rows: "reconciliation_events E st' = Inr rows" "filter (\<lambda>r. er_event_id r = ''reconciliation-'' @ ru) rows = [p]"
    using assms(1) unfolding persist_report_def healthy_batch
    by (auto simp: action_simps safety_aware_def single_match)
  obtain x where x: "log_ok st'" "es_rows st' = es_rows st @ [x]" "signed_as E (healthy_event ru broker bh lh t) x"
    using safety_record_InrD [OF assms(2) w] by (auto simp: list_all2_Cons1)
  have xid: "er_event_id x = ''reconciliation-'' @ ru" "er_aggregate_id x = reconciliation_aggregate"
    using x(3) by (simp_all add: healthy_event_def signed_as_def)
  have "rows = rows_of reconciliation_aggregate st'"
    using stream_verified_InrD [OF x(1)] rows(1) by (simp add: reconciliation_events_def)
  then have "x \<in> set (filter (\<lambda>r. er_event_id r = ''reconciliation-'' @ ru) rows)"
    using xid rows_of_append [OF x(2)] by simp
  then have "x = p"
    unfolding rows(2) by simp
  with x w show ?thesis
    by blast
qed

lemma healthy_row:
  assumes "signed_as E (healthy_event ru broker bh lh t) p"
  shows "er_kind p = ''reconciliation.healthy'' \<and> er_aggregate_id p = reconciliation_aggregate \<and> er_occurred_at p = t \<and>
    er_event_id p = ''reconciliation-'' @ ru \<and>
    pget p ''healthy'' = Some (JBool True) \<and> pget p ''broker'' = Some (JStr broker) \<and>
    pget p ''broker_hash'' = Some (JStr bh) \<and> pget p ''ledger_hash'' = Some (JStr lh) \<and>
    pget p ''reason_codes'' = Some (JList [])"
  using assms signed_pget [OF assms _ healthy_flat]
  by (simp add: healthy_event_def signed_as_def mac_field_def version_field_def)

lemma healthy_compare_InrD:
  assumes "reconcile_compare E ru ku (Aware t) source L expected st = (Inr r, st')" "dict_ok (lg_positions L)"
    and "authentic E st" "rr_healthy r"
  shows "\<exists>lh p. ledger_hash E L = Inr lh \<and> authentic E st' \<and> es_rows st' = es_rows st @ [p] \<and>
    signed_as E (healthy_event ru (rr_broker r) (rr_broker_hash r) lh t) p \<and>
    r = \<lparr>rr_report_id = er_event_id p, rr_broker = rr_broker r, rr_healthy = True, rr_reason_codes = [],
      rr_broker_hash = rr_broker_hash r, rr_ledger_hash = lh, rr_checked_at = Aware t, rr_sequence = er_sequence p\<rparr>"
proof -
  obtain s bh lh where s: "ledger_hash E L = Inr lh" "source = Some s" "record_report E ru ku (bs_broker s) bh lh [] t st = (Inr r, st')"
    using compare_InrD [OF assms(1,2)] assms(4) by auto
  have e: "filter (\<lambda>c. c \<in> set []) report_reason_order = []"
    by simp
  obtain p where p: "persist_report E ru ku (bs_broker s) bh lh [] (Aware t) st = (Inr p, st')"
      "r = \<lparr>rr_report_id = er_event_id p, rr_broker = bs_broker s, rr_healthy = True, rr_reason_codes = [],
        rr_broker_hash = bh, rr_ledger_hash = lh, rr_checked_at = Aware t, rr_sequence = er_sequence p\<rparr>"
    using record_report_InrD [OF s(3)] unfolding e Let_def by auto
  have ok: "log_ok st"
    using assms(3) by (simp add: authentic_def)
  note d = persist_healthy_InrD [OF p(1) ok]
  have "list_all (\<lambda>a. \<exists>kvs. ea_payload a = JObj kvs \<and> flat_payload kvs) [healthy_event ru (bs_broker s) bh lh t]"
    using healthy_flat by (simp add: healthy_event_def)
  then have "authentic E st'"
    using recorded_authentic [OF assms(3)] d by blast
  then show ?thesis
    using s(1) d p(2) by auto
qed

text \<open>A healthy report that heads its aggregate is current and opens the fence.\<close>

lemma report_current:
  assumes "authentic E st" "rows_of reconciliation_aggregate st = rows @ [p]" "ledger_hash E L = Inr lh"
    and sp: "signed_as E (healthy_event ru (rr_broker r) (rr_broker_hash r) lh t) p"
    and r: "r = \<lparr>rr_report_id = er_event_id p, rr_broker = rr_broker r, rr_healthy = True, rr_reason_codes = [],
      rr_broker_hash = rr_broker_hash r, rr_ledger_hash = lh, rr_checked_at = Aware t, rr_sequence = er_sequence p\<rparr>"
    and t: "t \<le> t'" "t' \<le> t + seconds 60"
  shows "is_current_healthy E (Aware t') r (rr_broker r) L st = Inr True"
    and "make_fence E (Aware t') r (rr_broker r) L st =
      (if kill_switch_active E st then Inl (KillSwitchError ''kill switch is active'')
       else Inr \<lparr>sf_reconciliation_head = rr_report_id r,
         sf_kill_switch_head = last_id (rows_of kill_switch_aggregate st),
         sf_interlock_head = last_id (rows_of interlock_aggregate st)\<rparr>)"
proof -
  have rf: "rr_healthy r" "rr_reason_codes r = []" "rr_ledger_hash r = lh" "rr_checked_at r = Aware t"
      "rr_report_id r = er_event_id p" "rr_sequence r = er_sequence p"
    by (subst r, simp)+
  have claims: "report_claims E r (rr_broker r) L = Inr True"
    using rf assms(3) by (simp add: report_claims_def)
  note h = healthy_row [OF sp]
  have n: "kill_switch_aggregate \<noteq> []" "reconciliation_aggregate \<noteq> []" "interlock_aggregate \<noteq> []"
    by (simp_all add: kill_switch_aggregate_def reconciliation_aggregate_def interlock_aggregate_def)
  note ev = authentic_stream [OF assms(1) n(1)] authentic_stream [OF assms(1) n(2)] authentic_stream [OF assms(1) n(3)]
  have "head_is_report p r t"
    using h rf by (simp add: head_is_report_def)
  then show "is_current_healthy E (Aware t') r (rr_broker r) L st = Inr True"
    using claims rf ev assms(2) t
    by (simp add: is_current_healthy_def reconciliation_events_def reconciliation_max_age_def)
  show "make_fence E (Aware t') r (rr_broker r) L st =
      (if kill_switch_active E st then Inl (KillSwitchError ''kill switch is active'')
       else Inr \<lparr>sf_reconciliation_head = rr_report_id r,
         sf_kill_switch_head = last_id (rows_of kill_switch_aggregate st),
         sf_interlock_head = last_id (rows_of interlock_aggregate st)\<rparr>)"
    using claims rf ev assms(2) t h
    by (simp add: make_fence_def reconciliation_events_def kill_switch_events_def interlock_events_def
        reconcile_aware_def reconciliation_max_age_def kill_switch_active_def Let_def)
qed

text \<open>A healthy report opens the fence for a minute: right after a healthy comparison, and as long as the
  report is at most a minute old, it is the current report for its broker and ledger, and the fence
  for a live claim names it together with the heads of the kill switch and the interlock, unless one
  of these reads active, when no fence is given.\<close>

lemma healthy_report_opens_fence:
  assumes "reconcile_compare E ru ku (Aware t) source L expected st = (Inr r, st')" "dict_ok (lg_positions L)"
    and "authentic E st" "rr_healthy r" "t \<le> t'" "t' \<le> t + seconds 60"
  shows "is_current_healthy E (Aware t') r (rr_broker r) L st' = Inr True \<and>
    make_fence E (Aware t') r (rr_broker r) L st' =
      (if kill_switch_active E st' then Inl (KillSwitchError ''kill switch is active'')
       else Inr \<lparr>sf_reconciliation_head = rr_report_id r,
         sf_kill_switch_head = last_id (rows_of kill_switch_aggregate st'),
         sf_interlock_head = last_id (rows_of interlock_aggregate st')\<rparr>)"
proof -
  obtain lh p where lh: "ledger_hash E L = Inr lh" and au: "authentic E st'" and rows: "es_rows st' = es_rows st @ [p]"
    and sp: "signed_as E (healthy_event ru (rr_broker r) (rr_broker_hash r) lh t) p"
    and r: "r = \<lparr>rr_report_id = er_event_id p, rr_broker = rr_broker r, rr_healthy = True, rr_reason_codes = [],
      rr_broker_hash = rr_broker_hash r, rr_ledger_hash = lh, rr_checked_at = Aware t, rr_sequence = er_sequence p\<rparr>"
    using healthy_compare_InrD [OF assms(1-4)] by blast
  have "rows_of reconciliation_aggregate st' = rows_of reconciliation_aggregate st @ [p]"
    using rows_of_append [OF rows] healthy_row [OF sp] by simp
  from report_current [OF au this lh sp r assms(5,6)] show ?thesis
    by blast
qed

section \<open>A concrete comparison\<close>

lemma persist_healthy_goes_through:
  assumes "authentic E st" "broker \<noteq> []" "sha256_text bh = Inr bh" "sha256_text lh = Inr lh"
    and "fits E (healthy_event ru broker bh lh t)" "''reconciliation-'' @ ru \<notin> er_event_id ` set (es_rows st)"
  shows "\<exists>p st'. persist_report E ru ku broker bh lh [] (Aware t) st = (Inr p, st')"
proof -
  let ?b = "[healthy_event ru broker bh lh t]"
  have ok: "log_ok st"
    using assms(1) by (simp add: authentic_def)
  have d: "?b \<noteq> []" "list_all (fits E) ?b" "distinct (map ea_event_id ?b)" "set (map ea_event_id ?b) \<inter> er_event_id ` set (es_rows st) = {}"
    using assms(5,6) by (simp_all add: healthy_event_def)
  obtain st' where w: "safety_record E ?b st = Inr st'"
    using record_fits(1,3) [OF ok d] by (auto simp: is_ok_iff)
  obtain x where x: "log_ok st'" "es_rows st' = es_rows st @ [x]" "signed_as E (healthy_event ru broker bh lh t) x"
    using safety_record_InrD [OF ok w] by (auto simp: list_all2_Cons1)
  have au: "authentic E st'"
    using recorded_authentic [OF assms(1) fits_authentic [OF d(2)]] w by blast
  have "filter (\<lambda>r. er_event_id r = ''reconciliation-'' @ ru) (es_rows st) = []"
    using assms(6) by (intro filter_False) (metis imageI)
  then have "filter (\<lambda>r. er_event_id r = ''reconciliation-'' @ ru) (rows_of reconciliation_aggregate st') = [x]"
    using rows_of_append [OF x(2)] healthy_row [OF x(3)] by (auto simp: rows_of_def filter_empty_conv)
  moreover have "reconciliation_events E st' = Inr (rows_of reconciliation_aggregate st')"
    unfolding reconciliation_events_def by (rule authentic_stream [OF au]) (simp add: reconciliation_aggregate_def)
  ultimately have "persist_report E ru ku broker bh lh [] (Aware t) st = (Inr x, st')"
    using assms(2-4) by (simp add: persist_report_def exact_text_def safety_aware_def healthy_batch
        then_do_steps(1) [where f = "safety_record _ _", OF w] then_do_steps(2) [where h = "reconciliation_events _"] check_def)
  then show ?thesis
    by blast
qed

lemma compare_goes_through:
  assumes "authentic E st" "broker_agrees s L expected t" "dict_ok (lg_positions L)" "bs_broker s \<noteq> []"
    and "broker_hash E s = Inr bh" "ledger_hash E L = Inr lh" "sha256_text bh = Inr bh" "sha256_text lh = Inr lh"
    and "fits E (healthy_event ru (bs_broker s) bh lh t)" "''reconciliation-'' @ ru \<notin> er_event_id ` set (es_rows st)"
  obtains r st' where "reconcile_compare E ru ku (Aware t) (Some s) L expected st = (Inr r, st')" "rr_healthy r"
    "rr_broker r = bs_broker s"
proof -
  obtain p st' where p: "persist_report E ru ku (bs_broker s) bh lh [] (Aware t) st = (Inr p, st')"
    using persist_healthy_goes_through [OF assms(1,4,7-10)] by blast
  obtain observed where v: "valid_source s" "valid_expected_orders expected" "bs_observed_at s = Aware observed"
    using assms(2) by (auto simp: broker_agrees_def)
  have n: "source_reasons s observed L expected t = []"
    using source_reasons_Nil [OF v(1) assms(3) v(3), of expected t] assms(2) v(2) by simp
  have rp: "rescue (persist_report E ru ku (bs_broker s) bh lh [] (Aware t)) h st = (Inr p, st')" for h
    by (simp add: rescue_def p)
  have "\<exists>r. record_report E ru ku (bs_broker s) bh lh [] t st = (Inr r, st') \<and> rr_broker r = bs_broker s"
    by (simp add: record_report_def Let_def then_do_steps(3) [where m = "rescue _ _", OF rp]) (simp add: give_def)
  then obtain r where "record_report E ru ku (bs_broker s) bh lh [] t st = (Inr r, st')" "rr_broker r = bs_broker s"
    by blast
  then have c: "reconcile_compare E ru ku (Aware t) (Some s) L expected st = (Inr r, st')" "rr_broker r = bs_broker s"
    using v n assms(5,6) by (simp_all add: reconcile_compare_def reconcile_aware_def Let_def reason_if_def)
  then have "rr_healthy r"
    using compare_InrD [OF c(1) assms(3)] assms(2) by blast
  with c show ?thesis
    using that by blast
qed


definition demo_account :: broker_snapshot where
  "demo_account = \<lparr>bs_broker = ''paper'', bs_currency = ''USD'', bs_cash = 1000, bs_positions = [], bs_open_orders = [],
     bs_observed_at = Aware 0\<rparr>"

definition demo_broker_ledger :: ledger where
  "demo_broker_ledger = ledger_init 1000 ''USD''"

definition demo_sha :: string where
  "demo_sha = replicate 64 (CHR ''a'')"

lemma demo_account_hashes:
  "broker_hash demo_env demo_account = Inr demo_sha" "ledger_hash demo_env demo_broker_ledger = Inr demo_sha"
  "fits demo_env (healthy_event ''r1'' ''paper'' demo_sha demo_sha 10000000)" "sha256_text demo_sha = Inr demo_sha"
  by code_simp+

lemma demo_account_agrees: "broker_agrees demo_account demo_broker_ledger [] 10000000"
proof -
  have v: "valid_source demo_account" "valid_expected_orders []"
    by code_simp+
  have "bs_currency demo_account = ''USD''" "bs_cash demo_account = 1000" "bs_positions demo_account = []"
      "bs_open_orders demo_account = []" "bs_observed_at demo_account = Aware 0"
      "lg_currency demo_broker_ledger = ''USD''" "lg_cash demo_broker_ledger = 1000" "lg_positions demo_broker_ledger = []"
    by (simp_all add: demo_account_def demo_broker_ledger_def ledger_init_def)
  with v show ?thesis
    by (simp add: broker_agrees_def seconds_def)
qed

lemma demo_ledger_dict: "dict_ok (lg_positions demo_broker_ledger)"
  by (simp add: demo_broker_ledger_def ledger_init_def)

lemma demo_comparison:
  obtains r st where "reconcile_compare demo_env ''r1'' ''k1'' (Aware 10000000) (Some demo_account) demo_broker_ledger []
      empty_store = (Inr r, st)" "rr_healthy r"
proof -
  have b: "bs_broker demo_account = ''paper''" "bs_broker demo_account \<noteq> []"
    by (simp_all add: demo_account_def)
  show ?thesis
    using compare_goes_through [OF authentic_empty demo_account_agrees demo_ledger_dict b(2) demo_account_hashes(1,2,4,4)
        demo_account_hashes(3) [folded b(1)], where ku = "''k1''"] that by auto
qed

theorem healthy_means_agreement_witness:
  "\<exists>r st. reconcile_compare demo_env ''r1'' ''k1'' (Aware 10000000) (Some demo_account) demo_broker_ledger [] empty_store =
     (Inr r, st) \<and> rr_healthy r"
proof -
  obtain r st where c: "reconcile_compare demo_env ''r1'' ''k1'' (Aware 10000000) (Some demo_account) demo_broker_ledger []
      empty_store = (Inr r, st)"
    by (rule demo_comparison)
  then have "rr_healthy r"
    using healthy_means_agreement [OF c demo_ledger_dict] demo_account_agrees by blast
  with c show ?thesis
    by blast
qed

end
