(* ===== verification/LiveRuns.thy ===== *)
theory LiveRuns
  imports LiveFacts Confirmations ReconcileFacts SafetyLive
begin

text \<open>
  The composition of reconciliation, approval and live submission: prepared services let an approved
  order through, shown in general and on a concrete run, on which the properties of live submission
  are applied.
\<close>

section \<open>What issuing leaves\<close>

lemma created_leaves:
  assumes "create_confirmation E seed source (Aware t) i d phrase broker lifetime st = (Inr c, st')" "authentic E st"
  shows "authentic E st' \<and> (\<exists>row. es_rows st' = es_rows st @ [row] \<and>
    er_aggregate_id row = confirmation_aggregate (oc_confirmation_id c) \<and>
    er_event_id row = ''confirmation-issued-'' @ oc_confirmation_id c \<and> er_kind row = ''confirmation.issued'' \<and> er_occurred_at row = t \<and>
    rows_of (confirmation_aggregate (oc_confirmation_id c)) st' = [row] \<and>
    pget row ''broker'' = Some (JStr (oc_broker c)) \<and> pget row ''fingerprint'' = Some (JStr (oc_fingerprint c)) \<and>
    pget row ''expires_at'' = Some (JStr (micro_text (t + lifetime)))) \<and>
    oc_expires_at c = Aware (t + lifetime) \<and> resolve_broker i broker = Inr (oc_broker c) \<and>
    oc_confirmation_id c = confirmation_id E seed \<and> sha256_shape (oc_fingerprint c) \<and>
    validate_intent i (Some t) = Inr ()"
proof -
  obtain b fp risk cid nonce mac where c: "resolve_broker i broker = Inr b" "validate_intent i (Some t) = Inr ()"
    and iss: "issue_confirmation E seed source phrase b (Aware t) (Aware (t + lifetime)) fp risk st = (Inr (cid, nonce, mac), st')"
    and cc: "c = \<lparr>oc_confirmation_id = cid, oc_fingerprint = fp, oc_broker = b, oc_created_at = Aware t,
       oc_expires_at = Aware (t + lifetime), oc_nonce = nonce, oc_mac = mac\<rparr>"
    using create_confirmation_InrD [OF assms(1)] by blast
  have ok: "log_ok st"
    using assms(2) by (simp add: authentic_def)
  obtain row where r: "cid = confirmation_id E seed" "sha256_shape fp"
      "signed_as E (hd (issue_batch cid nonce b t (t + lifetime) fp risk)) row" "es_rows st' = es_rows st @ [row]"
      "rows_of (confirmation_aggregate cid) st' = [row]"
    using issue_confirmation_InrD [OF iss ok] by blast
  have fl: "flat_payload [(''broker'', JStr b), (''created_at'', JStr (micro_text t)),
      (''expires_at'', JStr (micro_text (t + lifetime))), (''fingerprint'', JStr fp), (''nonce'', JStr nonce),
      (''risk_decision_hash'', JStr risk)]"
    by (simp add: flat_defs)
  note p = signed_pget [OF r(3) _ fl]
  have "st' \<noteq> st"
    using r(4) by auto
  then obtain n created expires where "safety_record_if_heads E (issue_batch (confirmation_id E seed) n b created expires fp risk)
      [(confirmation_aggregate (confirmation_id E seed), None)] st = Inr st'"
    using issue_confirmation_effect [OF iss] by (auto simp: Let_def)
  moreover have "list_all (\<lambda>a. \<exists>kvs. ea_payload a = JObj kvs \<and> flat_payload kvs)
      (issue_batch (confirmation_id E seed) n b created expires fp risk)"
    by (simp add: issue_batch_def flat_defs)
  ultimately have "authentic E st'"
    using recorded_authentic [OF assms(2)] by blast
  then show ?thesis
    using c cc r p by (auto simp: issue_batch_def signed_as_def mac_field_def version_field_def)
qed

section \<open>From the report to the order\<close>

text \<open>The readings taken before the claim, at whatever times between \<open>a\<close> and \<open>b\<close>.\<close>

fun read_between :: "instant \<Rightarrow> instant \<Rightarrow> pydt \<Rightarrow> bool" where
  "read_between a b (Aware u) = (a \<le> u \<and> u \<le> b)"
| "read_between a b _ = False"

definition gate_readings :: "clock_readings \<Rightarrow> pydt list" where
  "gate_readings K = [ck_gates K, ck_report K, ck_confirm K, ck_fence K, ck_claim K, ck_reconfirm K]"

lemma gates_open:
  assumes "gates_hold V A K Q (lw_store w) t" "ck_gates K = Aware u"
    and "require_risk V (lr_intent Q) (lr_decision Q) u = Inr ()" "require_snapshot (lr_intent Q) (lr_snapshot Q) u = Inr ()"
    and "verify_confirmation (sv_env V) (ck_confirm K) (lr_intent Q) (lr_decision Q) (lr_confirmation Q)
      (Some (sv_broker V)) (lw_store w) = Inr ()"
    and "make_fence (sv_env V) (ck_fence K) (lr_report Q) (sv_broker V) (sv_ledger V) (lw_store w) = Inr fence"
  shows "all_gates V A K Q w = (Inr (t, fence), w\<lparr>lw_calls := lw_calls w @ [Preflight_call, Capabilities_call]\<rparr>)"
  using assms unfolding gates_hold_def
  by (auto simp: all_gates_def require_preflight_def require_capabilities_def require_current_report_def
      require_kill_switch_off_def require_confirmation_def take_fence_def calling_def then_do_def give_def check_def
      reads_def stop_if_def live_aware_def rescue_def)

text \<open>What the confirmation was created for passes the risk gate while neither the intent nor the decision has
  expired, provided the decision carries the hash of the ledger of the service.\<close>

lemma created_risk_passes:
  assumes "create_confirmation (sv_env V) seed source (Aware t) i d phrase broker lifetime st = (Inr c, st')"
    and "rd_portfolio_hash d = position_hash (se_sha (sv_env V)) (sv_ledger V)"
    and "t \<le> u" "u < oi_expires_at i" "u < rd_expires_at d"
  shows "require_risk V i d u = Inr ()"
proof -
  have v: "validate_intent i (Some t) = Inr ()" "validate_risk i d t = Inr ()"
    using create_confirmation_InrD [OF assms(1)] by blast+
  have i: "oi_created_at i \<le> u"
    using validate_intent_later [OF v(1) assms(3,4)] by (auto simp: validate_intent_def Let_def split: if_splits)
  have amounts: "positive_decimal x" if "is_ok (positive_optional_decimal x)" "x \<noteq> None" for x
    using that by (cases x) (auto simp: positive_decimal_def split: if_splits)
  have d: "is_ok (positive_optional_decimal (rd_approved_quantity d))" "is_ok (positive_optional_decimal (rd_approved_notional d))"
      "rd_approved_quantity d \<noteq> None" "rd_approved_notional d \<noteq> None" "rd_decided_at d \<le> u"
      "\<not> rd_expires_at d \<le> rd_decided_at d" "\<not> rd_expires_at d - rd_decided_at d > seconds 60" "rd_approved d"
      "rd_reason_codes d = []" "rd_portfolio_hash d = oi_snapshot_hash i"
      "\<not> (oi_quantity i \<noteq> None \<and> rd_approved_quantity d \<noteq> oi_quantity i)"
      "\<not> (oi_notional i \<noteq> None \<and> rd_approved_notional d \<noteq> oi_notional i)"
    using validate_risk_later [OF v(2) assms(3,5)] by (simp_all add: validate_risk_def Let_def split: if_splits)
  show ?thesis
    using d i assms(2,4,5) amounts [OF d(1,3)] amounts [OF d(2,4)] by (simp add: require_risk_def)
qed

lemma snapshot_passes:
  assumes "ms_instrument_id m = oi_instrument_id i" "0 \<le> ms_max_age_seconds m" "ms_source_at m \<le> ms_observed_at m"
    and "ms_observed_at m \<le> u" "u \<le> ms_source_at m + seconds (ms_max_age_seconds m)"
  shows "require_snapshot i m u = Inr ()"
  using assms by (simp add: require_snapshot_def)

lemma claim_passes:
  assumes "claim_and_start (sv_env V) (sv_claim_nonce V) (oi_intent_id (lr_intent Q)) (sv_broker V)
      (oc_confirmation_id (lr_confirmation Q)) (oc_fingerprint (lr_confirmation Q)) (oc_expires_at (lr_confirmation Q))
      (sf_reconciliation_head fence) (sf_kill_switch_head fence) (sf_interlock_head fence) (Aware t) (lw_store w) = (Inr (), st)"
  shows "live_claim V Q t fence w = (Inr (), w\<lparr>lw_store := st\<rparr>)"
  using assms by (simp add: live_claim_def Let_def rescue_def on_store_def)

lemma acknowledgement_passes:
  assumes "record_acknowledgement (sv_env V) (sv_ack_nonce V) (oi_intent_id (lr_intent Q)) (sv_broker V)
      (sv_redact V (bo_order_id b)) (order_status_value (bo_status b)) (oc_confirmation_id (lr_confirmation Q))
      (Aware t) (lw_store w) = (Inr (), st)" "ck_acknowledge K = Aware t"
  shows "acknowledge V K Q b w = (Inr b, w\<lparr>lw_store := st\<rparr>)"
  using assms by (simp add: acknowledge_def live_aware_def rescue_def on_store_def then_do_def give_def check_def)

lemma submission_passes:
  assumes "all_gates V A K Q w = (Inr (t, fence), w0)" "live_claim V Q t fence w0 = (Inr (), w1)"
    and "ba_submit A = Some b" "ck_response K = Aware t'" "valid_acknowledgement b (lr_intent Q) (sv_broker V) t'"
    and "\<And>w2. lw_store w2 = lw_store w1 \<Longrightarrow> \<exists>w3. acknowledge V K Q b w2 = (Inr b, w3)"
  shows "\<exists>w'. submit_confirmed V A K Q w = (Inr b, w')"
proof -
  have p: "place_order V A K Q w1 = (Inr (Some b), w1\<lparr>lw_calls := lw_calls w1 @ [Submit_call (lr_intent Q) (lr_snapshot Q)]\<rparr>)"
    unfolding place_order_eq using assms(3-5) by simp
  obtain w3 where "acknowledge V K Q b (w1\<lparr>lw_calls := lw_calls w1 @ [Submit_call (lr_intent Q) (lr_snapshot Q)]\<rparr>) = (Inr b, w3)"
    using assms(6) by fastforce
  then show ?thesis
    unfolding submit_confirmed_def
    by (simp add: then_do_steps(3) [where m = "all_gates _ _ _ _", OF assms(1)]
        then_do_steps(3) [where m = "live_claim _ _ _ _", OF assms(2)]
        then_do_steps(3) [where m = "place_order _ _ _ _", OF p])
qed

lemma submission_unanswered:
  assumes "all_gates V A K Q w = (Inr (t, fence), w0)" "live_claim V Q t fence w0 = (Inr (), w1)"
    and "ba_submit A = None" "ba_query A = None" "ck_query K = Aware t'"
  obtains x w' where "submit_confirmed V A K Q w = (Inl x, w')" "submissions w' = submissions w1 @ [Submit_call (lr_intent Q) (lr_snapshot Q)]"
proof -
  let ?w2 = "w1\<lparr>lw_calls := lw_calls w1 @ [Submit_call (lr_intent Q) (lr_snapshot Q)]\<rparr>"
  have p: "place_order V A K Q w1 = (Inr None, ?w2)"
    unfolding place_order_eq using assms(3) by simp
  have q: "query_ambiguous V A K Q ?w2 = (Inr None, ?w2\<lparr>lw_calls := lw_calls ?w2 @ [Query_call (oi_intent_id (lr_intent Q))]\<rparr>)"
    using assms(4,5) by (simp add: query_ambiguous_def outcome_simps calling_def live_aware_def)
  have run: "submit_confirmed V A K Q w =
      give_up V K Q (?w2\<lparr>lw_calls := lw_calls ?w2 @ [Query_call (oi_intent_id (lr_intent Q))]\<rparr>)"
    unfolding submit_confirmed_def
    by (simp add: then_do_steps(3) [where m = "all_gates _ _ _ _", OF assms(1)]
        then_do_steps(3) [where m = "live_claim _ _ _ _", OF assms(2)]
        then_do_steps(3) [where m = "place_order _ _ _ _", OF p] then_do_steps(3) [where m = "query_ambiguous _ _ _ _", OF q])
  obtain r w' where g: "give_up V K Q (?w2\<lparr>lw_calls := lw_calls ?w2 @ [Query_call (oi_intent_id (lr_intent Q))]\<rparr>) = (r, w')"
    by fastforce
  then obtain x where "r = Inl x"
    unfolding give_up_def by (auto simp: outcome_simps)
  moreover have "submissions w' = submissions w1 @ [Submit_call (lr_intent Q) (lr_snapshot Q)]"
    using alongD [OF give_up_asking g] by (simp add: asking_def submissions_def)
  ultimately show thesis
    using that run g by simp
qed

lemma acknowledgement_goes_through:
  assumes "authentic E st" "interlock_names (rows_of interlock_aggregate st)
      [(''submission_id'', sid), (''intent_id'', intent_id), (''broker'', broker)]"
    and "intent_id \<noteq> []" "broker \<noteq> []" "oid \<noteq> []" "sid \<noteq> []" "status \<in> set acknowledged_statuses"
    and "list_all (fits E) (acknowledgement_batch nonce intent_id broker oid status sid t)"
    and "set (map ea_event_id (acknowledgement_batch nonce intent_id broker oid status sid t)) \<inter>
      er_event_id ` set (es_rows st) = {}"
    and "\<forall>r \<in> set (es_rows st). er_event_id r \<noteq> []"
  shows "\<exists>st'. record_acknowledgement E nonce intent_id broker oid status sid (Aware t) st = (Inr (), st')"
proof -
  let ?b = "acknowledgement_batch nonce intent_id broker oid status sid t"
  have ok: "log_ok st"
    using assms(1) by (simp add: authentic_def)
  have d: "?b \<noteq> []" "distinct (map ea_event_id ?b)"
    by (simp_all add: acknowledgement_batch_def)
  note r = record_fits [OF ok d(1) assms(8) d(2) assms(9)]
  have "last_id (rows_of interlock_aggregate st) \<noteq> Some []"
    using assms(10) last_in_set [of "rows_of interlock_aggregate st"] by (auto simp: last_id_def rows_of_def)
  then have "validate_heads [(interlock_aggregate, last_id (rows_of interlock_aggregate st))] = Inr ()"
    by (simp add: validate_heads_def max_collection_items_def interlock_aggregate_def)
  then obtain st' where w: "safety_record_if_heads E ?b [(interlock_aggregate, last_id (rows_of interlock_aggregate st))] st = Inr st'"
    using r(2,3) by (auto simp: is_ok_iff)
  have "status \<noteq> []"
    using assms(7) by (auto simp: acknowledged_statuses_def)
  moreover have "stream_verified E interlock_aggregate st = Inr (rows_of interlock_aggregate st)"
    by (rule authentic_stream [OF assms(1)]) (simp add: interlock_aggregate_def)
  ultimately have "record_acknowledgement E nonce intent_id broker oid status sid (Aware t) st = (Inr (), st')"
    using assms(2-7) w by (simp add: record_acknowledgement_def exact_text_def safety_aware_def
        then_do_steps(2) [where h = "stream_verified _ _"] writes_def)
  then show ?thesis
    by blast
qed

lemma claimed_names:
  assumes "log_ok st"
    and c: "safety_record_if_heads E (claim_batch nonce intent_id broker cid fp e t) heads st = Inr st'"
  shows "interlock_names (rows_of interlock_aggregate st')
      [(''submission_id'', cid), (''intent_id'', intent_id), (''broker'', broker)] \<and>
    set (map er_event_id (es_rows st')) = set (map er_event_id (es_rows st)) \<union>
      set (map ea_event_id (claim_batch nonce intent_id broker cid fp e t))"
proof -
  obtain r1 r2 r3 r4 where r: "es_rows st' = es_rows st @ [r1, r2, r3, r4]"
    and rs: "list_all2 (signed_as E) (claim_batch nonce intent_id broker cid fp e t) [r1, r2, r3, r4]"
    using claim_write [OF assms] by blast
  have s4: "signed_as E (last (claim_batch nonce intent_id broker cid fp e t)) r4"
    using rs by (simp add: batch_defs)
  have k: "er_aggregate_id r4 = interlock_aggregate" "pget r4 ''submission_id'' = Some (JStr cid)"
      "pget r4 ''intent_id'' = Some (JStr intent_id)" "pget r4 ''broker'' = Some (JStr broker)"
    using s4 signed_pget [OF s4] by (simp_all add: batch_defs signed_as_def flat_defs)
  have "\<exists>rows. rows_of interlock_aggregate st' = rows @ [r4]"
    using rows_of_append [OF r, of interlock_aggregate] k(1) by auto
  moreover have "set (map er_event_id (es_rows st')) = set (map er_event_id (es_rows st)) \<union>
      set (map ea_event_id (claim_batch nonce intent_id broker cid fp e t))"
    using r rs by (auto simp: batch_defs signed_as_def)
  ultimately show ?thesis
    using k claim_opens [OF assms] by (auto simp: interlock_names_def)
qed

lemma claim_written:
  assumes "log_ok st" "claim_and_start E nonce intent_id broker cid fp (Aware e) rh kh ih (Aware t) st = (Inr (), st')"
  obtains heads where "safety_record_if_heads E (claim_batch nonce intent_id broker cid fp e t) heads st = Inr st'"
proof -
  obtain batch heads where p: "claim_plan E nonce intent_id broker cid fp (Aware e) rh kh ih (Aware t) st = Inr (batch, heads)"
      "safety_record_if_heads E batch heads st = Inr st'"
    using assms(2) unfolding claim_and_start_Inr by blast
  from claim_plan_InrD [OF assms(1) p(1)] p(2) that show thesis
    by auto
qed

lemma claim_acknowledged:
  assumes "authentic E st" "claim_allowed st broker cid fp e t"
    and "intent_id \<noteq> []" "broker \<noteq> []" "oid \<noteq> []" "sha256_text cid = Inr cid" "sha256_text fp = Inr fp" "cid \<noteq> []"
    and "last_id (rows_of reconciliation_aggregate st) = Some rh" "[] \<notin> er_event_id ` set (es_rows st)"
    and "status \<in> set acknowledged_statuses"
    and "list_all (fits E) (claim_batch nonce intent_id broker cid fp e t @
      acknowledgement_batch nonce' intent_id broker oid status cid t')"
    and "set (map ea_event_id (claim_batch nonce intent_id broker cid fp e t @
      acknowledgement_batch nonce' intent_id broker oid status cid t')) \<inter> er_event_id ` set (es_rows st) = {}"
  shows "\<exists>st1 st2. claim_and_start E nonce intent_id broker cid fp (Aware e) rh
      (last_id (rows_of kill_switch_aggregate st)) (last_id (rows_of interlock_aggregate st)) (Aware t) st = (Inr (), st1) \<and>
    record_acknowledgement E nonce' intent_id broker oid status cid (Aware t') st1 = (Inr (), st2)"
proof -
  let ?claim = "claim_batch nonce intent_id broker cid fp e t"
  let ?ack = "acknowledgement_batch nonce' intent_id broker oid status cid t'"
  have ok: "log_ok st"
    using assms(1) by (simp add: authentic_def)
  have named: "\<forall>x \<in> set (es_rows st). er_event_id x \<noteq> []"
    using assms(10) by (metis imageI)
  have fit: "list_all (fits E) ?claim" "list_all (fits E) ?ack"
      "set (map ea_event_id ?claim) \<inter> er_event_id ` set (es_rows st) = {}"
      "set (map ea_event_id ?ack) \<inter> er_event_id ` set (es_rows st) = {}"
    using assms(12,13) by auto
  obtain st1 where cl: "claim_and_start E nonce intent_id broker cid fp (Aware e) rh
      (last_id (rows_of kill_switch_aggregate st)) (last_id (rows_of interlock_aggregate st)) (Aware t) st = (Inr (), st1)"
      "authentic E st1"
    using claim_goes_through [OF assms(1-4,6,7,9) named fit(1,3)] by blast
  obtain heads where wr: "safety_record_if_heads E ?claim heads st = Inr st1"
    by (rule claim_written [OF ok cl(1)])
  note cn = claimed_names [OF ok wr]
  have "set (map ea_event_id ?ack) \<inter> set (map ea_event_id ?claim) = {}" "[] \<notin> set (map ea_event_id ?claim)"
    by (simp_all add: claim_batch_def acknowledgement_batch_def)
  moreover have "er_event_id ` set (es_rows st1) = er_event_id ` set (es_rows st) \<union> set (map ea_event_id ?claim)"
    using cn by simp
  ultimately have "set (map ea_event_id ?ack) \<inter> er_event_id ` set (es_rows st1) = {}"
      "[] \<notin> er_event_id ` set (es_rows st1)"
    using fit(4) assms(10) by blast+
  then obtain st2 where "record_acknowledgement E nonce' intent_id broker oid status cid (Aware t') st1 = (Inr (), st2)"
    using acknowledgement_goes_through [OF cl(2) conjunct1 [OF cn] assms(3-5,8,11) fit(2)] by (metis imageI)
  with cl(1) show ?thesis
    by blast
qed

lemma prepared_claims:
  assumes "reconcile_compare (sv_env V) ru ku (Aware t0) source (sv_ledger V) expected st0 = (Inr r, st1)"
    and "rr_healthy r" "rr_broker r = sv_broker V" "dict_ok (lg_positions (sv_ledger V))" "authentic (sv_env V) st0"
    and "create_confirmation (sv_env V) seed nseed (Aware t1) i d phrase (Some (sv_broker V)) lifetime st1 = (Inr c, st2)"
    and "\<And>m. sha256_shape (se_sha (sv_env V) m)" "\<And>m. sha256_shape (se_sign (sv_env V) m)"
    and "\<not> kill_switch_active (sv_env V) st2" "\<not> interlock_active (rows_of interlock_aggregate st2)"
    and "\<not> kill_active (rows_of kill_switch_aggregate st2) (rows_of reconciliation_aggregate st2)"
    and reads: "list_all (read_between first last_read) (gate_readings K)" "ck_claim K = Aware t"
    and "t0 \<le> first" "last_read \<le> t0 + seconds 60" "t1 \<le> first" "last_read < t1 + lifetime"
    and "last_read < oi_expires_at i" "last_read < rd_expires_at d"
    and "sv_boundary V" "ba_preflight A = Some p" "valid_preflight p (sv_broker V)"
    and "ba_capabilities A = Some k" "bc_broker k = sv_broker V" "oi_notional i = None \<or> bc_supports_notional_orders k"
    and "rd_portfolio_hash d = position_hash (se_sha (sv_env V)) (sv_ledger V)"
    and "ms_instrument_id m = oi_instrument_id i" "0 \<le> ms_max_age_seconds m" "ms_source_at m \<le> ms_observed_at m"
    and "ms_observed_at m \<le> first" "last_read \<le> ms_source_at m + seconds (ms_max_age_seconds m)"
    and "valid_acknowledgement b i (sv_broker V) answered_at" "sv_redact V (bo_order_id b) \<noteq> []"
    and "batch = claim_batch (sv_claim_nonce V) (oi_intent_id i) (sv_broker V) (oc_confirmation_id c) (oc_fingerprint c)
        (t1 + lifetime) t @ acknowledgement_batch (sv_ack_nonce V) (oi_intent_id i) (sv_broker V)
        (sv_redact V (bo_order_id b)) (order_status_value (bo_status b)) (oc_confirmation_id c) recorded_at"
    and "list_all (fits (sv_env V)) batch" "set (map ea_event_id batch) \<inter> er_event_id ` set (es_rows st2) = {}"
    and "[] \<notin> er_event_id ` set (es_rows st2)"
    and Q: "Q = \<lparr>lr_intent = i, lr_decision = d, lr_snapshot = m, lr_confirmation = c, lr_preflight = p, lr_report = r\<rparr>"
  shows "\<exists>fence w0 w1 st4. all_gates V A K Q \<lparr>lw_store = st2, lw_calls = calls\<rparr> = (Inr (t, fence), w0) \<and>
    live_claim V Q t fence w0 = (Inr (), w1) \<and> lw_calls w1 = calls @ [Preflight_call, Capabilities_call] \<and>
    record_acknowledgement (sv_env V) (sv_ack_nonce V) (oi_intent_id i) (sv_broker V) (sv_redact V (bo_order_id b))
      (order_status_value (bo_status b)) (oc_confirmation_id c) (Aware recorded_at) (lw_store w1) = (Inr (), st4)"
proof -
  let ?E = "sv_env V" and ?w = "\<lparr>lw_store = st2, lw_calls = calls\<rparr>"
  obtain ug ur uc uf uv where rd: "ck_gates K = Aware ug" "ck_report K = Aware ur" "ck_confirm K = Aware uc"
      "ck_fence K = Aware uf" "ck_reconfirm K = Aware uv" and
    win: "first \<le> ug" "ug \<le> last_read" "first \<le> ur" "ur \<le> last_read" "first \<le> uc" "uc \<le> last_read"
      "first \<le> uf" "uf \<le> last_read" "first \<le> uv" "uv \<le> last_read" "first \<le> t" "t \<le> last_read"
    using reads by (auto simp: gate_readings_def elim!: read_between.elims(2))
  obtain lh head where rep: "ledger_hash ?E (sv_ledger V) = Inr lh" "authentic ?E st1" "es_rows st1 = es_rows st0 @ [head]"
      "signed_as ?E (healthy_event ru (rr_broker r) (rr_broker_hash r) lh t0) head"
      "r = \<lparr>rr_report_id = er_event_id head, rr_broker = rr_broker r, rr_healthy = True, rr_reason_codes = [],
        rr_broker_hash = rr_broker_hash r, rr_ledger_hash = lh, rr_checked_at = Aware t0, rr_sequence = er_sequence head\<rparr>"
    using healthy_compare_InrD [OF assms(1,4,5,2)] by blast
  obtain row where cr: "authentic ?E st2" "es_rows st2 = es_rows st1 @ [row]"
      "er_aggregate_id row = confirmation_aggregate (oc_confirmation_id c)" "er_kind row = ''confirmation.issued''"
      "er_occurred_at row = t1" "rows_of (confirmation_aggregate (oc_confirmation_id c)) st2 = [row]"
      "pget row ''broker'' = Some (JStr (oc_broker c))" "pget row ''fingerprint'' = Some (JStr (oc_fingerprint c))"
      "pget row ''expires_at'' = Some (JStr (micro_text (t1 + lifetime)))" "oc_expires_at c = Aware (t1 + lifetime)"
      "resolve_broker i (Some (sv_broker V)) = Inr (oc_broker c)" "oc_confirmation_id c = confirmation_id ?E seed"
      "sha256_shape (oc_fingerprint c)" "validate_intent i (Some t1) = Inr ()"
    using created_leaves [OF assms(6) rep(2)] by blast
  note h = healthy_row [OF rep(4)]
  have recon: "rows_of reconciliation_aggregate st2 = rows_of reconciliation_aggregate st0 @ [head]"
    using rows_of_append [OF rep(3)] rows_of_append [OF cr(2)] h cr(3) by simp
  have ok: "log_ok st1" "log_ok st2"
    using rep(2) cr(1) by (simp_all add: authentic_def)
  have b: "oc_broker c = sv_broker V" "sv_broker V \<noteq> []" "oi_intent_id i \<noteq> []"
    using cr(11,14) by (auto simp: resolve_broker_def broker_text_def validate_intent_def Let_def intent_fields_ok_def split: if_splits)
  have "sha256_shape (oc_confirmation_id c)"
    using cr(12) assms(7) by (simp add: confirmation_id_def)
  then have ids: "sha256_text (oc_confirmation_id c) = Inr (oc_confirmation_id c)" "sha256_text (oc_fingerprint c) = Inr (oc_fingerprint c)"
      "oc_confirmation_id c \<noteq> []"
    using cr(13) by (auto simp: sha256_shape_text sha256_shape_def)
  have allowed: "claim_allowed st2 (sv_broker V) (oc_confirmation_id c) (oc_fingerprint c) (t1 + lifetime) t"
    using cr(4-9) b(1) recon h assms(3,10,11,14-17) win(11,12) by (simp add: claim_allowed_def healthy_report_def)
  have ver: "verify_confirmation ?E (Aware u) i d c (Some (sv_broker V)) st2 = Inr ()" if "first \<le> u" "u \<le> last_read" for u
    by (rule created_verifies [OF assms(6) ok(1) assms(7,8) cr(1), where later = "[]"]) (use that assms(16-19) in auto)
  have gates: "require_risk V i d u = Inr ()" "require_snapshot i m u = Inr ()" if "first \<le> u" "u \<le> last_read" for u
    using that created_risk_passes [OF assms(6,26)] snapshot_passes [OF assms(27-29)] assms(16,18,19,30,31) by auto
  have cur: "is_current_healthy ?E (ck_report K) r (rr_broker r) (sv_ledger V) st2 = Inr True"
    unfolding rd(2) by (rule report_current(1) [OF cr(1) recon rep(1,4,5)]) (use win(3,4) assms(14,15) in auto)
  have hold: "gates_hold V A K Q (lw_store ?w) t"
    using assms(3,9,20-25) cur ver [OF win(9,10)] gates [OF win(11,12)] reads(2) rd(5) Q by (auto simp: gates_hold_def)
  have fence: "make_fence ?E (ck_fence K) (lr_report Q) (sv_broker V) (sv_ledger V) (lw_store ?w) =
      Inr \<lparr>sf_reconciliation_head = rr_report_id r, sf_kill_switch_head = last_id (rows_of kill_switch_aggregate st2),
        sf_interlock_head = last_id (rows_of interlock_aggregate st2)\<rparr>"
    unfolding rd(4) using report_current(2) [OF cr(1) recon rep(1,4,5), of uf] win(7,8) assms(3,9,14,15) Q by simp
  have rid: "last_id (rows_of reconciliation_aggregate st2) = Some (rr_report_id r)"
    using recon by (subst rep(5)) (simp add: last_id_def)
  have st: "order_status_value (bo_status b) \<in> set acknowledged_statuses"
    using assms(32) by (auto simp: valid_acknowledgement_def acknowledged_statuses_def)
  obtain st3 st4 where cl: "claim_and_start ?E (sv_claim_nonce V) (oi_intent_id i) (sv_broker V) (oc_confirmation_id c)
      (oc_fingerprint c) (Aware (t1 + lifetime)) (rr_report_id r) (last_id (rows_of kill_switch_aggregate st2))
      (last_id (rows_of interlock_aggregate st2)) (Aware t) st2 = (Inr (), st3)"
    and ak: "record_acknowledgement ?E (sv_ack_nonce V) (oi_intent_id i) (sv_broker V) (sv_redact V (bo_order_id b))
      (order_status_value (bo_status b)) (oc_confirmation_id c) (Aware recorded_at) st3 = (Inr (), st4)"
    using claim_acknowledged [OF cr(1) allowed b(3,2) assms(33) ids rid assms(37) st assms(35,36) [unfolded assms(34)]]
    by blast
  let ?asked = "?w\<lparr>lw_calls := calls @ [Preflight_call, Capabilities_call]\<rparr>"
  have ag: "all_gates V A K Q ?w = (Inr (t, \<lparr>sf_reconciliation_head = rr_report_id r,
      sf_kill_switch_head = last_id (rows_of kill_switch_aggregate st2),
      sf_interlock_head = last_id (rows_of interlock_aggregate st2)\<rparr>), ?asked)"
    using gates_open [OF hold rd(1)] gates [OF win(1,2)] ver [OF win(5,6)] fence rd(3) Q by simp
  have "live_claim V Q t \<lparr>sf_reconciliation_head = rr_report_id r,
      sf_kill_switch_head = last_id (rows_of kill_switch_aggregate st2),
      sf_interlock_head = last_id (rows_of interlock_aggregate st2)\<rparr> ?asked = (Inr (), ?asked\<lparr>lw_store := st3\<rparr>)"
    by (rule claim_passes) (use cl cr(10) Q in simp)
  with ag ak show ?thesis
    by fastforce
qed

section \<open>A concrete run\<close>

definition live_account :: broker_snapshot where
  "live_account = demo_account\<lparr>bs_broker := ''alpaca''\<rparr>"

definition live_intent :: order_intent where
  "live_intent = demo_intent\<lparr>oi_snapshot_hash := replicate 64 (CHR ''e'')\<rparr>"

definition live_decision :: risk_decision where
  "live_decision = demo_decision\<lparr>rd_portfolio_hash := replicate 64 (CHR ''e'')\<rparr>"

definition live_snapshot :: market_snapshot where
  "live_snapshot = \<lparr>ms_instrument_id = ''ABC@alpaca'', ms_observed_at = 19000000, ms_source_at = 18000000, ms_bars = [],
     ms_provider = ''p'', ms_max_age_seconds = 5\<rparr>"

definition live_readiness :: preflight_report where
  "live_readiness = \<lparr>pr_broker = ''alpaca'', pr_gates = map (\<lambda>n. readiness_gate n True None)
     (case required_gate_names ''alpaca'' of Inr names \<Rightarrow> names | Inl _ \<Rightarrow> [])\<rparr>"

definition live_capabilities :: broker_capabilities where
  "live_capabilities = \<lparr>bc_broker = ''alpaca'', bc_supported_asset_classes = [], bc_supported_order_types = [LIMIT],
     bc_supports_fractional_quantity = True, bc_supports_notional_orders = False, bc_supports_partial_fills = True,
     bc_supports_shorting = False, bc_supports_leverage = False, bc_supports_derivatives = False,
     bc_supports_cancel = True, bc_is_paper = False\<rparr>"

definition live_order :: broker_order where
  "live_order = \<lparr>bo_order_id = ''o1'', bo_client_order_id = ''i1'', bo_broker = ''alpaca'',
     bo_instrument_id = ''ABC@alpaca'', bo_status = FILLED, bo_requested_quantity = Some 2, bo_requested_notional = None,
     bo_filled_quantity = 2, bo_average_fill_price = Some 10, bo_submitted_at = 20000000, bo_updated_at = 20000000\<rparr>"

definition live_demo :: live_service where
  "live_demo = \<lparr>sv_env = approval_env, sv_broker = ''alpaca'', sv_ledger = demo_broker_ledger, sv_redact = (\<lambda>v. v),
     sv_boundary = True, sv_claim_nonce = ''n1'', sv_ack_nonce = ''n2'', sv_unknown_nonce = ''n3''\<rparr>"

definition answering :: "broker_order option \<Rightarrow> broker_answers" where
  "answering b = \<lparr>ba_preflight = Some live_readiness, ba_capabilities = Some live_capabilities, ba_submit = b, ba_query = None\<rparr>"

definition live_batch :: "event_append list" where
  "live_batch = claim_batch ''n1'' ''i1'' ''alpaca'' (replicate 64 (CHR ''0'')) (replicate 64 (CHR ''d'')) 115000000 20000000 @
     acknowledgement_batch ''n2'' ''i1'' ''alpaca'' ''o1'' ''filled'' (replicate 64 (CHR ''0'')) 23000000"

text \<open>A clock that moves on from reading to reading.\<close>

definition live_clock :: clock_readings where
  "live_clock = \<lparr>ck_gates = Aware 19600000, ck_report = Aware 19700000, ck_confirm = Aware 19800000,
     ck_fence = Aware 19900000, ck_claim = Aware 20000000, ck_reconfirm = Aware 20100000, ck_response = Aware 21000000,
     ck_query = Aware 22000000, ck_acknowledge = Aware 23000000, ck_unknown = Aware 24000000\<rparr>"

lemma live_readings:
  "ck_claim live_clock = Aware 20000000" "ck_response live_clock = Aware 21000000" "ck_query live_clock = Aware 22000000"
  "ck_acknowledge live_clock = Aware 23000000" "list_all (read_between 19600000 20100000) (gate_readings live_clock)"
  by (simp_all add: live_clock_def gate_readings_def)

lemma live_hashes:
  "broker_hash approval_env live_account = Inr (replicate 64 (CHR ''b''))"
  "ledger_hash approval_env demo_broker_ledger = Inr (replicate 64 (CHR ''d''))"
  "risk_decision_hash approval_env live_decision = Inr (replicate 64 (CHR ''3''))"
  "fingerprint approval_env live_intent live_decision ''alpaca'' 115000000 = Inr (replicate 64 (CHR ''d''))"
  "confirmation_id approval_env (Some demo_seed) = replicate 64 (CHR ''0'')"
  by code_simp+

lemma live_validations:
  "resolve_broker live_intent (Some ''alpaca'') = Inr ''alpaca''" "validate_intent live_intent (Some 15000000) = Inr ()"
  "validate_risk live_intent live_decision 15000000 = Inr ()"
  "valid_preflight live_readiness ''alpaca''"
  "rd_portfolio_hash live_decision = position_hash (se_sha approval_env) demo_broker_ledger"
  "ms_instrument_id live_snapshot = oi_instrument_id live_intent"
  "0 \<le> ms_max_age_seconds live_snapshot" "ms_source_at live_snapshot \<le> ms_observed_at live_snapshot"
  "ms_observed_at live_snapshot \<le> 19600000"
  "20100000 \<le> ms_source_at live_snapshot + seconds (ms_max_age_seconds live_snapshot)"
  "valid_acknowledgement live_order live_intent ''alpaca'' 21000000"
  by code_simp+

lemma live_rows_fit:
  "fits approval_env (healthy_event ''r1'' ''alpaca'' (replicate 64 (CHR ''b'')) (replicate 64 (CHR ''d'')) 10000000)"
  "list_all (fits approval_env) (issue_batch (replicate 64 (CHR ''0'')) (replicate 32 (CHR ''7'')) ''alpaca'' 15000000 115000000
     (replicate 64 (CHR ''d'')) (replicate 64 (CHR ''3'')))"
  "list_all (fits approval_env) live_batch"
  by code_simp+

lemma live_shapes: "sha256_shape (replicate 64 c)" if "c \<in> set ''0123456789abcdef''"
  using that by (auto simp: sha256_shape_def list_all_iff is_hex_def)

text \<open>The log after the comparison and the confirmation.\<close>

lemma live_prepared:
  obtains r st1 c st2 where
    "reconcile_compare approval_env ''r1'' ''k1'' (Aware 10000000) (Some live_account) demo_broker_ledger [] empty_store = (Inr r, st1)"
    "rr_healthy r" "rr_broker r = ''alpaca''" "authentic approval_env st1"
    "create_confirmation approval_env (Some demo_seed) (Some demo_seed) (Aware 15000000) live_intent live_decision
      confirmation_phrase (Some ''alpaca'') 100000000 st1 = (Inr c, st2)"
    "authentic approval_env st2" "oc_confirmation_id c = replicate 64 (CHR ''0'')" "oc_fingerprint c = replicate 64 (CHR ''d'')"
    "er_event_id ` set (es_rows st2) = {''reconciliation-r1'', ''confirmation-issued-'' @ replicate 64 (CHR ''0'')}"
    "rows_of kill_switch_aggregate st2 = []" "rows_of interlock_aggregate st2 = []"
proof -
  have b: "bs_broker live_account = ''alpaca''" "bs_broker live_account \<noteq> []"
    by (simp_all add: live_account_def)
  have ag: "broker_agrees live_account demo_broker_ledger [] 10000000"
  proof -
    have v: "valid_source live_account" "valid_expected_orders []"
      by code_simp+
    then show ?thesis
      using demo_account_agrees by (simp add: broker_agrees_def live_account_def)
  qed
  have sh: "sha256_text (replicate 64 (CHR ''b'')) = Inr (replicate 64 (CHR ''b''))"
      "sha256_text (replicate 64 (CHR ''d'')) = Inr (replicate 64 (CHR ''d''))"
    unfolding sha256_shape_text by (simp_all add: live_shapes)
  obtain r st1 where r: "reconcile_compare approval_env ''r1'' ''k1'' (Aware 10000000) (Some live_account) demo_broker_ledger []
      empty_store = (Inr r, st1)" "rr_healthy r" "rr_broker r = bs_broker live_account"
    using compare_goes_through [OF authentic_empty ag demo_ledger_dict b(2) live_hashes(1,2) sh live_rows_fit(1) [folded b(1)]] by auto
  obtain head lh where h: "authentic approval_env st1" "es_rows st1 = [head]"
      "signed_as approval_env (healthy_event ''r1'' (rr_broker r) (rr_broker_hash r) lh 10000000) head"
    using healthy_compare_InrD [OF r(1) demo_ledger_dict authentic_empty r(2)] by auto
  note hr = healthy_row [OF h(3)]
  have fresh: "rows_of (confirmation_aggregate (confirmation_id approval_env (Some demo_seed))) st1 = []"
      "''confirmation-issued-'' @ confirmation_id approval_env (Some demo_seed) \<notin> er_event_id ` set (es_rows st1)"
    using h(2) hr by (simp_all add: rows_of_def)
  have fp: "fingerprint approval_env live_intent live_decision ''alpaca'' (15000000 + 100000000) = Inr (replicate 64 (CHR ''d''))"
    using live_hashes(4) by simp
  obtain c st2 where c: "create_confirmation approval_env (Some demo_seed) (Some demo_seed) (Aware 15000000) live_intent live_decision
      confirmation_phrase (Some ''alpaca'') 100000000 st1 = (Inr c, st2)"
    using create_goes_through [OF h(1) live_validations(1) _ _ live_validations(2,3) fp live_hashes(3) _ _ demo_issue_fits(2)
        demo_issue_fits(2) _ fresh] live_rows_fit(2) live_hashes(5)
    by (auto simp: confirmation_lifetime_def seconds_def live_shapes)
  obtain row where w: "authentic approval_env st2" "es_rows st2 = es_rows st1 @ [row]"
      "er_aggregate_id row = confirmation_aggregate (oc_confirmation_id c)"
      "er_event_id row = ''confirmation-issued-'' @ oc_confirmation_id c"
      "oc_confirmation_id c = confirmation_id approval_env (Some demo_seed)"
    using created_leaves [OF c h(1)] by blast
  have f: "oc_fingerprint c = replicate 64 (CHR ''d'')"
    using create_confirmation_InrD [OF c] live_validations(1) fp by auto
  show thesis
    by (rule that [OF r(1,2) _ h(1) c w(1) _ f]) (use r(3) b h(2) hr w(2-5) live_hashes(5) in \<open>auto simp: rows_of_def\<close>)
qed

lemma live_fields:
  "oi_intent_id live_intent = ''i1''" "oi_expires_at live_intent = seconds 600" "rd_expires_at live_decision = seconds 60"
  "sv_env live_demo = approval_env" "sv_broker live_demo = ''alpaca''" "sv_ledger live_demo = demo_broker_ledger"
  "sv_boundary live_demo" "sv_redact live_demo = (\<lambda>v. v)" "sv_claim_nonce live_demo = ''n1''" "sv_ack_nonce live_demo = ''n2''"
  "bo_order_id live_order = ''o1''" "bo_status live_order = FILLED" "oi_notional live_intent = None"
  "ba_preflight (answering x) = Some live_readiness" "ba_capabilities (answering x) = Some live_capabilities"
  "ba_submit (answering x) = x" "ba_query (answering x) = None" "bc_broker live_capabilities = ''alpaca''"
  by (simp_all add: live_intent_def demo_intent_def live_decision_def demo_decision_def live_demo_def live_order_def
      answering_def live_capabilities_def)

lemma live_switches:
  assumes "authentic approval_env st" "rows_of kill_switch_aggregate st = []" "rows_of interlock_aggregate st = []"
  shows "\<not> kill_switch_active approval_env st" "\<not> interlock_active (rows_of interlock_aggregate st)"
    "\<not> kill_active (rows_of kill_switch_aggregate st) reports"
proof -
  have n: "kill_switch_aggregate \<noteq> []" "interlock_aggregate \<noteq> []"
    by (simp_all add: kill_switch_aggregate_def interlock_aggregate_def)
  show "\<not> kill_switch_active approval_env st"
    using authentic_stream [OF assms(1) n(1)] authentic_stream [OF assms(1) n(2)] assms(2,3)
    by (simp add: kill_switch_active_def kill_switch_events_def interlock_events_def kill_rows_active_def interlock_rows_active_def)
  show "\<not> interlock_active (rows_of interlock_aggregate st)" "\<not> kill_active (rows_of kill_switch_aggregate st) reports"
    using assms(2,3) by (simp_all add: interlock_active_def kill_active_def)
qed

lemma live_times:
  "(10000000::int) \<le> 19600000" "(20100000::int) \<le> 10000000 + seconds 60" "(15000000::int) \<le> 19600000"
  "(20100000::int) < 15000000 + 100000000" "20100000 < seconds 600" "20100000 < seconds 60"
  by (simp_all add: seconds_def)

lemma live_redacted: "sv_redact live_demo (bo_order_id live_order) \<noteq> []" "oi_notional live_intent = None \<or> bc_supports_notional_orders live_capabilities"
  by (simp_all add: live_fields)

lemma live_dict: "dict_ok (lg_positions (sv_ledger live_demo))"
  by (simp add: live_fields demo_ledger_dict)

lemma live_env_shapes: "sha256_shape (se_sha (sv_env live_demo) m)" "sha256_shape (se_sign (sv_env live_demo) m)"
  by (simp_all add: live_fields approval_env_shapes)

lemma live_ready:
  obtains r st1 c st2 where
    "reconcile_compare approval_env ''r1'' ''k1'' (Aware 10000000) (Some live_account) demo_broker_ledger [] empty_store = (Inr r, st1)"
    "rr_healthy r" "rr_broker r = ''alpaca''"
    "create_confirmation approval_env (Some demo_seed) (Some demo_seed) (Aware 15000000) live_intent live_decision
      confirmation_phrase (Some ''alpaca'') 100000000 st1 = (Inr c, st2)"
    "\<not> kill_switch_active approval_env st2" "\<not> interlock_active (rows_of interlock_aggregate st2)"
    "\<not> kill_active (rows_of kill_switch_aggregate st2) (rows_of reconciliation_aggregate st2)"
    "live_batch = claim_batch ''n1'' ''i1'' ''alpaca'' (oc_confirmation_id c) (oc_fingerprint c) (15000000 + 100000000) 20000000 @
      acknowledgement_batch ''n2'' ''i1'' ''alpaca'' ''o1'' (order_status_value FILLED) (oc_confirmation_id c) 23000000"
    "set (map ea_event_id live_batch) \<inter> er_event_id ` set (es_rows st2) = {}" "[] \<notin> er_event_id ` set (es_rows st2)"
    "log_ok st2"
proof -
  obtain r st1 c st2 where l:
    "reconcile_compare approval_env ''r1'' ''k1'' (Aware 10000000) (Some live_account) demo_broker_ledger [] empty_store = (Inr r, st1)"
    "rr_healthy r" "rr_broker r = ''alpaca''" "authentic approval_env st1"
    "create_confirmation approval_env (Some demo_seed) (Some demo_seed) (Aware 15000000) live_intent live_decision
      confirmation_phrase (Some ''alpaca'') 100000000 st1 = (Inr c, st2)"
    "authentic approval_env st2" "oc_confirmation_id c = replicate 64 (CHR ''0'')" "oc_fingerprint c = replicate 64 (CHR ''d'')"
    "er_event_id ` set (es_rows st2) = {''reconciliation-r1'', ''confirmation-issued-'' @ replicate 64 (CHR ''0'')}"
    "rows_of kill_switch_aggregate st2 = []" "rows_of interlock_aggregate st2 = []"
    by (rule live_prepared)
  note sw = live_switches [OF l(6,10,11)]
  have "set (map ea_event_id live_batch) \<inter> er_event_id ` set (es_rows st2) = {}"
    unfolding l(9) live_batch_def by (simp add: claim_batch_def acknowledgement_batch_def)
  moreover have "[] \<notin> er_event_id ` set (es_rows st2)"
    unfolding l(9) by simp
  moreover have "log_ok st2"
    using l(6) by (simp add: authentic_def)
  ultimately show thesis
    using that [OF l(1-3,5) sw] l(7,8) by (simp add: live_batch_def)
qed

lemma live_claims:
  obtains Q w where "log_ok (lw_store w)" "lr_intent Q = live_intent"
    "\<And>x. \<exists>fence w0 w1 st. all_gates live_demo (answering x) live_clock Q w = (Inr (20000000, fence), w0) \<and>
      live_claim live_demo Q 20000000 fence w0 = (Inr (), w1) \<and> submissions w1 = submissions w \<and>
      record_acknowledgement approval_env ''n2'' ''i1'' ''alpaca'' ''o1'' (order_status_value FILLED)
        (oc_confirmation_id (lr_confirmation Q)) (Aware 23000000) (lw_store w1) = (Inr (), st)"
proof -
  obtain r st1 c st2 where l:
    "reconcile_compare approval_env ''r1'' ''k1'' (Aware 10000000) (Some live_account) demo_broker_ledger [] empty_store = (Inr r, st1)"
    "rr_healthy r" "rr_broker r = ''alpaca''"
    "create_confirmation approval_env (Some demo_seed) (Some demo_seed) (Aware 15000000) live_intent live_decision
      confirmation_phrase (Some ''alpaca'') 100000000 st1 = (Inr c, st2)"
    "\<not> kill_switch_active approval_env st2" "\<not> interlock_active (rows_of interlock_aggregate st2)"
    "\<not> kill_active (rows_of kill_switch_aggregate st2) (rows_of reconciliation_aggregate st2)"
    "live_batch = claim_batch ''n1'' ''i1'' ''alpaca'' (oc_confirmation_id c) (oc_fingerprint c) (15000000 + 100000000) 20000000 @
      acknowledgement_batch ''n2'' ''i1'' ''alpaca'' ''o1'' (order_status_value FILLED) (oc_confirmation_id c) 23000000"
    "set (map ea_event_id live_batch) \<inter> er_event_id ` set (es_rows st2) = {}" "[] \<notin> er_event_id ` set (es_rows st2)"
    "log_ok st2"
    by (rule live_ready)
  show thesis
  proof (rule that [where w = "\<lparr>lw_store = st2, lw_calls = []\<rparr>" and Q = "\<lparr>lr_intent = live_intent, lr_decision = live_decision,
        lr_snapshot = live_snapshot, lr_confirmation = c, lr_preflight = live_readiness, lr_report = r\<rparr>"])
    fix x
    show "\<exists>fence w0 w1 st. all_gates live_demo (answering x) live_clock \<lparr>lr_intent = live_intent, lr_decision = live_decision,
        lr_snapshot = live_snapshot, lr_confirmation = c, lr_preflight = live_readiness, lr_report = r\<rparr>
        \<lparr>lw_store = st2, lw_calls = []\<rparr> = (Inr (20000000, fence), w0) \<and>
      live_claim live_demo \<lparr>lr_intent = live_intent, lr_decision = live_decision,
        lr_snapshot = live_snapshot, lr_confirmation = c, lr_preflight = live_readiness, lr_report = r\<rparr> 20000000 fence w0 = (Inr (), w1) \<and>
      submissions w1 = submissions \<lparr>lw_store = st2, lw_calls = []\<rparr> \<and>
      record_acknowledgement approval_env ''n2'' ''i1'' ''alpaca'' ''o1'' (order_status_value FILLED)
        (oc_confirmation_id (lr_confirmation \<lparr>lr_intent = live_intent, lr_decision = live_decision,
        lr_snapshot = live_snapshot, lr_confirmation = c, lr_preflight = live_readiness, lr_report = r\<rparr>)) (Aware 23000000) (lw_store w1) = (Inr (), st)"
      using prepared_claims [where V = live_demo and A = "answering x" and i = live_intent and
        b = live_order and d = live_decision and batch = live_batch and r = r and c = c and ?st2.0 = st2 and ?st1.0 = st1 and
        m = live_snapshot and calls = "[]", unfolded live_fields, OF l(1-3) demo_ledger_dict authentic_empty l(4)
        approval_env_shapes l(5-7) live_readings(5,1) live_times live_fields(7) refl live_validations(4) refl live_fields(18) disjI1 [OF refl]
        live_validations(5-11) list.distinct(2) l(8) live_rows_fit(3) l(9,10) refl]
      by (fastforce simp: submissions_def)
  qed (use l(11) in simp_all)
qed

lemma live_answered:
  obtains Q w w' where "submit_confirmed live_demo (answering (Some live_order)) live_clock Q w = (Inr live_order, w')"
    "log_ok (lw_store w)" "lr_intent Q = live_intent"
proof -
  obtain Q w where q: "log_ok (lw_store w)" "lr_intent Q = live_intent"
    "\<And>x. \<exists>fence w0 w1 st. all_gates live_demo (answering x) live_clock Q w = (Inr (20000000, fence), w0) \<and>
      live_claim live_demo Q 20000000 fence w0 = (Inr (), w1) \<and> submissions w1 = submissions w \<and>
      record_acknowledgement approval_env ''n2'' ''i1'' ''alpaca'' ''o1'' (order_status_value FILLED)
        (oc_confirmation_id (lr_confirmation Q)) (Aware 23000000) (lw_store w1) = (Inr (), st)"
    using live_claims by metis
  obtain fence w0 w1 st where g: "all_gates live_demo (answering (Some live_order)) live_clock Q w = (Inr (20000000, fence), w0)"
      "live_claim live_demo Q 20000000 fence w0 = (Inr (), w1)"
    and a: "record_acknowledgement approval_env ''n2'' ''i1'' ''alpaca'' ''o1'' (order_status_value FILLED)
        (oc_confirmation_id (lr_confirmation Q)) (Aware 23000000) (lw_store w1) = (Inr (), st)"
    using q(3) [of "Some live_order"] by blast
  have "\<exists>w'. submit_confirmed live_demo (answering (Some live_order)) live_clock Q w = (Inr live_order, w')"
  proof (rule submission_passes [OF g])
    show "valid_acknowledgement live_order (lr_intent Q) (sv_broker live_demo) 21000000"
      using live_validations(11) q(2) by (simp add: live_fields)
    show "\<exists>w3. acknowledge live_demo live_clock Q live_order w2 = (Inr live_order, w3)" if "lw_store w2 = lw_store w1" for w2
      using acknowledgement_passes [of live_demo Q live_order 23000000 w2 st live_clock] a q(2) that by (simp add: live_fields live_readings)
  qed (simp_all add: live_fields live_readings)
  then show thesis
    using that q(1,2) by blast
qed

lemma live_unanswered:
  obtains Q w x w' where "submit_confirmed live_demo (answering None) live_clock Q w = (Inl x, w')"
    "log_ok (lw_store w)" "submissions w' \<noteq> submissions w"
proof -
  obtain Q w fence w0 w1 where q: "log_ok (lw_store w)"
      "all_gates live_demo (answering None) live_clock Q w = (Inr (20000000, fence), w0)"
      "live_claim live_demo Q 20000000 fence w0 = (Inr (), w1)" "submissions w1 = submissions w"
    using live_claims by metis
  obtain x w' where "submit_confirmed live_demo (answering None) live_clock Q w = (Inl x, w')"
      "submissions w' = submissions w1 @ [Submit_call (lr_intent Q) (lr_snapshot Q)]"
    by (rule submission_unanswered [OF q(2,3)]) (simp_all add: live_fields live_readings)
  with q show thesis
    using that by simp
qed




section \<open>The properties of live submission on the run\<close>

theorem returned_order_is_acknowledged_witness:
  "\<exists>Q w w'. submit_confirmed live_demo (answering (Some live_order)) live_clock Q w = (Inr live_order, w') \<and>
     answered live_demo (answering (Some live_order)) live_clock Q live_order \<and>
     \<not> interlock_active (rows_of interlock_aggregate (lw_store w'))"
proof -
  obtain Q w w' where q: "submit_confirmed live_demo (answering (Some live_order)) live_clock Q w = (Inr live_order, w')"
      "log_ok (lw_store w)" "lr_intent Q = live_intent"
    by (rule live_answered)
  have "oi_intent_id (lr_intent Q) \<noteq> interlock_aggregate"
    by (simp add: q(3) live_fields interlock_aggregate_def)
  then show ?thesis
    using returned_order_is_acknowledged [OF q(1,2)] q(1) by blast
qed

theorem one_submission_after_every_gate_witness:
  "\<exists>Q w w'. submit_confirmed live_demo (answering (Some live_order)) live_clock Q w = (Inr live_order, w') \<and>
     submissions w' = submissions w @ [Submit_call (lr_intent Q) (lr_snapshot Q)]"
proof -
  obtain Q w w' where q: "submit_confirmed live_demo (answering (Some live_order)) live_clock Q w = (Inr live_order, w')"
      "log_ok (lw_store w)"
    by (rule live_answered)
  then show ?thesis
    using one_submission_after_every_gate [OF q] by auto
qed

theorem ambiguity_stops_trading_witness:
  "\<exists>Q w x w'. submit_confirmed live_demo (answering None) live_clock Q w = (Inl x, w') \<and>
     submissions w' \<noteq> submissions w \<and> trading_stopped (lw_store w')"
proof -
  obtain Q w x w' where q: "submit_confirmed live_demo (answering None) live_clock Q w = (Inl x, w')"
      "log_ok (lw_store w)" "submissions w' \<noteq> submissions w"
    by (rule live_unanswered)
  then show ?thesis
    using ambiguity_stops_trading [OF q] by blast
qed

end
