(* ===== verification/LiveRisk.thy ===== *)
theory LiveRisk
  imports Risk LiveFacts
begin

text \<open>
  The risk engine against the live gate: the engine stamps its decisions with the hash of the whole
  portfolio snapshot, the gate asks for the hash of the positions of its ledger.
\<close>

lemma json_texts: "floatless (portfolio_payload p)" "floatless (position_payload L)"
  by (auto simp: portfolio_payload_def position_payload_def list_all_iff case_prod_beta)

text \<open>The two messages differ, whatever the snapshot and the ledger.\<close>

lemma messages_differ: "dumps (portfolio_payload p) \<noteq> dumps (position_payload L)"
proof
  assume "dumps (portfolio_payload p) = dumps (position_payload L)"
  from dumps_fields [OF json_texts [unfolded portfolio_payload_def position_payload_def] _ _
      this [unfolded portfolio_payload_def position_payload_def], of "''currency''"]
  show False
    by (simp add: dict_ok_def)
qed

lemma assess_hash:
  "assess sha E clk i ins m p now = Inr d \<Longrightarrow> rd_portfolio_hash d = portfolio_hash sha p"
  by (auto simp: assess_def Let_def result_simps split: if_splits prod.splits)

text \<open>C30: no decision of the risk engine passes the live gate: a decision that the engine made for any order on
  any portfolio snapshot is refused by the risk gate of live submission, whatever its ledger, the order it
  is presented for and the time, unless SHA-256 collides on the two messages; the order is then never
  submitted.\<close>

theorem engine_decision_never_live:
  assumes "assess (se_sha (sv_env V)) E clk i ins m p now = Inr d" "lr_decision Q = d"
    and "inj_on (se_sha (sv_env V)) {dumps (portfolio_payload p), dumps (position_payload (sv_ledger V))}"
  shows "\<not> is_ok (require_risk V j d t) \<and> submissions (snd (submit_confirmed V A K Q w)) = submissions w"
proof -
  have "portfolio_hash (se_sha (sv_env V)) p \<noteq> position_hash (se_sha (sv_env V)) (sv_ledger V)"
    using assms(3) messages_differ by (auto simp: inj_on_def portfolio_hash_def position_hash_def)
  then have r: "require_risk V j d t \<noteq> Inr ()" for j t
    using assess_hash [OF assms(1)] by (auto simp: require_risk_def)
  moreover have "submissions (snd (submit_confirmed V A K Q w)) = submissions w"
  proof -
    have "fst (all_gates V A K Q w) \<noteq> Inr x" for x
      using all_gates_InrD [of V A K Q w "fst x" "snd x"] r assms(2)
      by (cases "all_gates V A K Q w") (auto simp: gates_hold_def)
    then obtain e w0 where g: "all_gates V A K Q w = (Inl e, w0)"
      by (metis fst_conv old.prod.exhaust sum.exhaust)
    then have "submit_confirmed V A K Q w = (Inl e, w0)"
      by (simp add: submit_confirmed_def then_do_def)
    then show ?thesis
      using alongD [OF all_gates_quiet g] by (simp add: quiet_def)
  qed
  ultimately show ?thesis
    by (simp add: is_ok_unit)
qed

definition plain_service :: live_service where
  "plain_service = \<lparr>sv_env = \<lparr>se_sha = (\<lambda>m. m), se_sign = (\<lambda>m. m), se_unicode = demo_unicode\<rparr>, sv_broker = ''alpaca'',
     sv_ledger = ledger_init 1000 ''USD'', sv_redact = (\<lambda>v. v), sv_boundary = True, sv_claim_nonce = ''n1'',
     sv_ack_nonce = ''n2'', sv_unknown_nonce = ''n3''\<rparr>"

theorem engine_decision_never_live_witness:
  "\<exists>d. assess (\<lambda>m. m) (demo_engine False) (Aware 0) demo_intent demo_instrument demo_market demo_portfolio (Some (Aware 0)) = Inr d \<and>
     \<not> is_ok (require_risk plain_service demo_intent d 0)"
proof -
  fix Q :: live_request
  obtain d where d: "assess (\<lambda>m. m) (demo_engine False) (Aware 0) demo_intent demo_instrument demo_market
      demo_portfolio (Some (Aware 0)) = Inr d"
    using assess_total is_ok_iff by metis
  then have "assess (se_sha (sv_env plain_service)) (demo_engine False) (Aware 0) demo_intent demo_instrument demo_market
      demo_portfolio (Some (Aware 0)) = Inr d"
    by (simp add: plain_service_def)
  from engine_decision_never_live [OF this, where Q = "Q\<lparr>lr_decision := d\<rparr>"] d show ?thesis
    by (simp add: plain_service_def)
qed

end
