(* ===== verification/Backtest.thy ===== *)
theory Backtest
  imports FillModel Risk Ledger Timestamps
begin

text \<open>
  The point-in-time simulation of \<open>backtest/engine.py\<close>: one pass over the bars with at most one
  pending order and one open trade, whose entries go through the production sizer, risk engine,
  fill model and ledger.  The strategy is a parameter, a function of the context it is given;
  SHA-256 and the calendar day of an instant in a zone (the time zone database) are parameters too.
  A failed \<open>assert\<close> is the exception \<open>assertion\<close>; what is asserted is part of the book
  invariant of \<open>BacktestFacts\<close>.
\<close>

section \<open>Records\<close>

record backtest_event =
  be_at :: instant
  be_kind :: string
  be_reason_codes :: "string list"

record equity_point =
  ep_at :: instant
  ep_value :: dec

record completed_trade =
  ct_opened_at :: instant
  ct_closed_at :: instant
  ct_quantity :: dec
  ct_entry_price :: dec
  ct_exit_price :: dec
  ct_fees :: dec
  ct_net_pnl :: dec

record canonical_parameter =
  cp_name :: string
  cp_kind :: string
  cp_value :: string

record strategy_configuration =
  sc_strategy_id :: string
  sc_strategy_version :: string
  sc_parameters :: "canonical_parameter list"

record strategy_metadata =
  sm_strategy_id :: string
  sm_version :: string
  sm_allowed_horizons :: "horizon list"
  sm_allowed_directions :: "signal_direction list"
  sm_max_holding_bars :: "int option"
  sm_mandatory_preclose_closeout :: bool
  sm_preclose_buffer :: "int option"
  sm_spot_only :: bool
  sm_leverage_allowed :: bool

record strategy_context =
  cx_instrument_id :: string
  cx_bars :: "bar list"
  cx_horizon :: horizon
  cx_spread_bps :: dec

record strategy =
  st_metadata :: strategy_metadata
  st_configuration :: strategy_configuration
  st_evaluate :: "strategy_context \<Rightarrow> signal option result"

record backtest_result =
  br_strategy_id :: string
  br_strategy_version :: string
  br_strategy_configuration :: strategy_configuration
  br_costs :: cost_model
  br_data_cutoff :: instant
  br_events :: "backtest_event list"
  br_fills :: "fill list"
  br_equity_curve :: "equity_point list"
  br_benchmark_curve :: "equity_point list"
  br_initial_cash :: dec
  br_ending_equity :: dec
  br_gross_ending_equity :: dec
  br_total_fees :: dec
  br_completed_trades :: "completed_trade list"
  br_traded_notional :: dec
  br_exposed_periods :: nat

record robustness_result =
  rb_base :: backtest_result
  rb_stressed :: backtest_result
  rb_stressed_costs :: cost_model

record pending_order =
  po_order_id :: string
  po_side :: side
  po_quantity :: dec
  po_submitted_index :: nat
  po_submitted_at :: instant
  po_stop_loss :: "dec option"
  po_take_profit :: "dec option"
  po_limit_price :: "dec option"
  po_approved_notional :: "dec option"
  po_approved_stop_risk :: "dec option"
  po_filled_notional :: dec
  po_filled_stop_risk :: dec

record open_trade =
  ot_quantity :: dec
  ot_stop_loss :: dec
  ot_take_profit :: dec
  ot_opened_index :: nat
  ot_opened_at :: instant
  ot_entry_quantity :: dec
  ot_entry_notional :: dec
  ot_entry_fees :: dec
  ot_exit_quantity :: dec
  ot_exit_notional :: dec
  ot_exit_fees :: dec

text \<open>The engine with the parameters that stand for SHA-256 and the time zone database.\<close>

record backtest_engine =
  bg_costs :: cost_model
  bg_policy :: risk_policy
  bg_max_volume_participation :: dec
  bg_sha :: "string \<Rightarrow> string"
  bg_local_day :: "string \<Rightarrow> instant \<Rightarrow> int result"

definition assertion :: exn where
  "assertion = RuntimeError ''assertion failed''"

definition check_metadata :: "strategy_metadata \<Rightarrow> strategy_metadata result" where
  "check_metadata m =
     (if strip (sm_strategy_id m) = [] \<or> strip (sm_version m) = []
      then Inl (ValueError ''strategy metadata identifiers must not be empty'')
      else if sm_allowed_horizons m = [] \<or> sm_allowed_directions m = []
      then Inl (ValueError ''strategy metadata eligibility must not be empty'')
      else if (case sm_max_holding_bars m of None \<Rightarrow> False | Some n \<Rightarrow> n \<le> 0)
      then Inl (ValueError ''max_holding_bars must be positive'')
      else if sm_mandatory_preclose_closeout m \<noteq> (sm_preclose_buffer m \<noteq> None)
      then Inl (ValueError ''pre-close policy and buffer must be declared together'')
      else if (case sm_preclose_buffer m of None \<Rightarrow> False | Some d \<Rightarrow> d \<le> 0)
      then Inl (ValueError ''preclose_buffer must be positive'')
      else Inr m)"

definition check_context :: "strategy_context \<Rightarrow> strategy_context result" where
  "check_context c =
     (if strip (cx_instrument_id c) = [] then Inl (ValueError ''instrument_id must not be empty'')
      else if cx_spread_bps c < 0 then Inl (ValueError ''spread_bps must be a finite nonnegative Decimal'')
      else Inr c)"

section \<open>Bars\<close>

definition validate_ohlc :: "bar \<Rightarrow> unit result" where
  "validate_ohlc b =
     (if \<not> list_all (\<lambda>v. 0 < v) [bar_open b, bar_high b, bar_low b, bar_close b]
      then Inl (ValueError ''bars must contain finite positive Decimal OHLC values'')
      else if \<not> (bar_low b \<le> min (bar_open b) (bar_close b) \<and> max (bar_open b) (bar_close b) \<le> bar_high b)
      then Inl (ValueError ''bars must have consistent OHLC ordering'')
      else if bar_volume b < 0
      then Inl (ValueError ''bars must contain finite nonnegative Decimal volume'')
      else Inr ())"

fun validate_bars_from :: "instant option \<Rightarrow> bar list \<Rightarrow> unit result" where
  "validate_bars_from previous [] = Inr ()"
| "validate_bars_from previous (b # bs) =
     rbind (validate_ohlc b) (\<lambda>_.
     if (case previous of None \<Rightarrow> False | Some t \<Rightarrow> bar_at b \<le> t)
     then Inl (ValueError ''bars must be strictly chronological'')
     else validate_bars_from (Some (bar_at b)) bs)"

definition validate_bars :: "bar list \<Rightarrow> unit result" where
  "validate_bars bars = (if bars = [] then Inl (ValueError ''bars must be a nonempty tuple'')
     else validate_bars_from None bars)"

section \<open>Trades\<close>

definition apply_entry_fill :: "open_trade option \<Rightarrow> pending_order \<Rightarrow> fill \<Rightarrow> nat \<Rightarrow> open_trade result" where
  "apply_entry_fill trade p f index =
     (case (po_stop_loss p, po_take_profit p) of
        (Some stop, Some take_profit) \<Rightarrow> (let notional = dmul (fl_quantity f) (fl_price f) in Inr (case trade of
            None \<Rightarrow> \<lparr>ot_quantity = fl_quantity f, ot_stop_loss = stop, ot_take_profit = take_profit,
              ot_opened_index = index, ot_opened_at = fl_filled_at f, ot_entry_quantity = fl_quantity f,
              ot_entry_notional = notional, ot_entry_fees = fl_fee f, ot_exit_quantity = 0,
              ot_exit_notional = 0, ot_exit_fees = 0\<rparr>
          | Some o1 \<Rightarrow> o1\<lparr>ot_quantity := dadd (ot_quantity o1) (fl_quantity f),
              ot_entry_quantity := dadd (ot_entry_quantity o1) (fl_quantity f),
              ot_entry_notional := dadd (ot_entry_notional o1) notional,
              ot_entry_fees := dadd (ot_entry_fees o1) (fl_fee f)\<rparr>))
      | _ \<Rightarrow> Inl assertion)"

definition apply_exit_fill :: "open_trade \<Rightarrow> fill \<Rightarrow> (open_trade option \<times> completed_trade option) result" where
  "apply_exit_fill trade f =
     (let remaining = dsub (ot_quantity trade) (fl_quantity f);
          exit_quantity = dadd (ot_exit_quantity trade) (fl_quantity f);
          exit_notional = dadd (ot_exit_notional trade) (dmul (fl_quantity f) (fl_price f));
          exit_fees = dadd (ot_exit_fees trade) (fl_fee f);
          fees = dadd (ot_entry_fees trade) exit_fees in
      if remaining < 0 then Inl (RuntimeError ''backtest exit would exceed the open position'')
      else if 0 < remaining
      then Inr (Some (trade\<lparr>ot_quantity := remaining, ot_exit_quantity := exit_quantity,
        ot_exit_notional := exit_notional, ot_exit_fees := exit_fees\<rparr>), None)
      else Inr (None, Some \<lparr>ct_opened_at = ot_opened_at trade, ct_closed_at = fl_filled_at f,
        ct_quantity = ot_entry_quantity trade,
        ct_entry_price = ddiv (ot_entry_notional trade) (ot_entry_quantity trade),
        ct_exit_price = ddiv exit_notional exit_quantity, ct_fees = fees,
        ct_net_pnl = dsub (dsub exit_notional (ot_entry_notional trade)) fees\<rparr>))"

definition protective_exit_reason :: "open_trade \<Rightarrow> bar \<Rightarrow> nat \<Rightarrow> strategy_metadata \<Rightarrow> string option" where
  "protective_exit_reason trade b index m =
     (if bar_low b \<le> ot_stop_loss trade then Some ''STOP_LOSS''
      else if ot_take_profit trade \<le> bar_high b then Some ''TAKE_PROFIT''
      else case sm_max_holding_bars m of
          None \<Rightarrow> None
        | Some n \<Rightarrow> if int index - int (ot_opened_index trade) \<ge> n then Some ''MAX_HOLDING_BARS'' else None)"

definition exit_order :: "string \<Rightarrow> bar \<Rightarrow> nat \<Rightarrow> dec \<Rightarrow> string \<Rightarrow> pending_order" where
  "exit_order strategy_id b index quantity reason =
     \<lparr>po_order_id = lower reason @ '':'' @ strategy_id @ '':'' @ iso_text (bar_at b), po_side = SELL,
      po_quantity = quantity, po_submitted_index = index, po_submitted_at = bar_at b, po_stop_loss = None,
      po_take_profit = None, po_limit_price = None, po_approved_notional = None, po_approved_stop_risk = None,
      po_filled_notional = 0, po_filled_stop_risk = 0\<rparr>"

text \<open>The fill of a pending order in one bar, if it is executable within its approval.\<close>

definition within_approval ::
  "pending_order \<Rightarrow> dec \<Rightarrow> dec \<Rightarrow> dec \<Rightarrow> dec \<Rightarrow> dec \<Rightarrow> instrument \<Rightarrow> dec \<Rightarrow> fill \<Rightarrow> bool" where
  "within_approval p limit stop take_profit approved_notional approved_risk ins available_cash f =
     (let notional = dmul (fl_quantity f) (fl_price f);
          stop_risk = dmul (fl_quantity f) (dsub (fl_price f) stop) in
      fl_price f \<le> limit \<and> dadd (po_filled_notional p) notional \<le> approved_notional \<and>
      ins_minimum_notional ins \<le> approved_notional \<and> dadd notional (fl_fee f) \<le> available_cash \<and>
      stop < fl_price f \<and> fl_price f < take_profit \<and> 0 \<le> stop_risk \<and>
      dadd (po_filled_stop_risk p) stop_risk \<le> approved_risk)"

definition create_pending_fill ::
  "cost_model \<Rightarrow> pending_order \<Rightarrow> dec \<Rightarrow> bar \<Rightarrow> instrument \<Rightarrow> string \<Rightarrow> dec \<Rightarrow> fill option result" where
  "create_pending_fill c p quantity b ins fill_id available_cash =
     (case po_side p of
        SELL \<Rightarrow> rbind (model_fill c fill_id (po_order_id p) ins SELL quantity (bar_open b)
            (Aware (po_submitted_at p)) (Aware (bar_at b))) (\<lambda>f. Inr (Some f))
      | BUY \<Rightarrow> (case (po_limit_price p, po_approved_notional p, po_approved_stop_risk p, po_stop_loss p, po_take_profit p) of
          (Some limit, Some notional, Some risk, Some stop, Some take_profit) \<Rightarrow>
            if limit < bar_low b then Inr None
            else rbind (model_fill c fill_id (po_order_id p) ins BUY quantity (min (bar_open b) limit)
                (Aware (po_submitted_at p)) (Aware (bar_at b))) (\<lambda>f.
              Inr (if within_approval p limit stop take_profit notional risk ins available_cash f then Some f else None))
        | _ \<Rightarrow> Inl assertion))"

section \<open>The state of a run\<close>

record sim =
  si_ledger :: ledger
  si_pending :: "pending_order option"
  si_open :: "open_trade option"
  si_fills :: "fill list"
  si_completed :: "completed_trade list"
  si_events :: "backtest_event list"
  si_equity :: "equity_point list"
  si_impact :: dec
  si_exposed :: nat

definition sim_init :: "dec \<Rightarrow> string \<Rightarrow> sim" where
  "sim_init initial_cash currency = \<lparr>si_ledger = ledger_init initial_cash currency, si_pending = None,
     si_open = None, si_fills = [], si_completed = [], si_events = [], si_equity = [], si_impact = 0, si_exposed = 0\<rparr>"

definition note_event :: "instant \<Rightarrow> string \<Rightarrow> string list \<Rightarrow> sim \<Rightarrow> sim" where
  "note_event t label reasons s = s\<lparr>si_events := si_events s @ [\<lparr>be_at = t, be_kind = label, be_reason_codes = reasons\<rparr>]\<rparr>"

text \<open>A pending entry is replaced by an exit of the open part.\<close>

definition place_exit :: "strategy_metadata \<Rightarrow> bar \<Rightarrow> nat \<Rightarrow> string \<Rightarrow> open_trade \<Rightarrow> sim \<Rightarrow> sim" where
  "place_exit m b index reason trade s =
     note_event (bar_at b) reason []
       (s\<lparr>si_pending := Some (exit_order (sm_strategy_id m) b index (ot_quantity trade) reason)\<rparr>)"

definition cancel_remainder :: "strategy_metadata \<Rightarrow> nat \<Rightarrow> bar \<Rightarrow> sim \<Rightarrow> sim" where
  "cancel_remainder m index b s = (case (si_open s, si_pending s) of
     (Some trade, Some p) \<Rightarrow>
       if po_side p = BUY \<and> ot_opened_index trade < index
       then (case protective_exit_reason trade b index m of
           None \<Rightarrow> s
         | Some reason \<Rightarrow> place_exit m b index reason trade
             (note_event (bar_at b) ''ENTRY_REMAINDER_CANCELLED'' [] s))
       else s
   | _ \<Rightarrow> s)"

text \<open>What one fill changes.\<close>

definition book_fill :: "nat \<Rightarrow> bar \<Rightarrow> pending_order \<Rightarrow> fill \<Rightarrow> sim \<Rightarrow> sim result" where
  "book_fill index b p f s =
     rbind (apply_fill f (si_ledger s)) (\<lambda>ledger.
     let impact = dadd (si_impact s) (case fl_side f of
             BUY \<Rightarrow> dmul (fl_quantity f) (dsub (fl_price f) (bar_open b))
           | SELL \<Rightarrow> dmul (fl_quantity f) (dsub (bar_open b) (fl_price f)));
         s1 = note_event (bar_at b) ''FILL'' []
           (s\<lparr>si_ledger := ledger, si_impact := impact, si_fills := si_fills s @ [f]\<rparr>);
         remaining = dsub (po_quantity p) (fl_quantity f) in
     case fl_side f of
       BUY \<Rightarrow> rbind (apply_entry_fill (si_open s) p f index) (\<lambda>trade.
         case po_stop_loss p of
           None \<Rightarrow> Inl assertion
         | Some stop \<Rightarrow> Inr (s1\<lparr>si_open := Some trade, si_pending := (if remaining = 0 then None
             else Some (p\<lparr>po_quantity := remaining,
               po_filled_notional := dadd (po_filled_notional p) (dmul (fl_quantity f) (fl_price f)),
               po_filled_stop_risk := dadd (po_filled_stop_risk p)
                 (dmul (fl_quantity f) (dsub (fl_price f) stop))\<rparr>))\<rparr>))
     | SELL \<Rightarrow> (case si_open s of
         None \<Rightarrow> Inl assertion
       | Some trade \<Rightarrow> rbind (apply_exit_fill trade f) (\<lambda>(left, done).
           Inr (s1\<lparr>si_open := left,
             si_completed := si_completed s @ (case done of None \<Rightarrow> [] | Some t \<Rightarrow> [t]),
             si_pending := (if remaining = 0 then None else Some (p\<lparr>po_quantity := remaining\<rparr>))\<rparr>))))"

definition fill_id_text :: "sim \<Rightarrow> string" where
  "fill_id_text s = ''backtest-fill-'' @ int_text (int (length (si_fills s)) + 1)"

definition fill_pending :: "backtest_engine \<Rightarrow> instrument \<Rightarrow> nat \<Rightarrow> bar \<Rightarrow> sim \<Rightarrow> sim result" where
  "fill_pending G ins index b s = (case si_pending s of
     None \<Rightarrow> Inr s
   | Some p \<Rightarrow>
       if \<not> po_submitted_index p < index then Inr s
       else rbind (can_fill (bg_costs G) (Aware (po_submitted_at p)) (Aware (bar_at b))) (\<lambda>ok.
       if \<not> ok then Inr s
       else rbind (liquidity_budget (bar_volume b) (bg_max_volume_participation G) (ins_quantity_step ins)) (\<lambda>liquidity.
         rbind (allocate_quantity (ins_quantity_step ins) (po_quantity p) liquidity) (\<lambda>allocated.
         rbind (if allocated = 0 then Inr None
           else create_pending_fill (bg_costs G) p allocated b ins (fill_id_text s) (lg_cash (si_ledger s))) (\<lambda>f.
         case f of None \<Rightarrow> Inr (note_event (bar_at b) ''ORDER_NOT_EXECUTABLE'' [] s)
         | Some f' \<Rightarrow> book_fill index b p f' s)))))"

definition instrument_key :: "instrument \<Rightarrow> string" where
  "instrument_key ins = ins_symbol ins @ ''@'' @ ins_venue ins"

definition mark_bar :: "instrument \<Rightarrow> bar \<Rightarrow> sim \<Rightarrow> (portfolio_snapshot \<times> sim) result" where
  "mark_bar ins b s =
     rbind (mark [(instrument_key ins, bar_close b)] (Aware (bar_at b)) (si_ledger s)) (\<lambda>(snapshot, ledger).
     Inr (snapshot, s\<lparr>si_ledger := ledger,
       si_exposed := (if ps_positions snapshot \<noteq> [] then si_exposed s + 1 else si_exposed s),
       si_equity := si_equity s @ [\<lparr>ep_at = bar_at b, ep_value = ps_equity snapshot\<rparr>]\<rparr>))"

definition protect :: "strategy_metadata \<Rightarrow> nat \<Rightarrow> bar \<Rightarrow> sim \<Rightarrow> sim" where
  "protect m index b s = (case (si_open s, si_pending s) of
     (Some trade, None) \<Rightarrow>
       if ot_opened_index trade < index
       then (case protective_exit_reason trade b index m of
           None \<Rightarrow> s | Some reason \<Rightarrow> place_exit m b index reason trade s)
       else s
   | _ \<Rightarrow> s)"

text \<open>The last bar of a session: \<open>later\<close> are the bars after this one.\<close>

definition close_session ::
  "backtest_engine \<Rightarrow> instrument \<Rightarrow> strategy_metadata \<Rightarrow> nat \<Rightarrow> bar \<Rightarrow> bar list \<Rightarrow> sim \<Rightarrow> sim result" where
  "close_session G ins m index b later s = (case (si_open s, later) of
     (Some trade, next_bar # _) \<Rightarrow>
       if (case si_pending s of None \<Rightarrow> True | Some p \<Rightarrow> po_side p = BUY) \<and> sm_mandatory_preclose_closeout m
       then rbind (bg_local_day G (ins_timezone ins) (bar_at b)) (\<lambda>today.
         rbind (bg_local_day G (ins_timezone ins) (bar_at next_bar)) (\<lambda>tomorrow.
         if today = tomorrow then Inr s
         else Inr (place_exit m b index ''SESSION_CLOSEOUT'' trade
           (if si_pending s \<noteq> None then note_event (bar_at b) ''ENTRY_REMAINDER_CANCELLED'' [] s else s))))
       else Inr s
   | _ \<Rightarrow> Inr s)"

definition approved_order :: "nat \<Rightarrow> bar \<Rightarrow> order_intent \<Rightarrow> risk_decision \<Rightarrow> pending_order option" where
  "approved_order index b i d =
     (case (rd_approved_quantity d, rd_approved_notional d, oi_limit_price i, oi_stop_loss i, oi_take_profit i) of
        (Some quantity, Some notional, Some limit, Some stop, Some take_profit) \<Rightarrow>
          Some \<lparr>po_order_id = oi_intent_id i, po_side = BUY, po_quantity = quantity, po_submitted_index = index,
            po_submitted_at = bar_at b, po_stop_loss = Some stop, po_take_profit = Some take_profit,
            po_limit_price = Some limit, po_approved_notional = Some notional,
            po_approved_stop_risk = Some (dmul quantity (dsub limit stop)), po_filled_notional = 0,
            po_filled_stop_risk = 0\<rparr>
      | _ \<Rightarrow> None)"

definition enter_on_signal ::
  "backtest_engine \<Rightarrow> instrument \<Rightarrow> nat \<Rightarrow> bar \<Rightarrow> bar list \<Rightarrow> portfolio_snapshot \<Rightarrow> signal \<Rightarrow> sim \<Rightarrow> sim result" where
  "enter_on_signal G ins index b seen snapshot sig s =
     rbind (create_intent (bg_sha G) (bg_policy G) sig ins snapshot (portfolio_hash (bg_sha G) snapshot)
       (Aware (bar_at b)) ''day'' ''cash'' ''regular'') (\<lambda>sized.
     case sized of
       Inl rejected \<Rightarrow> Inr (note_event (bar_at b) ''RISK_REJECTED'' (rd_reason_codes rejected) s)
     | Inr intent \<Rightarrow>
         let market = \<lparr>ms_instrument_id = instrument_key ins, ms_observed_at = bar_at b, ms_source_at = bar_at b,
               ms_bars = seen, ms_provider = ''backtest'', ms_max_age_seconds = 0\<rparr>;
             E = \<lparr>re_policy = bg_policy G, re_kill_switch = False, re_expected_portfolio_hash = None\<rparr> in
         rbind (assess (bg_sha G) E (Aware (bar_at b)) intent ins market snapshot (Some (Aware (bar_at b)))) (\<lambda>d.
         if \<not> rd_approved d \<or> rd_approved_quantity d = None
         then Inr (note_event (bar_at b) ''RISK_REJECTED'' (rd_reason_codes d) s)
         else case approved_order index b intent d of
             None \<Rightarrow> Inr (note_event (bar_at b) ''RISK_REJECTED'' [''INVALID_APPROVAL_BOUNDS''] s)
           | Some p \<Rightarrow> Inr (note_event (bar_at b) ''ORDER_APPROVED'' [] (s\<lparr>si_pending := Some p\<rparr>))))"

definition sim_step ::
  "backtest_engine \<Rightarrow> instrument \<Rightarrow> strategy \<Rightarrow> horizon \<Rightarrow> bar list \<Rightarrow> bar \<Rightarrow> bar list \<Rightarrow> sim \<Rightarrow> sim result" where
  "sim_step G ins S h earlier b later s =
     (let m = st_metadata S; index = length earlier; seen = earlier @ [b] in
      rbind (fill_pending G ins index b (cancel_remainder m index b s)) (\<lambda>s1.
      rbind (mark_bar ins b s1) (\<lambda>(snapshot, s2).
      rbind (close_session G ins m index b later (protect m index b s2)) (\<lambda>s3.
      rbind (check_context \<lparr>cx_instrument_id = instrument_key ins, cx_bars = seen, cx_horizon = h,
        cx_spread_bps = cm_spread_bps (bg_costs G)\<rparr>) (\<lambda>context.
      rbind (st_evaluate S context) (\<lambda>outcome.
      case outcome of
        None \<Rightarrow> Inr s3
      | Some sig \<Rightarrow> if ps_positions snapshot \<noteq> [] \<or> si_pending s3 \<noteq> None then Inr s3
          else enter_on_signal G ins index b seen snapshot sig s3))))))"

fun simulate ::
  "backtest_engine \<Rightarrow> instrument \<Rightarrow> strategy \<Rightarrow> horizon \<Rightarrow> bar list \<Rightarrow> bar list \<Rightarrow> sim \<Rightarrow> sim result" where
  "simulate G ins S h earlier [] s = Inr s"
| "simulate G ins S h earlier (b # later) s =
     rbind (sim_step G ins S h earlier b later s) (simulate G ins S h (earlier @ [b]) later)"

section \<open>Runs\<close>

definition make_engine ::
  "cost_model option \<Rightarrow> cost_model option \<Rightarrow> risk_policy option \<Rightarrow> dec \<Rightarrow> (string \<Rightarrow> string) \<Rightarrow>
   (string \<Rightarrow> instant \<Rightarrow> int result) \<Rightarrow> backtest_engine result" where
  "make_engine costs fill_model policy participation sha day =
     (if costs \<noteq> None \<and> fill_model \<noteq> None then Inl (ValueError ''provide costs or fill_model, not both'')
      else rbind (case policy of None \<Rightarrow> policy_safe_defaults | Some p \<Rightarrow> Inr p) (\<lambda>pol.
        if participation \<le> 0 \<or> 1 < participation
        then Inl (ValueError ''max_volume_participation must be a Decimal in (0, 1]'')
        else Inr \<lparr>bg_costs = (case fill_model of Some c \<Rightarrow> c
            | None \<Rightarrow> (case costs of Some c \<Rightarrow> c | None \<Rightarrow> default_costs)),
          bg_policy = pol, bg_max_volume_participation = participation, bg_sha = sha, bg_local_day = day\<rparr>))"

definition benchmark :: "dec \<Rightarrow> bar list \<Rightarrow> equity_point list" where
  "benchmark initial_cash bars = map (\<lambda>b. \<lparr>ep_at = bar_at b,
     ep_value = ddiv (dmul initial_cash (bar_close b)) (bar_close (hd bars))\<rparr>) bars"

definition backtest_report :: "backtest_engine \<Rightarrow> strategy \<Rightarrow> bar list \<Rightarrow> dec \<Rightarrow> sim \<Rightarrow> backtest_result" where
  "backtest_report G S bars initial_cash s = (let ending = ep_value (last (si_equity s)) in
     \<lparr>br_strategy_id = sm_strategy_id (st_metadata S), br_strategy_version = sm_version (st_metadata S),
      br_strategy_configuration = st_configuration S, br_costs = bg_costs G, br_data_cutoff = bar_at (last bars),
      br_events = si_events s, br_fills = si_fills s, br_equity_curve = si_equity s,
      br_benchmark_curve = benchmark initial_cash bars, br_initial_cash = initial_cash, br_ending_equity = ending,
      br_gross_ending_equity = dadd (dadd ending (lg_fees (si_ledger s))) (si_impact s),
      br_total_fees = lg_fees (si_ledger s), br_completed_trades = si_completed s,
      br_traded_notional = dsum (map (\<lambda>f. dmul (fl_quantity f) (fl_price f)) (si_fills s)),
      br_exposed_periods = si_exposed s\<rparr>)"

definition run_backtest ::
  "backtest_engine \<Rightarrow> instrument \<Rightarrow> bar list \<Rightarrow> strategy \<Rightarrow> dec \<Rightarrow> backtest_result result" where
  "run_backtest G ins bars S initial_cash =
     rbind (validate_bars bars) (\<lambda>_.
     if initial_cash \<le> 0 then Inl (ValueError ''initial_cash must be a positive Decimal'')
     else if sc_strategy_id (st_configuration S) \<noteq> sm_strategy_id (st_metadata S)
        \<or> sc_strategy_version (st_configuration S) \<noteq> sm_version (st_metadata S)
     then Inl (ValueError ''strategy must expose matching canonical configuration'')
     else rbind (simulate G ins S (hd (sm_allowed_horizons (st_metadata S))) [] bars
         (sim_init initial_cash (ins_quote_currency ins))) (\<lambda>s.
       Inr (backtest_report G S bars initial_cash s)))"

definition run_robustness ::
  "backtest_engine \<Rightarrow> instrument \<Rightarrow> bar list \<Rightarrow> strategy \<Rightarrow> dec \<Rightarrow> robustness_result result" where
  "run_robustness G ins bars S initial_cash =
     rbind (run_backtest G ins bars S initial_cash) (\<lambda>base.
     rbind (stressed 2 (bg_costs G)) (\<lambda>costs.
     rbind (make_engine (Some costs) None (Some (bg_policy G)) (bg_max_volume_participation G) (bg_sha G)
       (bg_local_day G)) (\<lambda>H.
     rbind (run_backtest H ins bars S initial_cash) (\<lambda>result.
     Inr \<lparr>rb_base = base, rb_stressed = result, rb_stressed_costs = costs\<rparr>))))"

end
