(* ===== verification/BacktestFacts.thy ===== *)
theory BacktestFacts
  imports Backtest "HOL-Library.Sublist"
begin

text \<open>
  What a simulation guarantees: its book and its ledger agree at every bar, exits never exceed what
  is held, cash stays nonnegative, and nothing depends on bars that lie ahead.
\<close>

section \<open>Successful branches\<close>

lemma branch_eq:
  "(case x of None \<Rightarrow> a | Some y \<Rightarrow> f y) = Inr z \<longleftrightarrow> (x = None \<and> a = Inr z) \<or> (\<exists>y. x = Some y \<and> f y = Inr z)"
  "(case v of Inl e \<Rightarrow> g e | Inr w \<Rightarrow> k w) = Inr z \<longleftrightarrow> (\<exists>e. v = Inl e \<and> g e = Inr z) \<or> (\<exists>w. v = Inr w \<and> k w = Inr z)"
  "(if c then b else d) = Inr z \<longleftrightarrow> (c \<and> b = Inr z) \<or> (\<not> c \<and> d = Inr z)"
  by (auto split: option.splits sum.splits)

section \<open>The ledger of one instrument\<close>

lemma booked_single:
  assumes "fl_instrument_id f = i"
  shows "fl_side f = BUY \<Longrightarrow> lg_positions L = [] \<Longrightarrow>
      \<exists>avg. lg_positions (booked f L) = [(i, \<lparr>pst_quantity = fl_quantity f, pst_average_price = avg\<rparr>)]"
    and "fl_side f = BUY \<Longrightarrow> lg_positions L = [(i, p)] \<Longrightarrow>
      \<exists>avg. lg_positions (booked f L) = [(i, \<lparr>pst_quantity = dadd (pst_quantity p) (fl_quantity f), pst_average_price = avg\<rparr>)]"
    and "fl_side f = SELL \<Longrightarrow> lg_positions L = [(i, p)] \<Longrightarrow>
      lg_positions (booked f L) = (if dsub (pst_quantity p) (fl_quantity f) = 0 then []
        else [(i, p\<lparr>pst_quantity := dsub (pst_quantity p) (fl_quantity f)\<rparr>)])"
  using assms by (auto simp: booked_def apply_buy_def apply_sell_def Let_def)

lemma apply_fill_fields:
  assumes "apply_fill f L = Inr L'"
  shows "lg_positions L' = lg_positions (booked f L)" "lg_cash L' = lg_cash (booked f L)" "fill_valid f L"
  using apply_fill_InrD [OF assms] by auto

lemma mark_fields:
  assumes "mark prices tm L = Inr (snapshot, L')"
  shows "lg_positions L' = lg_positions L" "lg_cash L' = lg_cash L"
    "ps_positions snapshot = [] \<longleftrightarrow> lg_positions L = []"
proof -
  obtain t e p d where m: "snapshot_at t L' = Inr snapshot"
      "L' = L\<lparr>lg_market_prices := dict_union (lg_market_prices L) prices, lg_equity := e, lg_peak_equity := p, lg_drawdown := d\<rparr>"
    using mark_InrD [OF assms] by blast
  then show f: "lg_positions L' = lg_positions L" "lg_cash L' = lg_cash L"
    by simp_all
  have "length (ps_positions snapshot) = length (sorted_items (lg_positions L'))"
    using m(1) by (auto simp: snapshot_at_def result_simps dest: traverse_length)
  then have "length (ps_positions snapshot) = length (lg_positions L)"
    using f by (simp add: sorted_items_def)
  then show "ps_positions snapshot = [] \<longleftrightarrow> lg_positions L = []"
    by (metis length_0_conv)
qed

section \<open>The book\<close>

text \<open>The open trade is the position of the ledger, a pending exit covers exactly it, and a pending entry
  carries all its bounds.\<close>

definition entry_bounded :: "pending_order \<Rightarrow> bool" where
  "entry_bounded p \<longleftrightarrow> po_side p = BUY \<longrightarrow> po_limit_price p \<noteq> None \<and> po_stop_loss p \<noteq> None \<and> po_take_profit p \<noteq> None \<and>
     po_approved_notional p \<noteq> None \<and> po_approved_stop_risk p \<noteq> None"

definition book_ok :: "string \<Rightarrow> sim \<Rightarrow> bool" where
  "book_ok i s \<longleftrightarrow>
     (case si_open s of
        None \<Rightarrow> lg_positions (si_ledger s) = [] \<and> (\<forall>p. si_pending s = Some p \<longrightarrow> po_side p = BUY)
      | Some trade \<Rightarrow> (\<exists>avg. lg_positions (si_ledger s) =
            [(i, \<lparr>pst_quantity = ot_quantity trade, pst_average_price = avg\<rparr>)]) \<and>
          (\<forall>p. si_pending s = Some p \<longrightarrow> po_side p = SELL \<longrightarrow> po_quantity p = ot_quantity trade)) \<and>
     (\<forall>p. si_pending s = Some p \<longrightarrow> entry_bounded p)"

lemma exit_order_fields [simp]:
  "po_side (exit_order sid b index q reason) = SELL" "po_quantity (exit_order sid b index q reason) = q"
  "entry_bounded (exit_order sid b index q reason)"
  by (simp_all add: exit_order_def entry_bounded_def)

lemma note_event_fields [simp]:
  "si_ledger (note_event t k r s) = si_ledger s" "si_pending (note_event t k r s) = si_pending s"
  "si_open (note_event t k r s) = si_open s" "si_fills (note_event t k r s) = si_fills s"
  "si_equity (note_event t k r s) = si_equity s" "si_completed (note_event t k r s) = si_completed s"
  by (simp_all add: note_event_def)

lemma place_exit_fields [simp]:
  "si_ledger (place_exit m b index reason trade s) = si_ledger s" "si_open (place_exit m b index reason trade s) = si_open s"
  "si_pending (place_exit m b index reason trade s) = Some (exit_order (sm_strategy_id m) b index (ot_quantity trade) reason)"
  "si_fills (place_exit m b index reason trade s) = si_fills s" "si_equity (place_exit m b index reason trade s) = si_equity s"
  "si_completed (place_exit m b index reason trade s) = si_completed s"
  by (simp_all add: place_exit_def)

lemma book_note [simp]: "book_ok i (note_event t k r s) = book_ok i s"
  by (cases "si_open s") (simp_all add: book_ok_def)

lemma book_place_exit: "book_ok i s \<Longrightarrow> si_open s = Some trade \<Longrightarrow> book_ok i (place_exit m b index reason trade s)"
  by (simp add: book_ok_def)

lemma book_cancel: "book_ok i s \<Longrightarrow> book_ok i (cancel_remainder m index b s)"
  by (auto simp: cancel_remainder_def intro!: book_place_exit split: option.split)

lemma book_protect: "book_ok i s \<Longrightarrow> book_ok i (protect m index b s)"
  by (auto simp: protect_def intro!: book_place_exit split: option.split)

lemma book_close:
  "book_ok i s \<Longrightarrow> close_session G ins m index b later s = Inr s' \<Longrightarrow> book_ok i s'"
  by (auto simp: close_session_def result_simps intro!: book_place_exit split: option.splits list.splits if_splits)

lemma book_mark:
  assumes "book_ok i s" "mark_bar ins b s = Inr (snapshot, s')"
  shows "book_ok i s' \<and> (ps_positions snapshot = [] \<longleftrightarrow> si_open s' = None)"
proof -
  obtain L' where m: "mark [(instrument_key ins, bar_close b)] (Aware (bar_at b)) (si_ledger s) = Inr (snapshot, L')"
      "si_ledger s' = L'" "si_open s' = si_open s" "si_pending s' = si_pending s"
    using assms(2) by (auto simp: mark_bar_def result_simps)
  then show ?thesis
    using mark_fields [OF m(1)] assms(1) by (auto simp: book_ok_def split: option.splits)
qed

lemma entry_fill_quantity:
  "apply_entry_fill trade p f index = Inr t \<Longrightarrow>
     ot_quantity t = (case trade of None \<Rightarrow> fl_quantity f | Some o1 \<Rightarrow> dadd (ot_quantity o1) (fl_quantity f))"
  by (auto simp: apply_entry_fill_def Let_def split: option.splits)

lemma dsub_zero [simp]: "dsub x y = 0 \<longleftrightarrow> x = y"
  by (simp add: dsub_def)

lemma dsub_sign [simp]: "0 \<le> dsub x y \<longleftrightarrow> y \<le> x" "dsub x y < 0 \<longleftrightarrow> x < y" "0 < dsub x y \<longleftrightarrow> y < x"
proof -
  show a: "0 \<le> dsub x y \<longleftrightarrow> y \<le> x" "0 < dsub x y \<longleftrightarrow> y < x" for x y
    by (simp_all add: dsub_def)
  show "dsub x y < 0 \<longleftrightarrow> x < y"
    using a(1) [of x y] by (auto simp: not_le [symmetric])
qed

lemma book_fill_ok:
  assumes "book_ok i s" "si_pending s = Some p" "book_fill index b p f s = Inr s'"
    and "fl_instrument_id f = i" "fl_side f = po_side p"
  shows "book_ok i s'"
proof -
  obtain L' where L': "apply_fill f (si_ledger s) = Inr L'"
    using assms(3) by (auto simp: book_fill_def result_simps)
  note af = apply_fill_fields [OF L']
  show ?thesis
  proof (cases "fl_side f")
    case BUY
    obtain trade where t: "apply_entry_fill (si_open s) p f index = Inr trade"
        "si_open s' = Some trade" "si_ledger s' = L'"
        "\<forall>p'. si_pending s' = Some p' \<longrightarrow> po_side p' = po_side p \<and> entry_bounded p' = entry_bounded p"
      using assms(3) L' BUY by (auto simp: book_fill_def result_simps Let_def branch_eq entry_bounded_def)
    have "\<exists>avg. lg_positions L' = [(i, \<lparr>pst_quantity = ot_quantity trade, pst_average_price = avg\<rparr>)]"
    proof (cases "si_open s")
      case None
      then show ?thesis
        using assms(1,4) BUY booked_single(1) entry_fill_quantity [OF t(1)] af(1) by (simp add: book_ok_def)
    next
      case (Some o1)
      then show ?thesis
        using assms(1,4) BUY booked_single(2) entry_fill_quantity [OF t(1)] af(1) by (fastforce simp: book_ok_def)
    qed
    then show ?thesis
      using t assms(1,2,5) BUY by (auto simp: book_ok_def entry_bounded_def)
  next
    case SELL
    obtain trade left fin where t: "si_open s = Some trade" "apply_exit_fill trade f = Inr (left, fin)"
        "si_open s' = left" "si_ledger s' = L'"
        "si_pending s' = (if po_quantity p = fl_quantity f then None else Some (p\<lparr>po_quantity := dsub (po_quantity p) (fl_quantity f)\<rparr>))"
      using assms(3) L' SELL by (auto simp: book_fill_def result_simps Let_def split: option.splits)
    obtain avg where l: "lg_positions (si_ledger s) = [(i, \<lparr>pst_quantity = ot_quantity trade, pst_average_price = avg\<rparr>)]"
        "po_quantity p = ot_quantity trade"
      using assms(1,2,5) SELL t(1) by (auto simp: book_ok_def)
    have le: "fl_quantity f \<le> ot_quantity trade"
      using af(3) SELL l(1) assms(4) by (auto simp: fill_valid_def)
    have "left = (if fl_quantity f = ot_quantity trade then None
        else left) \<and> (fl_quantity f \<noteq> ot_quantity trade \<longrightarrow> (\<exists>o1. left = Some o1 \<and> ot_quantity o1 = dsub (ot_quantity trade) (fl_quantity f)))"
      using t(2) le by (auto simp: apply_exit_fill_def Let_def split: if_splits)
    then show ?thesis
      using t l assms(5) SELL booked_single(3) [OF assms(4) SELL l(1)] af(1)
      by (auto simp: book_ok_def entry_bounded_def split: if_splits)
  qed
qed

lemma pending_fill_fields:
  assumes "create_pending_fill c p q b ins fid cash = Inr (Some f)"
  shows "fl_instrument_id f = instrument_key ins" "fl_side f = po_side p" "fl_quantity f = q"
    "fl_fee f = ddiv (dmul (dmul q (fl_price f)) (cm_fee_bps c)) bps" "0 < fl_price f" "0 < q" "fl_fill_id f = fid"
    "po_side p = BUY \<Longrightarrow> dadd (dmul q (fl_price f)) (fl_fee f) \<le> cash"
  using assms by (auto simp: create_pending_fill_def instrument_key_def within_approval_def Let_def result_simps
      dest!: model_fill_InrD split: side.splits option.splits if_splits)

lemma fill_pending_cases:
  assumes "fill_pending G ins index b s = Inr s'"
  obtains "s' = s" | "s' = note_event (bar_at b) ''ORDER_NOT_EXECUTABLE'' [] s"
  | p q f where "si_pending s = Some p" "create_pending_fill (bg_costs G) p q b ins (fill_id_text s) (lg_cash (si_ledger s)) = Inr (Some f)"
      "book_fill index b p f s = Inr s'"
  using assms by (auto simp: fill_pending_def result_simps split: option.splits if_splits)

lemma book_fill_pending:
  assumes "book_ok (instrument_key ins) s" "fill_pending G ins index b s = Inr s'"
  shows "book_ok (instrument_key ins) s'"
  using assms(2)
proof (cases rule: fill_pending_cases)
  case (3 p q f)
  then show ?thesis
    using book_fill_ok [OF assms(1) 3(1,3)] pending_fill_fields [OF 3(2)] by simp
qed (use assms(1) in simp_all)

lemma enter_cases:
  assumes "enter_on_signal G ins index b seen snapshot sig s = Inr s'"
  shows "\<exists>t l r. s' = note_event t l r s \<or>
    (\<exists>p. po_side p = BUY \<and> entry_bounded p \<and> s' = note_event t l r (s\<lparr>si_pending := Some p\<rparr>))"
proof -
  have o: "approved_order index b i d = Some p \<Longrightarrow> po_side p = BUY \<and> entry_bounded p" for i d p
    by (auto simp: approved_order_def entry_bounded_def split: option.splits)
  show ?thesis
    using assms by (auto simp: enter_on_signal_def result_simps Let_def branch_eq dest!: o)
qed

lemma book_enter:
  assumes "book_ok i s" "si_open s = None" "enter_on_signal G ins index b seen snapshot sig s = Inr s'"
  shows "book_ok i s'"
  using enter_cases [OF assms(3)] assms(1,2) by (auto simp: book_ok_def)

section \<open>Steps\<close>

lemma sim_step_phases:
  assumes "sim_step G ins S h earlier b later s = Inr s'"
  obtains s1 snapshot s2 s3 where
    "fill_pending G ins (length earlier) b (cancel_remainder (st_metadata S) (length earlier) b s) = Inr s1"
    "mark_bar ins b s1 = Inr (snapshot, s2)"
    "close_session G ins (st_metadata S) (length earlier) b later (protect (st_metadata S) (length earlier) b s2) = Inr s3"
    "s' = s3 \<or> (\<exists>sig. ps_positions snapshot = [] \<and> si_pending s3 = None \<and>
       enter_on_signal G ins (length earlier) b (earlier @ [b]) snapshot sig s3 = Inr s')"
proof -
  obtain s1 snapshot s2 s3 outcome where p:
      "fill_pending G ins (length earlier) b (cancel_remainder (st_metadata S) (length earlier) b s) = Inr s1"
      "mark_bar ins b s1 = Inr (snapshot, s2)"
      "close_session G ins (st_metadata S) (length earlier) b later (protect (st_metadata S) (length earlier) b s2) = Inr s3"
    and o: "(case outcome of None \<Rightarrow> Inr s3
        | Some sig \<Rightarrow> if ps_positions snapshot = [] \<longrightarrow> (\<exists>p. si_pending s3 = Some p) then Inr s3
          else enter_on_signal G ins (length earlier) b (earlier @ [b]) snapshot sig s3) = Inr s'"
    using assms by (auto simp: sim_step_def Let_def result_simps)
  have e: "s' = s3 \<or> (\<exists>sig. ps_positions snapshot = [] \<and> si_pending s3 = None \<and>
       enter_on_signal G ins (length earlier) b (earlier @ [b]) snapshot sig s3 = Inr s')"
    using o by (auto simp: branch_eq)
  show thesis
    by (rule that [OF p e])
qed

lemma close_open: "close_session G ins m index b later s = Inr s' \<Longrightarrow> si_open s' = si_open s"
  by (auto simp: close_session_def result_simps split: option.splits list.splits if_splits)

lemma protect_open: "si_open (protect m index b s) = si_open s"
  by (auto simp: protect_def split: option.splits)

lemma book_step:
  assumes "book_ok (instrument_key ins) s" "sim_step G ins S h earlier b later s = Inr s'"
  shows "book_ok (instrument_key ins) s'"
  using assms(2)
proof (rule sim_step_phases)
  fix s1 snapshot s2 s3
  assume f: "fill_pending G ins (length earlier) b (cancel_remainder (st_metadata S) (length earlier) b s) = Inr s1"
    and m: "mark_bar ins b s1 = Inr (snapshot, s2)"
    and c: "close_session G ins (st_metadata S) (length earlier) b later (protect (st_metadata S) (length earlier) b s2) = Inr s3"
    and e: "s' = s3 \<or> (\<exists>sig. ps_positions snapshot = [] \<and> si_pending s3 = None \<and>
       enter_on_signal G ins (length earlier) b (earlier @ [b]) snapshot sig s3 = Inr s')"
  note k = book_mark [OF book_fill_pending [OF book_cancel [OF assms(1)] f] m]
  have "book_ok (instrument_key ins) s3"
    using book_close [OF book_protect c] k by blast
  moreover have "ps_positions snapshot = [] \<Longrightarrow> si_open s3 = None"
    using k close_open [OF c] protect_open by metis
  ultimately show ?thesis
    using e book_enter by blast
qed

lemma simulate_inv:
  assumes "simulate G ins S h earlier bars s = Inr s'" "P s"
    and "\<And>earlier b later s s'. sim_step G ins S h earlier b later s = Inr s' \<Longrightarrow> P s \<Longrightarrow> P s'"
  shows "P s'"
  using assms(1,2) by (induction bars arbitrary: earlier s) (auto simp: result_simps dest: assms(3))

lemma book_init: "book_ok i (sim_init cash currency)"
  by (simp add: book_ok_def sim_init_def ledger_init_def)

section \<open>Cash\<close>

lemma booked_cash:
  "lg_cash (booked f L) = (case fl_side f of
     BUY \<Rightarrow> dsub (lg_cash L) (dadd (dmul (fl_quantity f) (fl_price f)) (fl_fee f))
   | SELL \<Rightarrow> dadd (lg_cash L) (dsub (dmul (fl_quantity f) (fl_price f)) (fl_fee f)))"
  by (cases "fl_side f") (simp_all add: booked_def apply_buy_def apply_sell_def Let_def)

text \<open>A fee rate of at most one hundred percent never takes more than the notional.\<close>

lemma fee_within:
  assumes "0 \<le> n" "representable n" "rate \<le> bps"
  shows "ddiv (dmul n rate) bps \<le> n"
proof -
  have b: "bps = pow10 4"
    by (simp add: bps_def pow10_def)
  have "n * rate \<le> n * bps"
    using assms(1,3) by (rule mult_left_mono [rotated])
  then have "dmul n rate \<le> n * bps"
    unfolding dmul_def b using rnd_le representable_scaled [OF assms(2)] by blast
  then have "dmul n rate / bps \<le> n"
    by (simp add: b pos_divide_le_eq)
  then show ?thesis
    unfolding ddiv_def using assms(2) by (rule rnd_le)
qed

lemma cash_fill_pending:
  assumes "0 \<le> lg_cash (si_ledger s)" "cm_fee_bps (bg_costs G) \<le> bps" "fill_pending G ins index b s = Inr s'"
  shows "0 \<le> lg_cash (si_ledger s')"
  using assms(3)
proof (cases rule: fill_pending_cases)
  case (3 p q f)
  note f = pending_fill_fields [OF 3(2)]
  obtain L' where L': "apply_fill f (si_ledger s) = Inr L'" "si_ledger s' = L'"
    using 3(3) by (auto simp: book_fill_def result_simps Let_def split: side.splits option.splits if_splits)
  note af = apply_fill_fields [OF L'(1)]
  show ?thesis
  proof (cases "fl_side f")
    case BUY
    then show ?thesis
      using f af L'(2) by (simp add: booked_cash)
  next
    case SELL
    have "fl_fee f \<le> dmul (fl_quantity f) (fl_price f)"
      unfolding f(4) f(3) by (rule fee_within) (use f(5,6) assms(2) in \<open>simp_all add: less_imp_le\<close>)
    then show ?thesis
      using SELL af L'(2) assms(1) by (simp add: booked_cash dadd_nonneg)
  qed
qed (use assms(1) in simp_all)

lemma quiet_ledger:
  "si_ledger (cancel_remainder m index b s) = si_ledger s" "si_ledger (protect m index b s) = si_ledger s"
  "close_session G ins m index b later s = Inr s' \<Longrightarrow> si_ledger s' = si_ledger s"
  "enter_on_signal G ins index b seen snapshot sig s = Inr s' \<Longrightarrow> si_ledger s' = si_ledger s"
  by (auto simp: cancel_remainder_def protect_def close_session_def result_simps
      split: option.splits list.splits if_splits dest: enter_cases)

lemma cash_step:
  assumes "sim_step G ins S h earlier b later s = Inr s'" "0 \<le> lg_cash (si_ledger s)" "cm_fee_bps (bg_costs G) \<le> bps"
  shows "0 \<le> lg_cash (si_ledger s')"
  using assms(1)
proof (rule sim_step_phases)
  fix s1 snapshot s2 s3
  assume f: "fill_pending G ins (length earlier) b (cancel_remainder (st_metadata S) (length earlier) b s) = Inr s1"
    and m: "mark_bar ins b s1 = Inr (snapshot, s2)"
    and c: "close_session G ins (st_metadata S) (length earlier) b later (protect (st_metadata S) (length earlier) b s2) = Inr s3"
    and e: "s' = s3 \<or> (\<exists>sig. ps_positions snapshot = [] \<and> si_pending s3 = None \<and>
       enter_on_signal G ins (length earlier) b (earlier @ [b]) snapshot sig s3 = Inr s')"
  have "0 \<le> lg_cash (si_ledger s1)"
    using cash_fill_pending [OF _ assms(3) f] assms(2) by (simp add: quiet_ledger)
  moreover have "lg_cash (si_ledger s2) = lg_cash (si_ledger s1)"
    using m mark_fields by (fastforce simp: mark_bar_def result_simps)
  moreover have "si_ledger s' = si_ledger s2"
    using c e quiet_ledger by metis
  ultimately show ?thesis
    by simp
qed

section \<open>Output\<close>

text \<open>What a run has reported is never taken back, and every bar adds one point to the equity curve.\<close>

definition output_grows :: "sim \<Rightarrow> sim \<Rightarrow> bool" where
  "output_grows s s' \<longleftrightarrow> prefix (si_fills s) (si_fills s') \<and> prefix (si_events s) (si_events s') \<and>
     prefix (si_completed s) (si_completed s') \<and> prefix (si_equity s) (si_equity s')"

lemma output_grows_refl [simp]: "output_grows s s"
  by (simp add: output_grows_def)

lemma output_grows_trans: "output_grows s s' \<Longrightarrow> output_grows s' s'' \<Longrightarrow> output_grows s s''"
  unfolding output_grows_def by (metis prefix_order.trans)

lemma output_grows_note [simp]: "output_grows s (note_event t k r s)"
  by (simp add: output_grows_def note_event_def)

lemma output_grows_place_exit [simp]: "output_grows s (place_exit m b index reason trade s)"
  by (simp add: output_grows_def place_exit_def note_event_def)

lemma output_grows_pending [simp]: "output_grows s (note_event t k r (s\<lparr>si_pending := p\<rparr>))"
  by (simp add: output_grows_def note_event_def)

lemma output_grows_cancel: "output_grows s (cancel_remainder m index b s)"
  by (auto simp: cancel_remainder_def intro: output_grows_trans [OF output_grows_note output_grows_place_exit] split: option.split)

lemma output_grows_protect: "output_grows s (protect m index b s)"
  by (auto simp: protect_def split: option.split)

lemma output_grows_close: "close_session G ins m index b later s = Inr s' \<Longrightarrow> output_grows s s'"
  by (auto simp: close_session_def result_simps intro: output_grows_trans [OF output_grows_note output_grows_place_exit]
      split: option.splits list.splits if_splits)

lemma output_grows_fill:
  assumes "fill_pending G ins index b s = Inr s'"
  shows "output_grows s s' \<and> si_equity s' = si_equity s"
  using assms
proof (cases rule: fill_pending_cases)
  case (3 p q f)
  then show ?thesis
    by (auto simp: book_fill_def result_simps Let_def branch_eq output_grows_def note_event_def
        split: side.splits option.splits)
qed simp_all

lemma equity_same:
  "si_equity (cancel_remainder m index b s) = si_equity s" "si_equity (protect m index b s) = si_equity s"
  "close_session G ins m index b later s = Inr s' \<Longrightarrow> si_equity s' = si_equity s"
  "enter_on_signal G ins index b seen snapshot sig s = Inr s' \<Longrightarrow> si_equity s' = si_equity s"
  by (auto simp: cancel_remainder_def protect_def close_session_def result_simps
      split: option.splits list.splits if_splits dest!: enter_cases)

lemma output_grows_step:
  assumes "sim_step G ins S h earlier b later s = Inr s'"
  shows "output_grows s s' \<and> length (si_equity s') = Suc (length (si_equity s))"
  using assms
proof (rule sim_step_phases)
  fix s1 snapshot s2 s3
  assume f: "fill_pending G ins (length earlier) b (cancel_remainder (st_metadata S) (length earlier) b s) = Inr s1"
    and m: "mark_bar ins b s1 = Inr (snapshot, s2)"
    and c: "close_session G ins (st_metadata S) (length earlier) b later (protect (st_metadata S) (length earlier) b s2) = Inr s3"
    and e: "s' = s3 \<or> (\<exists>sig. ps_positions snapshot = [] \<and> si_pending s3 = None \<and>
       enter_on_signal G ins (length earlier) b (earlier @ [b]) snapshot sig s3 = Inr s')"
  have "output_grows s s1" "si_equity s1 = si_equity s"
    using output_grows_fill [OF f] output_grows_trans [OF output_grows_cancel] by (auto simp: equity_same)
  moreover have "output_grows s1 s2" "length (si_equity s2) = Suc (length (si_equity s1))"
    using m by (auto simp: mark_bar_def result_simps output_grows_def)
  moreover have "output_grows s2 s3" "si_equity s3 = si_equity s2"
    using output_grows_trans [OF output_grows_protect output_grows_close [OF c]] equity_same(3) [OF c] by (simp_all add: equity_same)
  moreover have "output_grows s3 s'" "si_equity s' = si_equity s3"
    using e equity_same(4) by (auto dest!: enter_cases)
  ultimately show ?thesis
    by (metis output_grows_trans)
qed

lemma simulate_output_grows:
  "simulate G ins S h earlier bars s = Inr s' \<Longrightarrow>
     output_grows s s' \<and> length (si_equity s') = length (si_equity s) + length bars"
proof (induction bars arbitrary: earlier s)
  case (Cons b later)
  then obtain s1 where s1: "sim_step G ins S h earlier b later s = Inr s1"
      "simulate G ins S h (earlier @ [b]) later s1 = Inr s'"
    by (auto simp: result_simps)
  show ?case
    using output_grows_step [OF s1(1)] Cons.IH [OF s1(2)] output_grows_trans by fastforce
qed simp

section \<open>Bars that lie ahead\<close>

text \<open>Of the bars ahead a step looks at one thing: whether the next one falls on another calendar day,
  and that only for a strategy that must be flat over night.\<close>

definition boundary_known :: "backtest_engine \<Rightarrow> instrument \<Rightarrow> strategy \<Rightarrow> bar \<Rightarrow> bar list \<Rightarrow> bool" where
  "boundary_known G ins S b later \<longleftrightarrow> \<not> sm_mandatory_preclose_closeout (st_metadata S) \<or> later = [] \<or>
     (case (bg_local_day G (ins_timezone ins) (bar_at b), bg_local_day G (ins_timezone ins) (bar_at (hd later))) of
        (Inr today, Inr tomorrow) \<Rightarrow> today = tomorrow | _ \<Rightarrow> False)"

lemma close_session_head: "later \<noteq> [] \<Longrightarrow> close_session G ins m index b (later @ ys) = close_session G ins m index b later"
  by (cases later; rule ext) (auto simp: close_session_def split: option.split)

lemma close_session_same_day:
  "boundary_known G ins S b later \<Longrightarrow>
     close_session G ins (st_metadata S) index b later = close_session G ins (st_metadata S) index b []"
  by (rule ext, cases later)
    (auto simp: close_session_def boundary_known_def result_simps split: option.splits sum.splits)

lemma sim_step_cut:
  assumes "later = [] \<Longrightarrow> boundary_known G ins S b ys"
  shows "sim_step G ins S h earlier b (later @ ys) s = sim_step G ins S h earlier b later s"
proof (cases "later = []")
  case True
  then show ?thesis
    using close_session_same_day [OF assms] by (simp add: sim_step_def)
next
  case False
  then show ?thesis
    by (simp add: sim_step_def close_session_head)
qed

lemma simulate_cut:
  assumes "xs \<noteq> []" "boundary_known G ins S (last xs) ys" "simulate G ins S h earlier (xs @ ys) s = Inr s'"
  shows "\<exists>s1. simulate G ins S h earlier xs s = Inr s1 \<and> simulate G ins S h (earlier @ xs) ys s1 = Inr s'"
  using assms
proof (induction xs arbitrary: earlier s)
  case (Cons b later)
  have "sim_step G ins S h earlier b (later @ ys) s = sim_step G ins S h earlier b later s"
    using Cons.prems(2) by (intro sim_step_cut) simp
  then obtain s0 where s0: "sim_step G ins S h earlier b later s = Inr s0"
      "simulate G ins S h (earlier @ [b]) (later @ ys) s0 = Inr s'"
    using Cons.prems(3) by (auto simp: result_simps)
  show ?case
  proof (cases "later = []")
    case True
    then show ?thesis
      using s0 by simp
  next
    case False
    then show ?thesis
      using Cons.IH [OF False _ s0(2)] Cons.prems(2) s0(1) by simp
  qed
qed simp

lemma validate_cut: "validate_bars_from previous (xs @ ys) = Inr () \<Longrightarrow> validate_bars_from previous xs = Inr ()"
  by (induction xs arbitrary: previous) (auto simp: result_simps split: if_splits)

section \<open>The properties of a run\<close>

text \<open>C31: Whatever the bars, the strategy and the policy, a completed simulation has a consistent book:
  the open trade is exactly the ledger's only position, a pending exit sells exactly what is held, a
  pending entry exists with all its approval bounds, a sale without an open trade is never pending;
  and with a fee rate of at most 100 percent cash never becomes negative.\<close>

theorem simulation_keeps_book:
  assumes "simulate G ins S h [] bars (sim_init cash currency) = Inr s" "0 \<le> cash" "cm_fee_bps (bg_costs G) \<le> bps"
  shows "book_ok (instrument_key ins) s \<and> 0 \<le> lg_cash (si_ledger s)"
proof
  show "book_ok (instrument_key ins) s"
    by (rule simulate_inv [OF assms(1), where P = "book_ok (instrument_key ins)"]) (auto intro: book_init book_step)
  have "0 \<le> lg_cash (si_ledger (sim_init cash currency))"
    using assms(2) by (simp add: sim_init_def ledger_init_def)
  then show "0 \<le> lg_cash (si_ledger s)"
    by (rule simulate_inv [OF assms(1), where P = "\<lambda>s. 0 \<le> lg_cash (si_ledger s)"]) (rule cash_step [OF _ _ assms(3)])
qed

lemma benchmark_cut: "xs \<noteq> [] \<Longrightarrow> benchmark cash xs = take (length xs) (benchmark cash (xs @ ys))"
  by (simp add: benchmark_def)

text \<open>C32: No lookahead: if a run over \<open>xs @ ys\<close> succeeds, the run that never saw \<open>ys\<close> succeeds, and
  everything it reports (fills, events, completed trades, equity and benchmark points) is what the long
  run had reported by then.  The one thing a step may read ahead is the calendar day of the next bar, for
  strategies with a mandatory closeout; the cut must not fall on such a day boundary.\<close>

theorem no_lookahead:
  assumes "run_backtest G ins (xs @ ys) S cash = Inr r'" "xs \<noteq> []" "boundary_known G ins S (last xs) ys"
  shows "\<exists>r. run_backtest G ins xs S cash = Inr r \<and> prefix (br_fills r) (br_fills r') \<and>
    prefix (br_events r) (br_events r') \<and> prefix (br_completed_trades r) (br_completed_trades r') \<and>
    br_equity_curve r = take (length xs) (br_equity_curve r') \<and>
    br_benchmark_curve r = take (length xs) (br_benchmark_curve r')"
proof -
  let ?s0 = "sim_init cash (ins_quote_currency ins)" and ?h = "hd (sm_allowed_horizons (st_metadata S))"
  obtain s' where s': "simulate G ins S ?h [] (xs @ ys) ?s0 = Inr s'" "r' = backtest_report G S (xs @ ys) cash s'"
    and ok: "validate_bars xs = Inr ()" "0 < cash" "sc_strategy_id (st_configuration S) = sm_strategy_id (st_metadata S)"
      "sc_strategy_version (st_configuration S) = sm_version (st_metadata S)"
    using assms(1,2) by (auto simp: run_backtest_def result_simps validate_bars_def dest: validate_cut split: if_splits)
  obtain s where s: "simulate G ins S ?h [] xs ?s0 = Inr s" "simulate G ins S ?h xs ys s = Inr s'"
    using simulate_cut [OF assms(2,3) s'(1)] by auto
  have run: "run_backtest G ins xs S cash = Inr (backtest_report G S xs cash s)"
    using ok s(1) by (simp add: run_backtest_def result_simps)
  have len: "length (si_equity s) = length xs"
    using simulate_output_grows [OF s(1)] by (simp add: sim_init_def)
  have g: "output_grows s s'"
    using simulate_output_grows [OF s(2)] by blast
  have "si_equity s = take (length xs) (si_equity s')"
    using g len by (auto simp: output_grows_def prefix_def)
  then show ?thesis
    using run g benchmark_cut [OF assms(2)] s'(2) by (simp add: output_grows_def backtest_report_def Let_def)
qed

section \<open>A run\<close>

definition run_bar :: "int \<Rightarrow> dec \<Rightarrow> dec \<Rightarrow> dec \<Rightarrow> dec \<Rightarrow> bar" where
  "run_bar t o1 h l c = \<lparr>bar_at = t, bar_open = o1, bar_high = h, bar_low = l, bar_close = c, bar_volume = 1000\<rparr>"

definition run_past :: "bar list" where
  "run_past = [run_bar 0 20 21 20 20, run_bar 60000000 20 21 (198 / 10) 20, run_bar 120000000 20 23 20 22]"

definition run_ahead :: "bar list" where
  "run_ahead = [run_bar 180000000 22 23 21 22]"

text \<open>A strategy that buys on the first bar and must be flat over night.\<close>

definition run_strategy :: strategy where
  "run_strategy = \<lparr>st_metadata = \<lparr>sm_strategy_id = ''s'', sm_version = ''1'', sm_allowed_horizons = [SWING],
      sm_allowed_directions = [LONG], sm_max_holding_bars = None, sm_mandatory_preclose_closeout = True,
      sm_preclose_buffer = Some 60000000, sm_spot_only = False, sm_leverage_allowed = False\<rparr>,
    st_configuration = \<lparr>sc_strategy_id = ''s'', sc_strategy_version = ''1'', sc_parameters = []\<rparr>,
    st_evaluate = (\<lambda>c. Inr (if length (cx_bars c) = 1 then Some demo_signal else None))\<rparr>"

definition run_engine :: backtest_engine where
  "run_engine = \<lparr>bg_costs = default_costs\<lparr>cm_fee_bps := 10\<rparr>, bg_policy = demo_policy,
     bg_max_volume_participation = 1, bg_sha = demo_sha, bg_local_day = (\<lambda>_ t. Inr (t div 86400000000))\<rparr>"

lemma run_long: "map_sum id (\<lambda>r. map fl_side (br_fills r))
    (run_backtest run_engine demo_instrument (run_past @ run_ahead) run_strategy 10000) = Inr [BUY, SELL]"
  by code_simp

lemma run_simulated: "map_sum id (\<lambda>s. map fl_side (si_fills s))
    (simulate run_engine demo_instrument run_strategy SWING [] run_past (sim_init 10000 ''USD'')) = Inr [BUY]"
  by code_simp

lemma run_boundary: "boundary_known run_engine demo_instrument run_strategy (last run_past) run_ahead"
  by (simp add: boundary_known_def run_engine_def run_past_def run_ahead_def run_bar_def)

lemma map_sum_Inr: "map_sum id f x = Inr z \<longleftrightarrow> (\<exists>y. x = Inr y \<and> f y = z)"
  by (cases x) auto

theorem simulation_keeps_book_witness:
  "\<exists>s. simulate run_engine demo_instrument run_strategy SWING [] run_past (sim_init 10000 ''USD'') = Inr s \<and>
     map fl_side (si_fills s) = [BUY] \<and> book_ok (instrument_key demo_instrument) s \<and> 0 \<le> lg_cash (si_ledger s)"
proof -
  obtain s where s: "simulate run_engine demo_instrument run_strategy SWING [] run_past (sim_init 10000 ''USD'') = Inr s"
      "map fl_side (si_fills s) = [BUY]"
    using run_simulated by (auto simp: map_sum_Inr)
  show ?thesis
    using s simulation_keeps_book [OF s(1)] by (auto simp: run_engine_def bps_def)
qed

theorem no_lookahead_witness:
  "\<exists>r r'. run_backtest run_engine demo_instrument (run_past @ run_ahead) run_strategy 10000 = Inr r' \<and>
     map fl_side (br_fills r') = [BUY, SELL] \<and>
     run_backtest run_engine demo_instrument run_past run_strategy 10000 = Inr r \<and> prefix (br_fills r) (br_fills r')"
proof -
  obtain r' where r': "run_backtest run_engine demo_instrument (run_past @ run_ahead) run_strategy 10000 = Inr r'"
      "map fl_side (br_fills r') = [BUY, SELL]"
    using run_long by (auto simp: map_sum_Inr)
  show ?thesis
    using r' no_lookahead [OF r'(1) _ run_boundary] by (auto simp: run_past_def)
qed

end
