(* ===== verification/Metrics.thy ===== *)
theory Metrics
  imports BacktestFacts
begin

text \<open>
  \<open>backtest/metrics.py\<close> and \<open>backtest/promotion.py\<close>: the after-cost metrics of an equity curve, the
  chronological and walk-forward splits, and the evidence gates that promote a strategy from
  backtest to paper and from paper to live trading.
\<close>

section \<open>Square roots and squares\<close>

text \<open>\<open>Decimal.sqrt\<close> rounds the exact root to 28 digits, ties to even.  The integer root is found from
  the root of a quarter.\<close>

function isqrt :: "int \<Rightarrow> int" where
  "isqrt n = (if n \<le> 0 then 0
     else let r = 2 * isqrt (n div 4) in if (r + 1) * (r + 1) \<le> n then r + 1 else r)"
  by pat_completeness auto
termination
  by (relation "measure nat") auto

declare isqrt.simps [simp del]

definition dsqrt :: "dec \<Rightarrow> dec" where
  "dsqrt x = (if x \<le> 0 then 0
     else let q = pow10 (adjusted x div 2 - 27); y = x / (q * q); r = isqrt \<lfloor>y\<rfloor>; m = of_int r + 1 / 2 in
       of_int (if y < m * m \<or> y = m * m \<and> even r then r else r + 1) * q)"

text \<open>\<open>x ** 2\<close> multiplies with three guard digits and rounds the product to the context.\<close>

definition rnd_guarded :: "rat \<Rightarrow> rat" where
  "rnd_guarded x = (if x = 0 then 0
     else let q = pow10 (adjusted x - 30) in of_int (round_half_even (x / q)) * q)"

definition dsquare :: "dec \<Rightarrow> dec" where
  "dsquare x = rnd (rnd_guarded (x * x))"

lemma isqrt_bounds: "0 \<le> n \<Longrightarrow> 0 \<le> isqrt n \<and> isqrt n * isqrt n \<le> n \<and> n < (isqrt n + 1) * (isqrt n + 1)"
proof (induction n rule: isqrt.induct)
  case (1 n)
  show ?case
  proof (cases "n \<le> 0")
    case True
    then show ?thesis
      using 1(2) by (simp add: isqrt.simps)
  next
    case False
    define r where "r = isqrt (n div 4)"
    have r: "0 \<le> r" "r * r \<le> n div 4" "n div 4 < (r + 1) * (r + 1)"
      using 1(1) False unfolding r_def by auto
    have "4 * (r * r) \<le> n" "n < 4 * ((r + 1) * (r + 1))"
      using r(2,3) by linarith+
    then have "2 * r * (2 * r) \<le> n" "n < (2 * r + 1 + 1) * (2 * r + 1 + 1)"
      by (simp_all add: algebra_simps)
    moreover have "isqrt n = (if (2 * r + 1) * (2 * r + 1) \<le> n then 2 * r + 1 else 2 * r)"
      using False by (simp add: isqrt.simps [of n] r_def Let_def)
    ultimately show ?thesis
      using r(1) by auto
  qed
qed

text \<open>The root is within half a unit of its last digit.\<close>

lemma dsqrt_bounds:
  assumes "0 < x"
  shows "0 < dsqrt x"
    and "(dsqrt x - pow10 (adjusted x div 2 - 27) / 2) * (dsqrt x - pow10 (adjusted x div 2 - 27) / 2) \<le> x"
    and "x \<le> (dsqrt x + pow10 (adjusted x div 2 - 27) / 2) * (dsqrt x + pow10 (adjusted x div 2 - 27) / 2)"
proof -
  define e where "e = adjusted x div 2"
  define q where "q = pow10 (e - 27)"
  define y where "y = x / (q * q)"
  define r where "r = isqrt \<lfloor>y\<rfloor>"
  have q: "0 < q"
    by (simp add: q_def)
  have y: "0 < y" "x = y * (q * q)"
    using assms q by (simp_all add: y_def)
  have "2 * e \<le> adjusted x"
    unfolding e_def by presburger
  then have "pow10 (2 * e) \<le> x"
    using adjusted_bounds [of x] assms pow10_mono [of "2 * e" "adjusted x"] by auto
  moreover have "pow10 (2 * e) = pow10 54 * (q * q)"
    unfolding q_def by (simp flip: pow10_add)
  ultimately have "pow10 54 \<le> y"
    using q by (simp add: y_def pos_le_divide_eq)
  then have y1: "1 \<le> \<lfloor>y\<rfloor>"
    by (simp add: pow10_def)
  have r: "0 \<le> r" "r * r \<le> \<lfloor>y\<rfloor>" "\<lfloor>y\<rfloor> < (r + 1) * (r + 1)"
    using isqrt_bounds [of "\<lfloor>y\<rfloor>"] y1 unfolding r_def by auto
  have r1: "1 \<le> r"
  proof (rule ccontr)
    assume "\<not> 1 \<le> r"
    then have "r = 0" using r(1) by linarith
    then show False using r(3) y1 by simp
  qed
  have lo: "of_int r * of_int r \<le> y"
    using r(2) le_floor_iff [of "r * r" y] by simp
  have hi: "y < (of_int r + 1) * (of_int r + 1)"
    using r(3) floor_less_iff [of y "(r + 1) * (r + 1)"] by simp
  define c where "c = (if y < (of_int r + 1 / 2) * (of_int r + 1 / 2) \<or> y = (of_int r + 1 / 2) * (of_int r + 1 / 2) \<and> even r
      then r else r + 1)"
  have d: "dsqrt x = of_int c * q"
    using assms by (simp add: dsqrt_def e_def [symmetric] q_def [symmetric] y_def [symmetric] r_def [symmetric] c_def Let_def)
  have c: "1 \<le> c" "(of_int c - 1 / 2) * (of_int c - 1 / 2) \<le> y" "y \<le> (of_int c + 1 / 2) * (of_int c + 1 / 2)"
  proof -
    show "1 \<le> c"
      using r1 by (simp add: c_def)
    define R where "R = (of_int r :: rat)"
    have R: "1 \<le> R" "R * R \<le> y" "y < R * R + 2 * R + 1"
      using r1 lo hi by (simp_all add: R_def algebra_simps)
    have sq: "(R + 1 / 2) * (R + 1 / 2) = R * R + R + 1 / 4" "(R - 1 / 2) * (R - 1 / 2) = R * R - R + 1 / 4"
      "(R + 1 + 1 / 2) * (R + 1 + 1 / 2) = R * R + 3 * R + 9 / 4" "(R + 1 - 1 / 2) * (R + 1 - 1 / 2) = R * R + R + 1 / 4"
      by (simp_all add: algebra_simps)
    have c: "of_int c = (if y < R * R + R + 1 / 4 \<or> y = R * R + R + 1 / 4 \<and> even r then R else R + 1)"
      unfolding c_def R_def [symmetric] sq by (simp add: R_def)
    show "(of_int c - 1 / 2) * (of_int c - 1 / 2) \<le> y" "y \<le> (of_int c + 1 / 2) * (of_int c + 1 / 2)"
      unfolding c using R by (auto simp only: sq split: if_splits)
  qed
  have s: "(of_int c * q - q / 2) * (of_int c * q - q / 2) = (of_int c - 1 / 2) * (of_int c - 1 / 2) * (q * q)"
    "(of_int c * q + q / 2) * (of_int c * q + q / 2) = (of_int c + 1 / 2) * (of_int c + 1 / 2) * (q * q)"
    by (simp_all add: algebra_simps)
  have qq: "0 \<le> q * q"
    by simp
  show "0 < dsqrt x"
    using c(1) q by (simp add: d)
  show "(dsqrt x - pow10 (adjusted x div 2 - 27) / 2) * (dsqrt x - pow10 (adjusted x div 2 - 27) / 2) \<le> x"
    unfolding e_def [symmetric] q_def [symmetric] d s using mult_right_mono [OF c(2) qq] y(2) by simp
  show "x \<le> (dsqrt x + pow10 (adjusted x div 2 - 27) / 2) * (dsqrt x + pow10 (adjusted x div 2 - 27) / 2)"
    unfolding e_def [symmetric] q_def [symmetric] d s using mult_right_mono [OF c(3) qq] y(2) by simp
qed

section \<open>Metrics\<close>

text \<open>A profit factor is a Decimal or, without any loss, infinity.\<close>

datatype factor = Finite dec | Unbounded

record performance_metrics =
  pm_total_return :: dec
  pm_benchmark_excess_return :: dec
  pm_maximum_drawdown :: dec
  pm_annualized_sharpe :: "dec option"
  pm_annualized_sortino :: "dec option"
  pm_profit_factor :: "factor option"
  pm_turnover :: dec
  pm_exposure :: dec
  pm_hit_rate :: dec
  pm_completed_trade_count :: nat
  pm_periods_per_year :: int

definition validate_curve :: "dec list \<Rightarrow> string \<Rightarrow> unit result" where
  "validate_curve curve name = (if curve = [] \<or> \<not> list_all (\<lambda>v. 0 < v) curve
     then Inl (ValueError (name @ '' must contain positive finite Decimals'')) else Inr ())"

fun drawdown_from :: "dec \<Rightarrow> dec \<Rightarrow> dec list \<Rightarrow> dec" where
  "drawdown_from peak worst [] = worst"
| "drawdown_from peak worst (v # vs) = (let peak' = max peak v in
     drawdown_from peak' (max worst (ddiv (dsub peak' v) peak')) vs)"

definition maximum_drawdown :: "dec list \<Rightarrow> dec" where
  "maximum_drawdown curve = drawdown_from (hd curve) 0 curve"

definition annualized_ratios :: "dec list \<Rightarrow> int \<Rightarrow> dec option \<times> dec option" where
  "annualized_ratios returns periods =
     (if returns = [] then (None, None)
      else let n = of_nat (length returns);
          mean = ddiv (dsum returns) n;
          variance = ddiv (dsum (map (\<lambda>v. dsquare (dsub v mean)) returns)) n;
          deviation = dsqrt variance;
          scale = dsqrt (of_int periods);
          downside = map (\<lambda>v. dsquare (min v 0)) returns;
          sharpe = (if 0 < deviation then Some (dmul (ddiv mean deviation) scale) else None);
          sortino = (if list_all (\<lambda>v. v = 0) downside then None
            else let semideviation = dsqrt (ddiv (dsum downside) n) in
              if 0 < semideviation then Some (dmul (ddiv mean semideviation) scale) else None)
        in (sharpe, sortino))"

definition period_returns :: "dec list \<Rightarrow> dec list" where
  "period_returns curve = map2 (\<lambda>previous current. dsub (ddiv current previous) 1) curve (tl curve)"

definition profit_factor :: "dec list \<Rightarrow> factor option" where
  "profit_factor pnls =
     (let positives = dsum (filter (\<lambda>p. 0 < p) pnls); losses = dneg (dsum (filter (\<lambda>p. p < 0) pnls)) in
      if pnls = [] then None
      else if losses = 0 then (if 0 < positives then Some Unbounded else None)
      else Some (Finite (ddiv positives losses)))"

definition calculate_performance_metrics ::
  "dec list \<Rightarrow> dec list \<Rightarrow> dec list \<Rightarrow> dec \<Rightarrow> int \<Rightarrow> int \<Rightarrow> performance_metrics result" where
  "calculate_performance_metrics equity bench pnls traded exposed periods =
     (if periods \<le> 0 then Inl (ValueError ''periods_per_year must be positive'')
      else rbind (validate_curve equity ''equity_curve'') (\<lambda>_.
      rbind (validate_curve bench ''benchmark_curve'') (\<lambda>_.
      if length equity \<noteq> length bench then Inl (ValueError ''equity and benchmark curves must have equal lengths'')
      else if traded < 0 then Inl (ValueError ''traded_notional must be nonnegative'')
      else if \<not> (0 \<le> exposed \<and> exposed \<le> int (length equity))
      then Inl (ValueError ''exposed_periods must fall within the equity curve'')
      else let total_return = dsub (ddiv (last equity) (hd equity)) 1;
          benchmark_return = dsub (ddiv (last bench) (hd bench)) 1;
          (sharpe, sortino) = annualized_ratios (period_returns equity) periods;
          n = of_nat (length equity); count = length pnls in
        Inr \<lparr>pm_total_return = total_return, pm_benchmark_excess_return = dsub total_return benchmark_return,
          pm_maximum_drawdown = maximum_drawdown equity, pm_annualized_sharpe = sharpe,
          pm_annualized_sortino = sortino, pm_profit_factor = profit_factor pnls,
          pm_turnover = ddiv (dmul traded n) (dsum equity), pm_exposure = ddiv (of_int exposed) n,
          pm_hit_rate = (if count = 0 then 0
            else ddiv (of_nat (length (filter (\<lambda>p. 0 < p) pnls))) (of_nat count)),
          pm_completed_trade_count = count, pm_periods_per_year = periods\<rparr>)))"

definition calculate_result_metrics :: "backtest_result \<Rightarrow> int \<Rightarrow> performance_metrics result" where
  "calculate_result_metrics r periods =
     calculate_performance_metrics (map ep_value (br_equity_curve r)) (map ep_value (br_benchmark_curve r))
       (map ct_net_pnl (br_completed_trades r)) (br_traded_notional r) (int (br_exposed_periods r)) periods"

section \<open>Splits\<close>

record 'a sample_split =
  cs_train :: "'a list"
  cs_validation :: "'a list"
  cs_test :: "'a list"

definition chronological_split :: "'a list \<Rightarrow> int \<Rightarrow> int \<Rightarrow> 'a sample_split result" where
  "chronological_split items train_size validation_size =
     (if train_size \<le> 0 \<or> validation_size \<le> 0 \<or> int (length items) \<le> train_size + validation_size
      then Inl (ValueError ''split sizes must leave nonempty train, validation, and test samples'')
      else Inr \<lparr>cs_train = take (nat train_size) items,
        cs_validation = take (nat validation_size) (drop (nat train_size) items),
        cs_test = drop (nat (train_size + validation_size)) items\<rparr>)"

definition window_at :: "'a list \<Rightarrow> nat \<Rightarrow> nat \<Rightarrow> nat \<Rightarrow> 'a sample_split" where
  "window_at items train_end validation_size test_size =
     \<lparr>cs_train = take train_end items, cs_validation = take validation_size (drop train_end items),
      cs_test = take test_size (drop (train_end + validation_size) items)\<rparr>"

text \<open>The loop over the windows; the stride is positive because the sizes are.\<close>

function windows_from :: "'a list \<Rightarrow> nat \<Rightarrow> nat \<Rightarrow> nat \<Rightarrow> nat \<Rightarrow> 'a sample_split list" where
  "windows_from items validation_size test_size stride train_end =
     (if 0 < stride \<and> train_end + validation_size + test_size \<le> length items
      then window_at items train_end validation_size test_size
        # windows_from items validation_size test_size stride (train_end + stride)
      else [])"
  by pat_completeness auto
termination
  by (relation "measure (\<lambda>(items, v, u, stride, e). Suc (length items) - e)") auto

declare windows_from.simps [simp del]

definition walk_forward_splits ::
  "'a list \<Rightarrow> int \<Rightarrow> int \<Rightarrow> int \<Rightarrow> int option \<Rightarrow> 'a sample_split list result" where
  "walk_forward_splits items train_size validation_size test_size step =
     (if min (min train_size validation_size) test_size \<le> 0
      then Inl (ValueError ''walk-forward sizes must be positive'')
      else let minimum_stride = validation_size + test_size;
          stride = (case step of None \<Rightarrow> minimum_stride | Some n \<Rightarrow> n) in
        if stride < minimum_stride
        then Inl (ValueError ''step must be at least validation_size plus test_size'')
        else Inr (windows_from items (nat validation_size) (nat test_size) (nat stride) (nat train_size)))"

section \<open>Promotion\<close>

datatype promotion_status = ELIGIBLE | INSUFFICIENT_EVIDENCE | PROMOTION_REJECTED

record promotion_decision =
  pd_status :: promotion_status
  pd_reason_codes :: "string list"

record paper_evidence =
  pe_horizon :: horizon
  pe_trading_days :: int
  pe_calendar_days :: int
  pe_completed_trade_count :: int
  pe_after_cost_return :: dec
  pe_risk_breach :: bool
  pe_unexplained_reconciliation_event :: bool
  pe_realized_slippage_bps :: dec
  pe_stressed_slippage_bps :: dec

definition check_evidence :: "paper_evidence \<Rightarrow> paper_evidence result" where
  "check_evidence e =
     (if min (min (pe_trading_days e) (pe_calendar_days e)) (pe_completed_trade_count e) < 0
      then Inl (ValueError ''paper durations and trade count must be nonnegative'')
      else if pe_realized_slippage_bps e < 0 \<or> pe_stressed_slippage_bps e < 0
      then Inl (ValueError ''slippage assumptions must be nonnegative'')
      else Inr e)"

text \<open>Reasons are collected in the order of the checks.\<close>

definition collected :: "(bool \<times> string) list \<Rightarrow> string list" where
  "collected checks = map snd (filter fst checks)"

definition performance_decision :: "string list \<Rightarrow> promotion_decision" where
  "performance_decision reasons = (if reasons \<noteq> []
     then \<lparr>pd_status = PROMOTION_REJECTED, pd_reason_codes = reasons\<rparr>
     else \<lparr>pd_status = ELIGIBLE, pd_reason_codes = []\<rparr>)"

definition required_trades :: "horizon \<Rightarrow> int" where
  "required_trades h = (if h = INTRADAY then 100 else 30)"

fun factor_below :: "factor \<Rightarrow> dec \<Rightarrow> bool" where
  "factor_below (Finite f) v = (f < v)"
| "factor_below Unbounded v = False"

definition evaluate_backtest :: "performance_metrics \<Rightarrow> dec \<Rightarrow> horizon \<Rightarrow> promotion_decision" where
  "evaluate_backtest m stressed_return h =
     (if int (pm_completed_trade_count m) < required_trades h
      then \<lparr>pd_status = INSUFFICIENT_EVIDENCE, pd_reason_codes = [''INSUFFICIENT_COMPLETED_TRADES'']\<rparr>
      else performance_decision (collected
        [(pm_total_return m \<le> 0, ''NON_POSITIVE_OOS_AFTER_COST_RETURN''),
         (pm_benchmark_excess_return m \<le> 0, ''NON_POSITIVE_BENCHMARK_EXCESS''),
         (1 / 10 < pm_maximum_drawdown m, ''MAX_DRAWDOWN_EXCEEDED''),
         (case pm_profit_factor m of None \<Rightarrow> True | Some f \<Rightarrow> factor_below f (11 / 10), ''PROFIT_FACTOR_BELOW_MINIMUM''),
         (stressed_return \<le> 0, ''NON_POSITIVE_STRESSED_RETURN'')]))"

definition evaluate_paper :: "paper_evidence \<Rightarrow> promotion_decision" where
  "evaluate_paper e =
     (let required_duration = (if pe_horizon e = INTRADAY then 20 else 90);
          observed_duration = (if pe_horizon e = INTRADAY then pe_trading_days e else pe_calendar_days e);
          insufficient = collected
            [(observed_duration < required_duration, ''INSUFFICIENT_PAPER_DURATION''),
             (pe_completed_trade_count e < required_trades (pe_horizon e), ''INSUFFICIENT_COMPLETED_TRADES'')] in
      if insufficient \<noteq> [] then \<lparr>pd_status = INSUFFICIENT_EVIDENCE, pd_reason_codes = insufficient\<rparr>
      else performance_decision (collected
        [(pe_after_cost_return e \<le> 0, ''NON_POSITIVE_PAPER_AFTER_COST_RETURN''),
         (pe_risk_breach e, ''RISK_BREACH''),
         (pe_unexplained_reconciliation_event e, ''UNEXPLAINED_RECONCILIATION_EVENT''),
         (pe_stressed_slippage_bps e < pe_realized_slippage_bps e, ''REALIZED_SLIPPAGE_EXCEEDS_STRESS'')]))"

end
