(* ===== verification/MetricsFacts.thy ===== *)
theory MetricsFacts
  imports Metrics
begin

text \<open>
  What the metrics and the promotion gates guarantee: windows never reuse an observation, the
  drawdown is the worst fall from the highest value so far, the result of every run can be measured
  as long as its equity stays positive, and promotion needs every single threshold.
\<close>

section \<open>Windows\<close>

lemma window_parts:
  assumes "e + v + u \<le> length items"
  shows "cs_train (window_at items e v u) @ cs_validation (window_at items e v u) @ cs_test (window_at items e v u) =
      take (e + v + u) items"
    and "length (cs_train (window_at items e v u)) = e" "length (cs_validation (window_at items e v u)) = v"
    "length (cs_test (window_at items e v u)) = u"
  using assms by (simp_all add: window_at_def take_add)

lemma window_observed: "cs_validation (window_at items e v u) @ cs_test (window_at items e v u) = take (v + u) (drop e items)"
  by (simp add: window_at_def take_add add.commute [of v e])

text \<open>The windows, one after the other, hold a subsequence of what follows the first training sample.\<close>

lemma windows_subseq:
  "v + u \<le> stride \<Longrightarrow> subseq (concat (map (\<lambda>w. cs_validation w @ cs_test w) (windows_from items v u stride e))) (drop e items)"
proof (induction items v u stride e rule: windows_from.induct)
  case (1 items v u stride e)
  show ?case
  proof (cases "0 < stride \<and> e + v + u \<le> length items")
    case True
    have "drop (v + u) (drop e items) = drop (e + (v + u)) items"
      by (metis add.commute drop_drop)
    then have d: "drop e items = take (v + u) (drop e items) @ drop (e + (v + u)) items"
      by (metis append_take_drop_id)
    have "drop (e + stride) items = drop (stride - (v + u)) (drop (e + (v + u)) items)"
      using 1(2) by (simp add: ac_simps)
    then have "subseq (drop (e + stride) items) (drop (e + (v + u)) items)"
      by (metis suffix_drop suffix_imp_subseq)
    then have "subseq (concat (map (\<lambda>w. cs_validation w @ cs_test w) (windows_from items v u stride (e + stride))))
        (drop (e + (v + u)) items)"
      using 1(1) [OF True 1(2)] subseq_order.order_trans by blast
    then show ?thesis
      using True by (subst d, subst windows_from.simps) (simp add: window_observed list_emb_append_mono)
  next
    case False
    then show ?thesis
      by (subst windows_from.simps) auto
  qed
qed

lemma windows_are:
  "0 < stride \<Longrightarrow> windows_from items v u stride e = map (\<lambda>i. window_at items (e + i * stride) v u)
     [0 ..< (if e + v + u \<le> length items then (length items - (e + v + u)) div stride + 1 else 0)]"
proof (induction items v u stride e rule: windows_from.induct)
  case (1 items v u stride e)
  show ?case
  proof (cases "e + v + u \<le> length items")
    case True
    define n where "n = (if e + stride + v + u \<le> length items
        then (length items - (e + stride + v + u)) div stride + 1 else 0)"
    have "(length items - (e + v + u)) div stride + 1 = Suc n"
    proof (cases "e + stride + v + u \<le> length items")
      case fits: True
      then have "(length items - (e + v + u)) div stride = ((length items - (e + stride + v + u)) + stride) div stride"
        by (intro arg_cong [where f = "\<lambda>n. n div stride"]) linarith
      also have "\<dots> = n"
        using fits 1(2) by (simp only: n_def if_True div_add_self2)
      finally show ?thesis
        by simp
    next
      case False
      then have "length items - (e + v + u) < stride"
        using True by linarith
      then show ?thesis
        using False by (simp add: n_def)
    qed
    moreover have "windows_from items v u stride (e + stride) = map (\<lambda>i. window_at items (e + stride + i * stride) v u) [0 ..< n]"
      using 1 True by (simp add: n_def)
    ultimately show ?thesis
      using True 1(2) by (subst windows_from.simps) (simp add: map_Suc_upt [symmetric] upt_conv_Cons comp_def ac_simps del: map_Suc_upt upt_Suc)
  next
    case False
    then show ?thesis
      by (subst windows_from.simps) auto
  qed
qed

text \<open>Walk-forward validation never looks twice: the windows are exactly those that fit, in order; each
  one trains on everything before its validation sample, which its test sample follows immediately; and
  the validation and test samples of all windows together are a subsequence of what follows the first
  training sample, so no observation is used in two of them.\<close>

lemma walk_forward_windows:
  assumes "walk_forward_splits items t v u step = Inr ws"
  defines "stride \<equiv> nat (case step of None \<Rightarrow> v + u | Some n \<Rightarrow> n)"
  shows "length ws = (if nat t + nat v + nat u \<le> length items
      then (length items - (nat t + nat v + nat u)) div stride + 1 else 0) \<and>
    (\<forall>i < length ws. let w = ws ! i; e = nat t + i * stride in
       cs_train w = take e items \<and> cs_train w @ cs_validation w @ cs_test w = take (e + nat v + nat u) items \<and>
       length (cs_train w) = e \<and> length (cs_validation w) = nat v \<and> length (cs_test w) = nat u) \<and>
    subseq (concat (map (\<lambda>w. cs_validation w @ cs_test w) ws)) (drop (nat t) items)"
proof -
  have ws: "ws = windows_from items (nat v) (nat u) stride (nat t)" "nat v + nat u \<le> stride" "0 < stride"
    using assms by (auto simp: walk_forward_splits_def Let_def split: if_splits option.splits)
  have fits: "nat t + i * stride + nat v + nat u \<le> length items" if "i < length ws" for i
  proof -
    have i: "i \<le> (length items - (nat t + nat v + nat u)) div stride" "nat t + nat v + nat u \<le> length items"
      using that windows_are [OF ws(3), of items "nat v" "nat u" "nat t"] unfolding ws(1)
      by (auto split: if_splits)
    then have "i * stride \<le> length items - (nat t + nat v + nat u)"
      using ws(3) by (simp add: less_eq_div_iff_mult_less_eq)
    with i(2) show ?thesis
      by linarith
  qed
  have w: "ws ! i = window_at items (nat t + i * stride) (nat v) (nat u)" if "i < length ws" for i
    using that windows_are [OF ws(3), of items "nat v" "nat u" "nat t"] unfolding ws(1) by (simp del: upt_Suc)
  have "let w = ws ! i; e = nat t + i * stride in
       cs_train w = take e items \<and> cs_train w @ cs_validation w @ cs_test w = take (e + nat v + nat u) items \<and>
       length (cs_train w) = e \<and> length (cs_validation w) = nat v \<and> length (cs_test w) = nat u"
    if "i < length ws" for i
    unfolding Let_def w [OF that] using window_parts [OF fits [OF that]] by (simp add: window_at_def)
  then show ?thesis
    using windows_are [OF ws(3), of items "nat v" "nat u" "nat t"] windows_subseq [OF ws(2), of items "nat t"]
    by (simp add: ws(1) del: upt_Suc)
qed

section \<open>Drawdown\<close>

definition peak_to :: "dec list \<Rightarrow> nat \<Rightarrow> dec" where
  "peak_to curve j = Max (set (take (Suc j) curve))"

lemma Max_insert_max: "finite S \<Longrightarrow> Max (insert (max a b) S) = Max (insert a (insert b S))"
  by (cases "S = {}") (simp_all add: max.assoc)

lemma drawdown_from_eq:
  "xs \<noteq> [] \<Longrightarrow> drawdown_from (Max (set xs)) worst ys =
     Max (insert worst ((\<lambda>j. ddiv (dsub (peak_to (xs @ ys) j) ((xs @ ys) ! j)) (peak_to (xs @ ys) j)) ` {length xs ..< length (xs @ ys)}))"
proof (induction ys arbitrary: xs worst)
  case (Cons v vs)
  have p: "max (Max (set xs)) v = Max (set (xs @ [v]))" "peak_to (xs @ v # vs) (length xs) = Max (set (xs @ [v]))"
    using Cons.prems by (simp_all add: peak_to_def max.commute)
  have r: "{length xs ..< length (xs @ v # vs)} = insert (length xs) {length (xs @ [v]) ..< length ((xs @ [v]) @ vs)}"
    by auto
  have "drawdown_from (Max (set xs)) worst (v # vs) =
      drawdown_from (Max (set (xs @ [v]))) (max worst (ddiv (dsub (Max (set (xs @ [v]))) v) (Max (set (xs @ [v]))))) vs"
    by (simp only: drawdown_from.simps Let_def p)
  also have "\<dots> = Max (insert (max worst (ddiv (dsub (Max (set (xs @ [v]))) v) (Max (set (xs @ [v])))))
      ((\<lambda>j. ddiv (dsub (peak_to (xs @ v # vs) j) ((xs @ v # vs) ! j)) (peak_to (xs @ v # vs) j)) ` {length (xs @ [v]) ..< length ((xs @ [v]) @ vs)}))"
    using Cons.IH [of "xs @ [v]"] by simp
  finally show ?case
    unfolding r image_insert p(2) by (simp only: Max_insert_max finite_imageI finite_atLeastLessThan nth_append_length)
qed simp

lemma maximum_drawdown_eq:
  assumes "curve \<noteq> []" "0 < hd curve"
  shows "maximum_drawdown curve = Max ((\<lambda>j. ddiv (dsub (peak_to curve j) (curve ! j)) (peak_to curve j)) ` {..< length curve})"
proof -
  obtain v vs where c: "curve = v # vs"
    using assms(1) by (cases curve) auto
  have z: "ddiv (dsub (peak_to curve 0) (curve ! 0)) (peak_to curve 0) = 0"
    by (simp add: c peak_to_def ddiv_def dsub_def)
  have i: "{..< length curve} = insert 0 {length [v] ..< length ([v] @ vs)}"
    by (auto simp: c)
  have "maximum_drawdown curve = drawdown_from (Max (set [v])) 0 vs"
    using assms(2) by (simp add: maximum_drawdown_def c ddiv_def dsub_def)
  also have "\<dots> = Max (insert 0 ((\<lambda>j. ddiv (dsub (peak_to ([v] @ vs) j) (([v] @ vs) ! j)) (peak_to ([v] @ vs) j)) `
      {length [v] ..< length ([v] @ vs)}))"
    by (rule drawdown_from_eq) simp
  finally show ?thesis
    unfolding i image_insert z by (simp add: c)
qed

section \<open>Measuring a run\<close>

text \<open>What every reported run has: exposure counted once per bar, real fills, rounded equity.\<close>

definition measurable :: "sim \<Rightarrow> bool" where
  "measurable s \<longleftrightarrow> si_exposed s \<le> length (si_equity s) \<and>
     (\<forall>f \<in> set (si_fills s). 0 < fl_quantity f \<and> 0 < fl_price f) \<and> (\<forall>p \<in> set (si_equity s). representable (ep_value p))"

lemma exposed_fields [simp]:
  "si_exposed (note_event t k r s) = si_exposed s" "si_exposed (place_exit m b index reason trade s) = si_exposed s"
  by (simp_all add: note_event_def place_exit_def)

lemma measurable_note [simp]: "measurable (note_event t k r s) = measurable s"
  by (simp add: measurable_def)

lemma measurable_exit [simp]: "measurable (place_exit m b index reason trade s) = measurable s"
  by (simp add: measurable_def)

lemma measurable_quiet:
  "measurable (cancel_remainder m index b s) = measurable s" "measurable (protect m index b s) = measurable s"
  "close_session G ins m index b later s = Inr s' \<Longrightarrow> measurable s' = measurable s"
  "enter_on_signal G ins index b seen snapshot sig s = Inr s' \<Longrightarrow> measurable s' = measurable s"
     apply (simp add: cancel_remainder_def split: option.split)
    apply (simp add: protect_def split: option.split)
   apply (auto simp: close_session_def result_simps split: option.splits list.splits if_splits)[1]
  apply (auto dest!: enter_cases simp: measurable_def)
  done

lemma measurable_fill:
  assumes "measurable s" "fill_pending G ins index b s = Inr s'"
  shows "measurable s'"
  using assms(2)
proof (cases rule: fill_pending_cases)
  case (3 p q f)
  have "si_fills s' = si_fills s @ [f]" "si_exposed s' = si_exposed s" "si_equity s' = si_equity s"
    using 3(3) by (auto simp: book_fill_def result_simps Let_def branch_eq note_event_def split: side.splits option.splits)
  then show ?thesis
    using assms(1) pending_fill_fields [OF 3(2)] by (simp add: measurable_def)
qed (use assms(1) in simp_all)

lemma mark_equity: "mark prices tm L = Inr (snapshot, L') \<Longrightarrow> representable (ps_equity snapshot)"
  by (auto dest!: mark_InrD simp: snapshot_at_def valuation_def Let_def result_simps)

lemma measurable_mark:
  assumes "measurable s" "mark_bar ins b s = Inr (snapshot, s')"
  shows "measurable s'"
proof -
  obtain L' where m: "mark [(instrument_key ins, bar_close b)] (Aware (bar_at b)) (si_ledger s) = Inr (snapshot, L')"
      "s' = s\<lparr>si_ledger := L', si_exposed := (if ps_positions snapshot \<noteq> [] then si_exposed s + 1 else si_exposed s),
         si_equity := si_equity s @ [\<lparr>ep_at = bar_at b, ep_value = ps_equity snapshot\<rparr>]\<rparr>"
    using assms(2) by (auto simp: mark_bar_def result_simps)
  then show ?thesis
    using assms(1) mark_equity [OF m(1)] by (simp add: measurable_def)
qed

lemma measurable_step:
  assumes "sim_step G ins S h earlier b later s = Inr s'" "measurable s"
  shows "measurable s'"
  using assms(1)
proof (rule sim_step_phases)
  fix s1 snapshot s2 s3
  assume f: "fill_pending G ins (length earlier) b (cancel_remainder (st_metadata S) (length earlier) b s) = Inr s1"
    and m: "mark_bar ins b s1 = Inr (snapshot, s2)"
    and c: "close_session G ins (st_metadata S) (length earlier) b later (protect (st_metadata S) (length earlier) b s2) = Inr s3"
    and e: "s' = s3 \<or> (\<exists>sig. ps_positions snapshot = [] \<and> si_pending s3 = None \<and>
       enter_on_signal G ins (length earlier) b (earlier @ [b]) snapshot sig s3 = Inr s')"
  have "measurable s2"
    using measurable_mark [OF measurable_fill [OF _ f] m] assms(2) by (simp add: measurable_quiet)
  then show ?thesis
    using e measurable_quiet(3) [OF c] measurable_quiet(2,4) by metis
qed

lemma measured_run:
  assumes "run_backtest G ins bars S cash = Inr r"
  shows "bars \<noteq> []" "\<forall>b \<in> set bars. 0 < bar_close b" "0 < cash" "length (br_equity_curve r) = length bars"
    "br_benchmark_curve r = benchmark cash bars" "br_exposed_periods r \<le> length bars" "0 \<le> br_traded_notional r"
    "\<forall>p \<in> set (br_equity_curve r). representable (ep_value p)"
proof -
  obtain s where s: "simulate G ins S (hd (sm_allowed_horizons (st_metadata S))) [] bars
        (sim_init cash (ins_quote_currency ins)) = Inr s" "r = backtest_report G S bars cash s" "0 < cash"
      and v: "validate_bars bars = Inr ()"
    using assms by (auto simp: run_backtest_def result_simps split: if_splits)
  have "validate_bars_from previous bs = Inr () \<Longrightarrow> \<forall>b \<in> set bs. 0 < bar_close b" for previous bs
    by (induction bs arbitrary: previous) (auto simp: result_simps validate_ohlc_def split: if_splits)
  then show "bars \<noteq> []" "\<forall>b \<in> set bars. 0 < bar_close b"
    using v by (auto simp: validate_bars_def split: if_splits)
  have "measurable (sim_init cash (ins_quote_currency ins))"
    by (simp add: measurable_def sim_init_def)
  then have m: "measurable s"
    by (rule simulate_inv [OF s(1)]) (rule measurable_step)
  have l: "length (si_equity s) = length bars"
    using simulate_output_grows [OF s(1)] by (simp add: sim_init_def)
  show "0 < cash" "length (br_equity_curve r) = length bars" "br_benchmark_curve r = benchmark cash bars"
      "br_exposed_periods r \<le> length bars" "\<forall>p \<in> set (br_equity_curve r). representable (ep_value p)"
    using m l s(2,3) by (simp_all add: backtest_report_def Let_def measurable_def)
  show "0 \<le> br_traded_notional r"
    using m s(2) by (auto simp: backtest_report_def Let_def measurable_def less_imp_le intro!: dsum_nonneg)
qed

lemma benchmark_positive:
  assumes "bars \<noteq> []" "\<forall>b \<in> set bars. 0 < bar_close b" "0 < cash"
  shows "validate_curve (map ep_value (benchmark cash bars)) name = Inr ()"
  using assms by (auto simp: validate_curve_def benchmark_def list_all_iff)

lemma drawdown_bounds:
  assumes "curve \<noteq> []" "\<forall>v \<in> set curve. 0 < v \<and> representable v"
  shows "0 \<le> maximum_drawdown curve \<and> maximum_drawdown curve \<le> 1"
proof -
  have hd: "0 < hd curve"
    using assms by (cases curve) auto
  have b: "0 \<le> ddiv (dsub (peak_to curve j) (curve ! j)) (peak_to curve j) \<and>
      ddiv (dsub (peak_to curve j) (curve ! j)) (peak_to curve j) \<le> 1" if "j < length curve" for j
  proof -
    have t: "curve ! j \<in> set (take (Suc j) curve)" "set (take (Suc j) curve) \<subseteq> set curve"
      using that by (auto simp: take_Suc_conv_app_nth dest: in_set_takeD)
    have "Max (set (take (Suc j) curve)) \<in> set (take (Suc j) curve)"
      using t(1) by (intro Max_in) auto
    with t have p: "curve ! j \<le> peak_to curve j" "peak_to curve j \<in> set curve"
      unfolding peak_to_def by (auto intro: Max_ge)
    then have pos: "0 < peak_to curve j" "representable (peak_to curve j)" "0 < curve ! j"
      using assms(2) that by auto
    then have "dsub (peak_to curve j) (curve ! j) \<le> peak_to curve j"
      unfolding dsub_def by (intro rnd_le) auto
    then have "ddiv (dsub (peak_to curve j) (curve ! j)) (peak_to curve j) \<le> 1"
      unfolding ddiv_def using pos(1) representable_int [of 1] by (intro rnd_le) (simp_all add: pos_divide_le_eq)
    then show ?thesis
      using p(1) pos by simp
  qed
  have "maximum_drawdown curve \<in> (\<lambda>j. ddiv (dsub (peak_to curve j) (curve ! j)) (peak_to curve j)) ` {..< length curve}"
    unfolding maximum_drawdown_eq [OF assms(1) hd] using assms(1) by (intro Max_in) auto
  then show ?thesis
    using b by auto
qed

text \<open>A share of a count.\<close>

lemma share_bounds: "0 \<le> a \<Longrightarrow> a \<le> n \<Longrightarrow> 0 < n \<Longrightarrow> 0 \<le> ddiv a n \<and> ddiv a n \<le> 1"
  unfolding ddiv_def using representable_int [of 1] by (auto intro!: rnd_le)

text \<open>C33: The result of every run can be measured exactly when the year has a positive number of periods and
  its equity stays positive; the maximum drawdown is then the worst relative fall from the highest equity
  so far and lies, as exposure and hit rate do, between nothing and everything.\<close>

theorem run_is_measurable:
  assumes "run_backtest G ins bars S cash = Inr r"
  shows "((\<exists>m. calculate_result_metrics r n = Inr m) \<longleftrightarrow> 0 < n \<and> (\<forall>p \<in> set (br_equity_curve r). 0 < ep_value p)) \<and>
    (\<forall>m. calculate_result_metrics r n = Inr m \<longrightarrow>
       pm_maximum_drawdown m = Max ((\<lambda>j. ddiv (dsub (peak_to (map ep_value (br_equity_curve r)) j)
           (ep_value (br_equity_curve r ! j))) (peak_to (map ep_value (br_equity_curve r)) j)) ` {..< length bars}) \<and>
       0 \<le> pm_maximum_drawdown m \<and> pm_maximum_drawdown m \<le> 1 \<and> 0 \<le> pm_exposure m \<and> pm_exposure m \<le> 1 \<and>
       0 \<le> pm_hit_rate m \<and> pm_hit_rate m \<le> 1 \<and> pm_completed_trade_count m = length (br_completed_trades r))"
proof (intro conjI allI impI)
  note run = measured_run [OF assms]
  note bp = benchmark_positive [OF run(1-3)]
  let ?curve = "map ep_value (br_equity_curve r)"
  show "(\<exists>m. calculate_result_metrics r n = Inr m) \<longleftrightarrow> 0 < n \<and> (\<forall>p \<in> set (br_equity_curve r). 0 < ep_value p)"
    using run bp by (auto simp: calculate_result_metrics_def calculate_performance_metrics_def Let_def result_simps
        validate_curve_def list_all_iff benchmark_def split: prod.splits if_splits)
  fix m
  assume m: "calculate_result_metrics r n = Inr m"
  have c: "?curve \<noteq> []" "\<forall>v \<in> set ?curve. 0 < v \<and> representable v" "length ?curve = length bars"
    using m run by (auto simp: calculate_result_metrics_def calculate_performance_metrics_def result_simps
        validate_curve_def list_all_iff split: if_splits)
  have hd: "0 < hd ?curve"
    using c(1,2) by (metis list.set_sel(1))
  have f: "pm_maximum_drawdown m = maximum_drawdown ?curve"
      "pm_exposure m = ddiv (of_int (int (br_exposed_periods r))) (of_nat (length bars))"
      "pm_completed_trade_count m = length (br_completed_trades r)"
      "pm_hit_rate m = (if br_completed_trades r = [] then 0
         else ddiv (of_nat (length (filter (\<lambda>p. 0 < p) (map ct_net_pnl (br_completed_trades r)))))
           (of_nat (length (br_completed_trades r))))"
    using m run(4) by (auto simp: calculate_result_metrics_def calculate_performance_metrics_def Let_def result_simps
        split: prod.splits if_splits)
  show "pm_completed_trade_count m = length (br_completed_trades r)"
    by (rule f)
  show "pm_maximum_drawdown m = Max ((\<lambda>j. ddiv (dsub (peak_to ?curve j)
           (ep_value (br_equity_curve r ! j))) (peak_to ?curve j)) ` {..< length bars})"
    unfolding f maximum_drawdown_eq [OF c(1) hd] c(3) by (intro arg_cong [where f = Max] image_cong) (simp_all add: run(4))
  show "0 \<le> pm_maximum_drawdown m" "pm_maximum_drawdown m \<le> 1"
    using drawdown_bounds [OF c(1,2)] by (simp_all add: f)
  show "0 \<le> pm_exposure m" "pm_exposure m \<le> 1"
    using share_bounds [of "of_nat (br_exposed_periods r)" "of_nat (length bars)"] run(1,6) by (simp_all add: f)
  show "0 \<le> pm_hit_rate m" "pm_hit_rate m \<le> 1"
    using share_bounds [of "of_nat (length (filter (\<lambda>p. 0 < p) (map ct_net_pnl (br_completed_trades r))))"
        "of_nat (length (br_completed_trades r))"] length_filter_le [of "\<lambda>p. 0 < p" "map ct_net_pnl (br_completed_trades r)"]
    by (auto simp: f)
qed

section \<open>Promotion\<close>

lemma collected_empty [simp]: "collected checks = [] \<longleftrightarrow> list_all (\<lambda>(c, r). \<not> c) checks"
  by (auto simp: collected_def list_all_iff filter_empty_conv)

lemma performance_decision_status [simp]:
  "pd_status (performance_decision reasons) = (if reasons = [] then ELIGIBLE else PROMOTION_REJECTED)"
  by (simp add: performance_decision_def)

text \<open>C34: Promotion is exact: a backtest is eligible if and only if it has enough completed trades and every
  threshold holds (positive return after costs, positive excess over the benchmark, at most ten percent
  drawdown, a profit factor of at least 1.1 or no loss at all with a profit, and a positive return at
  doubled costs); paper evidence if and only if it is long enough, has enough trades, a positive return,
  no breach, no unexplained event and slippage within the stressed assumption; too small a sample is
  insufficient evidence whatever its performance.\<close>

theorem promotion_thresholds:
  "(pd_status (evaluate_backtest m stressed_return h) = ELIGIBLE \<longleftrightarrow>
     (if h = INTRADAY then 100 else 30) \<le> pm_completed_trade_count m \<and> 0 < pm_total_return m \<and>
     0 < pm_benchmark_excess_return m \<and> pm_maximum_drawdown m \<le> 1 / 10 \<and>
     pm_profit_factor m \<in> insert (Some Unbounded) {Some (Finite f) | f. 11 / 10 \<le> f} \<and> 0 < stressed_return) \<and>
   (pd_status (evaluate_backtest m stressed_return h) = INSUFFICIENT_EVIDENCE \<longleftrightarrow>
     pm_completed_trade_count m < (if h = INTRADAY then 100 else 30)) \<and>
   (pd_status (evaluate_paper e) = ELIGIBLE \<longleftrightarrow>
     (if pe_horizon e = INTRADAY then 20 \<le> pe_trading_days e \<and> 100 \<le> pe_completed_trade_count e
      else 90 \<le> pe_calendar_days e \<and> 30 \<le> pe_completed_trade_count e) \<and>
     0 < pe_after_cost_return e \<and> \<not> pe_risk_breach e \<and> \<not> pe_unexplained_reconciliation_event e \<and>
     pe_realized_slippage_bps e \<le> pe_stressed_slippage_bps e)"
proof (intro conjI)
  have f: "\<not> (case x of None \<Rightarrow> True | Some f \<Rightarrow> factor_below f (11 / 10)) \<longleftrightarrow>
      x \<in> insert (Some Unbounded) {Some (Finite f) | f. 11 / 10 \<le> f}" for x
    by (cases x; cases "the x") auto
  show "pd_status (evaluate_backtest m stressed_return h) = ELIGIBLE \<longleftrightarrow>
     (if h = INTRADAY then 100 else 30) \<le> pm_completed_trade_count m \<and> 0 < pm_total_return m \<and>
     0 < pm_benchmark_excess_return m \<and> pm_maximum_drawdown m \<le> 1 / 10 \<and>
     pm_profit_factor m \<in> insert (Some Unbounded) {Some (Finite f) | f. 11 / 10 \<le> f} \<and> 0 < stressed_return"
    unfolding f [symmetric] by (auto simp: evaluate_backtest_def required_trades_def not_less not_le)
qed (auto simp: evaluate_backtest_def evaluate_paper_def required_trades_def Let_def not_less not_le)

section \<open>Evidence from a run\<close>

lemma run_equity: "map_sum id (\<lambda>r. map ep_value (br_equity_curve r))
    (run_backtest run_engine demo_instrument (run_past @ run_ahead) run_strategy 10000) = Inr [10000, 9999, 10099, 100979 / 10]"
  by code_simp

lemma walk_forward_windows_demo:
  "\<exists>ws. walk_forward_splits [1 :: int, 2, 3, 4, 5, 6, 7, 8] 2 1 2 None = Inr ws \<and> length ws = 2 \<and>
     concat (map (\<lambda>w. cs_validation w @ cs_test w) ws) = [3, 4, 5, 6, 7, 8] \<and>
     subseq (concat (map (\<lambda>w. cs_validation w @ cs_test w) ws)) (drop (nat 2) [1, 2, 3, 4, 5, 6, 7, 8])"
proof -
  have w: "map_sum id (map (\<lambda>w. cs_validation w @ cs_test w)) (walk_forward_splits [1 :: int, 2, 3, 4, 5, 6, 7, 8] 2 1 2 None) =
      Inr [[3, 4, 5], [6, 7, 8]]"
    by code_simp
  then obtain ws where ws: "walk_forward_splits [1 :: int, 2, 3, 4, 5, 6, 7, 8] 2 1 2 None = Inr ws"
      "map (\<lambda>w. cs_validation w @ cs_test w) ws = [[3, 4, 5], [6, 7, 8]]"
    by (auto simp: map_sum_Inr)
  then have "length ws = 2"
    by (metis length_map length_Cons list.size(3) numeral_2_eq_2)
  then show ?thesis
    using ws walk_forward_windows [OF ws(1)] by auto
qed

theorem run_is_measurable_witness:
  "\<exists>r m. run_backtest run_engine demo_instrument (run_past @ run_ahead) run_strategy 10000 = Inr r \<and>
     calculate_result_metrics r 252 = Inr m \<and> 0 \<le> pm_maximum_drawdown m \<and> pm_maximum_drawdown m \<le> 1"
proof -
  obtain r where r: "run_backtest run_engine demo_instrument (run_past @ run_ahead) run_strategy 10000 = Inr r"
      "map ep_value (br_equity_curve r) = [10000, 9999, 10099, 100979 / 10]"
    using run_equity by (auto simp: map_sum_Inr)
  then have "\<forall>v \<in> set (map ep_value (br_equity_curve r)). 0 < v"
    by simp
  then obtain m where m: "calculate_result_metrics r 252 = Inr m"
    using run_is_measurable [OF r(1), of 252] by auto
  show ?thesis
    using r(1) m run_is_measurable [OF r(1), of 252] by blast
qed

end
