(* ===== verification/Scheduler.thy ===== *)
theory Scheduler
  imports EventStore
begin

text \<open>
  \<open>operations/scheduler.py\<close>: a due run is claimed durably before it is executed, and the heads of
  two aggregates of the audit log decide every race.  \<open>run_due\<close> reads and writes the log at several
  moments; each part between two of them is one operation here, a process is a job with the phase
  it has reached, and a system is any number of processes and other writers over one log.
  SHA-256, the calendar, the clock and the event id factory are parameters: a reading of the clock is
  \<open>None\<close> when it raises or is not in UTC, an answer of the calendar when it raises or is not a bool.
\<close>

section \<open>Jobs\<close>

record scheduled_job =
  sj_strategy_id :: string
  sj_instrument_id :: string
  sj_due_at :: instant
  sj_max_lateness_seconds :: int

definition strategy_shape :: "string \<Rightarrow> bool" where
  "strategy_shape = matches is_alnum (\<lambda>c. is_alnum c \<or> c \<in> set ''_.-'') 63"

definition event_id_shape :: "string \<Rightarrow> bool" where
  "event_id_shape = matches is_alnum (\<lambda>c. is_alnum c \<or> c \<in> set ''_.:-'') 255"

definition instrument_shape :: "string \<Rightarrow> bool" where
  "instrument_shape v = (let symbol = takeWhile (\<lambda>c. c \<noteq> CHR ''@'') v; rest = dropWhile (\<lambda>c. c \<noteq> CHR ''@'') v in
     matches (\<lambda>c. is_upper c \<or> is_digit c) (\<lambda>c. is_upper c \<or> is_digit c \<or> c \<in> set ''._/-'') 63 symbol \<and>
     rest \<noteq> [] \<and> matches (\<lambda>c. is_lower c \<or> is_digit c) (\<lambda>c. is_lower c \<or> is_digit c \<or> c = CHR ''-'') 31 (tl rest))"

definition check_job :: "scheduled_job \<Rightarrow> scheduled_job result" where
  "check_job job =
     (if \<not> strategy_shape (sj_strategy_id job) \<or> \<not> instrument_shape (sj_instrument_id job) \<or>
         \<not> (0 \<le> sj_max_lateness_seconds job \<and> sj_max_lateness_seconds job \<le> 86400)
      then Inl (ValueError ''scheduled job is malformed'') else Inr job)"

text \<open>The domain-separated hashes that name a due run and the exclusion of its strategy and instrument.\<close>

definition run_aggregate :: "(string \<Rightarrow> string) \<Rightarrow> scheduled_job \<Rightarrow> string" where
  "run_aggregate sha job = ''scheduler-run-'' @ sha (''omnimarket-sentinel:scheduler-run:v1'' @ [CHR 0x00] @
     print_json (JList [JStr (sj_strategy_id job), JStr (sj_instrument_id job), JStr (iso_text (sj_due_at job))]))"

definition exclusion_aggregate :: "(string \<Rightarrow> string) \<Rightarrow> scheduled_job \<Rightarrow> string" where
  "exclusion_aggregate sha job = ''scheduler-exclusion-'' @ sha (''omnimarket-sentinel:scheduler-exclusion:v1'' @ [CHR 0x00] @
     print_json (JList [JStr (sj_strategy_id job), JStr (sj_instrument_id job)]))"

definition job_payload :: "scheduled_job \<Rightarrow> string \<Rightarrow> json" where
  "job_payload job reason = JObj [(''strategy_id'', JStr (sj_strategy_id job)),
     (''instrument_id'', JStr (sj_instrument_id job)), (''due_at'', JStr (iso_text (sj_due_at job))),
     (''reason_code'', JStr reason)]"

record run_outcome =
  ro_strategy_id :: string
  ro_instrument_id :: string
  ro_reason_code :: string
  ro_ran :: bool

definition outcome :: "scheduled_job \<Rightarrow> string \<Rightarrow> bool \<Rightarrow> run_outcome" where
  "outcome job reason executed = \<lparr>ro_strategy_id = sj_strategy_id job, ro_instrument_id = sj_instrument_id job,
     ro_reason_code = reason, ro_ran = executed\<rparr>"

section \<open>What a process is given\<close>

record scheduler =
  sd_sha :: "string \<Rightarrow> string"
  sd_sensitive :: "string \<Rightarrow> bool"

text \<open>The answers of the clock, the calendar, the factory and the job in one part of \<open>run_due\<close>.\<close>

record readings =
  rg_clock :: "instant option"
  rg_calendar :: "string \<Rightarrow> instant \<Rightarrow> bool option"
  rg_ids :: "string option list"
  rg_completes :: bool

fun draw_ids :: "nat \<Rightarrow> string option list \<Rightarrow> string list \<Rightarrow> string list option" where
  "draw_ids 0 answers values = Some values"
| "draw_ids (Suc n) (Some e # answers) values =
     (if event_id_shape e \<and> e \<notin> set values then draw_ids n answers (values @ [e]) else None)"
| "draw_ids (Suc n) answers values = None"

definition event_ids :: "nat \<Rightarrow> string option list \<Rightarrow> string list option" where
  "event_ids n answers = draw_ids n answers []"

definition due_rejection :: "scheduled_job \<Rightarrow> (string \<Rightarrow> instant \<Rightarrow> bool option) \<Rightarrow> instant \<Rightarrow> string option" where
  "due_rejection job calendar now =
     (if sj_max_lateness_seconds job * 1000000 < now - sj_due_at job then Some ''MISSED_STALE''
      else case (calendar (sj_instrument_id job) (sj_due_at job), calendar (sj_instrument_id job) now) of
          (Some due_open, Some current_open) \<Rightarrow> if \<not> due_open \<or> \<not> current_open then Some ''EXCHANGE_CLOSED'' else None
        | _ \<Rightarrow> Some ''EXCHANGE_CALENDAR_UNAVAILABLE'')"

section \<open>The log\<close>

definition sched_event :: "string \<Rightarrow> string \<Rightarrow> string \<Rightarrow> json \<Rightarrow> instant \<Rightarrow> event_append" where
  "sched_event i event_kind a payload t = \<lparr>ea_event_id = i, ea_kind = event_kind, ea_aggregate_id = a,
     ea_payload = payload, ea_occurred_at = Aware t\<rparr>"

text \<open>The rows of an exclusion must alternate between start and release.\<close>

fun exclusion_rows :: "bool \<Rightarrow> event_record list \<Rightarrow> bool" where
  "exclusion_rows starts [] = True"
| "exclusion_rows starts (r # rs) =
     (er_kind r = (if starts then ''scheduler.exclusion_started'' else ''scheduler.exclusion_released'') \<and>
      (case er_payload r of JObj kvs \<Rightarrow> (case dget kvs ''run_aggregate'' of Some (JStr v) \<Rightarrow> True | _ \<Rightarrow> False)
        | _ \<Rightarrow> False) \<and> exclusion_rows (\<not> starts) rs)"

definition exclusion_state :: "string \<Rightarrow> event_store \<Rightarrow> (bool \<times> string option) option" where
  "exclusion_state a st = (case stream a st of
       Inl _ \<Rightarrow> None
     | Inr rows \<Rightarrow> if rows = [] then Some (False, None)
         else if \<not> exclusion_rows True rows then None
         else Some (er_kind (last rows) = ''scheduler.exclusion_started'', Some (er_event_id (last rows))))"

section \<open>One due run\<close>

text \<open>How far a call of \<open>run_due\<close> has come, with what it remembers.\<close>

datatype phase =
    Requested
  | Reserved instant "string option" string string
  | Conflicted
  | Claimed string string
  | Running string string instant
  | Decided string string string instant bool
  | Finished run_outcome

definition claim_skip ::
  "scheduler \<Rightarrow> scheduled_job \<Rightarrow> string \<Rightarrow> instant \<Rightarrow> string option list \<Rightarrow> event_store \<Rightarrow> run_outcome \<times> event_store" where
  "claim_skip S job reason t answers st = (let a = run_aggregate (sd_sha S) job in
     case event_ids 2 answers of
       Some [i, j] \<Rightarrow> (case record_many_if_heads (sd_sensitive S)
           [sched_event i ''scheduler.skipped'' a (job_payload job reason) t,
            sched_event j ''scheduler.unhealthy'' a (JObj [(''healthy'', JBool False), (''reason_code'', JStr reason)]) t]
           [(a, None)] st of
             Inr st' \<Rightarrow> (outcome job reason False, st')
           | Inl (EventHeadConflict _) \<Rightarrow> (outcome job ''ALREADY_CLAIMED'' False, st)
           | Inl _ \<Rightarrow> (outcome job ''AUDIT_PERSISTENCE_FAILED'' False, st))
     | _ \<Rightarrow> (outcome job ''AUDIT_PERSISTENCE_FAILED'' False, st))"

definition finish :: "run_outcome \<times> event_store \<Rightarrow> phase \<times> event_store" where
  "finish r = (Finished (fst r), snd r)"

text \<open>Up to the event ids of the claim.\<close>

definition begin_run :: "scheduler \<Rightarrow> readings \<Rightarrow> scheduled_job \<Rightarrow> event_store \<Rightarrow> phase \<times> event_store" where
  "begin_run S g job st = (case rg_clock g of
       None \<Rightarrow> finish (claim_skip S job ''CLOCK_UNAVAILABLE'' (sj_due_at job) (rg_ids g) st)
     | Some now \<Rightarrow>
         if now < sj_due_at job then finish (outcome job ''NOT_DUE'' False, st)
         else (case due_rejection job (rg_calendar g) now of
             Some reason \<Rightarrow> finish (claim_skip S job reason now (rg_ids g) st)
           | None \<Rightarrow> (case exclusion_state (exclusion_aggregate (sd_sha S) job) st of
               None \<Rightarrow> finish (outcome job ''AUDIT_PERSISTENCE_FAILED'' False, st)
             | Some (True, _) \<Rightarrow> finish (outcome job ''ALREADY_RUNNING'' False, st)
             | Some (False, head) \<Rightarrow> (case event_ids 2 (rg_ids g) of
                 Some [i, j] \<Rightarrow> (Reserved now head i j, st)
               | _ \<Rightarrow> finish (outcome job ''AUDIT_PERSISTENCE_FAILED'' False, st)))))"

text \<open>The durable claim, the one arbiter of every race.\<close>

definition start_batch :: "scheduler \<Rightarrow> scheduled_job \<Rightarrow> instant \<Rightarrow> string \<Rightarrow> string \<Rightarrow> event_append list" where
  "start_batch S job now i j =
     [sched_event i ''scheduler.started'' (run_aggregate (sd_sha S) job) (job_payload job ''STARTED'') now,
      sched_event j ''scheduler.exclusion_started'' (exclusion_aggregate (sd_sha S) job)
        (JObj [(''run_aggregate'', JStr (run_aggregate (sd_sha S) job))]) now]"

definition claim_run ::
  "scheduler \<Rightarrow> scheduled_job \<Rightarrow> instant \<Rightarrow> string option \<Rightarrow> string \<Rightarrow> string \<Rightarrow> event_store \<Rightarrow> phase \<times> event_store" where
  "claim_run S job now head i j st =
     (let a = run_aggregate (sd_sha S) job; x = exclusion_aggregate (sd_sha S) job in
      case record_many_if_heads (sd_sensitive S)
        (start_batch S job now i j) [(a, None), (x, head)] st of
          Inr st' \<Rightarrow> (Claimed i j, st')
        | Inl (EventHeadConflict _) \<Rightarrow> (Conflicted, st)
        | Inl _ \<Rightarrow> finish (outcome job ''AUDIT_PERSISTENCE_FAILED'' False, st))"

definition claim_conflict_reason :: "scheduler \<Rightarrow> scheduled_job \<Rightarrow> event_store \<Rightarrow> string" where
  "claim_conflict_reason S job st = (case stream (run_aggregate (sd_sha S) job) st of
       Inl _ \<Rightarrow> ''AUDIT_PERSISTENCE_FAILED''
     | Inr rows \<Rightarrow> if rows \<noteq> [] then ''ALREADY_CLAIMED''
         else (case exclusion_state (exclusion_aggregate (sd_sha S) job) st of
             None \<Rightarrow> ''AUDIT_PERSISTENCE_FAILED''
           | Some (active, _) \<Rightarrow> if active then ''ALREADY_RUNNING'' else ''AUDIT_PERSISTENCE_FAILED''))"

text \<open>After the claim the time and the calendar are read again; only then does the job run.\<close>

definition check_again :: "readings \<Rightarrow> scheduled_job \<Rightarrow> string \<Rightarrow> string \<Rightarrow> phase" where
  "check_again g job i j = (case rg_clock g of
       None \<Rightarrow> Decided i j ''CLOCK_UNAVAILABLE'' (sj_due_at job) False
     | Some immediate \<Rightarrow> (case due_rejection job (rg_calendar g) immediate of
         Some reason \<Rightarrow> Decided i j reason immediate False
       | None \<Rightarrow> Running i j immediate))"

definition execute :: "readings \<Rightarrow> string \<Rightarrow> string \<Rightarrow> instant \<Rightarrow> phase" where
  "execute g i j immediate = (case rg_clock g of
       None \<Rightarrow> Decided i j ''CLOCK_UNAVAILABLE'' immediate True
     | Some ended \<Rightarrow> Decided i j (if rg_completes g then ''COMPLETED'' else ''JOB_FAILED'') ended True)"

definition conclude_run ::
  "scheduler \<Rightarrow> readings \<Rightarrow> scheduled_job \<Rightarrow> string \<Rightarrow> string \<Rightarrow> string \<Rightarrow> instant \<Rightarrow> bool \<Rightarrow> event_store \<Rightarrow>
     run_outcome \<times> event_store" where
  "conclude_run S g job i j reason t executed st =
     (let a = run_aggregate (sd_sha S) job; x = exclusion_aggregate (sd_sha S) job; completed = (reason = ''COMPLETED'') in
      case event_ids 3 (rg_ids g) of
        Some [k, l, m] \<Rightarrow> (case record_many_if_heads (sd_sensitive S)
          [sched_event k (if executed then ''scheduler.ended'' else ''scheduler.skipped'') a (JObj [(''reason_code'', JStr reason)]) t,
           sched_event l (if completed then ''scheduler.healthy'' else ''scheduler.unhealthy'') a
             (JObj [(''healthy'', JBool completed), (''reason_code'', JStr reason)]) t,
           sched_event m ''scheduler.exclusion_released'' x
             (JObj [(''run_aggregate'', JStr a), (''reason_code'', JStr reason)]) t]
          [(a, Some i), (x, Some j)] st of
            Inr st' \<Rightarrow> (outcome job reason executed, st')
          | Inl _ \<Rightarrow> (outcome job ''AUDIT_PERSISTENCE_FAILED'' executed, st))
      | _ \<Rightarrow> (outcome job ''AUDIT_PERSISTENCE_FAILED'' executed, st))"

fun advance :: "scheduler \<Rightarrow> readings \<Rightarrow> scheduled_job \<Rightarrow> phase \<Rightarrow> event_store \<Rightarrow> phase \<times> event_store" where
  "advance S g job Requested st = begin_run S g job st"
| "advance S g job (Reserved now head i j) st = claim_run S job now head i j st"
| "advance S g job Conflicted st = finish (outcome job (claim_conflict_reason S job st) False, st)"
| "advance S g job (Claimed i j) st = (check_again g job i j, st)"
| "advance S g job (Running i j immediate) st = (execute g i j immediate, st)"
| "advance S g job (Decided i j reason t executed) st = finish (conclude_run S g job i j reason t executed st)"
| "advance S g job (Finished r) st = (Finished r, st)"

text \<open>The whole call, when nothing else writes: its parts one after the other.\<close>

fun run_due :: "scheduler \<Rightarrow> readings list \<Rightarrow> scheduled_job \<Rightarrow> phase \<Rightarrow> event_store \<Rightarrow> phase \<times> event_store" where
  "run_due S [] job p st = (p, st)"
| "run_due S (g # gs) job p st = (case advance S g job p st of (p', st') \<Rightarrow> run_due S gs job p' st')"

section \<open>Interleaved runs\<close>

text \<open>Any number of processes, and other writers whose events satisfy \<open>F\<close>, over one log.
  \<open>sy_runs\<close> remembers the jobs whose body was entered.\<close>

record sched_system =
  sy_log :: event_store
  sy_procs :: "(scheduled_job \<times> phase) list"
  sy_runs :: "scheduled_job list"

fun executes :: "phase \<Rightarrow> bool" where
  "executes (Running i j t) = True"
| "executes p = False"

inductive sched_step :: "scheduler \<Rightarrow> (event_append \<Rightarrow> bool) \<Rightarrow> sched_system \<Rightarrow> sched_system \<Rightarrow> bool" for S F where
  request: "sched_step S F y (y\<lparr>sy_procs := sy_procs y @ [(job, Requested)]\<rparr>)"
| advance: "n < length (sy_procs y) \<Longrightarrow> sy_procs y ! n = (job, p) \<Longrightarrow> advance S g job p (sy_log y) = (p', st') \<Longrightarrow>
    sched_step S F y (y\<lparr>sy_log := st', sy_procs := (sy_procs y)[n := (job, p')],
      sy_runs := (if executes p' then sy_runs y @ [job] else sy_runs y)\<rparr>)"
| foreign: "append_many batch (sy_log y) = Inr st' \<Longrightarrow> list_all F batch \<Longrightarrow> sched_step S F y (y\<lparr>sy_log := st'\<rparr>)"

inductive sched_reachable :: "scheduler \<Rightarrow> (event_append \<Rightarrow> bool) \<Rightarrow> sched_system \<Rightarrow> bool" for S F where
  start: "log_ok st \<Longrightarrow> sched_reachable S F \<lparr>sy_log = st, sy_procs = [], sy_runs = []\<rparr>"
| more: "sched_reachable S F y \<Longrightarrow> sched_step S F y y' \<Longrightarrow> sched_reachable S F y'"

end
