(* ===== verification/SchedulerFacts.thy ===== *)
theory SchedulerFacts
  imports Scheduler "HOL-Library.Sublist"
begin

text \<open>
  The scheduler decides every race in the log: a due instant is executed at most once whatever else
  writes, no two runs of one strategy and instrument overlap, and a claimed run changes nothing any more.
\<close>

section \<open>Heads of aggregates\<close>

lemma head_some: "log_ok st \<Longrightarrow> head_of a (es_rows st) = None \<longleftrightarrow> (\<forall>r \<in> set (es_rows st). er_aggregate_id r \<noteq> a)"
  by (auto simp: head_of_last filter_empty_conv split: list.split dest: filter_eq_ConsD)

lemma head_unchanged:
  assumes "log_ok st" "log_ok st'" "es_rows st' = es_rows st @ new" "\<forall>r \<in> set new. er_aggregate_id r \<noteq> a"
  shows "head_of a (es_rows st') = head_of a (es_rows st)"
proof -
  have "filter (\<lambda>r. er_aggregate_id r = a) (es_rows st') = filter (\<lambda>r. er_aggregate_id r = a) (es_rows st)"
    using assms(3,4) by (simp add: filter_empty_conv)
  then show ?thesis
    by (simp only: head_of_last [OF assms(1)] head_of_last [OF assms(2)])
qed

lemma head_appended:
  assumes "log_ok st'" "es_rows st' = rows @ [r]" "er_aggregate_id r = a"
  shows "head_of a (es_rows st') = Some (er_event_id r)"
proof -
  have "filter (\<lambda>r. er_aggregate_id r = a) (es_rows st') = filter (\<lambda>r. er_aggregate_id r = a) rows @ [r]"
    using assms(2,3) by simp
  then show ?thesis
    by (cases "filter (\<lambda>r. er_aggregate_id r = a) rows") (simp_all add: head_of_last [OF assms(1)])
qed

lemma same_id: "log_ok st \<Longrightarrow> r \<in> set (es_rows st) \<Longrightarrow> r' \<in> set (es_rows st) \<Longrightarrow> er_event_id r = er_event_id r' \<Longrightarrow> r = r'"
  unfolding log_ok_def by (auto simp: distinct_map inj_on_def)

lemma stream_rows: "stream a st = Inr rows \<Longrightarrow> rows = aggregate_rows a (es_rows st)"
proof -
  have r: "read_row x = Inr y \<Longrightarrow> y = x" for x y
    by (auto simp: read_row_def result_simps split: json.splits)
  have "traverse read_row xs = Inr ys \<Longrightarrow> ys = xs" for xs ys
    by (induction xs arbitrary: ys) (auto simp: result_simps dest: r)
  then show "stream a st = Inr rows \<Longrightarrow> rows = aggregate_rows a (es_rows st)"
    by (simp add: stream_def)
qed

text \<open>What an accepted fenced record does.\<close>

lemma record_fenced:
  assumes "log_ok st" "record_many_if_heads s batch heads st = Inr st'"
  shows "log_ok st'" "\<exists>new. es_rows st' = es_rows st @ new \<and> list_all2 stored_as (redacted_appends s batch) new"
    "(a, h) \<in> set heads \<Longrightarrow> head_of a (es_rows st) = h"
proof -
  have f: "append_many_if_heads (redacted_appends s batch) heads st = Inr st'"
    using assms(2) by (simp add: record_many_if_heads_def split: if_splits)
  show "log_ok st'"
    by (rule es.append_ok [OF assms(1) f])
  show "\<exists>new. es_rows st' = es_rows st @ new \<and> list_all2 stored_as (redacted_appends s batch) new"
    by (rule record_many_rows [OF assms])
  show "(a, h) \<in> set heads \<Longrightarrow> head_of a (es_rows st) = h"
    using append_if_Inr [OF f] by auto
qed

lemma stored_fields:
  "list_all2 stored_as (redacted_appends s batch) new \<Longrightarrow> map er_aggregate_id new = map ea_aggregate_id batch \<and>
     map er_event_id new = map ea_event_id batch \<and> map er_kind new = map ea_kind batch"
  by (induction batch arbitrary: new) (auto simp: redacted_appends_def list_all2_Cons1 stored_as_def)

lemma sched_event_fields [simp]:
  "ea_event_id (sched_event i k a p t) = i" "ea_kind (sched_event i k a p t) = k" "ea_aggregate_id (sched_event i k a p t) = a"
  by (simp_all add: sched_event_def)

lemma aggregates_differ [simp]:
  "run_aggregate sha job \<noteq> exclusion_aggregate sha' job'" "exclusion_aggregate sha' job' \<noteq> run_aggregate sha job"
  by (simp_all add: run_aggregate_def exclusion_aggregate_def)

section \<open>Parts of a run\<close>

lemma finish_fields [simp]: "finish r = (p, st) \<longleftrightarrow> p = Finished (fst r) \<and> st = snd r"
  by (auto simp: finish_def)

text \<open>A part leaves the log alone or makes one fenced record; where it may lead.\<close>

lemma skip_cases:
  assumes "claim_skip S job reason t ids st = (r, st')"
  shows "\<not> ro_ran r \<and> (st' = st \<or> (\<exists>batch. record_many_if_heads (sd_sensitive S) batch [(run_aggregate (sd_sha S) job, None)] st = Inr st' \<and>
     (\<forall>e \<in> set batch. ea_aggregate_id e = run_aggregate (sd_sha S) job)))"
  using assms by (fastforce simp: claim_skip_def outcome_def Let_def split: option.splits list.splits sum.splits exn.splits)

lemma begin_cases:
  assumes "begin_run S g job st = (p, st')"
  shows "(\<exists>r. p = Finished r \<and> \<not> ro_ran r \<and> (st' = st \<or>
       (\<exists>batch. record_many_if_heads (sd_sensitive S) batch [(run_aggregate (sd_sha S) job, None)] st = Inr st' \<and>
          (\<forall>e \<in> set batch. ea_aggregate_id e = run_aggregate (sd_sha S) job)))) \<or>
     (\<exists>now head i j. p = Reserved now head i j \<and> st' = st \<and> exclusion_state (exclusion_aggregate (sd_sha S) job) st = Some (False, head))"
proof -
  have skip: "claim_skip S job reason t ids st = x \<Longrightarrow> \<not> ro_ran (fst x) \<and> (snd x = st \<or>
      (\<exists>batch. record_many_if_heads (sd_sensitive S) batch [(run_aggregate (sd_sha S) job, None)] st = Inr (snd x) \<and>
          (\<forall>e \<in> set batch. ea_aggregate_id e = run_aggregate (sd_sha S) job)))" for reason t ids x
    using skip_cases [of S job reason t ids st "fst x" "snd x"] by simp
  show ?thesis
    using assms unfolding begin_run_def
    by (auto simp: outcome_def skip [OF refl] split: option.splits list.splits if_splits prod.splits bool.splits)
qed

lemma claim_cases:
  assumes "claim_run S job now head i j st = (p, st')"
  obtains "p = Conflicted" "st' = st" | r where "p = Finished r" "\<not> ro_ran r" "st' = st"
  | "p = Claimed i j" "record_many_if_heads (sd_sensitive S) (start_batch S job now i j)
        [(run_aggregate (sd_sha S) job, None), (exclusion_aggregate (sd_sha S) job, head)] st = Inr st'"
  using assms by (auto simp: claim_run_def Let_def outcome_def split: sum.splits exn.splits)

lemma conclude_cases:
  assumes "conclude_run S g job i j reason t executed st = (r, st')"
  shows "ro_ran r = executed \<and> (st' = st \<or> (\<exists>batch. record_many_if_heads (sd_sensitive S) batch
      [(run_aggregate (sd_sha S) job, Some i), (exclusion_aggregate (sd_sha S) job, Some j)] st = Inr st' \<and>
      (\<forall>e \<in> set batch. ea_aggregate_id e \<in> {run_aggregate (sd_sha S) job, exclusion_aggregate (sd_sha S) job})))"
  using assms by (fastforce simp: conclude_run_def outcome_def Let_def split: option.splits list.splits sum.splits)

text \<open>The identifier of the exclusion row a process holds.\<close>

fun held :: "phase \<Rightarrow> string option" where
  "held (Claimed i j) = Some j"
| "held (Running i j t) = Some j"
| "held (Decided i j reason t executed) = Some j"
| "held p = None"

text \<open>No other exclusion is touched, and its own only by a process that holds it before or after.\<close>

lemma advance_log:
  assumes "advance S g job p st = (p', st')" "log_ok st"
  shows "log_ok st' \<and> (\<exists>new. es_rows st' = es_rows st @ new \<and>
     (\<forall>r \<in> set new. er_aggregate_id r = run_aggregate (sd_sha S) job \<or>
       er_aggregate_id r = exclusion_aggregate (sd_sha S) job \<and> (held p \<noteq> None \<or> held p' \<noteq> None)))"
proof -
  have rec: "log_ok st' \<and> (\<exists>new. es_rows st' = es_rows st @ new \<and>
     (\<forall>r \<in> set new. er_aggregate_id r = run_aggregate (sd_sha S) job \<or>
       er_aggregate_id r = exclusion_aggregate (sd_sha S) job \<and> (held p \<noteq> None \<or> held p' \<noteq> None)))"
    if h: "record_many_if_heads (sd_sensitive S) batch heads st = Inr st'"
      "\<forall>e \<in> set batch. ea_aggregate_id e = run_aggregate (sd_sha S) job \<or>
         ea_aggregate_id e = exclusion_aggregate (sd_sha S) job \<and> (held p \<noteq> None \<or> held p' \<noteq> None)" for batch heads
  proof -
    obtain new where new: "es_rows st' = es_rows st @ new" "list_all2 stored_as (redacted_appends (sd_sensitive S) batch) new"
      using record_fenced(2) [OF assms(2) h(1)] by blast
    have "er_aggregate_id ` set new = ea_aggregate_id ` set batch"
      using stored_fields [OF new(2)] by (metis list.set_map)
    then have "\<forall>r \<in> set new. er_aggregate_id r = run_aggregate (sd_sha S) job \<or>
       er_aggregate_id r = exclusion_aggregate (sd_sha S) job \<and> (held p \<noteq> None \<or> held p' \<noteq> None)"
      using h(2) by (metis imageE imageI)
    then show ?thesis
      using new(1) h(2) record_fenced(1) [OF assms(2) h(1)] by blast
  qed
  show ?thesis
  proof (cases p)
    case Requested
    then have "begin_run S g job st = (p', st')"
      using assms(1) by simp
    from begin_cases [OF this] consider "st' = st"
      | batch where "record_many_if_heads (sd_sensitive S) batch [(run_aggregate (sd_sha S) job, None)] st = Inr st'"
          "\<forall>e \<in> set batch. ea_aggregate_id e = run_aggregate (sd_sha S) job"
      by blast
    then show ?thesis
      by cases (use assms(2) rec in auto)
  next
    case (Reserved now head i j)
    then have "claim_run S job now head i j st = (p', st')"
      using assms(1) by simp
    then show ?thesis
    proof (rule claim_cases)
      assume "p' = Claimed i j" "record_many_if_heads (sd_sensitive S) (start_batch S job now i j)
        [(run_aggregate (sd_sha S) job, None), (exclusion_aggregate (sd_sha S) job, head)] st = Inr st'"
      then show ?thesis
        by (intro rec) (auto simp: start_batch_def)
    qed (use assms(2) in auto)
  next
    case (Decided i j reason t executed)
    then obtain r where "conclude_run S g job i j reason t executed st = (r, st')"
      using assms(1) by (cases "conclude_run S g job i j reason t executed st") auto
    from conclude_cases [OF this] consider "st' = st"
      | batch where "record_many_if_heads (sd_sensitive S) batch
          [(run_aggregate (sd_sha S) job, Some i), (exclusion_aggregate (sd_sha S) job, Some j)] st = Inr st'"
          "\<forall>e \<in> set batch. ea_aggregate_id e \<in> {run_aggregate (sd_sha S) job, exclusion_aggregate (sd_sha S) job}"
      by blast
    then show ?thesis
      by cases (use assms(2) rec Decided in auto)
  qed (use assms in auto)
qed

lemma advance_claimed:
  assumes "advance S g job p st = (Claimed i j, st')"
  shows "\<exists>now head. p = Reserved now head i j \<and> record_many_if_heads (sd_sensitive S) (start_batch S job now i j)
        [(run_aggregate (sd_sha S) job, None), (exclusion_aggregate (sd_sha S) job, head)] st = Inr st'"
proof (cases p)
  case Requested
  then show ?thesis
    using assms begin_cases by fastforce
next
  case (Reserved now head i' j')
  then have "claim_run S job now head i' j' st = (Claimed i j, st')"
    using assms by simp
  then show ?thesis
    by (rule claim_cases) (use Reserved in auto)
qed (use assms in \<open>auto simp: check_again_def execute_def split: option.splits\<close>)

lemma advance_running:
  assumes "advance S g job p st = (Running i j t, st')"
  shows "p = Claimed i j \<and> st' = st"
proof (cases p)
  case Requested
  then show ?thesis
    using assms begin_cases by fastforce
next
  case (Reserved now head i' j')
  then have "claim_run S job now head i' j' st = (Running i j t, st')"
    using assms by simp
  then show ?thesis
    by (rule claim_cases) auto
qed (use assms in \<open>auto simp: check_again_def execute_def split: option.splits\<close>)

lemma advance_decided:
  assumes "advance S g job p st = (Decided i j reason t executed, st')"
  shows "(p = Claimed i j \<or> (\<exists>t'. p = Running i j t')) \<and> st' = st"
proof (cases p)
  case Requested
  then show ?thesis
    using assms begin_cases by fastforce
next
  case (Reserved now head i' j')
  then have "claim_run S job now head i' j' st = (Decided i j reason t executed, st')"
    using assms by simp
  then show ?thesis
    by (rule claim_cases) auto
qed (use assms in \<open>auto simp: check_again_def execute_def split: option.splits\<close>)

lemma advance_reserved:
  assumes "advance S g job p st = (Reserved now head i j, st')"
  shows "st' = st \<and> exclusion_state (exclusion_aggregate (sd_sha S) job) st = Some (False, head)"
proof (cases p)
  case Requested
  then show ?thesis
    using assms begin_cases by fastforce
next
  case (Reserved now' head' i' j')
  then have "claim_run S job now' head' i' j' st = (Reserved now head i j, st')"
    using assms by simp
  then show ?thesis
    by (rule claim_cases) auto
qed (use assms in \<open>auto simp: check_again_def execute_def split: option.splits\<close>)

section \<open>At most once\<close>

text \<open>Lists of processes.\<close>

lemma filter_update:
  "n < length xs \<Longrightarrow> length (filter P (xs[n := x])) + (if P (xs ! n) then 1 else 0) = length (filter P xs) + (if P x then 1 else 0)"
proof (induction xs arbitrary: n)
  case (Cons y ys)
  then show ?case
    by (cases n) auto
qed simp

fun is_claimed :: "phase \<Rightarrow> bool" where
  "is_claimed (Claimed i j) = True"
| "is_claimed p = False"

text \<open>How many processes have claimed, or entered, the due run with aggregate \<open>a\<close>.\<close>

definition claims :: "scheduler \<Rightarrow> string \<Rightarrow> sched_system \<Rightarrow> nat" where
  "claims S a y = length (filter (\<lambda>job. run_aggregate (sd_sha S) job = a) (sy_runs y)) +
     length (filter (\<lambda>(job, p). is_claimed p \<and> run_aggregate (sd_sha S) job = a) (sy_procs y))"

definition claimed_once :: "scheduler \<Rightarrow> sched_system \<Rightarrow> bool" where
  "claimed_once S y \<longleftrightarrow> log_ok (sy_log y) \<and>
     (\<forall>a. claims S a y \<le> 1 \<and> (claims S a y = 1 \<longrightarrow> head_of a (es_rows (sy_log y)) \<noteq> None))"

lemma head_kept:
  assumes "log_ok st" "log_ok st'" "es_rows st' = es_rows st @ new" "head_of a (es_rows st) \<noteq> None"
  shows "head_of a (es_rows st') \<noteq> None"
  using head_some [OF assms(1)] head_some [OF assms(2)] assms(3,4) by (metis Un_iff set_append)

lemma claims_advance:
  assumes "n < length (sy_procs y)" "sy_procs y ! n = (job, p)" "advance S g job p (sy_log y) = (p', st')"
  shows "claims S a (y\<lparr>sy_log := st', sy_procs := (sy_procs y)[n := (job, p')],
      sy_runs := (if executes p' then sy_runs y @ [job] else sy_runs y)\<rparr>) + (if is_claimed p \<and> run_aggregate (sd_sha S) job = a then 1 else 0) =
    claims S a y + (if (is_claimed p' \<or> executes p') \<and> run_aggregate (sd_sha S) job = a then 1 else 0)"
proof -
  have d: "is_claimed p' \<Longrightarrow> \<not> executes p'"
    by (cases p') auto
  show ?thesis
    using filter_update [OF assms(1), of "\<lambda>(job, p). is_claimed p \<and> run_aggregate (sd_sha S) job = a" "(job, p')"] assms(2) d
    by (auto simp: claims_def)
qed

lemma claimed_once_step:
  assumes "sched_step S F y y'" "claimed_once S y"
  shows "claimed_once S y'"
  using assms(1)
proof cases
  case (request job)
  then show ?thesis
    using assms(2) by (simp add: claimed_once_def claims_def)
next
  case (advance n job p g p' st')
  have ok: "log_ok (sy_log y)"
    using assms(2) by (simp add: claimed_once_def)
  obtain new where new: "log_ok st'" "es_rows st' = es_rows (sy_log y) @ new"
    using advance_log [OF advance(4) ok] by blast
  let ?a = "run_aggregate (sd_sha S) job"
  have "claims S a y' \<le> 1 \<and> (claims S a y' = 1 \<longrightarrow> head_of a (es_rows st') \<noteq> None)" for a
  proof -
    have c: "claims S a y' + (if is_claimed p \<and> ?a = a then 1 else 0) =
        claims S a y + (if (is_claimed p' \<or> executes p') \<and> ?a = a then 1 else 0)"
      unfolding advance(1) by (rule claims_advance [OF advance(2-4)])
    have old: "claims S a y \<le> 1" "claims S a y = 1 \<Longrightarrow> head_of a (es_rows st') \<noteq> None"
      using assms(2) head_kept [OF ok new] by (auto simp: claimed_once_def)
    consider i j where "p' = Claimed i j" "?a = a" | i j t where "p' = Running i j t" "?a = a"
      | "\<not> ((is_claimed p' \<or> executes p') \<and> ?a = a)"
      by (cases p') auto
    then show ?thesis
    proof cases
      case 1
      then obtain now head where r: "record_many_if_heads (sd_sensitive S) (start_batch S job now i j)
          [(?a, None), (exclusion_aggregate (sd_sha S) job, head)] (sy_log y) = Inr st'"
        using advance_claimed advance(4) by blast
      have "head_of ?a (es_rows (sy_log y)) = None"
        using record_fenced(3) [OF ok r, of ?a None] by simp
      then have "claims S a y = 0"
        using assms(2) 1(2) by (metis claimed_once_def le_antisym less_one not_le)
      moreover obtain rows where "es_rows st' = es_rows (sy_log y) @ rows" "map er_aggregate_id rows = [?a, exclusion_aggregate (sd_sha S) job]"
        using record_fenced(2) [OF ok r] stored_fields by (fastforce simp: start_batch_def)
      then have "\<exists>r \<in> set (es_rows st'). er_aggregate_id r = a"
        using 1(2) by auto
      then have "head_of a (es_rows st') \<noteq> None"
        using head_some [OF new(1)] by blast
      ultimately show ?thesis
        using c by (auto split: if_splits)
    next
      case 2
      then have "is_claimed p"
        using advance_running advance(4) by fastforce
      then show ?thesis
        using c 2 old by auto
    next
      case 3
      then have "claims S a y' \<le> claims S a y"
        using c by (simp split: if_splits)
      then show ?thesis
        using old by (cases "claims S a y' = 0") auto
    qed
  qed
  then show ?thesis
    using new(1) advance(1) by (simp add: claimed_once_def)
next
  case (foreign batch st')
  then obtain new where "log_ok st'" "es_rows st' = es_rows (sy_log y) @ new"
    using append_many_Inr assms(2) unfolding claimed_once_def by blast
  then show ?thesis
    using assms(2) foreign(1) head_kept by (fastforce simp: claimed_once_def claims_def)
qed

lemma reachable_claimed_once: "sched_reachable S F y \<Longrightarrow> claimed_once S y"
proof (induction rule: sched_reachable.induct)
  case (start st)
  then show ?case
    by (simp add: claimed_once_def claims_def)
next
  case (more y y')
  then show ?case
    using claimed_once_step by blast
qed

lemma at_most_one_distinct: "(\<And>a. length (filter (\<lambda>x. f x = a) xs) \<le> 1) \<Longrightarrow> distinct (map f xs)"
proof (induction xs)
  case (Cons x xs)
  have "length (filter (\<lambda>y. f y = a) xs) \<le> 1" for a
    using Cons.prems [of a] by (auto split: if_splits)
  moreover have "filter (\<lambda>y. f y = f x) xs = []"
    using Cons.prems [of "f x"] by simp
  ultimately show ?case
    using Cons.IH by (auto simp: filter_empty_conv)
qed simp

text \<open>C35: A due run is executed at most once: whatever processes interleave over the log, whatever the clocks,
  calendars and identifiers say, and whatever else is appended, no two executions belong to the same
  strategy, instrument and due instant.\<close>

theorem due_run_at_most_once:
  assumes "sched_reachable S F y"
  shows "distinct (map (\<lambda>job. (sj_strategy_id job, sj_instrument_id job, sj_due_at job)) (sy_runs y))"
proof -
  have "distinct (map (run_aggregate (sd_sha S)) (sy_runs y))"
  proof (rule at_most_one_distinct)
    fix a
    have "claims S a y \<le> 1"
      using reachable_claimed_once [OF assms] by (simp add: claimed_once_def)
    then show "length (filter (\<lambda>x. run_aggregate (sd_sha S) x = a) (sy_runs y)) \<le> 1"
      by (simp add: claims_def)
  qed
  then show ?thesis
    by (simp add: distinct_map inj_on_def run_aggregate_def)
qed

section \<open>Mutual exclusion\<close>

definition started_row :: "event_store \<Rightarrow> string \<Rightarrow> bool" where
  "started_row st j \<longleftrightarrow> (\<exists>r \<in> set (es_rows st). er_event_id r = j \<and> er_kind r = ''scheduler.exclusion_started'')"

definition released_row :: "event_store \<Rightarrow> string \<Rightarrow> bool" where
  "released_row st j \<longleftrightarrow> (\<exists>r \<in> set (es_rows st). er_event_id r = j \<and> er_kind r \<noteq> ''scheduler.exclusion_started'')"

text \<open>What a process may rely on: the head of the exclusion it holds is its own start, the head it has read
  before claiming is no start.\<close>

definition entitled :: "scheduler \<Rightarrow> event_store \<Rightarrow> scheduled_job \<times> phase \<Rightarrow> bool" where
  "entitled S st pr \<longleftrightarrow> (case pr of (job, p) \<Rightarrow>
     (\<forall>j. held p = Some j \<longrightarrow> head_of (exclusion_aggregate (sd_sha S) job) (es_rows st) = Some j \<and> started_row st j) \<and>
     (\<forall>now h i j. p = Reserved now (Some h) i j \<longrightarrow> released_row st h))"

definition exclusive :: "scheduler \<Rightarrow> sched_system \<Rightarrow> bool" where
  "exclusive S y \<longleftrightarrow> log_ok (sy_log y) \<and> (\<forall>pr \<in> set (sy_procs y). entitled S (sy_log y) pr) \<and>
     sorted_wrt (\<lambda>(job, p) (job', p'). held p \<noteq> None \<longrightarrow> held p' \<noteq> None \<longrightarrow>
       exclusion_aggregate (sd_sha S) job \<noteq> exclusion_aggregate (sd_sha S) job') (sy_procs y)"

lemma not_both: "log_ok st \<Longrightarrow> started_row st j \<Longrightarrow> \<not> released_row st j"
  using same_id by (fastforce simp: started_row_def released_row_def)

lemma rows_stay:
  "es_rows st' = es_rows st @ new \<Longrightarrow> started_row st j \<Longrightarrow> started_row st' j"
  "es_rows st' = es_rows st @ new \<Longrightarrow> released_row st j \<Longrightarrow> released_row st' j"
  by (auto simp: started_row_def released_row_def)

text \<open>Entitlement survives whatever does not touch the exclusion.\<close>

lemma entitled_kept:
  assumes "entitled S st (job, p)" "log_ok st" "log_ok st'" "es_rows st' = es_rows st @ new"
    and "held p \<noteq> None \<Longrightarrow> \<forall>r \<in> set new. er_aggregate_id r \<noteq> exclusion_aggregate (sd_sha S) job"
  shows "entitled S st' (job, p)"
proof -
  have "head_of (exclusion_aggregate (sd_sha S) job) (es_rows st') = Some j"
    if "held p = Some j" "head_of (exclusion_aggregate (sd_sha S) job) (es_rows st) = Some j" for j
    using head_unchanged [OF assms(2-4)] assms(5) that by simp
  then show ?thesis
    using assms(1) rows_stay [OF assms(4)] by (simp add: entitled_def)
qed

lemma exclusion_inactive:
  assumes "log_ok st" "exclusion_state x st = Some (False, Some h)"
  shows "released_row st h"
proof -
  obtain rows where r: "stream x st = Inr rows" "rows \<noteq> []" "er_kind (last rows) \<noteq> ''scheduler.exclusion_started''"
      "h = er_event_id (last rows)"
    using assms(2) by (auto simp: exclusion_state_def split: sum.splits if_splits)
  have "last rows \<in> set (es_rows st)"
    using last_in_set [OF r(2)] stream_rows [OF r(1)] by (simp add: aggregate_rows_filter [OF assms(1)])
  then show ?thesis
    using r(3,4) by (auto simp: released_row_def)
qed

text \<open>The new phase of a process is entitled, and a process that newly holds an exclusion is alone.\<close>

lemma advance_entitled:
  assumes "advance S g job p st = (p', st')" "log_ok st" "entitled S st (job, p)"
  shows "entitled S st' (job, p')"
proof -
  obtain new where new: "log_ok st'" "es_rows st' = es_rows st @ new"
    using advance_log [OF assms(1,2)] by blast
  show ?thesis
  proof (cases p')
    case (Reserved now head i j)
    then have "st' = st" "exclusion_state (exclusion_aggregate (sd_sha S) job) st = Some (False, head)"
      using advance_reserved assms(1) by blast+
    then show ?thesis
      using Reserved exclusion_inactive [OF assms(2)] by (auto simp: entitled_def)
  next
    case (Claimed i j)
    then obtain now head where r: "record_many_if_heads (sd_sensitive S) (start_batch S job now i j)
          [(run_aggregate (sd_sha S) job, None), (exclusion_aggregate (sd_sha S) job, head)] st = Inr st'"
      using advance_claimed assms(1) by blast
    obtain rows where rows: "es_rows st' = es_rows st @ rows" "list_all2 stored_as (redacted_appends (sd_sensitive S)
          (start_batch S job now i j)) rows"
      using record_fenced(2) [OF assms(2) r] by blast
    obtain r1 r2 where r12: "rows = [r1, r2]" "er_aggregate_id r2 = exclusion_aggregate (sd_sha S) job" "er_event_id r2 = j"
        "er_kind r2 = ''scheduler.exclusion_started''"
      using stored_fields [OF rows(2)] by (auto simp: map_eq_Cons_conv start_batch_def)
    have "head_of (exclusion_aggregate (sd_sha S) job) (es_rows st') = Some j"
      using head_appended [OF new(1), of "es_rows st @ [r1]" r2] rows(1) r12 by simp
    moreover have "started_row st' j"
      using rows(1) r12 by (auto simp: started_row_def)
    ultimately show ?thesis
      using Claimed by (simp add: entitled_def)
  next
    case (Running i j t)
    then show ?thesis
      using advance_running assms by (fastforce simp: entitled_def)
  next
    case (Decided i j reason t executed)
    then show ?thesis
      using advance_decided assms by (fastforce simp: entitled_def)
  qed (simp_all add: entitled_def)
qed

text \<open>Whoever holds the same exclusion is the process itself.\<close>

lemma advance_alone:
  assumes "advance S g job p st = (p', st')" "log_ok st" "entitled S st (job, p)" "entitled S st (job', q)"
    and "held p' \<noteq> None" "held q \<noteq> None" "exclusion_aggregate (sd_sha S) job = exclusion_aggregate (sd_sha S) job'"
  shows "held p \<noteq> None"
proof (cases p')
  case (Claimed i j)
  then obtain now head where p: "p = Reserved now head i j" and r: "record_many_if_heads (sd_sensitive S) (start_batch S job now i j)
          [(run_aggregate (sd_sha S) job, None), (exclusion_aggregate (sd_sha S) job, head)] st = Inr st'"
    using advance_claimed assms(1) by blast
  have "head_of (exclusion_aggregate (sd_sha S) job) (es_rows st) = head"
    using record_fenced(3) [OF assms(2) r] by simp
  moreover obtain k where k: "head_of (exclusion_aggregate (sd_sha S) job) (es_rows st) = Some k" "started_row st k"
    using assms(4,6,7) by (auto simp: entitled_def)
  ultimately have "released_row st k"
    using assms(3) p by (simp add: entitled_def)
  then show ?thesis
    using not_both [OF assms(2) k(2)] by blast
next
  case (Running i j t)
  then show ?thesis
    using advance_running assms(1) by fastforce
next
  case (Decided i j reason t executed)
  then show ?thesis
    using advance_decided assms(1) by fastforce
qed (use assms(5) in auto)

lemma exclusive_iff:
  "exclusive S y \<longleftrightarrow> log_ok (sy_log y) \<and> (\<forall>k < length (sy_procs y). entitled S (sy_log y) (sy_procs y ! k)) \<and>
     (\<forall>k m. k < length (sy_procs y) \<longrightarrow> m < length (sy_procs y) \<longrightarrow> k \<noteq> m \<longrightarrow> held (snd (sy_procs y ! k)) \<noteq> None \<longrightarrow>
       held (snd (sy_procs y ! m)) \<noteq> None \<longrightarrow>
       exclusion_aggregate (sd_sha S) (fst (sy_procs y ! k)) \<noteq> exclusion_aggregate (sd_sha S) (fst (sy_procs y ! m)))"
proof -
  let ?h = "\<lambda>k. held (snd (sy_procs y ! k)) \<noteq> None" and ?x = "\<lambda>k. exclusion_aggregate (sd_sha S) (fst (sy_procs y ! k))"
  have "(\<forall>i j. i < j \<longrightarrow> j < length (sy_procs y) \<longrightarrow> ?h i \<longrightarrow> ?h j \<longrightarrow> ?x i \<noteq> ?x j) \<longleftrightarrow>
      (\<forall>k m. k < length (sy_procs y) \<longrightarrow> m < length (sy_procs y) \<longrightarrow> k \<noteq> m \<longrightarrow> ?h k \<longrightarrow> ?h m \<longrightarrow> ?x k \<noteq> ?x m)"
    (is "?l = ?r")
  proof
    assume l: ?l
    show ?r
    proof (intro allI impI)
      fix k m
      assume "k < length (sy_procs y)" "m < length (sy_procs y)" "k \<noteq> m" "?h k" "?h m"
      then show "?x k \<noteq> ?x m"
        using l [rule_format, of k m] l [rule_format, of m k] by (cases "k < m") auto
    qed
  next
    assume r: ?r
    show ?l
    proof (intro allI impI)
      fix i j
      assume "i < j" "j < length (sy_procs y)" "?h i" "?h j"
      then show "?x i \<noteq> ?x j"
        using r [rule_format, of i j] by simp
    qed
  qed
  then show ?thesis
    by (simp only: exclusive_def sorted_wrt_iff_nth_less all_set_conv_all_nth case_prod_beta)
qed

lemma exclusion_prefix: "prefix ''scheduler-exclusion-'' (exclusion_aggregate sha job)"
  unfolding exclusion_aggregate_def by (rule prefixI [OF refl])

lemma exclusive_step:
  assumes "sched_step S F y y'" "exclusive S y"
    and foreign: "\<And>e. F e \<Longrightarrow> \<not> prefix ''scheduler-exclusion-'' (ea_aggregate_id e)"
  shows "exclusive S y'"
  using assms(1)
proof cases
  case (request job)
  then show ?thesis
    using assms(2) by (auto simp: exclusive_def entitled_def sorted_wrt_append)
next
  case (advance n job p g p' st')
  have ok: "log_ok (sy_log y)" and ent: "\<And>k. k < length (sy_procs y) \<Longrightarrow> entitled S (sy_log y) (sy_procs y ! k)"
    and apart: "\<And>k m. k < length (sy_procs y) \<Longrightarrow> m < length (sy_procs y) \<Longrightarrow> k \<noteq> m \<Longrightarrow> held (snd (sy_procs y ! k)) \<noteq> None \<Longrightarrow>
       held (snd (sy_procs y ! m)) \<noteq> None \<Longrightarrow>
       exclusion_aggregate (sd_sha S) (fst (sy_procs y ! k)) \<noteq> exclusion_aggregate (sd_sha S) (fst (sy_procs y ! m))"
    using assms(2) unfolding exclusive_iff by blast+
  have e: "entitled S (sy_log y) (job, p)"
    using ent [OF advance(2)] advance(3) by simp
  obtain new where new: "log_ok st'" "es_rows st' = es_rows (sy_log y) @ new"
    and own: "\<forall>r \<in> set new. er_aggregate_id r = run_aggregate (sd_sha S) job \<or>
       er_aggregate_id r = exclusion_aggregate (sd_sha S) job \<and> (held p \<noteq> None \<or> held p' \<noteq> None)"
    using advance_log [OF advance(4) ok] by blast
  have other: "exclusion_aggregate (sd_sha S) job' \<noteq> exclusion_aggregate (sd_sha S) job"
    if m: "m < length (sy_procs y)" "m \<noteq> n" "sy_procs y ! m = (job', q)" "held q \<noteq> None" "held p \<noteq> None \<or> held p' \<noteq> None"
    for m job' q
  proof
    assume x: "exclusion_aggregate (sd_sha S) job' = exclusion_aggregate (sd_sha S) job"
    have q: "entitled S (sy_log y) (job', q)"
      using ent [OF m(1)] m(3) by simp
    have "held p \<noteq> None"
      using m(5) advance_alone [OF advance(4) ok e q _ m(4)] x by auto
    then show False
      using apart [OF m(1) advance(2) m(2)] m(3,4) advance(3) x by simp
  qed
  have "entitled S st' (sy_procs y' ! k)" if k: "k < length (sy_procs y')" for k
  proof (cases "k = n")
    case True
    then show ?thesis
      using advance(1,2) advance_entitled [OF advance(4) ok e] by simp
  next
    case False
    obtain job' q where q: "sy_procs y ! k = (job', q)"
      by (cases "sy_procs y ! k")
    have k': "k < length (sy_procs y)"
      using k advance(1) by simp
    have "entitled S st' (job', q)"
    proof (rule entitled_kept [OF _ ok new])
      show "entitled S (sy_log y) (job', q)"
        using ent [OF k'] q by simp
      show "\<forall>r \<in> set new. er_aggregate_id r \<noteq> exclusion_aggregate (sd_sha S) job'" if "held q \<noteq> None"
        using own other [OF k' False q that] by (metis aggregates_differ(1))
    qed
    then show ?thesis
      using False q advance(1) by simp
  qed
  moreover have "exclusion_aggregate (sd_sha S) (fst (sy_procs y' ! k)) \<noteq> exclusion_aggregate (sd_sha S) (fst (sy_procs y' ! m))"
    if k: "k < length (sy_procs y')" "m < length (sy_procs y')" "k \<noteq> m" "held (snd (sy_procs y' ! k)) \<noteq> None"
      "held (snd (sy_procs y' ! m)) \<noteq> None" for k m
  proof -
    have new_n: "sy_procs y' ! n = (job, p')" and old: "l \<noteq> n \<Longrightarrow> sy_procs y' ! l = sy_procs y ! l" for l
      using advance(1,2) by simp_all
    have len: "length (sy_procs y') = length (sy_procs y)"
      using advance(1) by simp
    consider "k = n" | "m = n" | "k \<noteq> n" "m \<noteq> n"
      by blast
    then show ?thesis
    proof cases
      case 1
      then show ?thesis
        using other [of m "fst (sy_procs y ! m)" "snd (sy_procs y ! m)"] k new_n old [of m] len by auto
    next
      case 2
      then show ?thesis
        using other [of k "fst (sy_procs y ! k)" "snd (sy_procs y ! k)"] k new_n old [of k] len by auto
    next
      case 3
      then show ?thesis
        using apart [of k m] k old [of k] old [of m] len by simp
    qed
  qed
  ultimately show ?thesis
    using new(1) advance(1) unfolding exclusive_iff by simp
next
  case (foreign batch st')
  obtain new where new: "log_ok st'" "es_rows st' = es_rows (sy_log y) @ new" "list_all2 stored_as batch new"
    using append_many_Inr foreign(2) assms(2) unfolding exclusive_def by blast
  have "map er_aggregate_id new = map ea_aggregate_id batch"
    using new(3) by (induction rule: list_all2_induct) (auto simp: stored_as_def)
  then have "er_aggregate_id ` set new = ea_aggregate_id ` set batch"
    by (metis list.set_map)
  then have "\<not> prefix ''scheduler-exclusion-'' (er_aggregate_id r)" if "r \<in> set new" for r
    using imageI [OF that, of er_aggregate_id] foreign(3) assms(3) by (auto simp: list_all_iff)
  then have away: "\<forall>r \<in> set new. er_aggregate_id r \<noteq> exclusion_aggregate (sd_sha S) job" for job
    using exclusion_prefix by metis
  have "entitled S st' pr" if "pr \<in> set (sy_procs y)" for pr
  proof -
    obtain job q where pr: "pr = (job, q)"
      by (cases pr)
    have "log_ok (sy_log y)" "entitled S (sy_log y) (job, q)"
      using assms(2) that pr unfolding exclusive_def by blast+
    then show ?thesis
      unfolding pr by (rule entitled_kept [OF _ _ new(1,2) away, rotated])
  qed
  moreover have "sy_log y' = st'" "sy_procs y' = sy_procs y"
    using foreign(1) by simp_all
  ultimately show ?thesis
    using assms(2) new(1) unfolding exclusive_def by (simp only: simp_thms) blast
qed

lemma reachable_exclusive:
  assumes "sched_reachable S F y" and "\<And>e. F e \<Longrightarrow> \<not> prefix ''scheduler-exclusion-'' (ea_aggregate_id e)"
  shows "exclusive S y"
  using assms(1)
proof (induction rule: sched_reachable.induct)
  case (start st)
  then show ?case
    by (simp add: exclusive_def)
next
  case (more y y')
  then show ?case
    using exclusive_step assms(2) by blast
qed

text \<open>C36: No two runs of one strategy on one instrument overlap: as long as nobody else writes to the
  exclusion aggregates, at no reachable moment are two processes between their claim and their release,
  in particular never both inside their job, for the same strategy and instrument.\<close>

theorem runs_never_overlap:
  assumes "sched_reachable S F y" "\<And>e. F e \<Longrightarrow> \<not> prefix ''scheduler-exclusion-'' (ea_aggregate_id e)"
    and "k < length (sy_procs y)" "m < length (sy_procs y)" "k \<noteq> m"
    and "sy_procs y ! k = (job, p)" "sy_procs y ! m = (job', q)" "held p \<noteq> None" "held q \<noteq> None"
  shows "(sj_strategy_id job, sj_instrument_id job) \<noteq> (sj_strategy_id job', sj_instrument_id job')"
proof -
  have "exclusion_aggregate (sd_sha S) job \<noteq> exclusion_aggregate (sd_sha S) job'"
    using reachable_exclusive [OF assms(1,2)] assms(3-9) unfolding exclusive_iff by (metis fst_conv snd_conv)
  then show ?thesis
    by (auto simp: exclusion_aggregate_def)
qed

section \<open>Claimed runs\<close>

lemma fenced_out:
  assumes "log_ok st" "head_of a (es_rows st) \<noteq> None" "(a, None) \<in> set heads"
  shows "\<exists>e. record_many_if_heads s batch heads st = Inl e"
proof (cases "record_many_if_heads s batch heads st")
  case (Inr st')
  then show ?thesis
    using record_fenced(3) [OF assms(1) Inr assms(3)] assms(2) by simp
qed simp

text \<open>The phases a call can be in without having claimed, in the order they are passed.\<close>

fun unclaimed_rank :: "phase \<Rightarrow> nat" where
  "unclaimed_rank Requested = 3"
| "unclaimed_rank (Reserved now head i j) = 2"
| "unclaimed_rank Conflicted = 1"
| "unclaimed_rank p = 0"

fun unclaimed :: "phase \<Rightarrow> bool" where
  "unclaimed (Finished r) = (\<not> ro_ran r)"
| "unclaimed p = (held p = None)"

lemma advance_unclaimed:
  assumes "log_ok st" "head_of (run_aggregate (sd_sha S) job) (es_rows st) \<noteq> None" "unclaimed p"
    and "advance S g job p st = (p', st')"
  shows "st' = st \<and> unclaimed p' \<and> unclaimed_rank p' \<le> unclaimed_rank p - 1"
proof (cases p)
  case Requested
  have n: "record_many_if_heads s batch [(run_aggregate (sd_sha S) job, None)] st \<noteq> Inr st''" for s batch st''
    using fenced_out [OF assms(1,2)] by (metis Inl_Inr_False list.set_intros(1))
  have "begin_run S g job st = (p', st')"
    using Requested assms(4) by simp
  from begin_cases [OF this] show ?thesis
    using Requested n by auto
next
  case (Reserved now head i j)
  then have "claim_run S job now head i j st = (p', st')"
    using assms(4) by simp
  then show ?thesis
  proof (rule claim_cases)
    assume "record_many_if_heads (sd_sensitive S) (start_batch S job now i j)
        [(run_aggregate (sd_sha S) job, None), (exclusion_aggregate (sd_sha S) job, head)] st = Inr st'"
    then show ?thesis
      using fenced_out [OF assms(1,2)] by (metis Inl_Inr_False list.set_intros(1))
  qed (use Reserved in auto)
qed (use assms in \<open>auto simp: outcome_def\<close>)

text \<open>C37: A due run that has been claimed is inert: once its aggregate has any event, a call for it, whatever
  its clock, calendar and identifiers say, ends without having run the job and leaves the log as it is.\<close>

theorem claimed_run_is_inert:
  assumes "log_ok st" "head_of (run_aggregate (sd_sha S) job) (es_rows st) \<noteq> None" "3 \<le> length gs"
  shows "\<exists>r. run_due S gs job Requested st = (Finished r, st) \<and> \<not> ro_ran r"
proof -
  have "unclaimed p \<Longrightarrow> unclaimed_rank p \<le> length gs \<Longrightarrow>
      \<exists>q. run_due S gs job p st = (q, st) \<and> unclaimed q \<and> unclaimed_rank q = 0" for p
  proof (induction gs arbitrary: p)
    case (Cons g gs)
    obtain p' st' where a: "advance S g job p st = (p', st')"
      by (cases "advance S g job p st")
    then have "st' = st" "unclaimed p'" "unclaimed_rank p' \<le> length gs"
      using advance_unclaimed [OF assms(1,2) Cons.prems(1) a] Cons.prems(2) by auto
    then show ?case
      using Cons.IH a by simp
  qed auto
  then obtain q where q: "run_due S gs job Requested st = (q, st)" "unclaimed q" "unclaimed_rank q = 0"
    using assms(3) by force
  then show ?thesis
    by (cases q) auto
qed

section \<open>Two jobs\<close>

definition demo_scheduler :: scheduler where
  "demo_scheduler = \<lparr>sd_sha = (\<lambda>s. s), sd_sensitive = demo_label\<rparr>"

definition demo_job :: "string \<Rightarrow> scheduled_job" where
  "demo_job instrument = \<lparr>sj_strategy_id = ''swing'', sj_instrument_id = instrument, sj_due_at = 0,
     sj_max_lateness_seconds = 60\<rparr>"

definition demo_readings :: "string list \<Rightarrow> readings" where
  "demo_readings ids = \<lparr>rg_clock = Some 1000000, rg_calendar = (\<lambda>i t. Some True), rg_ids = map Some ids, rg_completes = True\<rparr>"

text \<open>The log after the first and after both claims.\<close>

definition demo_claim1 :: event_store where
  "demo_claim1 = snd (advance demo_scheduler (demo_readings []) (demo_job ''A@x'') (Reserved 1000000 None ''e1'' ''e2'') empty_store)"

definition demo_claim2 :: event_store where
  "demo_claim2 = snd (advance demo_scheduler (demo_readings []) (demo_job ''B@x'') (Reserved 1000000 None ''e3'' ''e4'') demo_claim1)"

lemma demo_parts:
  "advance demo_scheduler (demo_readings [''e1'', ''e2'']) (demo_job ''A@x'') Requested empty_store =
     (Reserved 1000000 None ''e1'' ''e2'', empty_store)"
  "fst (advance demo_scheduler (demo_readings []) (demo_job ''A@x'') (Reserved 1000000 None ''e1'' ''e2'') empty_store) = Claimed ''e1'' ''e2''"
  "advance demo_scheduler (demo_readings []) (demo_job ''A@x'') (Claimed ''e1'' ''e2'') demo_claim1 = (Running ''e1'' ''e2'' 1000000, demo_claim1)"
  "advance demo_scheduler (demo_readings [''e3'', ''e4'']) (demo_job ''B@x'') Requested demo_claim1 =
     (Reserved 1000000 None ''e3'' ''e4'', demo_claim1)"
  "fst (advance demo_scheduler (demo_readings []) (demo_job ''B@x'') (Reserved 1000000 None ''e3'' ''e4'') demo_claim1) = Claimed ''e3'' ''e4''"
  by code_simp+

definition demo_system :: sched_system where
  "demo_system = \<lparr>sy_log = demo_claim2, sy_procs = [(demo_job ''A@x'', Running ''e1'' ''e2'' 1000000),
     (demo_job ''B@x'', Claimed ''e3'' ''e4'')], sy_runs = [demo_job ''A@x'']\<rparr>"

lemma advanced:
  assumes "sched_reachable S F \<lparr>sy_log = st, sy_procs = ps, sy_runs = rs\<rparr>" "n < length ps" "ps ! n = (job, p)"
    and "advance S g job p st = (p', st')"
  shows "sched_reachable S F \<lparr>sy_log = st', sy_procs = ps[n := (job, p')], sy_runs = (if executes p' then rs @ [job] else rs)\<rparr>"
  using sched_reachable.more [OF assms(1) sched_step.advance [where y = "\<lparr>sy_log = st, sy_procs = ps, sy_runs = rs\<rparr>", simplified, OF assms(2-4)]]
  by (cases "executes p'") simp_all

lemma requested:
  assumes "sched_reachable S F \<lparr>sy_log = st, sy_procs = ps, sy_runs = rs\<rparr>"
  shows "sched_reachable S F \<lparr>sy_log = st, sy_procs = ps @ [(job, Requested)], sy_runs = rs\<rparr>"
  using sched_reachable.more [OF assms sched_step.request [where job = job]] by simp

lemma demo_system_reachable: "sched_reachable demo_scheduler F demo_system"
proof -
  let ?A = "demo_job ''A@x''" and ?B = "demo_job ''B@x''"
  have "sched_reachable demo_scheduler F \<lparr>sy_log = empty_store, sy_procs = [(?A, Requested)], sy_runs = []\<rparr>"
    using requested [OF sched_reachable.start [OF log_ok_empty]] by simp
  note s = advanced [where n = 0, OF this _ _ demo_parts(1), simplified]
  have "advance demo_scheduler (demo_readings []) ?A (Reserved 1000000 None ''e1'' ''e2'') empty_store = (Claimed ''e1'' ''e2'', demo_claim1)"
    using demo_parts(2) by (simp add: demo_claim1_def prod_eq_iff)
  note s = advanced [where n = 0, OF s _ _ this, simplified]
  note s = advanced [where n = 0, OF s _ _ demo_parts(3), simplified]
  note s = requested [OF s, where job = ?B, simplified]
  note s = advanced [where n = 1, OF s _ _ demo_parts(4), simplified]
  have "advance demo_scheduler (demo_readings []) ?B (Reserved 1000000 None ''e3'' ''e4'') demo_claim1 = (Claimed ''e3'' ''e4'', demo_claim2)"
    using demo_parts(5) by (simp add: demo_claim2_def prod_eq_iff)
  note s = advanced [where n = 1, OF s _ _ this, simplified]
  then show ?thesis
    by (simp add: demo_system_def)
qed

theorem due_run_at_most_once_witness:
  "sched_reachable demo_scheduler (\<lambda>e. True) demo_system \<and> sy_runs demo_system = [demo_job ''A@x''] \<and>
   distinct (map (\<lambda>job. (sj_strategy_id job, sj_instrument_id job, sj_due_at job)) (sy_runs demo_system))"
  using demo_system_reachable due_run_at_most_once [OF demo_system_reachable] by (simp add: demo_system_def)

theorem runs_never_overlap_witness:
  "sy_procs demo_system ! 0 = (demo_job ''A@x'', Running ''e1'' ''e2'' 1000000) \<and>
   sy_procs demo_system ! 1 = (demo_job ''B@x'', Claimed ''e3'' ''e4'') \<and>
   (sj_strategy_id (demo_job ''A@x''), sj_instrument_id (demo_job ''A@x'')) \<noteq>
     (sj_strategy_id (demo_job ''B@x''), sj_instrument_id (demo_job ''B@x''))"
proof -
  have p: "sy_procs demo_system ! 0 = (demo_job ''A@x'', Running ''e1'' ''e2'' 1000000)"
      "sy_procs demo_system ! 1 = (demo_job ''B@x'', Claimed ''e3'' ''e4'')"
    by (simp_all add: demo_system_def)
  have "(sj_strategy_id (demo_job ''A@x''), sj_instrument_id (demo_job ''A@x'')) \<noteq>
     (sj_strategy_id (demo_job ''B@x''), sj_instrument_id (demo_job ''B@x''))"
    by (rule runs_never_overlap [OF demo_system_reachable [of "\<lambda>e. False"] _ _ _ _ p]) (simp_all add: demo_system_def)
  with p show ?thesis
    by blast
qed

text \<open>A punctual call on a fresh log completes; a second call for the same instant is inert.\<close>

definition demo_calls :: "string list list \<Rightarrow> readings list" where
  "demo_calls idss = map demo_readings idss"

definition demo_done :: event_store where
  "demo_done = snd (run_due demo_scheduler (demo_calls [[''e1'', ''e2''], [], [], [], [''e5'', ''e6'', ''e7'']]) (demo_job ''A@x'') Requested empty_store)"

lemma demo_completes:
  "fst (run_due demo_scheduler (demo_calls [[''e1'', ''e2''], [], [], [], [''e5'', ''e6'', ''e7'']]) (demo_job ''A@x'') Requested empty_store) =
     Finished (outcome (demo_job ''A@x'') ''COMPLETED'' True)"
  "map er_kind (es_rows demo_done) = [''scheduler.started'', ''scheduler.exclusion_started'', ''scheduler.ended'',
     ''scheduler.healthy'', ''scheduler.exclusion_released'']"
  by code_simp+

lemma demo_done_states: "log_ok demo_done" "head_of (run_aggregate (\<lambda>s. s) (demo_job ''A@x'')) (es_rows demo_done) = Some ''e6''"
  unfolding log_ok_def by code_simp+

theorem claimed_run_is_inert_witness:
  "\<exists>r. run_due demo_scheduler (demo_calls [[''f1'', ''f2''], [], []]) (demo_job ''A@x'') Requested demo_done = (Finished r, demo_done) \<and> \<not> ro_ran r"
  by (rule claimed_run_is_inert) (simp_all add: demo_done_states demo_scheduler_def demo_calls_def)

end
