(* ===== verification/Strategies.thy ===== *)
theory Strategies
  imports Backtest
begin

text \<open>
  The strategies of \<open>strategies/\<close>: the Decimal indicators, the fail-closed bar validation, the market
  regime, the swing, crypto and intraday breakouts with their canonical configurations.  A strategy
  abstains on the exceptions its handler names and lets every other one escape.  The session of the
  intraday strategy is read on the wall clock of its zone, a fallible parameter (the time zone
  database, and \<open>astimezone\<close>, which raises at the ends of the datetime range); wall-clock times of
  one zone compare without offsets, as Python compares datetimes of one \<open>tzinfo\<close>.  The exponent
  range of decimals is not modelled, so neither is the \<open>decimal.Overflow\<close> that exceeding it raises.
\<close>

section \<open>Indicators\<close>

text \<open>\<open>xs[-n:]\<close> for positive \<open>n\<close>.\<close>

definition trailing :: "nat \<Rightarrow> 'a list \<Rightarrow> 'a list" where
  "trailing n xs = drop (length xs - n) xs"

definition require_window :: "int \<Rightarrow> unit result" where
  "require_window w = require (0 < w) (ValueError ''window must be a positive integer'')"

definition ohlcv_ok :: "bar \<Rightarrow> bool" where
  "ohlcv_ok b \<longleftrightarrow> list_all (\<lambda>p. 0 < p) [bar_open b, bar_high b, bar_low b, bar_close b] \<and> 0 \<le> bar_volume b \<and>
     bar_low b \<le> min (bar_open b) (bar_close b) \<and> max (bar_open b) (bar_close b) \<le> bar_high b \<and> bar_low b \<le> bar_high b"

definition valid_bars :: "bar list \<Rightarrow> bar list result" where
  "valid_bars bars = (if list_all ohlcv_ok bars then Inr bars
     else Inl (ValueError ''bars must contain finite, internally consistent OHLCV values''))"

definition sma :: "dec list \<Rightarrow> int \<Rightarrow> dec option result" where
  "sma values w = rbind (require_window w) (\<lambda>_.
     Inr (if int (length values) < w then None else Some (ddiv (dsum (trailing (nat w) values)) (of_int w))))"

definition ema :: "dec list \<Rightarrow> int \<Rightarrow> dec option result" where
  "ema values w = rbind (require_window w) (\<lambda>_.
     Inr (if int (length values) < w then None
       else let alpha = ddiv 2 (of_int (w + 1)) in
         Some (foldl (\<lambda>r v. dadd (dmul (dsub v r) alpha) r) (ddiv (dsum (take (nat w) values)) (of_int w))
           (drop (nat w) values))))"

definition true_range :: "bar \<Rightarrow> bar \<Rightarrow> dec" where
  "true_range previous current = max (max (dsub (bar_high current) (bar_low current))
     (dabs (dsub (bar_high current) (bar_close previous)))) (dabs (dsub (bar_low current) (bar_close previous)))"

definition atr :: "bar list \<Rightarrow> int \<Rightarrow> dec option result" where
  "atr bars w = rbind (require_window w) (\<lambda>_. rbind (valid_bars bars) (\<lambda>checked.
     Inr (if int (length checked) < w + 1 then None
       else let recent = trailing (nat (w + 1)) checked in
         Some (ddiv (dsum (map2 true_range (butlast recent) (tl recent))) (of_int w)))))"

definition rsi :: "dec list \<Rightarrow> int \<Rightarrow> dec option result" where
  "rsi values w = rbind (require_window w) (\<lambda>_.
     Inr (if int (length values) < w + 1 then None
       else let changes = map2 (\<lambda>previous current. dsub current previous) (butlast values) (tl values);
           gains = map (\<lambda>c. max c 0) changes; losses = map (\<lambda>c. max (dneg c) 0) changes;
           smooth = (\<lambda>average v. ddiv (dadd (dmul average (of_int (w - 1))) v) (of_int w));
           gain = foldl smooth (ddiv (dsum (take (nat w) gains)) (of_int w)) (drop (nat w) gains);
           loss = foldl smooth (ddiv (dsum (take (nat w) losses)) (of_int w)) (drop (nat w) losses) in
         Some (if gain = 0 \<and> loss = 0 then 50 else if loss = 0 then 100 else if gain = 0 then 0
           else dsub 100 (ddiv 100 (dadd 1 (ddiv gain loss))))))"

definition vwap :: "bar list \<Rightarrow> int \<Rightarrow> dec option result" where
  "vwap bars w = rbind (require_window w) (\<lambda>_. rbind (valid_bars bars) (\<lambda>checked.
     if int (length checked) < w then Inr None
     else let recent = trailing (nat w) checked; volume = dsum (map bar_volume recent) in
       if volume \<le> 0 then Inl (ValueError ''cumulative volume must be positive'')
       else Inr (Some (ddiv (dsum (map (\<lambda>b.
         dmul (ddiv (dadd (dadd (bar_high b) (bar_low b)) (bar_close b)) 3) (bar_volume b)) recent)) volume))))"

text \<open>\<open>bars_are_strictly_valid\<close>.\<close>

fun strictly_valid_from :: "instant option \<Rightarrow> bar list \<Rightarrow> bool" where
  "strictly_valid_from previous [] = True"
| "strictly_valid_from previous (b # bs) =
     (ohlcv_ok b \<and> (case previous of None \<Rightarrow> True | Some t \<Rightarrow> t < bar_at b) \<and> strictly_valid_from (Some (bar_at b)) bs)"

definition bars_are_strictly_valid :: "bar list \<Rightarrow> bool" where
  "bars_are_strictly_valid bars = strictly_valid_from None bars"

section \<open>Market regime\<close>

text \<open>The kinds of exception the handlers of the strategies, of the regime and of the ensemble name:
  \<open>ArithmeticError\<close> stands for \<open>InvalidOperation\<close> and \<open>ZeroDivisionError\<close>; an \<open>AttributeError\<close> or a
  \<open>TypeError\<close> cannot arise on typed values.\<close>

fun catches :: "exn \<Rightarrow> bool" where
  "catches (ValueError m) = True"
| "catches (ArithmeticError m) = True"
| "catches _ = False"

definition handled :: "'a \<Rightarrow> 'a result \<Rightarrow> 'a result" where
  "handled fallback r = (case r of Inl e \<Rightarrow> if catches e then Inr fallback else Inl e | Inr x \<Rightarrow> Inr x)"

datatype market_regime = TRENDING | RANGE_BOUND | HIGH_VOLATILITY | UNTRADEABLE

definition min_trend_fraction :: dec where
  "min_trend_fraction = 1 / 1000"

definition bars_are_valid :: "bar list \<Rightarrow> bool" where
  "bars_are_valid bars = list_all ohlcv_ok bars"

definition average_volume :: "bar list \<Rightarrow> dec" where
  "average_volume bars = ddiv (dsum (map bar_volume (trailing 20 bars))) 20"

definition classify_checked :: "bar list \<Rightarrow> dec \<Rightarrow> market_regime result" where
  "classify_checked bars volatility_cap =
     (let closes = map bar_close bars in
      rbind (atr bars 14) (\<lambda>range. rbind (sma closes 20) (\<lambda>fast. rbind (sma closes 50) (\<lambda>slow.
      rbind (sma (take (length closes - 20) closes) 20) (\<lambda>before.
      case (range, fast, slow, before) of
        (Some r, Some f, Some l, Some p) \<Rightarrow>
          if l \<le> 0 \<or> p \<le> 0 \<or> last closes \<le> 0 then Inr UNTRADEABLE
          else if volatility_cap < ddiv r (last closes) then Inr HIGH_VOLATILITY
          else let separation = ddiv (dsub f l) l; slope = ddiv (dsub f p) p in
            Inr (if min_trend_fraction \<le> separation \<and> min_trend_fraction \<le> slope \<or>
                separation \<le> - min_trend_fraction \<and> slope \<le> - min_trend_fraction then TRENDING else RANGE_BOUND)
      | _ \<Rightarrow> Inr UNTRADEABLE)))))"

definition classify_regime :: "bar list \<Rightarrow> dec \<Rightarrow> dec \<Rightarrow> dec \<Rightarrow> dec \<Rightarrow> market_regime result" where
  "classify_regime bars spread_cap spread volatility_cap minimum_volume = handled UNTRADEABLE
     (if spread_cap < 0 \<or> spread < 0 \<or> volatility_cap \<le> 0 \<or> minimum_volume \<le> 0 then Inr UNTRADEABLE
      else if \<not> bars_are_valid bars \<or> int (length bars) < 70 then Inr UNTRADEABLE
      else if spread_cap = 0 \<or> spread_cap \<le> spread then Inr UNTRADEABLE
      else if bar_volume (last bars) \<le> 0 \<or> average_volume bars < minimum_volume then Inr UNTRADEABLE
      else classify_checked bars volatility_cap)"

section \<open>Canonical configurations\<close>

text \<open>A parameter of a strategy; a time of day and a duration are in microseconds.\<close>

datatype parameter = PBool bool | PInt int | PDecimal raw_decimal | PEnum string | PString string
  | PTime int | PDuration int | PNull

definition max_plain_padding :: int where
  "max_plain_padding = 32"

definition exact_decimal_text :: "raw_decimal \<Rightarrow> string" where
  "exact_decimal_text d = (case d of (negative, ds, e) \<Rightarrow>
     if list_all (\<lambda>x. x = 0) ds then ''0''
     else let (cs, k) = strip_zeros ds e; coefficient = digits_text cs; sign = (if negative then ''-'' else []);
         point = int (length coefficient) + k in
       if k = 0 then sign @ coefficient
       else if 0 < k then (if k \<le> max_plain_padding then sign @ coefficient @ replicate (nat k) CHR ''0''
         else sign @ coefficient @ ''e'' @ int_text k)
       else if 0 < point then sign @ take (nat point) coefficient @ ''.'' @ drop (nat point) coefficient
       else if - point \<le> max_plain_padding then sign @ ''0.'' @ replicate (nat (- point)) CHR ''0'' @ coefficient
       else sign @ coefficient @ ''e'' @ int_text k)"

definition time_text :: "int \<Rightarrow> string" where
  "time_text t = (let secs = t div 1000000; us = t mod 1000000 in
     padded 2 (secs div 3600) @ '':'' @ padded 2 (secs div 60 mod 60) @ '':'' @ padded 2 (secs mod 60) @
       (if us = 0 then [] else ''.'' @ padded 6 us))"

definition duration_text :: "int \<Rightarrow> string" where
  "duration_text t = int_text (t div 86400000000) @ '':'' @ int_text (t mod 86400000000 div 1000000) @ '':'' @
     int_text (t mod 1000000)"

fun canonical_value :: "parameter \<Rightarrow> string \<times> string" where
  "canonical_value (PBool b) = (''boolean'', if b then ''true'' else ''false'')"
| "canonical_value (PInt n) = (''integer'', int_text n)"
| "canonical_value (PDecimal d) = (''decimal'', exact_decimal_text d)"
| "canonical_value (PEnum v) = (''enum'', v)"
| "canonical_value (PString v) = (''string'', v)"
| "canonical_value (PTime t) = (''time'', time_text t)"
| "canonical_value (PDuration t) = (''timedelta'', duration_text t)"
| "canonical_value PNull = (''null'', ''null'')"

definition canonical_strategy_configuration ::
  "strategy_metadata \<Rightarrow> (string \<times> parameter) list \<Rightarrow> strategy_configuration result" where
  "canonical_strategy_configuration m parameters =
     rbind (traverse (\<lambda>(name, value). if strip name = []
         then Inl (ValueError ''canonical parameter names must be nonempty strings'')
         else case canonical_value value of (label, t) \<Rightarrow> Inr \<lparr>cp_name = name, cp_kind = label, cp_value = t\<rparr>)
       (sort_key fst parameters)) (\<lambda>ps.
     Inr \<lparr>sc_strategy_id = sm_strategy_id m, sc_strategy_version = sm_version m, sc_parameters = ps\<rparr>)"

section \<open>The strategies\<close>

text \<open>The handler around the body of every \<open>evaluate\<close>.\<close>

definition abstain :: "signal option result \<Rightarrow> signal option result" where
  "abstain r = handled None r"

definition positive_threshold :: "raw_decimal \<Rightarrow> dec result" where
  "positive_threshold d = (if raw_value d \<le> 0 then Inl (ValueError ''strategy thresholds must be finite positive Decimals'')
     else Inr (raw_value d))"

text \<open>The long signal of a breakout.\<close>

definition long_signal :: "strategy_metadata \<Rightarrow> strategy_context \<Rightarrow> dec \<Rightarrow> dec \<Rightarrow> dec \<Rightarrow> dec \<Rightarrow> signal result" where
  "long_signal m c strength entry invalidation take_profit = validate_signal
     \<lparr>sig_strategy_id = sm_strategy_id m, sig_strategy_version = sm_version m, sig_instrument_id = cx_instrument_id c,
      sig_direction = LONG, sig_strength = strength, sig_horizon = cx_horizon c, sig_entry_price = entry,
      sig_invalidation_price = invalidation, sig_take_profit = take_profit, sig_research_required = False,
      sig_evidence_uris = []\<rparr>"

text \<open>\<open>max(bar.high for bar in bars[-21:-1])\<close>.\<close>

definition prior_high :: "bar list \<Rightarrow> dec" where
  "prior_high bars = Max (set (map bar_high (butlast (trailing 21 bars))))"

definition swing_metadata :: strategy_metadata where
  "swing_metadata = \<lparr>sm_strategy_id = ''swing-breakout'', sm_version = ''1.0.0'', sm_allowed_horizons = [SWING],
     sm_allowed_directions = [LONG], sm_max_holding_bars = Some 20, sm_mandatory_preclose_closeout = False,
     sm_preclose_buffer = None, sm_spot_only = False, sm_leverage_allowed = False\<rparr>"

definition swing_evaluate :: "dec \<Rightarrow> dec \<Rightarrow> strategy_context \<Rightarrow> signal option result" where
  "swing_evaluate max_spread min_volume c = abstain
     (let bars = cx_bars c; closes = map bar_close bars in
      if cx_horizon c \<noteq> SWING \<or> int (length bars) < 70 then Inr None
      else if \<not> bars_are_strictly_valid bars \<or> max_spread \<le> cx_spread_bps c then Inr None
      else rbind (classify_regime bars max_spread (cx_spread_bps c) (5 / 100) min_volume) (\<lambda>regime.
      if regime \<noteq> TRENDING then Inr None
      else rbind (sma closes 20) (\<lambda>fast. rbind (sma closes 50) (\<lambda>slow. rbind (atr bars 14) (\<lambda>range.
        let current = last bars; volume = average_volume bars in
        case (fast, slow, range) of
          (Some f, Some l, Some r) \<Rightarrow>
            if r \<le> 0 \<or> f \<le> l \<or> bar_close current \<le> prior_high bars \<or> bar_close current \<le> closes ! (length closes - 6) \<or>
              volume < min_volume \<or> bar_volume current < volume then Inr None
            else rbind (long_signal swing_metadata c (7 / 10) (bar_close current)
              (dsub (bar_close current) (dmul 2 r)) (dadd (bar_close current) (dmul 3 r))) (\<lambda>s. Inr (Some s))
        | _ \<Rightarrow> Inr None)))))"

definition make_swing :: "raw_decimal \<Rightarrow> raw_decimal \<Rightarrow> strategy result" where
  "make_swing max_spread min_volume =
     rbind (positive_threshold max_spread) (\<lambda>spread. rbind (positive_threshold min_volume) (\<lambda>volume.
     rbind (canonical_strategy_configuration swing_metadata
       [(''max_spread_bps'', PDecimal max_spread), (''min_average_volume'', PDecimal min_volume)]) (\<lambda>configuration.
     Inr \<lparr>st_metadata = swing_metadata, st_configuration = configuration,
       st_evaluate = swing_evaluate spread volume\<rparr>)))"

definition crypto_metadata :: strategy_metadata where
  "crypto_metadata = \<lparr>sm_strategy_id = ''crypto-volatility-breakout'', sm_version = ''1.0.0'', sm_allowed_horizons = [SWING],
     sm_allowed_directions = [LONG], sm_max_holding_bars = None, sm_mandatory_preclose_closeout = False,
     sm_preclose_buffer = None, sm_spot_only = True, sm_leverage_allowed = False\<rparr>"

definition crypto_evaluate :: "dec \<Rightarrow> dec \<Rightarrow> dec \<Rightarrow> dec \<Rightarrow> strategy_context \<Rightarrow> signal option result" where
  "crypto_evaluate min_atr max_atr max_spread min_volume c = abstain
     (let bars = cx_bars c in
      if cx_horizon c \<noteq> SWING \<or> int (length bars) < 21 then Inr None
      else if \<not> bars_are_strictly_valid bars \<or> max_spread \<le> cx_spread_bps c then Inr None
      else rbind (atr bars 14) (\<lambda>range.
        let current = last bars; volume = average_volume bars in
        case range of
          None \<Rightarrow> Inr None
        | Some r \<Rightarrow>
            if bar_close current \<le> 0 then Inr None
            else let volatility = ddiv r (bar_close current); invalidation = dsub (bar_close current) (dmul (5 / 2) r) in
              if volatility < min_atr \<or> max_atr < volatility \<or> bar_close current \<le> prior_high bars \<or>
                volume < min_volume \<or> bar_volume current < volume then Inr None
              else if invalidation \<le> 0 then Inr None
              else rbind (long_signal crypto_metadata c (68 / 100) (bar_close current) invalidation
                (dadd (bar_close current) (dmul 5 r))) (\<lambda>s. Inr (Some s))))"

definition make_crypto :: "raw_decimal \<Rightarrow> raw_decimal \<Rightarrow> raw_decimal \<Rightarrow> raw_decimal \<Rightarrow> strategy result" where
  "make_crypto min_atr max_atr max_spread min_volume =
     rbind (positive_threshold min_atr) (\<lambda>lo. rbind (positive_threshold max_atr) (\<lambda>hi.
     rbind (positive_threshold max_spread) (\<lambda>spread. rbind (positive_threshold min_volume) (\<lambda>volume.
     if hi \<le> lo then Inl (ValueError ''minimum ATR percentage must be below maximum'')
     else rbind (canonical_strategy_configuration crypto_metadata
       [(''max_atr_percentage'', PDecimal max_atr), (''max_spread_bps'', PDecimal max_spread),
        (''min_atr_percentage'', PDecimal min_atr), (''min_average_volume'', PDecimal min_volume)]) (\<lambda>configuration.
     Inr \<lparr>st_metadata = crypto_metadata, st_configuration = configuration,
       st_evaluate = crypto_evaluate lo hi spread volume\<rparr>)))))"

text \<open>The session of the intraday strategy: times of day and the closeout buffer in microseconds.\<close>

record session =
  ss_start :: int
  ss_end :: int
  ss_wall :: "instant \<Rightarrow> int result"
  ss_opening_bars :: int
  ss_buffer :: int

definition day_micros :: int where
  "day_micros = 86400000000"

definition intraday_metadata :: "int \<Rightarrow> strategy_metadata" where
  "intraday_metadata buffer = \<lparr>sm_strategy_id = ''opening-range-vwap'', sm_version = ''1.0.0'', sm_allowed_horizons = [INTRADAY],
     sm_allowed_directions = [LONG], sm_max_holding_bars = None, sm_mandatory_preclose_closeout = True,
     sm_preclose_buffer = Some buffer, sm_spot_only = False, sm_leverage_allowed = False\<rparr>"

text \<open>The bars of the current session, if the current bar lies in it before the cutoff.\<close>

definition session_bars :: "session \<Rightarrow> bar list \<Rightarrow> bar list option result" where
  "session_bars ss bars = rbind (traverse (\<lambda>b. rbind (ss_wall ss (bar_at b)) (\<lambda>t. Inr (b, t))) bars) (\<lambda>local.
      let now = snd (last local); date = now div day_micros;
          opens = date * day_micros + ss_start ss; closes = date * day_micros + ss_end ss;
          cutoff = closes - ss_buffer ss;
          inside = filter (\<lambda>(b, t). t div day_micros = date \<and> opens \<le> t \<and> t < closes) local in
      if \<not> (opens \<le> now \<and> now < cutoff) then Inr None
      else if int (length inside) \<le> ss_opening_bars ss \<or> fst (last inside) \<noteq> last bars \<or> snd (hd inside) \<noteq> opens then Inr None
      else Inr (Some (map fst inside)))"

definition intraday_evaluate :: "session \<Rightarrow> dec \<Rightarrow> dec \<Rightarrow> strategy_context \<Rightarrow> signal option result" where
  "intraday_evaluate ss max_spread min_volume c = abstain
     (let bars = cx_bars c in
      if cx_horizon c \<noteq> INTRADAY \<or> \<not> bars_are_strictly_valid bars then Inr None
      else if max_spread \<le> cx_spread_bps c \<or> bars = [] then Inr None
      else rbind (session_bars ss bars) (\<lambda>session_prefix. case session_prefix of
          None \<Rightarrow> Inr None
        | Some today \<Rightarrow>
          let current = last bars; opening = take (nat (ss_opening_bars ss)) today;
              opening_high = Max (set (map bar_high opening)); opening_low = Min (set (map bar_low opening));
              width = dsub opening_high opening_low; recent = trailing (min 20 (length today)) today in
          rbind (vwap today (int (length today))) (\<lambda>session_vwap.
          let volume = ddiv (dsum (map bar_volume recent)) (of_nat (length recent)) in
          case session_vwap of
            None \<Rightarrow> Inr None
          | Some v \<Rightarrow>
            if width \<le> 0 \<or> bar_close current \<le> opening_high \<or> bar_close current \<le> v \<or> volume < min_volume \<or>
              bar_volume current < min_volume then Inr None
            else let spread_price = ddiv (dmul (bar_close current) (cx_spread_bps c)) 10000;
                invalidation = dsub opening_low (max (ddiv width 10) spread_price);
                risk = dsub (bar_close current) invalidation in
              if invalidation \<le> 0 \<or> risk \<le> 0 then Inr None
              else rbind (long_signal (intraday_metadata (ss_buffer ss)) c (65 / 100) (bar_close current) invalidation
                (dadd (bar_close current) (dmul 2 risk))) (\<lambda>s. Inr (Some s)))))"

definition make_intraday ::
  "(string \<Rightarrow> (instant \<Rightarrow> int result) option) \<Rightarrow> int \<Rightarrow> int \<Rightarrow> string \<Rightarrow> int \<Rightarrow> int \<Rightarrow> raw_decimal \<Rightarrow> raw_decimal \<Rightarrow> strategy result" where
  "make_intraday zones start end_of_day zone opening_bars buffer max_spread min_volume =
     (if end_of_day \<le> start then Inl (ValueError ''session_start must precede session_end'')
      else if opening_bars \<le> 0 then Inl (ValueError ''opening_range_bars must be positive'')
      else if buffer \<le> 0 then Inl (ValueError ''closeout_buffer must be positive'')
      else if end_of_day - start \<le> buffer then Inl (ValueError ''closeout_buffer must be shorter than the session duration'')
      else if strip zone = [] then Inl (ValueError ''session_timezone must name a valid IANA timezone'')
      else case zones zone of
          None \<Rightarrow> Inl (ValueError ''session_timezone must name a valid IANA timezone'')
        | Some wall \<Rightarrow>
          rbind (positive_threshold max_spread) (\<lambda>spread. rbind (positive_threshold min_volume) (\<lambda>volume.
          rbind (check_metadata (intraday_metadata buffer)) (\<lambda>m.
          rbind (canonical_strategy_configuration m
            [(''closeout_buffer'', PDuration buffer), (''max_spread_bps'', PDecimal max_spread),
             (''min_average_volume'', PDecimal min_volume), (''opening_range_bars'', PInt opening_bars),
             (''session_end'', PTime end_of_day), (''session_start'', PTime start), (''session_timezone'', PString zone)])
            (\<lambda>configuration.
          let ss = \<lparr>ss_start = start, ss_end = end_of_day, ss_wall = wall, ss_opening_bars = opening_bars, ss_buffer = buffer\<rparr> in
          Inr \<lparr>st_metadata = m, st_configuration = configuration,
            st_evaluate = intraday_evaluate ss spread volume\<rparr>)))))"

end
