(* ===== verification/Ensemble.thy ===== *)
theory Ensemble
  imports Strategies
begin

text \<open>
  \<open>strategies/ensemble.py\<close>: the weighted combination of the signals of several strategies, bounded by
  research, that abstains on any incoherent input; and what the strategies and the ensemble emit.
\<close>

section \<open>The ensemble\<close>

record ensemble_weights =
  ew_version :: string
  ew_values :: "(string \<times> dec) list"

definition check_weights :: "ensemble_weights \<Rightarrow> ensemble_weights result" where
  "check_weights w =
     (if strip (ew_version w) = [] \<or> ew_values w = [] then Inl (ValueError ''versioned ensemble weights must not be empty'')
      else if \<not> list_all (\<lambda>(i, v). 0 < v) (ew_values w)
      then Inl (ValueError ''ensemble weights must be finite positive Decimals'') else Inr w)"

definition default_weights :: ensemble_weights where
  "default_weights = \<lparr>ew_version = ''ensemble-weights-v1'', ew_values = [(''swing-breakout'', 45 / 100),
     (''opening-range-vwap'', 35 / 100), (''crypto-volatility-breakout'', 20 / 100)]\<rparr>"

definition high_strength_conflict :: dec where "high_strength_conflict = 75 / 100"
definition normalized_cost :: dec where "normalized_cost = 5 / 100"
definition min_after_cost_strength :: dec where "min_after_cost_strength = 25 / 100"
definition max_research_adjustment :: dec where "max_research_adjustment = 10 / 100"

definition signal_numbers_valid :: "signal \<Rightarrow> bool" where
  "signal_numbers_valid s \<longleftrightarrow> 0 < sig_entry_price s \<and> 0 < sig_invalidation_price s \<and> 0 < sig_take_profit s \<and>
     (if sig_direction s = LONG
      then sig_invalidation_price s < sig_entry_price s \<and> sig_entry_price s < sig_take_profit s
      else sig_entry_price s < sig_invalidation_price s \<and> sig_take_profit s < sig_entry_price s)"

definition research_valid :: "research_packet \<Rightarrow> string \<Rightarrow> bool" where
  "research_valid r instrument_id \<longleftrightarrow> rp_instrument_id r = instrument_id \<and> 0 \<le> rp_confidence r \<and> rp_confidence r \<le> 1 \<and>
     list_all (\<lambda>v. strip v \<noteq> []) [rp_instrument_id r, rp_thesis r, rp_bear_case r, rp_model_id r, rp_prompt_version r,
       rp_configuration_hash r] \<and>
     list_all (\<lambda>e. strip (ev_uri e) \<noteq> [] \<and> strip (ev_title e) \<noteq> [] \<and> ev_published_at e \<le> rp_as_of r) (rp_evidence r)"

fun coherent_from :: "ensemble_weights \<Rightarrow> string \<Rightarrow> horizon \<Rightarrow> string list \<Rightarrow> signal list \<Rightarrow> bool" where
  "coherent_from w instrument_id h seen [] = True"
| "coherent_from w instrument_id h seen (s # ss) =
     (sig_strategy_id s \<in> set (dkeys (ew_values w)) \<and> sig_strategy_id s \<notin> set seen \<and>
      strip (sig_strategy_version s) \<noteq> [] \<and> strip (sig_instrument_id s) \<noteq> [] \<and> sig_instrument_id s = instrument_id \<and>
      sig_horizon s = h \<and> sig_direction s \<noteq> FLAT \<and> signal_numbers_valid s \<and>
      \<not> (sig_direction s = LONG \<and> sig_strength s \<le> 0) \<and> \<not> (sig_direction s = SHORT \<and> 0 \<le> sig_strength s) \<and>
      list_all (\<lambda>u. strip u \<noteq> []) (sig_evidence_uris s) \<and> coherent_from w instrument_id h (sig_strategy_id s # seen) ss)"

definition validated_signals :: "ensemble_weights \<Rightarrow> signal list \<Rightarrow> signal list" where
  "validated_signals w signals = (case signals of
       [] \<Rightarrow> []
     | s # ss \<Rightarrow> if coherent_from w (sig_instrument_id s) (sig_horizon s) [] signals then signals else [])"

definition clamp :: "dec \<Rightarrow> dec" where
  "clamp v = max (- 1) (min 1 v)"

definition weight_of :: "ensemble_weights \<Rightarrow> signal \<Rightarrow> dec" where
  "weight_of w s = (case dget (ew_values w) (sig_strategy_id s) of None \<Rightarrow> 0 | Some v \<Rightarrow> v)"

definition contribution :: "ensemble_weights \<Rightarrow> signal \<times> dec \<Rightarrow> dec" where
  "contribution w pair = dabs (dmul (weight_of w (fst pair)) (snd pair))"

text \<open>\<open>max\<close> with a key: the first pair no later one exceeds.\<close>

fun select_from :: "ensemble_weights \<Rightarrow> signal \<times> dec \<Rightarrow> (signal \<times> dec) list \<Rightarrow> signal \<times> dec" where
  "select_from w best [] = best"
| "select_from w best (x # xs) = select_from w
     (if contribution w best < contribution w x \<or>
         contribution w best = contribution w x \<and> sig_strategy_id (fst best) < sig_strategy_id (fst x) then x else best) xs"

definition weighted_price :: "ensemble_weights \<Rightarrow> (signal \<Rightarrow> dec) \<Rightarrow> (signal \<times> dec) list \<Rightarrow> dec" where
  "weighted_price w price aligned = ddiv (dsum (map (\<lambda>pair. dmul (price (fst pair)) (contribution w pair)) aligned))
     (dsum (map (contribution w) aligned))"

definition protective_prices :: "ensemble_weights \<Rightarrow> (signal \<times> dec) list \<Rightarrow> (dec \<times> dec \<times> dec) result" where
  "protective_prices w aligned = (if dsum (map (contribution w) aligned) \<le> 0
     then Inl (ValueError ''protective price weights must be positive'')
     else Inr (weighted_price w sig_entry_price aligned, weighted_price w sig_invalidation_price aligned,
       weighted_price w sig_take_profit aligned))"

text \<open>\<open>dict.fromkeys\<close>: the first occurrence of each.\<close>

definition first_occurrences :: "'a list \<Rightarrow> 'a list" where
  "first_occurrences xs = rev (remdups (rev xs))"

text \<open>The strength that research leaves, if it does not turn the signal round.\<close>

definition adjusted_strength :: "dec \<Rightarrow> signal_direction \<Rightarrow> research_packet option \<Rightarrow> dec option" where
  "adjusted_strength composite direction research = (case research of
       None \<Rightarrow> Some composite
     | Some r \<Rightarrow>
       let adjustment = dmul (dmul (dsub (rp_confidence r) (1 / 2)) 2) max_research_adjustment;
           moved = clamp (dadd composite (if direction = LONG then adjustment else dneg adjustment)) in
       if direction = LONG \<and> moved \<le> 0 \<or> direction = SHORT \<and> 0 \<le> moved then None else Some moved)"

definition too_weak :: "dec \<Rightarrow> bool" where
  "too_weak strength \<longleftrightarrow> dsub (dabs strength) normalized_cost < min_after_cost_strength"

definition strong_conflict :: "(signal \<times> dec) list \<Rightarrow> bool" where
  "strong_conflict normalized \<longleftrightarrow>
     list_ex (\<lambda>(s, v). sig_direction s = LONG \<and> high_strength_conflict \<le> v) normalized \<and>
     list_ex (\<lambda>(s, v). sig_direction s = SHORT \<and> v \<le> - high_strength_conflict) normalized"

definition selected_signal :: "ensemble_weights \<Rightarrow> (signal \<times> dec) list \<Rightarrow> signal" where
  "selected_signal w aligned = fst (select_from w (hd aligned) (tl aligned))"

definition ensemble_evidence :: "(signal \<times> dec) list \<Rightarrow> research_packet option \<Rightarrow> string list" where
  "ensemble_evidence aligned research =
     (let uris = first_occurrences (concat (map (sig_evidence_uris \<circ> fst) aligned)) in
      case research of None \<Rightarrow> uris | Some r \<Rightarrow> first_occurrences (uris @ map ev_uri (rp_evidence r)))"

text \<open>The signal built from the signals that agree with the direction of the composite.\<close>

definition combine_aligned ::
  "ensemble_weights \<Rightarrow> dec \<Rightarrow> signal_direction \<Rightarrow> (signal \<times> dec) list \<Rightarrow> research_packet option \<Rightarrow> signal option result" where
  "combine_aligned w composite direction aligned research =
     (if aligned = [] then Inr None
      else let selected = selected_signal w aligned in
        if sig_research_required selected \<and> research = None then Inr None
        else case adjusted_strength composite direction research of
            None \<Rightarrow> Inr None
          | Some final \<Rightarrow>
            if too_weak final then Inr None
            else rbind (protective_prices w aligned) (\<lambda>(entry, invalidation, take_profit).
              rbind (validate_signal \<lparr>sig_strategy_id = ''signal-ensemble'', sig_strategy_version = ew_version w,
                sig_instrument_id = sig_instrument_id selected, sig_direction = direction, sig_strength = final,
                sig_horizon = sig_horizon selected, sig_entry_price = entry, sig_invalidation_price = invalidation,
                sig_take_profit = take_profit, sig_research_required = sig_research_required selected,
                sig_evidence_uris = ensemble_evidence aligned research\<rparr>) (\<lambda>s. Inr (Some s))))"

definition combine :: "ensemble_weights \<Rightarrow> signal list \<Rightarrow> research_packet option \<Rightarrow> signal option result" where
  "combine w signals research = abstain
     (let checked = validated_signals w signals;
          normalized = map (\<lambda>s. (s, clamp (sig_strength s))) checked;
          active_weight = dsum (map (weight_of w \<circ> fst) normalized);
          composite = ddiv (dsum (map (\<lambda>(s, v). dmul (weight_of w s) v) normalized)) active_weight;
          direction = (if 0 < composite then LONG else SHORT) in
      if checked = [] then Inr None
      else if (case research of None \<Rightarrow> False | Some r \<Rightarrow> \<not> research_valid r (sig_instrument_id (hd checked))) then Inr None
      else if strong_conflict normalized then Inr None
      else if active_weight \<le> 0 then Inr None
      else if composite = 0 then Inr None
      else if too_weak composite then Inr None
      else combine_aligned w composite direction (filter (\<lambda>(s, v). sig_direction s = direction) normalized) research)"

section \<open>Signals of the strategies\<close>

definition library_strategy :: "strategy \<Rightarrow> bool" where
  "library_strategy S \<longleftrightarrow> (\<exists>spread volume. make_swing spread volume = Inr S) \<or>
     (\<exists>lo hi spread volume. make_crypto lo hi spread volume = Inr S) \<or>
     (\<exists>zones start end_of_day zone n buffer spread volume.
        make_intraday zones start end_of_day zone n buffer spread volume = Inr S)"

lemma validate_signal_Inr: "validate_signal s = Inr t \<Longrightarrow> t = s"
  by (auto simp: validate_signal_def split: if_splits)

text \<open>The one way a breakout strategy speaks.\<close>

definition breakout :: "strategy_metadata \<Rightarrow> strategy_context \<Rightarrow> signal \<Rightarrow> bool" where
  "breakout m c s \<longleftrightarrow> (\<exists>strength invalidation take_profit.
     long_signal m c strength (bar_close (last (cx_bars c))) invalidation take_profit = Inr s \<and> 0 < invalidation) \<and>
     cx_bars c \<noteq> [] \<and> bars_are_strictly_valid (cx_bars c) \<and> cx_horizon c \<in> set (sm_allowed_horizons m)"

lemma breakoutI:
  "long_signal m c strength (bar_close (last (cx_bars c))) invalidation take_profit = Inr s \<Longrightarrow> 0 < invalidation \<Longrightarrow>
   cx_bars c \<noteq> [] \<Longrightarrow> bars_are_strictly_valid (cx_bars c) \<Longrightarrow> cx_horizon c \<in> set (sm_allowed_horizons m) \<Longrightarrow>
   breakout m c s"
  unfolding breakout_def by blast

lemma allowed_horizons [simp]: "sm_allowed_horizons swing_metadata = [SWING]"
    "sm_allowed_horizons crypto_metadata = [SWING]" "sm_allowed_horizons (intraday_metadata buffer) = [INTRADAY]"
  by (simp_all add: swing_metadata_def crypto_metadata_def intraday_metadata_def)

lemma handled_Inr: "x \<noteq> fallback \<Longrightarrow> handled fallback r = Inr x \<longleftrightarrow> r = Inr x"
  by (cases r) (auto simp: handled_def)

lemma abstain_Some: "abstain r = Inr (Some s) \<longleftrightarrow> r = Inr (Some s)"
  by (simp add: abstain_def handled_Inr)

text \<open>How a chain of guards, optional values and fallible steps reaches a signal.\<close>

lemma speaks_if: "(if b then Inr None else e) = Inr (Some s) \<longleftrightarrow> \<not> b \<and> e = Inr (Some s)"
  by simp

lemma speaks_case: "(case x of None \<Rightarrow> Inr None | Some y \<Rightarrow> f y) = Inr (Some s) \<longleftrightarrow> (\<exists>y. x = Some y \<and> f y = Inr (Some s))"
  by (cases x) auto

lemma speaks_signal: "rbind r (\<lambda>s. Inr (Some s)) = Inr (Some s) \<longleftrightarrow> r = Inr s"
  by (cases r) auto

lemmas speaks = speaks_if speaks_case speaks_signal rbind_eq_Inr Let_def prod.case option.case

lemma rnd_twice: "0 \<le> x \<Longrightarrow> rnd x \<le> 2 * x"
proof -
  assume x: "0 \<le> x"
  have "rnd x - x \<le> x * (5 / 10 ^ 28)"
    using rnd_error [of x] x by (simp only: abs_of_nonneg abs_le_iff)
  also have "\<dots> \<le> x * 1"
    using x by (intro mult_left_mono) auto
  finally show ?thesis
    by simp
qed

lemma twice_below:
  assumes "0 < p" "0 \<le> r" "ddiv r p \<le> 5 / 100"
  shows "dmul 2 r < p"
proof -
  have "r / p < 1 / 4"
  proof (rule ccontr)
    assume "\<not> r / p < 1 / 4"
    moreover have "representable (1 / 4)"
      by (rule representableI [of 25 _ "- 2"]) (simp_all add: pow10_def)
    ultimately have "1 / 4 \<le> ddiv r p"
      unfolding ddiv_def by (intro rnd_ge) auto
    then show False
      using assms(3) by simp
  qed
  then have "4 * r < p"
    using assms(1) by (simp add: pos_divide_less_eq)
  then show ?thesis
    unfolding dmul_def using rnd_twice [of "2 * r"] assms(2) by simp
qed

lemma strictly_valid_bars: "strictly_valid_from previous bars \<Longrightarrow> list_all ohlcv_ok bars"
  by (induction bars arbitrary: previous) auto

lemma trending_range:
  assumes "classify_regime bars cap spread limit volume = Inr TRENDING" "atr bars 14 = Inr (Some r)"
  shows "ddiv r (bar_close (last bars)) \<le> limit"
proof -
  have b: "bars \<noteq> []"
    using assms(1) by (auto simp: classify_regime_def handled_Inr split: if_splits)
  have "classify_checked bars limit = Inr TRENDING"
    using assms(1) by (auto simp: classify_regime_def handled_Inr split: if_splits)
  then show ?thesis
    using assms(2) b by (auto simp: classify_checked_def result_simps Let_def last_map not_less split: option.splits if_splits)
qed

lemma swing_breaks_out:
  assumes "swing_evaluate max_spread volume c = Inr (Some s)"
  shows "breakout swing_metadata c s"
proof -
  let ?b = "bar_close (last (cx_bars c))"
  obtain r where v: "cx_horizon c = SWING" "\<not> int (length (cx_bars c)) < 70" "bars_are_strictly_valid (cx_bars c)"
      "classify_regime (cx_bars c) max_spread (cx_spread_bps c) (5 / 100) volume = Inr TRENDING"
      "atr (cx_bars c) 14 = Inr (Some r)" "0 < r"
      "long_signal swing_metadata c (7 / 10) ?b (dsub ?b (dmul 2 r)) (dadd ?b (dmul 3 r)) = Inr s"
    using assms unfolding swing_evaluate_def abstain_Some speaks by auto
  have b: "cx_bars c \<noteq> []"
    using v(2) by auto
  have "list_all ohlcv_ok (cx_bars c)"
    using v(3) strictly_valid_bars unfolding bars_are_strictly_valid_def by blast
  then have p: "0 < ?b"
    using b by (auto simp: list_all_iff ohlcv_ok_def)
  have "dmul 2 r < ?b"
    using twice_below [OF p] v(6) trending_range [OF v(4,5)] by simp
  then have "0 < dsub ?b (dmul 2 r)"
    by simp
  then show ?thesis
    using v b by (intro breakoutI [OF v(7)]) auto
qed

lemma crypto_breaks_out: "crypto_evaluate lo hi spread volume c = Inr (Some s) \<Longrightarrow> breakout crypto_metadata c s"
  unfolding crypto_evaluate_def abstain_Some speaks
  by (auto simp: not_le intro!: breakoutI)

lemma intraday_allowed: "h = INTRADAY \<Longrightarrow> h \<in> set (sm_allowed_horizons (intraday_metadata buffer))"
  by simp

lemma intraday_breaks_out: "intraday_evaluate ss spread volume c = Inr (Some s) \<Longrightarrow> breakout (intraday_metadata (ss_buffer ss)) c s"
  unfolding intraday_evaluate_def abstain_Some speaks de_Morgan_disj not_le not_not sum.inject option.inject
  by (elim exE conjE) (hypsubst, rule breakoutI, assumption, assumption, assumption, assumption, erule intraday_allowed)

lemma made_swing: "make_swing spread volume = Inr S \<Longrightarrow>
    \<exists>x y. st_metadata S = swing_metadata \<and> st_evaluate S = swing_evaluate x y"
  unfolding make_swing_def rbind_eq_Inr sum.inject by (elim exE conjE) (hypsubst, intro exI conjI, simp_all)

lemma made_crypto: "make_crypto lo hi spread volume = Inr S \<Longrightarrow>
    \<exists>l h x y. st_metadata S = crypto_metadata \<and> st_evaluate S = crypto_evaluate l h x y"
  unfolding make_crypto_def rbind_eq_Inr Let_def sum.inject
  by (elim exE conjE) (clarsimp simp: result_simps split: if_splits, intro exI, rule refl)

lemma check_metadata_Inr: "check_metadata m = Inr n \<Longrightarrow> n = m"
  unfolding check_metadata_def by (auto split: if_splits)

lemma made_intraday:
  assumes "make_intraday zones start end_of_day zone n buffer spread volume = Inr S"
  shows "\<exists>ss x y. st_metadata S = intraday_metadata (ss_buffer ss) \<and> st_evaluate S = intraday_evaluate ss x y"
proof -
  obtain wall x y m k where m: "check_metadata (intraday_metadata buffer) = Inr m"
      and S: "S = \<lparr>st_metadata = m, st_configuration = k, st_evaluate = intraday_evaluate
        \<lparr>ss_start = start, ss_end = end_of_day, ss_wall = wall, ss_opening_bars = n, ss_buffer = buffer\<rparr> x y\<rparr>"
    using assms unfolding make_intraday_def rbind_eq_Inr Let_def
    by (auto split: if_split_asm option.split_asm simp: rbind_eq_Inr)
  show ?thesis
    using S check_metadata_Inr [OF m]
    by (intro exI [of _ "\<lparr>ss_start = start, ss_end = end_of_day, ss_wall = wall, ss_opening_bars = n, ss_buffer = buffer\<rparr>"]) auto
qed

lemma library_cases:
  assumes "library_strategy S"
  shows "(\<exists>x y. st_metadata S = swing_metadata \<and> st_evaluate S = swing_evaluate x y) \<or>
    (\<exists>l h x y. st_metadata S = crypto_metadata \<and> st_evaluate S = crypto_evaluate l h x y) \<or>
    (\<exists>ss x y. st_metadata S = intraday_metadata (ss_buffer ss) \<and> st_evaluate S = intraday_evaluate ss x y)"
  using assms made_swing made_crypto made_intraday unfolding library_strategy_def by meson

lemma library_breaks_out:
  assumes "library_strategy S" "st_evaluate S c = Inr (Some s)"
  shows "breakout (st_metadata S) c s"
  using library_cases [OF assms(1)] assms(2) swing_breaks_out crypto_breaks_out intraday_breaks_out by force

text \<open>C38: Every signal of the three strategies is well formed: it is long, carries the identity of its
  strategy, enters at the last close, is protected by a positive stop below and a target above its
  entry, and is given only on a horizon the strategy allows and on bars that are valid and strictly
  chronological.\<close>

theorem strategy_signals_well_formed:
  assumes "library_strategy S" "st_evaluate S c = Inr (Some s)"
  shows "validate_signal s = Inr s \<and> signal_numbers_valid s \<and> sig_direction s = LONG \<and> 0 < sig_invalidation_price s \<and>
    cx_bars c \<noteq> [] \<and> sig_entry_price s = bar_close (last (cx_bars c)) \<and> sig_instrument_id s = cx_instrument_id c \<and>
    sig_strategy_id s = sm_strategy_id (st_metadata S) \<and> sig_strategy_version s = sm_version (st_metadata S) \<and>
    sig_horizon s = cx_horizon c \<and> cx_horizon c \<in> set (sm_allowed_horizons (st_metadata S)) \<and>
    bars_are_strictly_valid (cx_bars c)"
proof -
  note b = library_breaks_out [OF assms, unfolded breakout_def]
  from b obtain strength invalidation take_profit where l:
      "long_signal (st_metadata S) c strength (bar_close (last (cx_bars c))) invalidation take_profit = Inr s" "0 < invalidation"
    by blast
  have f: "sig_direction s = LONG" "sig_invalidation_price s = invalidation"
      "sig_entry_price s = bar_close (last (cx_bars c))" "sig_instrument_id s = cx_instrument_id c"
      "sig_strategy_id s = sm_strategy_id (st_metadata S)" "sig_strategy_version s = sm_version (st_metadata S)"
      "sig_horizon s = cx_horizon c"
    using validate_signal_Inr [OF l(1) [unfolded long_signal_def]] by simp_all
  have v: "validate_signal s = Inr s"
    using l(1) validate_signal_Inr [OF l(1) [unfolded long_signal_def]] by (simp add: long_signal_def)
  then have o: "sig_invalidation_price s < sig_entry_price s" "sig_entry_price s < sig_take_profit s"
    using f(1) by (auto simp: validate_signal_def split: if_splits)
  then have "signal_numbers_valid s"
    using f(1,2) l(2) by (simp add: signal_numbers_valid_def)
  then show ?thesis
    using b f l(2) v by simp
qed

section \<open>Signals of the ensemble\<close>

lemma coherent_from_signals:
  "coherent_from w i h seen ss \<Longrightarrow>
     (\<forall>t\<in>set ss. sig_instrument_id t = i \<and> sig_horizon t = h \<and> sig_strategy_id t \<in> set (dkeys (ew_values w)) \<and>
        signal_numbers_valid t \<and> sig_direction t \<noteq> FLAT \<and> (sig_direction t = LONG \<longleftrightarrow> 0 < sig_strength t)) \<and>
     distinct (map sig_strategy_id ss) \<and> sig_strategy_id ` set ss \<inter> set seen = {}"
proof (induction w i h seen ss rule: coherent_from.induct)
  case (2 w i h seen s ss)
  then show ?case
    by (cases "sig_direction s") auto
qed simp

lemma select_from_member: "select_from w best xs \<in> insert best (set xs)"
  by (induction w best xs rule: select_from.induct) auto

lemma set_first_occurrences [simp]: "set (first_occurrences xs) = set xs"
  by (simp add: first_occurrences_def)

lemma adjusted_strength_sign:
  "adjusted_strength composite direction research = Some v \<Longrightarrow> composite \<noteq> 0 \<Longrightarrow>
   direction = (if 0 < composite then LONG else SHORT) \<Longrightarrow> (if direction = LONG then 0 < v else v < 0)"
  by (auto simp: adjusted_strength_def Let_def split: option.splits if_splits)

lemma validated_signals_checked:
  assumes "validated_signals w signals \<noteq> []"
  shows "validated_signals w signals = signals"
    "coherent_from w (sig_instrument_id (hd signals)) (sig_horizon (hd signals)) [] signals"
  using assms by (auto simp: validated_signals_def split: list.splits if_splits)

lemma clamp_conflict: "high_strength_conflict \<le> clamp v \<longleftrightarrow> high_strength_conflict \<le> v"
    "clamp v \<le> - high_strength_conflict \<longleftrightarrow> v \<le> - high_strength_conflict"
  by (auto simp: clamp_def high_strength_conflict_def)

lemma aligned_combined:
  assumes "combine_aligned w composite direction aligned research = Inr (Some s)"
  shows "aligned \<noteq> [] \<and> validate_signal s = Inr s \<and> sig_strategy_id s = ''signal-ensemble'' \<and>
    sig_strategy_version s = ew_version w \<and> sig_direction s = direction \<and>
    adjusted_strength composite direction research = Some (sig_strength s) \<and> \<not> too_weak (sig_strength s) \<and>
    sig_instrument_id s = sig_instrument_id (selected_signal w aligned) \<and> sig_horizon s = sig_horizon (selected_signal w aligned) \<and>
    sig_research_required s = sig_research_required (selected_signal w aligned) \<and>
    (sig_research_required s \<longrightarrow> research \<noteq> None) \<and> sig_evidence_uris s = ensemble_evidence aligned research"
proof -
  obtain final entry invalidation take_profit where f: "aligned \<noteq> []"
      "\<not> (sig_research_required (selected_signal w aligned) \<and> research = None)"
      "adjusted_strength composite direction research = Some final" "\<not> too_weak final"
      "validate_signal \<lparr>sig_strategy_id = ''signal-ensemble'', sig_strategy_version = ew_version w,
        sig_instrument_id = sig_instrument_id (selected_signal w aligned), sig_direction = direction, sig_strength = final,
        sig_horizon = sig_horizon (selected_signal w aligned), sig_entry_price = entry, sig_invalidation_price = invalidation,
        sig_take_profit = take_profit, sig_research_required = sig_research_required (selected_signal w aligned),
        sig_evidence_uris = ensemble_evidence aligned research\<rparr> = Inr s"
    using assms unfolding combine_aligned_def Let_def speaks_if speaks_case rbind_eq_Inr by (auto simp: case_prod_beta rbind_eq_Inr)
  show ?thesis
    using f validate_signal_Inr [OF f(5)] by simp
qed

lemma selected_signal_member: "aligned \<noteq> [] \<Longrightarrow> selected_signal w aligned \<in> fst ` set aligned"
  unfolding selected_signal_def using select_from_member [of w "hd aligned" "tl aligned"] by (cases aligned) auto

lemma set_ensemble_evidence: "set (ensemble_evidence aligned research) =
    (\<Union>p\<in>set aligned. set (sig_evidence_uris (fst p))) \<union> (case research of None \<Rightarrow> {} | Some r \<Rightarrow> ev_uri ` set (rp_evidence r))"
  by (auto simp: ensemble_evidence_def Let_def split: option.split)

text \<open>What a combined signal rests on.\<close>

lemma combined:
  assumes "combine w signals research = Inr (Some s)"
  obtains composite where
    "coherent_from w (sig_instrument_id (hd signals)) (sig_horizon (hd signals)) [] signals"
    "\<forall>r. research = Some r \<longrightarrow> research_valid r (sig_instrument_id (hd signals))"
    "\<not> strong_conflict (map (\<lambda>s. (s, clamp (sig_strength s))) signals)" "composite \<noteq> 0"
    "combine_aligned w composite (if 0 < composite then LONG else SHORT) (filter (\<lambda>(s, v). sig_direction s =
      (if 0 < composite then LONG else SHORT)) (map (\<lambda>s. (s, clamp (sig_strength s))) signals)) research = Inr (Some s)"
proof -
  have n: "validated_signals w signals \<noteq> []"
    using assms unfolding combine_def abstain_Some Let_def speaks_if by blast
  note v = validated_signals_checked [OF n]
  show ?thesis
    using assms unfolding combine_def abstain_Some Let_def speaks_if v(1)
    by (elim conjE) (rule that [OF v(2)], auto split: option.splits)
qed

text \<open>C39: A signal of the ensemble is coherent: it is a valid signal of the ensemble's own version whose
  direction is the sign of its strength, which is not too weak after costs; every signal combined is of
  its instrument and horizon, from distinct strategies that have a weight; the strong signals do not
  conflict; one of the signals agrees with its direction; research that it requires is given and valid;
  and its evidence is that of the agreeing signals and of the research.\<close>

theorem ensemble_is_coherent:
  assumes "combine w signals research = Inr (Some s)"
  shows "validate_signal s = Inr s \<and> sig_strategy_id s = ''signal-ensemble'' \<and> sig_strategy_version s = ew_version w \<and>
    sig_direction s = (if 0 < sig_strength s then LONG else SHORT) \<and> sig_strength s \<noteq> 0 \<and> \<not> too_weak (sig_strength s) \<and>
    (\<forall>t\<in>set signals. sig_instrument_id t = sig_instrument_id s \<and> sig_horizon t = sig_horizon s \<and>
       sig_strategy_id t \<in> set (dkeys (ew_values w)) \<and> signal_numbers_valid t) \<and>
    distinct (map sig_strategy_id signals) \<and>
    \<not> ((\<exists>t\<in>set signals. sig_direction t = LONG \<and> high_strength_conflict \<le> sig_strength t) \<and>
       (\<exists>t\<in>set signals. sig_direction t = SHORT \<and> sig_strength t \<le> - high_strength_conflict)) \<and>
    (\<exists>t\<in>set signals. sig_direction t = sig_direction s \<and> sig_research_required s = sig_research_required t) \<and>
    (sig_research_required s \<longrightarrow> research \<noteq> None) \<and>
    (\<forall>r. research = Some r \<longrightarrow> research_valid r (sig_instrument_id s)) \<and>
    set (sig_evidence_uris s) = (\<Union>t\<in>{t \<in> set signals. sig_direction t = sig_direction s}. set (sig_evidence_uris t)) \<union>
      (case research of None \<Rightarrow> {} | Some r \<Rightarrow> ev_uri ` set (rp_evidence r))"
proof -
  obtain composite where c:
    "coherent_from w (sig_instrument_id (hd signals)) (sig_horizon (hd signals)) [] signals"
    "\<forall>r. research = Some r \<longrightarrow> research_valid r (sig_instrument_id (hd signals))"
    "\<not> strong_conflict (map (\<lambda>s. (s, clamp (sig_strength s))) signals)" "composite \<noteq> 0"
    "combine_aligned w composite (if 0 < composite then LONG else SHORT) (filter (\<lambda>(s, v). sig_direction s =
      (if 0 < composite then LONG else SHORT)) (map (\<lambda>s. (s, clamp (sig_strength s))) signals)) research = Inr (Some s)"
    using combined [OF assms] .
  let ?d = "if 0 < composite then LONG else SHORT"
  let ?a = "filter (\<lambda>(s, v). sig_direction s = ?d) (map (\<lambda>s. (s, clamp (sig_strength s))) signals)"
  note k = coherent_from_signals [OF c(1)] and a = aligned_combined [OF c(5)]
  have m: "selected_signal w ?a \<in> set signals" "sig_direction (selected_signal w ?a) = sig_direction s"
    using selected_signal_member [of ?a w] a by auto
  have i: "sig_instrument_id s = sig_instrument_id (hd signals)" "sig_horizon s = sig_horizon (hd signals)"
    using k m(1) a by auto
  have d: "sig_direction s = (if 0 < sig_strength s then LONG else SHORT)" "sig_strength s \<noteq> 0"
    using adjusted_strength_sign [of composite ?d research "sig_strength s"] a c(4) by (auto split: if_splits)
  have u: "set (sig_evidence_uris s) = (\<Union>t\<in>{t \<in> set signals. sig_direction t = sig_direction s}. set (sig_evidence_uris t)) \<union>
      (case research of None \<Rightarrow> {} | Some r \<Rightarrow> ev_uri ` set (rp_evidence r))"
    using a by (auto simp: set_ensemble_evidence)
  have conflict: "\<not> ((\<exists>t\<in>set signals. sig_direction t = LONG \<and> high_strength_conflict \<le> sig_strength t) \<and>
       (\<exists>t\<in>set signals. sig_direction t = SHORT \<and> sig_strength t \<le> - high_strength_conflict))"
    using c(3) by (auto simp: strong_conflict_def list_ex_iff clamp_conflict)
  have agrees: "\<exists>t\<in>set signals. sig_direction t = sig_direction s \<and> sig_research_required s = sig_research_required t"
    using m a by blast
  show ?thesis
    using a c(2) k conflict agrees d u i by auto
qed

section \<open>Concrete signals\<close>

definition flat_bar :: "int \<Rightarrow> bar" where
  "flat_bar t = \<lparr>bar_at = t, bar_open = 100, bar_high = 101, bar_low = 99, bar_close = 100, bar_volume = 10\<rparr>"

definition surge_context :: strategy_context where
  "surge_context = \<lparr>cx_instrument_id = ''BTC-USD'',
     cx_bars = map flat_bar [0..19] @ [\<lparr>bar_at = 20, bar_open = 100, bar_high = 104, bar_low = 100, bar_close = 103,
       bar_volume = 20\<rparr>], cx_horizon = SWING, cx_spread_bps = 10\<rparr>"

definition surge_signal :: signal where
  "surge_signal = \<lparr>sig_strategy_id = ''crypto-volatility-breakout'', sig_strategy_version = ''1.0.0'',
     sig_instrument_id = ''BTC-USD'', sig_direction = LONG, sig_strength = 68 / 100, sig_horizon = SWING,
     sig_entry_price = 103, sig_invalidation_price = 98, sig_take_profit = 113,
     sig_research_required = False, sig_evidence_uris = []\<rparr>"

lemma surge_speaks: "case make_crypto (False, [1], - 2) (False, [5], - 2) (False, [2, 0], 0) (False, [5], 0) of
    Inl e \<Rightarrow> False | Inr S \<Rightarrow> (case st_evaluate S surge_context of Inr (Some s) \<Rightarrow> sig_entry_price s = 103 | _ \<Rightarrow> False)"
  by code_simp

definition dip_signal :: signal where
  "dip_signal = \<lparr>sig_strategy_id = ''opening-range-vwap'', sig_strategy_version = ''1.0.0'',
     sig_instrument_id = ''BTC-USD'', sig_direction = SHORT, sig_strength = - (5 / 100), sig_horizon = SWING,
     sig_entry_price = 102, sig_invalidation_price = 104, sig_take_profit = 99,
     sig_research_required = True, sig_evidence_uris = [''uri:dip'']\<rparr>"

definition rally_signal :: signal where
  "rally_signal = surge_signal\<lparr>sig_strategy_id := ''swing-breakout'', sig_strength := 9 / 10,
     sig_evidence_uris := [''uri:rally'', ''uri:rally'']\<rparr>"

text \<open>A crypto breakout out of twenty quiet bars is a long signal at the close of the last one.\<close>

theorem strategy_signals_well_formed_witness:
  "\<exists>S s. make_crypto (False, [1], - 2) (False, [5], - 2) (False, [2, 0], 0) (False, [5], 0) = Inr S \<and>
     st_evaluate S surge_context = Inr (Some s) \<and> validate_signal s = Inr s \<and> 0 < sig_invalidation_price s \<and>
     sig_entry_price s = 103"
proof -
  obtain S where S: "make_crypto (False, [1], - 2) (False, [5], - 2) (False, [2, 0], 0) (False, [5], 0) = Inr S"
      "case st_evaluate S surge_context of Inr (Some s) \<Rightarrow> sig_entry_price s = 103 | _ \<Rightarrow> False"
    using surge_speaks by (auto split: sum.splits)
  obtain s where s: "st_evaluate S surge_context = Inr (Some s)" "sig_entry_price s = 103"
    using S(2) by (auto split: sum.splits option.splits)
  have "library_strategy S"
    using S(1) unfolding library_strategy_def by blast
  then show ?thesis
    using strategy_signals_well_formed [OF _ s(1)] S(1) s by blast
qed

lemma ensemble_speaks: "case combine default_weights [dip_signal, rally_signal, surge_signal] None of
    Inr (Some s) \<Rightarrow> sig_evidence_uris s = [''uri:rally''] | _ \<Rightarrow> False"
  by code_simp

text \<open>A weak short signal that requires research does not stop two agreeing long ones.\<close>

theorem ensemble_is_coherent_witness:
  "\<exists>s. combine default_weights [dip_signal, rally_signal, surge_signal] None = Inr (Some s) \<and> validate_signal s = Inr s \<and>
     \<not> too_weak (sig_strength s) \<and> sig_evidence_uris s = [''uri:rally'']"
proof -
  obtain s where s: "combine default_weights [dip_signal, rally_signal, surge_signal] None = Inr (Some s)"
      "sig_evidence_uris s = [''uri:rally'']"
    using ensemble_speaks by (auto split: sum.splits option.splits)
  show ?thesis
    using ensemble_is_coherent [OF s(1)] s by simp
qed

end
