(* ===== verification/Paper.thy ===== *)
theory Paper
  imports FillModel LedgerRecovery Timestamps EventStore OrderMachine Capabilities
begin

text \<open>
  The deterministic paper broker of \<open>execution/paper.py\<close>: its records, bounds and encodings, the
  validation of intents and snapshots, the market cursor with its digests, and the pure pricing of an
  order against a bar.  SHA-256 is the parameter \<open>sha\<close>, from a byte string to its lowercase hexadecimal
  digest.  Dicts keep insertion order.
\<close>

section \<open>Bounds\<close>

definition paper_market_window :: nat where "paper_market_window = 64"
definition max_initial_bars :: int where "max_initial_bars = 1024"
definition max_session_events :: int where "max_session_events = 1000000"
definition max_session_orders :: int where "max_session_orders = 4096"
definition max_session_fills :: int where "max_session_fills = 100000"
definition max_session_instruments :: int where "max_session_instruments = 128"
definition max_group_activities :: int where "max_group_activities = 512"
definition max_event_payload_bytes :: int where "max_event_payload_bytes = 65536"
definition max_fills_per_order :: int where "max_fills_per_order = 10000"

definition identifier_shape :: "string \<Rightarrow> bool" where
  "identifier_shape = matches Domain.is_alnum (\<lambda>c. Domain.is_alnum c \<or> c \<in> set ''_.:@-'') 127"

definition venue_shape :: "string \<Rightarrow> bool" where
  "venue_shape = matches Domain.is_alnum (\<lambda>c. Domain.is_alnum c \<or> c \<in> set ''_.:-'') 63"

definition currency_shape :: "string \<Rightarrow> bool" where
  "currency_shape s \<longleftrightarrow> matches is_upper (\<lambda>c. is_upper c \<or> is_digit c) 11 s \<and> 3 \<le> length s"

definition timezone_shape :: "string \<Rightarrow> bool" where
  "timezone_shape = matches Domain.is_alnum (\<lambda>c. Domain.is_alnum c \<or> c \<in> set ''_+./-'') 127"

definition reason_shape :: "string \<Rightarrow> bool" where
  "reason_shape = matches is_upper (\<lambda>c. is_upper c \<or> is_digit c \<or> c = CHR ''_'') 63"

definition paper_providers :: "string list" where
  "paper_providers = [''fixture'', ''backtest'', ''yfinance'', ''alpaca'', ''groww'', ''ccxt'', ''paper'']"

definition closed_statuses :: "order_status list" where
  "closed_statuses = [FILLED, REJECTED, CANCELLED, EXPIRED]"

definition paper_capabilities :: broker_capabilities where
  "paper_capabilities = \<lparr>bc_broker = ''paper'', bc_supported_asset_classes = [EQUITY, CRYPTO_SPOT, FOREX, COMMODITY],
     bc_supported_order_types = [MARKET, LIMIT, STOP, STOP_LIMIT], bc_supports_fractional_quantity = True,
     bc_supports_notional_orders = True, bc_supports_partial_fills = True, bc_supports_shorting = False,
     bc_supports_leverage = False, bc_supports_derivatives = False, bc_supports_cancel = True, bc_is_paper = True\<rparr>"

section \<open>Bounded decimals\<close>

text \<open>\<open>_canonical_decimal_text\<close> on values: it drops trailing zeros, so only the value counts.\<close>

definition paper_text :: "dec \<Rightarrow> string option" where
  "paper_text v = (if v = 0 then Some ''0''
     else let e = adjusted v; t = dec_text v; scaled = v / pow10 (e - int paper_max_digits + 1) in
       if scaled \<noteq> of_int \<lfloor>scaled\<rfloor> \<or> \<bar>e\<bar> > paper_max_adjusted \<or> int (length t) > paper_max_text then None else Some t)"

definition bounded_decimal :: "dec \<Rightarrow> bool" where
  "bounded_decimal v \<longleftrightarrow> paper_text v \<noteq> None"

definition paper_positive :: "string \<Rightarrow> dec \<Rightarrow> dec result" where
  "paper_positive name v = (if \<not> bounded_decimal v \<or> v \<le> 0
     then Inl (ValueError (name @ '' must be a finite positive Decimal'')) else Inr v)"

definition paper_nonnegative :: "string \<Rightarrow> dec \<Rightarrow> dec result" where
  "paper_nonnegative name v = (if \<not> bounded_decimal v \<or> v < 0
     then Inl (ValueError (name @ '' must be a finite nonnegative Decimal'')) else Inr v)"

definition paper_aware :: "string \<Rightarrow> pydt \<Rightarrow> instant result" where
  "paper_aware name v = aware_utc (ValueError (name @ '' must be timezone-aware'')) v"

definition paper_decimal :: "dec \<Rightarrow> json result" where
  "paper_decimal v = (case paper_text v of
       None \<Rightarrow> Inl (ValueError ''Decimal exceeds canonical paper encoding bounds'') | Some t \<Rightarrow> Inr (JStr t))"

definition paper_optional_decimal :: "dec option \<Rightarrow> json result" where
  "paper_optional_decimal v = (case v of None \<Rightarrow> Inr JNull | Some d \<Rightarrow> paper_decimal d)"

text \<open>A mapping whose members are encoded in order; the first failure is raised.\<close>

definition members :: "(string \<times> json result) list \<Rightarrow> (string \<times> json) list result" where
  "members kvs = traverse (\<lambda>(k, r). rbind r (\<lambda>v. Inr (k, v))) kvs"

section \<open>Payloads\<close>

definition paper_intent_payload :: "order_intent \<Rightarrow> json result" where
  "paper_intent_payload i = rbind (members
     [(''intent_id'', Inr (JStr (oi_intent_id i))), (''instrument_id'', Inr (JStr (oi_instrument_id i))),
      (''side'', Inr (JStr (side_value (oi_side i)))), (''quantity'', paper_optional_decimal (oi_quantity i)),
      (''notional'', paper_optional_decimal (oi_notional i)), (''order_type'', Inr (JStr (order_type_value (oi_order_type i)))),
      (''limit_price'', paper_optional_decimal (oi_limit_price i)), (''trigger_price'', paper_optional_decimal (oi_trigger_price i)),
      (''stop_loss'', paper_optional_decimal (oi_stop_loss i)), (''take_profit'', paper_optional_decimal (oi_take_profit i)),
      (''time_in_force'', Inr (JStr (oi_time_in_force i))), (''product'', Inr (JStr (oi_product i))),
      (''session'', Inr (JStr (oi_session i))), (''snapshot_hash'', Inr (JStr (oi_snapshot_hash i))),
      (''created_at'', Inr (JStr (iso_text (oi_created_at i)))),
      (''expires_at'', Inr (JStr (iso_text (oi_expires_at i))))]) (\<lambda>kvs. Inr (JObj kvs))"

definition bar_payload :: "bar \<Rightarrow> json result" where
  "bar_payload b = rbind (members [(''at'', Inr (JStr (iso_text (bar_at b)))), (''open'', paper_decimal (bar_open b)),
     (''high'', paper_decimal (bar_high b)), (''low'', paper_decimal (bar_low b)), (''close'', paper_decimal (bar_close b)),
     (''volume'', paper_decimal (bar_volume b))]) (\<lambda>kvs. Inr (JObj kvs))"

definition snapshot_payload :: "market_snapshot \<Rightarrow> json result" where
  "snapshot_payload m = rbind (traverse bar_payload (ms_bars m)) (\<lambda>bars. Inr (JObj
     [(''instrument_id'', JStr (ms_instrument_id m)), (''observed_at'', JStr (iso_text (ms_observed_at m))),
      (''source_at'', JStr (iso_text (ms_source_at m))), (''bars'', JList bars), (''provider'', JStr (ms_provider m)),
      (''max_age_seconds'', JInt (ms_max_age_seconds m))]))"

definition instrument_payload :: "instrument \<Rightarrow> json result" where
  "instrument_payload i = rbind (members
     [(''symbol'', Inr (JStr (ins_symbol i))), (''venue'', Inr (JStr (ins_venue i))),
      (''asset_class'', Inr (JStr (asset_class_value (ins_asset_class i)))),
      (''quote_currency'', Inr (JStr (ins_quote_currency i))), (''timezone'', Inr (JStr (ins_timezone i))),
      (''price_tick'', paper_decimal (ins_price_tick i)), (''quantity_step'', paper_decimal (ins_quantity_step i)),
      (''minimum_notional'', paper_decimal (ins_minimum_notional i)),
      (''session_calendar'', Inr (case ins_session_calendar i of None \<Rightarrow> JNull | Some c \<Rightarrow> JStr c))])
     (\<lambda>kvs. Inr (JObj kvs))"

definition cost_payload :: "cost_model \<Rightarrow> json result" where
  "cost_payload c = rbind (members [(''fee_bps'', paper_decimal (cm_fee_bps c)), (''spread_bps'', paper_decimal (cm_spread_bps c)),
     (''slippage_bps'', paper_decimal (cm_slippage_bps c)), (''latency_microseconds'', Inr (JInt (cm_latency c)))])
     (\<lambda>kvs. Inr (JObj kvs))"

definition capabilities_payload :: json where
  "capabilities_payload = (let c = paper_capabilities in JObj
     [(''schema_version'', JInt 1), (''broker'', JStr (bc_broker c)),
      (''supported_asset_classes'', JList (map JStr (sort (map asset_class_value (bc_supported_asset_classes c))))),
      (''supported_order_types'', JList (map JStr (sort (map order_type_value (bc_supported_order_types c))))),
      (''supports_fractional_quantity'', JBool (bc_supports_fractional_quantity c)),
      (''supports_notional_orders'', JBool (bc_supports_notional_orders c)),
      (''supports_partial_fills'', JBool (bc_supports_partial_fills c)), (''supports_shorting'', JBool (bc_supports_shorting c)),
      (''supports_leverage'', JBool (bc_supports_leverage c)), (''supports_derivatives'', JBool (bc_supports_derivatives c)),
      (''supports_cancel'', JBool (bc_supports_cancel c)), (''is_paper'', JBool (bc_is_paper c))])"

section \<open>Digests\<close>

text \<open>\<open>bytes.fromhex\<close> on the lowercase digests the broker stores.\<close>

fun unhex :: "string \<Rightarrow> string" where
  "unhex (a # b # cs) = char_of (16 * hex_value a + hex_value b) # unhex cs"
| "unhex _ = []"

definition canonical_digest :: "(string \<Rightarrow> string) \<Rightarrow> json \<Rightarrow> string" where
  "canonical_digest sha j = sha (dumps j)"

definition empty_digest :: "(string \<Rightarrow> string) \<Rightarrow> string" where
  "empty_digest sha = sha ''[]''"

definition empty_bar_digest :: "(string \<Rightarrow> string) \<Rightarrow> string" where
  "empty_bar_digest sha = sha ''paper-market-bars-v1''"

definition next_bar_digest :: "(string \<Rightarrow> string) \<Rightarrow> string \<Rightarrow> bar \<Rightarrow> string result" where
  "next_bar_digest sha previous b = rbind (bar_payload b) (\<lambda>j. Inr (sha (unhex previous @ CHR 0x00 # dumps j)))"

fun bars_digest_from :: "(string \<Rightarrow> string) \<Rightarrow> string \<Rightarrow> bar list \<Rightarrow> string result" where
  "bars_digest_from sha digest [] = Inr digest"
| "bars_digest_from sha digest (b # bs) = rbind (next_bar_digest sha digest b) (\<lambda>d. bars_digest_from sha d bs)"

definition bars_digest :: "(string \<Rightarrow> string) \<Rightarrow> bar list \<Rightarrow> string result" where
  "bars_digest sha bars = bars_digest_from sha (empty_bar_digest sha) bars"

definition next_fill_ids_digest :: "(string \<Rightarrow> string) \<Rightarrow> string \<Rightarrow> string \<Rightarrow> string" where
  "next_fill_ids_digest sha previous fill_id = sha (unhex previous @ CHR 0x00 # fill_id)"

definition paper_order_id :: "(string \<Rightarrow> string) \<Rightarrow> string \<Rightarrow> string \<Rightarrow> string" where
  "paper_order_id sha session_id intent_id =
     ''paper-'' @ take 12 (sha session_id) @ ''-'' @ take 24 (sha intent_id)"

section \<open>The market cursor\<close>

record market_cursor =
  mc_total_count :: int
  mc_digest :: string
  mc_window :: "bar list"
  mc_last_delta_digest :: "string option"

text \<open>\<open>xs[-64:]\<close>.\<close>

definition last_bars :: "bar list \<Rightarrow> bar list" where
  "last_bars bars = drop (length bars - paper_market_window) bars"

definition cursor_from_bars :: "(string \<Rightarrow> string) \<Rightarrow> bar list \<Rightarrow> market_cursor result" where
  "cursor_from_bars sha bars = rbind (bars_digest sha bars) (\<lambda>d.
     Inr \<lparr>mc_total_count = int (length bars), mc_digest = d, mc_window = last_bars bars, mc_last_delta_digest = None\<rparr>)"

definition bounded_snapshot :: "market_snapshot \<Rightarrow> market_snapshot" where
  "bounded_snapshot m = m\<lparr>ms_bars := last_bars (ms_bars m)\<rparr>"

definition market_delta_digest ::
  "(string \<Rightarrow> string) \<Rightarrow> string \<Rightarrow> int \<Rightarrow> string \<Rightarrow> bar list \<Rightarrow> bar \<Rightarrow> instant \<Rightarrow> instant \<Rightarrow> string \<Rightarrow> int \<Rightarrow> string result" where
  "market_delta_digest sha instrument_id prior_count prior_digest overlap new_bar observed_at source_at provider max_age =
     rbind (traverse bar_payload overlap) (\<lambda>bars. rbind (bar_payload new_bar) (\<lambda>b.
     Inr (canonical_digest sha (JObj [(''instrument_id'', JStr instrument_id), (''prior_bar_count'', JInt prior_count),
       (''prior_bars_digest'', JStr prior_digest), (''overlap'', JList bars), (''new_bar'', b),
       (''observed_at'', JStr (iso_text observed_at)), (''source_at'', JStr (iso_text source_at)),
       (''provider'', JStr provider), (''max_age_seconds'', JInt max_age)]))))"

section \<open>Intents\<close>

definition protection_brackets :: "side \<Rightarrow> dec \<Rightarrow> dec \<Rightarrow> dec list \<Rightarrow> bool" where
  "protection_brackets s stop_loss take_profit references = (case s of
       BUY \<Rightarrow> list_all (\<lambda>r. stop_loss < r \<and> r < take_profit) references
     | SELL \<Rightarrow> list_all (\<lambda>r. r < stop_loss \<and> take_profit < r) references)"

definition optional_positive :: "string \<Rightarrow> dec option \<Rightarrow> unit result" where
  "optional_positive name v = (case v of None \<Rightarrow> Inr () | Some d \<Rightarrow> rbind (paper_positive name d) (\<lambda>_. Inr ()))"

definition declared_prices :: "dec option \<Rightarrow> dec option \<Rightarrow> dec list" where
  "declared_prices a b = (case a of None \<Rightarrow> [] | Some v \<Rightarrow> [v]) @ (case b of None \<Rightarrow> [] | Some v \<Rightarrow> [v])"

text \<open>The protection of a paper entry is declared and brackets every declared price.\<close>

definition check_protection :: "order_intent \<Rightarrow> unit result" where
  "check_protection i = (case (oi_stop_loss i, oi_take_profit i) of
       (Some stop_loss, Some take_profit) \<Rightarrow>
         let references = declared_prices (oi_trigger_price i) (oi_limit_price i) in
         if oi_side i = BUY \<and> take_profit \<le> stop_loss
         then Inl (ValueError ''buy protection must keep stop_loss below take_profit'')
         else if oi_side i = SELL \<and> stop_loss \<le> take_profit
         then Inl (ValueError ''sell protection must keep stop_loss above take_profit'')
         else if references \<noteq> [] \<and> \<not> protection_brackets (oi_side i) stop_loss take_profit references
         then Inl (ValueError (side_value (oi_side i) @ '' protection must bracket every declared entry price''))
         else Inr ()
     | _ \<Rightarrow> Inl (ValueError ''paper entries require stop_loss and take_profit''))"

definition validate_intent_shape :: "order_intent \<Rightarrow> unit result" where
  "validate_intent_shape i =
     rbind (require (identifier_shape (oi_intent_id i)) (ValueError ''intent_id must be a safe stable identifier'')) (\<lambda>_.
     rbind (require (identifier_shape (oi_instrument_id i)) (ValueError ''instrument_id must be a safe stable identifier'')) (\<lambda>_.
     rbind (require ((oi_quantity i = None) \<noteq> (oi_notional i = None)) (ValueError ''exactly one order size must be populated'')) (\<lambda>_.
     rbind (optional_positive ''quantity'' (oi_quantity i)) (\<lambda>_.
     rbind (optional_positive ''notional'' (oi_notional i)) (\<lambda>_.
     rbind (optional_positive ''limit_price'' (oi_limit_price i)) (\<lambda>_.
     rbind (optional_positive ''trigger_price'' (oi_trigger_price i)) (\<lambda>_.
     rbind (optional_positive ''stop_loss'' (oi_stop_loss i)) (\<lambda>_.
     rbind (optional_positive ''take_profit'' (oi_take_profit i)) (\<lambda>_.
     rbind (require ((oi_limit_price i \<noteq> None, oi_trigger_price i \<noteq> None) = expected_price_fields (oi_order_type i))
       (ValueError ''order type requires its exact limit/trigger fields'')) (\<lambda>_.
     rbind (check_protection i) (\<lambda>_.
     rbind (require (oi_order_type i = STOP_LIMIT \<longrightarrow> stop_limit_ok i) (ValueError (side_value (oi_side i) @
       (if oi_side i = BUY then '' stop-limit protection requires limit at or above trigger''
        else '' stop-limit protection requires limit at or below trigger'')))) (\<lambda>_.
     rbind (require (oi_time_in_force i = ''day'') (ValueError ''paper time_in_force must be day'')) (\<lambda>_.
     rbind (require (oi_product i = ''cash'') (ValueError ''paper product must be cash'')) (\<lambda>_.
     rbind (require (oi_session i = ''regular'') (ValueError ''paper session must be regular'')) (\<lambda>_.
     rbind (require (is_sha256_text (oi_snapshot_hash i)) (ValueError ''snapshot_hash must be a lowercase sha256 digest'')) (\<lambda>_.
     require (oi_created_at i < oi_expires_at i) (ValueError ''intent expires_at must follow created_at'')))))))))))))))))"

text \<open>The prices an order may enter at: the last close for a market order, else what it declares.\<close>

definition entry_references :: "order_intent \<Rightarrow> market_snapshot \<Rightarrow> dec list" where
  "entry_references i m = (case oi_order_type i of
       MARKET \<Rightarrow> [bar_close (last (ms_bars m))]
     | _ \<Rightarrow> declared_prices (oi_trigger_price i) (oi_limit_price i))"

definition validate_protective_prices :: "order_intent \<Rightarrow> market_snapshot \<Rightarrow> unit result" where
  "validate_protective_prices i m = (case (oi_stop_loss i, oi_take_profit i) of
       (Some stop_loss, Some take_profit) \<Rightarrow>
         require (protection_brackets (oi_side i) stop_loss take_profit (entry_references i m))
           (ValueError (side_value (oi_side i) @ '' protection must bracket every executable entry reference''))
     | _ \<Rightarrow> Inl (RuntimeError ''AssertionError''))"

definition validate_intent_for :: "order_intent \<Rightarrow> market_snapshot \<Rightarrow> unit result" where
  "validate_intent_for i m = rbind (validate_intent_shape i) (\<lambda>_. validate_protective_prices i m)"

section \<open>Snapshots\<close>

text \<open>The bars of a snapshot, in order; \<open>previous\<close> is the time of the bar before.\<close>

fun check_bars :: "instant \<Rightarrow> instant option \<Rightarrow> bar list \<Rightarrow> unit result" where
  "check_bars source_at previous [] = Inr ()"
| "check_bars source_at previous (b # bs) =
     rbind (require (case previous of None \<Rightarrow> True | Some t \<Rightarrow> t < bar_at b)
       (ValueError ''snapshot bars must be strictly chronological'')) (\<lambda>_.
     rbind (require (bar_at b \<le> source_at) (ValueError ''bar timestamp cannot be after snapshot source timestamp'')) (\<lambda>_.
     rbind (traverse (paper_positive ''bar price'') [bar_open b, bar_high b, bar_low b, bar_close b]) (\<lambda>_.
     rbind (require (bar_low b \<le> min (bar_open b) (bar_close b) \<and> max (bar_open b) (bar_close b) \<le> bar_high b)
       (ValueError ''snapshot bar OHLC values are inconsistent'')) (\<lambda>_.
     rbind (paper_nonnegative ''bar volume'' (bar_volume b)) (\<lambda>_.
     check_bars source_at (Some (bar_at b)) bs)))))"

definition validate_snapshot :: "market_snapshot \<Rightarrow> string \<Rightarrow> int \<Rightarrow> unit result" where
  "validate_snapshot m instrument_id max_bars =
     rbind (require (ms_instrument_id m = instrument_id) (ValueError ''snapshot instrument identity must match the order'')) (\<lambda>_.
     rbind (require (ms_provider m \<in> set paper_providers) (ValueError ''snapshot provider must be canonical'')) (\<lambda>_.
     rbind (require (0 \<le> ms_max_age_seconds m) (ValueError ''snapshot max_age_seconds must be a nonnegative integer'')) (\<lambda>_.
     rbind (require (ms_source_at m \<le> ms_observed_at m) (ValueError ''snapshot source timestamp cannot be in the future'')) (\<lambda>_.
     rbind (require (ms_observed_at m - ms_source_at m \<le> seconds (ms_max_age_seconds m))
       (ValueError ''snapshot is stale at observation time'')) (\<lambda>_.
     rbind (require (ms_bars m \<noteq> [] \<and> int (length (ms_bars m)) \<le> max_bars)
       (ValueError ''snapshot bars must be a nonempty tuple'')) (\<lambda>_.
     rbind (check_bars (ms_source_at m) None (ms_bars m)) (\<lambda>_.
     require (bar_at (last (ms_bars m)) = ms_source_at m)
       (ValueError ''snapshot source timestamp must equal its latest bar''))))))))"

definition same_metadata :: "market_snapshot \<Rightarrow> market_snapshot \<Rightarrow> bool" where
  "same_metadata m n \<longleftrightarrow> ms_observed_at m = ms_observed_at n \<and> ms_source_at m = ms_source_at n \<and>
     ms_provider m = ms_provider n \<and> ms_max_age_seconds m = ms_max_age_seconds n"

text \<open>A natural prefix is matched to the retained window; \<open>xs[-n:]\<close> and \<open>xs[-(n+1):-1]\<close> are tails.\<close>

definition tail_of :: "nat \<Rightarrow> 'a list \<Rightarrow> 'a list" where
  "tail_of n xs = drop (length xs - n) xs"

definition normalize_full_prefix ::
  "(string \<Rightarrow> string) \<Rightarrow> market_snapshot option \<Rightarrow> market_cursor option \<Rightarrow> market_snapshot \<Rightarrow> string \<Rightarrow> market_snapshot result" where
  "normalize_full_prefix sha previous cursor m instrument_id = (case (previous, cursor) of
       (Some p, Some c) \<Rightarrow>
         let n = int (length (ms_bars m)); revision = ValueError ''snapshot revision or backward event is not allowed'' in
         if n = mc_total_count c \<and> n = int (length (ms_bars p)) \<and> m \<noteq> p then Inl revision
         else rbind (validate_snapshot m instrument_id max_initial_bars) (\<lambda>_.
           if m = p then Inr m
           else if n = mc_total_count c then
             if same_metadata m p \<and> last (ms_bars m) = last (mc_window c) \<and>
               tail_of (length (mc_window c)) (ms_bars m) = mc_window c
             then rbind (bars_digest sha (ms_bars m)) (\<lambda>d. if d = mc_digest c then Inr p else Inl revision)
             else Inl revision
           else if max_initial_bars \<le> mc_total_count c
           then Inl (ValueError ''snapshot requires the explicit rolling window API'')
           else if n \<noteq> mc_total_count c + 1 then Inl (ValueError ''snapshot must contain exactly one unseen event'')
           else if butlast (tail_of (length (mc_window c) + 1) (ms_bars m)) \<noteq> mc_window c
           then Inl (ValueError ''snapshot trailing overlap does not match the retained cursor'')
           else Inr (m\<lparr>ms_bars := mc_window c @ [last (ms_bars m)]\<rparr>))
     | _ \<Rightarrow> Inl (ValueError ''snapshot has no submitted paper cursor''))"

text \<open>One explicit market delta after the retained prefix.\<close>

record rolling_window =
  rw_instrument_id :: string
  rw_observed_at :: instant
  rw_source_at :: instant
  rw_prior_bar_count :: int
  rw_prior_bars_digest :: string
  rw_overlap :: "bar list"
  rw_new_bar :: bar
  rw_provider :: string
  rw_max_age_seconds :: int

definition window_digest :: "(string \<Rightarrow> string) \<Rightarrow> string \<Rightarrow> rolling_window \<Rightarrow> string result" where
  "window_digest sha instrument_id w = market_delta_digest sha instrument_id (rw_prior_bar_count w) (rw_prior_bars_digest w)
     (rw_overlap w) (rw_new_bar w) (rw_observed_at w) (rw_source_at w) (rw_provider w) (rw_max_age_seconds w)"

definition snapshot_from_window ::
  "(string \<Rightarrow> string) \<Rightarrow> market_cursor option \<Rightarrow> market_snapshot option \<Rightarrow> instrument option \<Rightarrow> rolling_window \<Rightarrow>
   instrument \<Rightarrow> string \<Rightarrow> market_snapshot result" where
  "snapshot_from_window sha cursor previous previous_instrument w ins instrument_id =
     (let mismatch = ValueError ''rolling input does not match the retained market cursor'' in
      if (case previous_instrument of None \<Rightarrow> False | Some j \<Rightarrow> j \<noteq> ins)
      then Inl (ValueError ''rolling instrument metadata changed within the paper session'')
      else case (cursor, previous) of
        (Some c, Some p) \<Rightarrow>
          if rw_instrument_id w \<noteq> instrument_id \<or> \<not> is_sha256_text (rw_prior_bars_digest w) then Inl mismatch
          else let m = \<lparr>ms_instrument_id = instrument_id, ms_observed_at = rw_observed_at w, ms_source_at = rw_source_at w,
              ms_bars = rw_overlap w @ [rw_new_bar w], ms_provider = rw_provider w,
              ms_max_age_seconds = rw_max_age_seconds w\<rparr> in
            rbind (validate_market_snapshot m) (\<lambda>_. rbind (validate_snapshot m instrument_id (int paper_market_window + 1)) (\<lambda>_.
            if rw_prior_bar_count w = mc_total_count c then
              if rw_prior_bars_digest w \<noteq> mc_digest c \<or> rw_overlap w \<noteq> mc_window c then Inl mismatch else Inr m
            else rbind (window_digest sha instrument_id w) (\<lambda>retry.
              if rw_prior_bar_count w + 1 = mc_total_count c then
                rbind (next_bar_digest sha (rw_prior_bars_digest w) (rw_new_bar w)) (\<lambda>d.
                if d = mc_digest c \<and> last_bars (rw_overlap w @ [rw_new_bar w]) = mc_window c \<and> same_metadata m p \<and>
                  Some retry = mc_last_delta_digest c then Inr p else Inl mismatch)
              else Inl mismatch)))
      | _ \<Rightarrow> Inl mismatch)"

definition paper_instrument_id :: "instrument \<Rightarrow> string result" where
  "paper_instrument_id i =
     rbind (require (venue_shape (ins_symbol i) \<and> venue_shape (ins_venue i) \<and> currency_shape (ins_quote_currency i) \<and>
         timezone_shape (ins_timezone i) \<and> (case ins_session_calendar i of None \<Rightarrow> True | Some c \<Rightarrow> identifier_shape c))
       (ValueError ''instrument metadata must contain safe bounded identifiers'')) (\<lambda>_.
     rbind (paper_positive ''instrument price tick'' (ins_price_tick i)) (\<lambda>_.
     rbind (paper_positive ''instrument quantity step'' (ins_quantity_step i)) (\<lambda>_.
     rbind (paper_positive ''instrument minimum notional'' (ins_minimum_notional i)) (\<lambda>_.
     Inr (ins_symbol i @ ''@'' @ ins_venue i)))))"

end
