(* ===== verification/LedgerSteps.thy ===== *)
theory LedgerSteps
  imports LedgerRecovery Actions
begin

text \<open>
  The two operations of the ledger that change it in place, step by step: what an exception in the
  middle leaves behind.  \<open>apply_fill\<close> books the fill and then revalues; \<open>mark\<close> stores the new valuation
  and then builds its snapshot.  On a well-formed ledger neither raises once it has begun to write, so
  both agree with their transactional counterparts.
\<close>

definition fill_checks :: "fill \<Rightarrow> ledger \<Rightarrow> unit result" where
  "fill_checks f L =
     rbind (require_positive_decimal ''quantity'' (fl_quantity f)) (\<lambda>_.
     rbind (require_positive_decimal ''price'' (fl_price f)) (\<lambda>_.
     rbind (require_nonnegative_decimal ''fee'' (fl_fee f)) (\<lambda>_.
     rbind (require (fl_fill_id f \<notin> lg_fill_ids L) (DuplicateFillError (''fill ID already applied: '' @ fl_fill_id f))) (\<lambda>_.
     require (case (fl_side f, dget (lg_positions L) (fl_instrument_id f)) of
         (SELL, None) \<Rightarrow> False | (SELL, Some p) \<Rightarrow> fl_quantity f \<le> pst_quantity p | (BUY, _) \<Rightarrow> True)
       (InsufficientPositionError (''cannot sell '' @ fl_instrument_id f))))))"

definition fill_ledger :: "fill \<Rightarrow> (ledger, unit) action" where
  "fill_ledger f = then_do (reads (fill_checks f)) (\<lambda>_. then_do (modify (booked f)) (\<lambda>_. writes revalue))"

text \<open>The time, the prices and the valuation of a mark, checked before anything is stored.\<close>

definition marked_state :: "(string, dec) dict \<Rightarrow> pydt \<Rightarrow> ledger \<Rightarrow> (instant \<times> ledger) result" where
  "marked_state prices tm L =
     rbind (normalize_aware_datetime tm) (\<lambda>observed_at.
     rbind (traverse (\<lambda>(i, v). rbind (require_positive_decimal ''price'' v) (\<lambda>w. Inr (i, w))) prices)
       (\<lambda>validated.
     case filter (\<lambda>i. i \<notin> set (dkeys validated)) (dkeys (lg_positions L)) of
       i # _ \<Rightarrow> Inl (ValueError (''missing price for open position: '' @ i))
     | [] \<Rightarrow> let candidate = dict_union (lg_market_prices L) validated in
         rbind (valuation candidate L) (\<lambda>(equity, peak, dd).
         Inr (observed_at, L\<lparr>lg_market_prices := candidate, lg_equity := equity, lg_peak_equity := peak,
           lg_drawdown := dd\<rparr>))))"

definition mark_ledger :: "(string, dec) dict \<Rightarrow> pydt \<Rightarrow> (ledger, portfolio_snapshot) action" where
  "mark_ledger prices tm = then_do (reads (marked_state prices tm)) (\<lambda>(observed_at, L').
     then_do (modify (\<lambda>_. L')) (\<lambda>_. reads (snapshot_at observed_at)))"

lemma fill_checks_valid: "fill_checks f L = Inr () \<longleftrightarrow> fill_valid f L"
  unfolding fill_checks_def fill_valid_def
  by (cases "fl_side f"; cases "dget (lg_positions L) (fl_instrument_id f)") (auto simp: result_simps)

lemma fill_ledger_eq:
  "fill_ledger f L = (case fill_checks f L of Inl e \<Rightarrow> (Inl e, L)
     | Inr _ \<Rightarrow> (case revalue (booked f L) of Inl e \<Rightarrow> (Inl e, booked f L) | Inr L' \<Rightarrow> (Inr (), L')))"
  by (auto simp: fill_ledger_def then_do_def reads_def modify_def writes_def split: sum.split)

text \<open>A fill that is booked is one \<open>apply_fill\<close> accepts.\<close>

lemma fill_ledger_Inr: "fill_ledger f L = (Inr u, L') \<longleftrightarrow> apply_fill f L = Inr L'"
proof (cases "fill_valid f L")
  case True
  then show ?thesis
    using fill_checks_valid [of f L] by (auto simp: fill_ledger_eq apply_fill_valid split: sum.split)
next
  case False
  then obtain e where "fill_checks f L = Inl e"
    using fill_checks_valid [of f L] by (cases "fill_checks f L") auto
  then show ?thesis
    using False apply_fill_Inr_valid [of f L L'] by (auto simp: fill_ledger_eq)
qed

lemma fill_ledger_raises:
  assumes "positions_ok L" "fill_ledger f L = (Inl e, L')"
  shows "L' = L"
proof (cases "fill_checks f L")
  case (Inr u)
  then obtain L1 where "revalue (booked f L) = Inr L1"
    using revalue_total [OF positions_ok_booked [OF assms(1)]] fill_checks_valid [of f L] by auto
  then show ?thesis
    using assms(2) Inr by (simp add: fill_ledger_eq)
qed (use assms(2) in \<open>simp add: fill_ledger_eq\<close>)

lemma ledger_step_positions: "positions_ok L \<Longrightarrow> ledger_step x L = Inr L' \<Longrightarrow> positions_ok L'"
proof (cases x)
  case (Fill f)
  assume "positions_ok L" "ledger_step x L = Inr L'"
  then show ?thesis
    using Fill positions_ok_booked [of L f] by (auto simp: positions_ok_def dest!: apply_fill_InrD)
next
  case (Mark prices tm)
  assume "positions_ok L" "ledger_step x L = Inr L'"
  then show ?thesis
    using Mark positions_ok_marked [of L prices] by (auto simp: rbind_eq_Inr dest!: mark_InrD)
qed

lemma mark_ledger_eq:
  "mark_ledger prices tm L = (case marked_state prices tm L of Inl e \<Rightarrow> (Inl e, L)
     | Inr (t, L') \<Rightarrow> (snapshot_at t L', L'))"
  by (auto simp: mark_ledger_def then_do_def reads_def modify_def split: sum.split)

lemma mark_by_state: "mark prices tm L = rbind (marked_state prices tm L) (\<lambda>(t, L').
    rbind (snapshot_at t L') (\<lambda>s. Inr (s, L')))"
  unfolding mark_def marked_state_def rbind_def Let_def by (auto split: sum.split list.split)

lemma mark_ledger_Inr: "mark_ledger prices tm L = (Inr s, L') \<longleftrightarrow> mark prices tm L = Inr (s, L')"
  by (auto simp: mark_ledger_eq mark_by_state rbind_eq_Inr split: sum.split)

lemma marked_state_ok:
  assumes "positions_ok L" "marked_state prices tm L = Inr (t, L')"
  shows "positions_ok L' \<and> (\<exists>s. snapshot_at t L' = Inr s)"
proof -
  have v: "traverse (\<lambda>(i, v). rbind (require_positive_decimal ''price'' v) (\<lambda>w. Inr (i, w))) ps = Inr qs \<longleftrightarrow>
      qs = ps \<and> prices_valid ps" for ps qs
    by (induction ps arbitrary: qs) (auto simp: result_simps prices_valid_def)
  obtain e p d where m: "prices_valid prices" "set (dkeys (lg_positions L)) \<subseteq> set (dkeys prices)"
      "L' = L\<lparr>lg_market_prices := dict_union (lg_market_prices L) prices, lg_equity := e, lg_peak_equity := p, lg_drawdown := d\<rparr>"
    using assms(2) unfolding marked_state_def Let_def list.case_eq_if
    by (auto simp: rbind_eq_Inr v filter_empty_conv image_subset_iff split: if_split_asm)
  then show ?thesis
    using positions_ok_marked [OF assms(1) m(1,2)] snapshot_at_total by auto
qed

lemma mark_ledger_raises:
  assumes "positions_ok L" "mark_ledger prices tm L = (Inl e, L')"
  shows "L' = L"
proof (cases "marked_state prices tm L")
  case (Inr x)
  then show ?thesis
    using assms(2) marked_state_ok [OF assms(1), of prices tm] by (cases x) (auto simp: mark_ledger_eq)
qed (use assms(2) in \<open>simp add: mark_ledger_eq\<close>)

end
