(* ===== verification/PaperOrders.thy ===== *)
theory PaperOrders
  imports Paper LedgerSteps
begin

text \<open>
  The state of a paper session and the execution of one order against one bar: pricing, allocation,
  the guards of a fill and its booking, with the audit evidence of each; the indexes of executable and
  unknown orders.  The state is mutated in place, so what changes it is an action: it leaves a state
  also when it raises.  A value the code casts from \<open>None\<close> is a \<open>RuntimeError\<close> here; the session invariant
  excludes it.
\<close>

section \<open>State\<close>

record paper_order =
  po_intent :: order_intent
  po_order :: broker_order
  po_submitted_source_at :: instant
  po_submission_reference_price :: dec
  po_remaining_notional :: "dec option"
  po_cumulative_filled_notional :: dec
  po_cumulative_fees :: dec
  po_stop_triggered :: bool
  po_fill_count :: int
  po_last_fill_at :: "instant option"
  po_last_fill_id :: "string option"

record audit_spec =
  as_kind :: string
  as_client_intent_id :: string
  as_broker_order_id :: string
  as_occurred_at :: instant
  as_prior_status :: "order_status option"
  as_new_status :: "order_status option"
  as_payload :: "(string \<times> json) list"

record paper_state =
  px_orders :: "(string, paper_order) dict"
  px_client_orders :: "(string, string) dict"
  px_active :: "(string, string list) dict"
  px_unknown :: "(string, string list) dict"
  px_snapshots :: "(string, market_snapshot) dict"
  px_cursors :: "(string, market_cursor) dict"
  px_fills :: "fill list"
  px_event_sequence :: int
  px_operation_sequence :: int
  px_fill_sequence :: int
  px_state_digest :: string
  px_fill_ids_digest :: string
  px_ledger :: ledger
  px_market_prices :: "(string, dec) dict"
  px_instruments :: "(string, instrument) dict"
  px_latest_at :: "instant option"
  px_last_event_key :: "(instant \<times> instant \<times> string) option"

definition is_market_executable :: "order_status \<Rightarrow> bool" where
  "is_market_executable s \<longleftrightarrow> s \<notin> set closed_statuses \<and> s \<noteq> UNKNOWN"

definition state_positions :: "paper_state \<Rightarrow> position list result" where
  "state_positions S = (case px_latest_at S of
       None \<Rightarrow> Inr []
     | Some t \<Rightarrow> rbind (ledger_snapshot (Aware t) (px_ledger S)) (\<lambda>s. Inr (ps_positions s)))"

text \<open>\<open>next((position.quantity ...), 0)\<close>.\<close>

definition held_quantity :: "string \<Rightarrow> position list \<Rightarrow> dec" where
  "held_quantity instrument_id ps = (case filter (\<lambda>p. pos_instrument_id p = instrument_id) ps of
       [] \<Rightarrow> 0 | p # _ \<Rightarrow> pos_quantity p)"

definition validate_watermark :: "paper_state \<Rightarrow> instant \<Rightarrow> unit result" where
  "validate_watermark S t = require (case px_latest_at S of None \<Rightarrow> True | Some l \<Rightarrow> l \<le> t)
     (ValueError ''global operation chronology regression is not allowed'')"

section \<open>Order indexes\<close>

definition index_get :: "(string, string list) dict \<Rightarrow> string \<Rightarrow> string list" where
  "index_get index i = (case dget index i of None \<Rightarrow> [] | Some ids \<Rightarrow> ids)"

definition replace_order_index :: "string \<Rightarrow> string list \<Rightarrow> (string, string list) dict \<Rightarrow> (string, string list) dict" where
  "replace_order_index i ids index = (if index_get index i = ids then index
     else if ids \<noteq> [] then dset i ids index else ddel i index)"

definition set_index_membership :: "string \<Rightarrow> string \<Rightarrow> bool \<Rightarrow> (string, string list) dict \<Rightarrow> (string, string list) dict" where
  "set_index_membership i order_id included index =
     (let current = index_get index i in
      if included then if order_id \<in> set current then index else dset i (sort (current @ [order_id])) index
      else if order_id \<in> set current then replace_order_index i (filter (\<lambda>c. c \<noteq> order_id) current) index
      else index)"

definition sync_order_indexes :: "paper_order \<Rightarrow> paper_state \<Rightarrow> paper_state" where
  "sync_order_indexes r S =
     (let o1 = po_order r; i = bo_instrument_id o1; oid = bo_order_id o1 in
      S\<lparr>px_active := set_index_membership i oid (is_market_executable (bo_status o1)) (px_active S),
        px_unknown := set_index_membership i oid (bo_status o1 = UNKNOWN) (px_unknown S)\<rparr>)"

section \<open>Evidence\<close>

definition transition_spec :: "order_transition_event \<Rightarrow> audit_spec" where
  "transition_spec e = \<lparr>as_kind = ''paper.order.transition'', as_client_intent_id = te_client_intent_id e,
     as_broker_order_id = te_broker_order_id e, as_occurred_at = te_occurred_at e,
     as_prior_status = Some (te_prior_status e), as_new_status = Some (te_new_status e),
     as_payload = [(''prior_status'', JStr (order_status_value (te_prior_status e))),
       (''new_status'', JStr (order_status_value (te_new_status e)))]\<rparr>"

definition activity_spec ::
  "string \<Rightarrow> broker_order \<Rightarrow> instant \<Rightarrow> (string \<times> json) list \<Rightarrow> order_status option \<Rightarrow> audit_spec" where
  "activity_spec k b t payload new_status = \<lparr>as_kind = k, as_client_intent_id = bo_client_order_id b,
     as_broker_order_id = bo_order_id b, as_occurred_at = t, as_prior_status = Some (bo_status b),
     as_new_status = Some (case new_status of None \<Rightarrow> bo_status b | Some s \<Rightarrow> s), as_payload = payload\<rparr>"

definition stage_transition :: "broker_order \<Rightarrow> order_status \<Rightarrow> instant \<Rightarrow> (broker_order \<times> order_transition_event) result" where
  "stage_transition b s t = rbind (transition b s (Aware t) record_event []) (\<lambda>(b', trail). Inr (b', hd trail))"

section \<open>Pricing\<close>

definition present :: "'a option \<Rightarrow> 'a result" where
  "present v = (case v of None \<Rightarrow> Inl (RuntimeError ''unsupported operand type: NoneType'') | Some x \<Rightarrow> Inr x)"

definition limit_reference :: "order_intent \<Rightarrow> bar \<Rightarrow> dec option result" where
  "limit_reference i b = rbind (present (oi_limit_price i)) (\<lambda>limit. Inr (case oi_side i of
       BUY \<Rightarrow> if bar_low b \<le> limit then Some (min (bar_open b) limit) else None
     | SELL \<Rightarrow> if limit \<le> bar_high b then Some (max (bar_open b) limit) else None))"

text \<open>The reference price, whether the stop triggers on this bar, and whether a fill may follow.\<close>

definition reference_price :: "paper_order \<Rightarrow> bar \<Rightarrow> (dec option \<times> bool \<times> bool) result" where
  "reference_price r b = (let i = po_intent r in
     if oi_order_type i = MARKET then Inr (Some (bar_open b), False, True)
     else if oi_order_type i = LIMIT then rbind (limit_reference i b) (\<lambda>p. Inr (p, False, True))
     else rbind (present (oi_trigger_price i)) (\<lambda>trigger.
       if po_stop_triggered r then
         if oi_order_type i = STOP then Inr (Some (bar_open b), False, True)
         else rbind (limit_reference i b) (\<lambda>p. Inr (p, False, True))
       else if \<not> (case oi_side i of BUY \<Rightarrow> trigger \<le> bar_high b | SELL \<Rightarrow> bar_low b \<le> trigger)
       then Inr (None, False, False)
       else if oi_order_type i = STOP
       then Inr (Some (case oi_side i of BUY \<Rightarrow> max (bar_open b) trigger | SELL \<Rightarrow> min (bar_open b) trigger), True, True)
       else Inr (None, True, False)))"

definition respects_order_prices :: "order_intent \<Rightarrow> dec \<Rightarrow> bool" where
  "respects_order_prices i price \<longleftrightarrow>
     (case oi_limit_price i of None \<Rightarrow> True
      | Some limit \<Rightarrow> (case oi_side i of BUY \<Rightarrow> price \<le> limit | SELL \<Rightarrow> limit \<le> price)) \<and>
     (case (oi_stop_loss i, oi_take_profit i) of
        (Some stop_loss, Some take_profit) \<Rightarrow> (case oi_side i of
            BUY \<Rightarrow> stop_loss < price \<and> price < take_profit
          | SELL \<Rightarrow> price < stop_loss \<and> take_profit < price)
      | _ \<Rightarrow> True)"

definition remaining_quantity :: "paper_order \<Rightarrow> dec \<Rightarrow> instrument \<Rightarrow> dec result" where
  "remaining_quantity r reference ins =
     rbind (paper_positive ''instrument quantity step'' (ins_quantity_step ins)) (\<lambda>_.
     rbind (paper_positive ''instrument price tick'' (ins_price_tick ins)) (\<lambda>_.
     rbind (paper_positive ''instrument minimum notional'' (ins_minimum_notional ins)) (\<lambda>_.
     case bo_requested_quantity (po_order r) of
       Some q \<Rightarrow>
         rbind (paper_positive ''requested quantity'' q) (\<lambda>requested.
         rbind (allocate_quantity (ins_quantity_step ins) requested requested) (\<lambda>allocated.
         if allocated \<noteq> requested then Inl (ValueError ''requested quantity must align with instrument quantity step'')
         else Inr (dsub requested (bo_filled_quantity (po_order r)))))
     | None \<Rightarrow> rbind (present (po_remaining_notional r)) (\<lambda>left. Inr (ddiv left reference)))))"

definition original_requested_notional :: "paper_order \<Rightarrow> dec result" where
  "original_requested_notional r = (case oi_notional (po_intent r) of
       Some n \<Rightarrow> Inr n
     | None \<Rightarrow> rbind (present (oi_quantity (po_intent r))) (\<lambda>quantity. Inr (dmul quantity
         (case declared_prices (oi_limit_price (po_intent r)) (oi_trigger_price (po_intent r)) of
            [] \<Rightarrow> po_submission_reference_price r | p # ps \<Rightarrow> foldl min p ps))))"

section \<open>One order against one bar\<close>

definition fill_id_of :: "string \<Rightarrow> paper_state \<Rightarrow> string" where
  "fill_id_of session_id S = session_id @ '':fill:'' @ padded 20 (px_fill_sequence S + 1)"

text \<open>The fill the model proposes: for a notional order its quantity is bounded a second time, at the
  fill price.\<close>

definition candidate_fill ::
  "cost_model \<Rightarrow> string \<Rightarrow> paper_order \<Rightarrow> instant \<Rightarrow> instrument \<Rightarrow> dec \<Rightarrow> dec \<Rightarrow> fill option result" where
  "candidate_fill costs fill_id r observed_at ins liquidity reference =
     rbind (remaining_quantity r reference ins) (\<lambda>remaining.
     rbind (allocate_quantity (ins_quantity_step ins) remaining liquidity) (\<lambda>quantity.
     if quantity \<le> 0 then Inr None
     else let make = (\<lambda>q. model_fill costs fill_id (bo_order_id (po_order r)) ins (oi_side (po_intent r)) q reference
         (Aware (bo_submitted_at (po_order r))) (Aware observed_at)) in
       rbind (make quantity) (\<lambda>candidate.
       case po_remaining_notional r of
         None \<Rightarrow> Inr (Some candidate)
       | Some left \<Rightarrow>
           rbind (allocate_quantity (ins_quantity_step ins) (ddiv left (fl_price candidate)) liquidity) (\<lambda>affordable.
           if affordable \<le> 0 then Inr None
           else if affordable < fl_quantity candidate then rbind (make affordable) (\<lambda>c. Inr (Some c))
           else Inr (Some candidate)))))"

definition fill_admissible :: "paper_state \<Rightarrow> paper_order \<Rightarrow> instrument \<Rightarrow> dec \<Rightarrow> fill \<Rightarrow> bool result" where
  "fill_admissible S r ins reference f =
     (if \<not> respects_order_prices (po_intent r) (fl_price f) then Inr False
      else let notional = dmul (fl_quantity f) (fl_price f) in
      rbind (case oi_notional (po_intent r) of Some n \<Rightarrow> Inr n
          | None \<Rightarrow> rbind (present (oi_quantity (po_intent r))) (\<lambda>q. Inr (dmul q reference))) (\<lambda>requested_value.
      if requested_value < ins_minimum_notional ins then Inr False
      else if (case po_remaining_notional r of None \<Rightarrow> False | Some left \<Rightarrow> left < notional) then Inr False
      else if oi_side (po_intent r) = BUY then Inr (\<not> lg_cash (px_ledger S) < dadd notional (fl_fee f))
      else rbind (state_positions S) (\<lambda>ps.
        Inr (\<not> held_quantity (bo_instrument_id (po_order r)) ps < fl_quantity f))))"

definition fill_payload :: "paper_order \<Rightarrow> fill \<Rightarrow> instant \<Rightarrow> instrument \<Rightarrow> dec \<Rightarrow> dec \<Rightarrow> dec option \<Rightarrow> dec \<Rightarrow> (string \<times> json) list result" where
  "fill_payload r f observed_at ins new_filled cumulative_notional remaining_notional cumulative_fees = members
     [(''fill_id'', Inr (JStr (fl_fill_id f))), (''quantity'', paper_decimal (fl_quantity f)),
      (''price'', paper_decimal (fl_price f)), (''fee'', paper_decimal (fl_fee f)),
      (''filled_at'', Inr (JStr (iso_text (fl_filled_at f)))), (''observed_at'', Inr (JStr (iso_text observed_at))),
      (''instrument'', instrument_payload ins), (''cumulative_filled_quantity'', paper_decimal new_filled),
      (''remaining_quantity'', paper_decimal (case bo_requested_quantity (po_order r) of None \<Rightarrow> 0 | Some q \<Rightarrow> dsub q new_filled)),
      (''requested_notional'', paper_optional_decimal (oi_notional (po_intent r))),
      (''cumulative_filled_notional'', paper_decimal cumulative_notional),
      (''remaining_notional'', paper_optional_decimal remaining_notional), (''cumulative_fees'', paper_decimal cumulative_fees)]"

text \<open>An action on the ledger of a session.\<close>

definition on_ledger :: "(ledger, 'a) action \<Rightarrow> (paper_state, 'a) action" where
  "on_ledger m S = (case m (px_ledger S) of (v, L) \<Rightarrow> (v, S\<lparr>px_ledger := L\<rparr>))"

text \<open>The ledger books the fill; only then is it counted, logged and added to the digest.\<close>

definition book_paper_fill :: "(string \<Rightarrow> string) \<Rightarrow> fill \<Rightarrow> (paper_state, unit) action" where
  "book_paper_fill sha f = then_do (on_ledger (fill_ledger f)) (\<lambda>_. modify (\<lambda>S. S\<lparr>px_fill_sequence := px_fill_sequence S + 1,
     px_fills := px_fills S @ [f], px_fill_ids_digest := next_fill_ids_digest sha (px_fill_ids_digest S) (fl_fill_id f)\<rparr>))"

text \<open>What \<open>_process_order\<close> returns: the record, the fill, the liquidity left and the evidence.\<close>

type_synonym processed = "paper_order \<times> fill option \<times> dec \<times> audit_spec list"

definition book_fill_on_order ::
  "(string \<Rightarrow> string) \<Rightarrow> paper_order \<Rightarrow> instant \<Rightarrow> instrument \<Rightarrow> dec \<Rightarrow> audit_spec list \<Rightarrow> fill \<Rightarrow> (paper_state, processed) action" where
  "book_fill_on_order sha r observed_at ins liquidity specs f =
     (let b = po_order r; notional = dmul (fl_quantity f) (fl_price f) in
      if max_fills_per_order \<le> po_fill_count r then raises (ValueError ''paper order exceeds the bounded fill count'')
      else let new_filled = dadd (bo_filled_quantity b) (fl_quantity f) in
      if (case bo_requested_quantity b of None \<Rightarrow> False | Some q \<Rightarrow> q < new_filled)
      then raises (RuntimeError ''paper fill would exceed requested quantity'')
      else let remaining = map_option (\<lambda>left. dsub left notional) (po_remaining_notional r) in
      if (case remaining of None \<Rightarrow> False | Some left \<Rightarrow> left < 0)
      then raises (RuntimeError ''paper notional fill would create a negative residual'')
      else let target = (if bo_requested_quantity b = Some new_filled \<or> remaining = Some 0 then FILLED else PARTIALLY_FILLED) in
      then_do (check (stage_transition b target observed_at)) (\<lambda>(transitioned, event).
      then_do (check (if bo_filled_quantity b = 0 then Inr (fl_price f)
          else rbind (present (bo_average_fill_price b)) (\<lambda>average.
            Inr (ddiv (dadd (dmul average (bo_filled_quantity b)) (dmul (fl_price f) (fl_quantity f))) new_filled)))) (\<lambda>weighted.
      let cumulative_notional = dadd (po_cumulative_filled_notional r) notional;
          cumulative_fees = dadd (po_cumulative_fees r) (fl_fee f);
          r' = r\<lparr>po_order := transitioned\<lparr>bo_filled_quantity := new_filled, bo_average_fill_price := Some weighted,
              bo_updated_at := observed_at\<rparr>, po_remaining_notional := remaining,
            po_cumulative_filled_notional := cumulative_notional, po_cumulative_fees := cumulative_fees,
            po_fill_count := po_fill_count r + 1, po_last_fill_at := Some (fl_filled_at f),
            po_last_fill_id := Some (fl_fill_id f)\<rparr> in
      then_do (book_paper_fill sha f) (\<lambda>_.
      then_do (check (fill_payload r f observed_at ins new_filled cumulative_notional remaining cumulative_fees)) (\<lambda>payload.
      give (r', Some f, dsub liquidity (fl_quantity f),
        specs @ [transition_spec event, activity_spec ''paper.order.fill'' b observed_at payload (Some target)]))))))"

text \<open>The fill of one order at a reference price, if the guards let it through.\<close>

definition try_fill ::
  "(string \<Rightarrow> string) \<Rightarrow> cost_model \<Rightarrow> string \<Rightarrow> paper_order \<Rightarrow> instant \<Rightarrow> instrument \<Rightarrow> dec \<Rightarrow> audit_spec list \<Rightarrow> dec \<Rightarrow>
   (paper_state, processed) action" where
  "try_fill sha costs session_id r observed_at ins liquidity specs price =
     then_do (reads (\<lambda>S. candidate_fill costs (fill_id_of session_id S) r observed_at ins liquidity price)) (\<lambda>candidate.
     case candidate of
       None \<Rightarrow> give (r, None, liquidity, specs)
     | Some f \<Rightarrow>
         then_do (reads (\<lambda>S. fill_admissible S r ins price f)) (\<lambda>admissible.
         if \<not> admissible then give (r, None, liquidity, specs)
         else book_fill_on_order sha r observed_at ins liquidity specs f))"

definition note_trigger :: "paper_order \<Rightarrow> instant \<Rightarrow> bool \<Rightarrow> (paper_order \<times> audit_spec list) result" where
  "note_trigger r observed_at triggered = (if \<not> triggered then Inr (r, [])
     else rbind (present (oi_trigger_price (po_intent r))) (\<lambda>t. rbind (paper_decimal t) (\<lambda>v.
       Inr (r\<lparr>po_stop_triggered := True\<rparr>,
         [activity_spec ''paper.order.stop_triggered'' (po_order r) observed_at [(''trigger_price'', v)] None]))))"

definition process_order ::
  "(string \<Rightarrow> string) \<Rightarrow> cost_model \<Rightarrow> string \<Rightarrow> market_snapshot \<Rightarrow> bar \<Rightarrow> instrument \<Rightarrow> dec \<Rightarrow> paper_order \<Rightarrow>
   (paper_state, processed) action" where
  "process_order sha costs session_id m b ins liquidity r =
     (let o1 = po_order r; observed_at = ms_observed_at m in
      if bo_status o1 \<in> set closed_statuses \<or> bo_status o1 = UNKNOWN then give (r, None, liquidity, [])
      else if bar_at b \<le> po_submitted_source_at r then give (r, None, liquidity, [])
      else if oi_expires_at (po_intent r) \<le> observed_at
      then then_do (check (stage_transition o1 EXPIRED observed_at)) (\<lambda>(expired, event).
        give (r\<lparr>po_order := expired\<rparr>, None, liquidity, [transition_spec event]))
      else then_do (check (can_fill costs (Aware (bo_submitted_at o1)) (Aware observed_at))) (\<lambda>ok.
      if \<not> ok then give (r, None, liquidity, [])
      else then_do (check (reference_price r b)) (\<lambda>(reference, triggered, may_fill).
      then_do (check (note_trigger r observed_at triggered)) (\<lambda>(r1, specs).
      case reference of
        None \<Rightarrow> give (r1, None, liquidity, specs)
      | Some price \<Rightarrow> if \<not> may_fill then give (r1, None, liquidity, specs)
          else try_fill sha costs session_id r1 observed_at ins liquidity specs price))))"

end
