(* ===== verification/PaperKernels.thy ===== *)
theory PaperKernels
  imports PaperOrders
begin

text \<open>
  The deterministic kernels of the paper broker: a submission, its idempotent repetition, a resolution
  without a fill, a market cohort and an authoritative reconciliation.  Each changes the state in place
  and returns its evidence; an exception leaves what was changed before it, for the journal to undo.
\<close>

section \<open>Submission\<close>

definition dict_counts :: "(string, string list) dict \<Rightarrow> int" where
  "dict_counts index = sum_list (map (\<lambda>(i, ids). int (length ids)) index)"

definition validate_admission_liveness :: "paper_state \<Rightarrow> string \<Rightarrow> unit result" where
  "validate_admission_liveness S instrument_id = rbind (state_positions S) (\<lambda>ps.
     let reserved = dict_counts (px_active S) + dict_counts (px_unknown S);
         rows = int (length (remdups (dkeys (px_active S) @ dkeys (px_unknown S) @ [instrument_id] @ map pos_instrument_id ps))) in
     require (rows + 3 * (reserved + 1) \<le> max_group_activities)
       (ValueError ''submission would exceed the next market activity capacity''))"

definition max_latest :: "instant option \<Rightarrow> instant \<Rightarrow> instant" where
  "max_latest latest t = (case latest of None \<Rightarrow> t | Some l \<Rightarrow> max l t)"

text \<open>The transitions of a fresh order, each with its evidence.\<close>

fun advance_through :: "order_status list \<Rightarrow> instant \<Rightarrow> broker_order \<Rightarrow> (broker_order \<times> audit_spec list) result" where
  "advance_through [] t b = Inr (b, [])"
| "advance_through (s # ss) t b = rbind (stage_transition b s t) (\<lambda>(b1, event).
     rbind (advance_through ss t b1) (\<lambda>(b2, specs). Inr (b2, transition_spec event # specs)))"

definition market_spec :: "string \<Rightarrow> string \<Rightarrow> instant \<Rightarrow> (string \<times> json) list \<Rightarrow> audit_spec" where
  "market_spec k instrument_id t payload = \<lparr>as_kind = k, as_client_intent_id = instrument_id,
     as_broker_order_id = instrument_id, as_occurred_at = t, as_prior_status = None, as_new_status = None,
     as_payload = payload\<rparr>"

text \<open>The cursor and evidence of the snapshot a submission refers to.\<close>

definition submission_market ::
  "(string \<Rightarrow> string) \<Rightarrow> paper_state \<Rightarrow> string \<Rightarrow> market_snapshot \<Rightarrow> instant \<Rightarrow> (market_cursor \<times> audit_spec) result" where
  "submission_market sha S instrument_id m t = (case dget (px_snapshots S) instrument_id of
       None \<Rightarrow> rbind (cursor_from_bars sha (ms_bars m)) (\<lambda>c. rbind (snapshot_payload m) (\<lambda>j.
         Inr (c, market_spec ''paper.market.submission'' instrument_id t
           [(''snapshot'', j), (''bar_count'', JInt (mc_total_count c)), (''bars_digest'', JStr (mc_digest c))])))
     | Some p \<Rightarrow> (case dget (px_cursors S) instrument_id of
         None \<Rightarrow> Inl (KeyError instrument_id)
       | Some c \<Rightarrow> Inr (c, market_spec ''paper.market.submission_reference'' instrument_id t
           [(''bar_count'', JInt (mc_total_count c)), (''bars_digest'', JStr (mc_digest c))])))"

definition fresh_order :: "string \<Rightarrow> order_intent \<Rightarrow> instant \<Rightarrow> broker_order" where
  "fresh_order order_id i t = \<lparr>bo_order_id = order_id, bo_client_order_id = oi_intent_id i,
     bo_broker = bc_broker paper_capabilities, bo_instrument_id = oi_instrument_id i, bo_status = PROPOSED,
     bo_requested_quantity = oi_quantity i, bo_requested_notional = None, bo_filled_quantity = 0,
     bo_average_fill_price = None, bo_submitted_at = t, bo_updated_at = t\<rparr>"

definition submit_guards :: "paper_state \<Rightarrow> order_intent \<Rightarrow> market_snapshot \<Rightarrow> unit result" where
  "submit_guards S i m =
     rbind (validate_intent_shape i) (\<lambda>_.
     rbind (require (dget (px_client_orders S) (oi_intent_id i) = None)
       (ValueError ''new submission kernel requires an unused client intent ID'')) (\<lambda>_.
     rbind (validate_snapshot m (oi_instrument_id i) max_initial_bars) (\<lambda>_.
     rbind (validate_intent_for i m) (\<lambda>_.
     rbind (validate_watermark S (ms_observed_at m)) (\<lambda>_.
     rbind (require (oi_created_at i \<le> ms_observed_at m) (ValueError ''intent creation must not be after submission snapshot'')) (\<lambda>_.
     rbind (require (ms_observed_at m < oi_expires_at i) (ValueError ''intent must remain unexpired at submission'')) (\<lambda>_.
     rbind (validate_admission_liveness S (oi_instrument_id i)) (\<lambda>_.
     require (case dget (px_snapshots S) (oi_instrument_id i) of None \<Rightarrow> True | Some p \<Rightarrow> p = m)
       (ValueError ''submit snapshot revision requires on_snapshot processing first'')))))))))"

definition submit_kernel ::
  "(string \<Rightarrow> string) \<Rightarrow> string \<Rightarrow> order_intent \<Rightarrow> market_snapshot \<Rightarrow>
   (paper_state, audit_spec list \<times> broker_order \<times> instant) action" where
  "submit_kernel sha session_id i m =
     then_do (reads (\<lambda>S. submit_guards S i m)) (\<lambda>_.
     let t = ms_observed_at m; order_id = paper_order_id sha session_id (oi_intent_id i) in
     then_do (reads (\<lambda>S. submission_market sha S (oi_instrument_id i) m t)) (\<lambda>(cursor, evidence).
     then_do (check (paper_intent_payload i)) (\<lambda>j.
     then_do (check (advance_through [RISK_APPROVED, CONFIRMED, SUBMITTING, ACKNOWLEDGED] t (fresh_order order_id i t))) (\<lambda>(b, specs).
     let submitted = \<lparr>as_kind = ''paper.order.submitted'', as_client_intent_id = oi_intent_id i,
           as_broker_order_id = order_id, as_occurred_at = t, as_prior_status = None, as_new_status = Some PROPOSED,
           as_payload = [(''instrument_id'', JStr (oi_instrument_id i)), (''side'', JStr (side_value (oi_side i))),
             (''order_type'', JStr (order_type_value (oi_order_type i))), (''intent'', j)]\<rparr>;
         r = \<lparr>po_intent = i, po_order = b, po_submitted_source_at = ms_source_at m,
           po_submission_reference_price = bar_close (last (ms_bars m)), po_remaining_notional = oi_notional i,
           po_cumulative_filled_notional = 0, po_cumulative_fees = 0, po_stop_triggered = False, po_fill_count = 0,
           po_last_fill_at = None, po_last_fill_id = None\<rparr> in
     then_do (modify (\<lambda>S. S\<lparr>px_orders := dset order_id r (px_orders S)\<rparr>)) (\<lambda>_.
     then_do (modify (sync_order_indexes r)) (\<lambda>_.
     then_do (modify (\<lambda>S. S\<lparr>px_client_orders := dset (oi_intent_id i) order_id (px_client_orders S),
         px_snapshots := dset (oi_instrument_id i) (bounded_snapshot m) (px_snapshots S),
         px_cursors := dset (oi_instrument_id i) cursor (px_cursors S),
         px_latest_at := Some (max_latest (px_latest_at S) t)\<rparr>)) (\<lambda>_.
     give (evidence # submitted # specs, b, t))))))))"

section \<open>Repetition and resolution\<close>

definition existing_order :: "order_intent \<Rightarrow> paper_state \<Rightarrow> paper_order result" where
  "existing_order i S = (case dget (px_client_orders S) (oi_intent_id i) of
       None \<Rightarrow> Inl (ValueError ''idempotency kernel requires an existing client intent ID'')
     | Some order_id \<Rightarrow> (case dget (px_orders S) order_id of None \<Rightarrow> Inl (KeyError order_id) | Some r \<Rightarrow> Inr r))"

definition idempotency_kernel ::
  "order_intent \<Rightarrow> (paper_state, audit_spec list \<times> paper_order \<times> bool \<times> instant) action" where
  "idempotency_kernel i =
     then_do (check (validate_intent_shape i)) (\<lambda>_.
     then_do (reads (existing_order i)) (\<lambda>existing.
     then_do (reads (\<lambda>S. Inr (case px_latest_at S of None \<Rightarrow> bo_updated_at (po_order existing) | Some l \<Rightarrow> l))) (\<lambda>t.
     let conflict = (po_intent existing \<noteq> i) in
     then_do (check (paper_intent_payload i)) (\<lambda>j.
     give ([activity_spec (if conflict then ''paper.order.duplicate_conflict'' else ''paper.order.duplicate'')
         (po_order existing) t
         [(''outcome'', JStr (if conflict then ''CONFLICT'' else ''IDEMPOTENT_REPLAY'')), (''intent'', j)] None],
       existing, conflict, t)))))"

definition resolution_kernel ::
  "string \<Rightarrow> order_status \<Rightarrow> pydt \<Rightarrow> (string \<times> (string \<times> json) list) option \<Rightarrow>
   (paper_state, audit_spec list \<times> broker_order \<times> instant) action" where
  "resolution_kernel order_id status at_time activity =
     then_do (reads (\<lambda>S. case dget (px_orders S) order_id of
         None \<Rightarrow> Inl (KeyError ''paper order not found'') | Some r \<Rightarrow> Inr r)) (\<lambda>r.
     then_do (check (paper_aware ''resolution timestamp'' at_time)) (\<lambda>t.
     then_do (reads (\<lambda>S. validate_watermark S t)) (\<lambda>_.
     then_do (check (stage_transition (po_order r) status t)) (\<lambda>(updated, event).
     let specs = (case activity of None \<Rightarrow> []
           | Some (k, payload) \<Rightarrow> [activity_spec k (po_order r) t payload (Some status)]) @ [transition_spec event];
         r' = r\<lparr>po_order := updated\<rparr> in
     then_do (modify (\<lambda>S. S\<lparr>px_orders := dset order_id r' (px_orders S)\<rparr>)) (\<lambda>_.
     then_do (modify (sync_order_indexes r')) (\<lambda>_.
     then_do (modify (\<lambda>S. S\<lparr>px_latest_at := Some t\<rparr>)) (\<lambda>_.
     give (specs, updated, t))))))))"

section \<open>A market cohort\<close>

record market_input =
  mi_snapshot :: market_snapshot
  mi_instrument :: "instrument option"
  mi_duplicate :: bool

text \<open>The executable orders of one instrument, served in the order of the index from one budget.\<close>

fun serve_orders ::
  "(string \<Rightarrow> string) \<Rightarrow> cost_model \<Rightarrow> string \<Rightarrow> market_snapshot \<Rightarrow> bar \<Rightarrow> instrument \<Rightarrow> string list \<Rightarrow> dec \<Rightarrow>
   (paper_state, string list \<times> audit_spec list \<times> fill list) action" where
  "serve_orders sha costs session_id m b ins [] liquidity = give ([], [], [])"
| "serve_orders sha costs session_id m b ins (order_id # ids) liquidity =
     then_do (reads (\<lambda>S. case dget (px_orders S) order_id of None \<Rightarrow> Inl (KeyError order_id) | Some r \<Rightarrow> Inr r)) (\<lambda>r.
     then_do (process_order sha costs session_id m b ins liquidity r) (\<lambda>(r', f, left, specs).
     then_do (modify (\<lambda>S. S\<lparr>px_orders := dset order_id r' (px_orders S)\<rparr>)) (\<lambda>_.
     then_do (serve_orders sha costs session_id m b ins ids left) (\<lambda>(survivors, specs2, fills).
     give (if is_market_executable (bo_status (po_order r')) then order_id # survivors else survivors,
       specs @ specs2, (case f of None \<Rightarrow> fills | Some x \<Rightarrow> x # fills))))))"

definition event_key :: "market_snapshot \<Rightarrow> instant \<times> instant \<times> string" where
  "event_key m = (ms_observed_at m, ms_source_at m, ms_instrument_id m)"

definition next_cursor :: "(string \<Rightarrow> string) \<Rightarrow> market_cursor \<Rightarrow> market_snapshot \<Rightarrow> bar \<Rightarrow> market_cursor result" where
  "next_cursor sha c m b =
     rbind (next_bar_digest sha (mc_digest c) b) (\<lambda>d.
     rbind (market_delta_digest sha (ms_instrument_id m) (mc_total_count c) (mc_digest c) (mc_window c) b
       (ms_observed_at m) (ms_source_at m) (ms_provider m) (ms_max_age_seconds m)) (\<lambda>delta.
     Inr \<lparr>mc_total_count = mc_total_count c + 1, mc_digest = d, mc_window = last_bars (mc_window c @ [b]),
       mc_last_delta_digest = Some delta\<rparr>))"

definition observed_payload :: "instrument \<Rightarrow> market_snapshot \<Rightarrow> market_cursor \<Rightarrow> bar \<Rightarrow> (string \<times> json) list result" where
  "observed_payload ins m c b = members
     [(''instrument'', instrument_payload ins), (''instrument_id'', Inr (JStr (ms_instrument_id m))),
      (''observed_at'', Inr (JStr (iso_text (ms_observed_at m)))), (''source_at'', Inr (JStr (iso_text (ms_source_at m)))),
      (''provider'', Inr (JStr (ms_provider m))), (''max_age_seconds'', Inr (JInt (ms_max_age_seconds m))),
      (''bar_count'', Inr (JInt (mc_total_count c))), (''bars_digest'', Inr (JStr (mc_digest c))), (''bar'', bar_payload b)]"

text \<open>The one unseen bar of a snapshot; \<open>[bar] = ...\<close> raises on any other number.\<close>

definition unseen_bar :: "market_snapshot \<Rightarrow> market_snapshot \<Rightarrow> bar result" where
  "unseen_bar prior m = (case drop (length (ms_bars prior)) (ms_bars m) of
       [b] \<Rightarrow> Inr b | _ \<Rightarrow> Inl (ValueError ''not exactly one value to unpack''))"

text \<open>The orders of the index of an instrument are served; the executable ones and the bar are kept.\<close>

definition serve_market ::
  "(string \<Rightarrow> string) \<Rightarrow> cost_model \<Rightarrow> string \<Rightarrow> market_snapshot \<Rightarrow> bar \<Rightarrow> instrument \<Rightarrow> dec \<Rightarrow> market_cursor \<Rightarrow>
   (paper_state, audit_spec list \<times> fill list) action" where
  "serve_market sha costs session_id m b ins liquidity c' = (let i = ms_instrument_id m in
     then_do (reads (\<lambda>S. Inr (index_get (px_active S) i))) (\<lambda>ids.
     then_do (serve_orders sha costs session_id m b ins ids liquidity) (\<lambda>(survivors, specs, fills).
     then_do (modify (\<lambda>S. S\<lparr>px_active := replace_order_index i survivors (px_active S),
       px_snapshots := dset i (bounded_snapshot m) (px_snapshots S), px_cursors := dset i c' (px_cursors S),
       px_latest_at := Some (max_latest (px_latest_at S) (ms_observed_at m)),
       px_last_event_key := Some (event_key m)\<rparr>)) (\<lambda>_.
     give (specs, fills)))))"

definition observe_market ::
  "(string \<Rightarrow> string) \<Rightarrow> cost_model \<Rightarrow> dec \<Rightarrow> string \<Rightarrow> market_snapshot \<Rightarrow> instrument \<Rightarrow>
   (paper_state, audit_spec list \<times> fill list) action" where
  "observe_market sha costs participation session_id m ins = (let i = ms_instrument_id m in
     then_do (reads (\<lambda>S. case (dget (px_snapshots S) i, dget (px_cursors S) i) of
         (Some prior, Some c) \<Rightarrow> Inr (prior, c)
       | _ \<Rightarrow> Inl (ValueError ''market input has no submitted snapshot''))) (\<lambda>(prior, c).
     then_do (check (unseen_bar prior m)) (\<lambda>b.
     then_do (check (next_cursor sha c m b)) (\<lambda>c'.
     then_do (check (liquidity_budget (bar_volume b) participation (ins_quantity_step ins))) (\<lambda>liquidity.
     then_do (modify (\<lambda>S. S\<lparr>px_market_prices := dset i (bar_close b) (px_market_prices S)\<rparr>)) (\<lambda>_.
     then_do (reads (\<lambda>S. require (case dget (px_instruments S) i of None \<Rightarrow> True | Some j \<Rightarrow> j = ins)
       (ValueError ''instrument metadata changed within the paper session''))) (\<lambda>_.
     then_do (modify (\<lambda>S. S\<lparr>px_instruments := dset i ins (px_instruments S)\<rparr>)) (\<lambda>_.
     then_do (serve_market sha costs session_id m b ins liquidity c') (\<lambda>(specs, fills).
     then_do (check (observed_payload ins m c' b)) (\<lambda>payload.
     give (specs @ [market_spec ''paper.market.observed'' i (ms_observed_at m) payload], fills)))))))))))"

definition duplicate_market :: "market_snapshot \<Rightarrow> paper_state \<Rightarrow> audit_spec list result" where
  "duplicate_market m S = (case dget (px_cursors S) (ms_instrument_id m) of
       None \<Rightarrow> Inl (ValueError ''duplicate market input has no cursor'')
     | Some c \<Rightarrow> Inr [market_spec ''paper.snapshot.duplicate'' (ms_instrument_id m) (ms_observed_at m)
         [(''outcome'', JStr ''IGNORED''), (''bar_count'', JInt (mc_total_count c)), (''bars_digest'', JStr (mc_digest c))]])"

definition observe_input ::
  "(string \<Rightarrow> string) \<Rightarrow> cost_model \<Rightarrow> dec \<Rightarrow> string \<Rightarrow> market_input \<Rightarrow> (paper_state, audit_spec list \<times> fill list) action" where
  "observe_input sha costs participation session_id x =
     (if mi_duplicate x then then_do (reads (duplicate_market (mi_snapshot x))) (\<lambda>specs. give (specs, []))
      else case mi_instrument x of
        None \<Rightarrow> raises (ValueError ''new market input requires exact instrument metadata'')
      | Some ins \<Rightarrow> observe_market sha costs participation session_id (mi_snapshot x) ins)"

fun observe_cohort ::
  "(string \<Rightarrow> string) \<Rightarrow> cost_model \<Rightarrow> dec \<Rightarrow> string \<Rightarrow> market_input list \<Rightarrow>
   (paper_state, audit_spec list \<times> fill list) action" where
  "observe_cohort sha costs participation session_id [] = give ([], [])"
| "observe_cohort sha costs participation session_id (x # xs) =
     then_do (observe_input sha costs participation session_id x) (\<lambda>(specs, fills).
     then_do (observe_cohort sha costs participation session_id xs) (\<lambda>(specs2, fills2).
     give (specs @ specs2, fills @ fills2)))"

text \<open>The mark at the end of a cohort with a new bar, at the prices of the session.\<close>

definition mark_session :: "(paper_state, unit) action" where
  "mark_session S = (case px_latest_at S of
       Some t \<Rightarrow> if px_market_prices S = [] then (Inr (), S)
         else then_do (on_ledger (mark_ledger (px_market_prices S) (Aware t))) (\<lambda>_. give ()) S
     | None \<Rightarrow> (Inr (), S))"

definition market_kernel ::
  "(string \<Rightarrow> string) \<Rightarrow> cost_model \<Rightarrow> dec \<Rightarrow> string \<Rightarrow> market_input list \<Rightarrow>
   (paper_state, audit_spec list \<times> fill list) action" where
  "market_kernel sha costs participation session_id inputs =
     then_do (observe_cohort sha costs participation session_id inputs) (\<lambda>(specs, fills).
     then_do (if list_ex (\<lambda>x. \<not> mi_duplicate x) inputs then mark_session else give ()) (\<lambda>_.
     give (specs, fills)))"

section \<open>Authoritative reconciliation\<close>

text \<open>The running totals of the fills checked so far.\<close>

record fill_totals =
  ft_key :: "instant \<times> string"
  ft_seen :: "string set"
  ft_cash :: dec
  ft_position :: dec
  ft_quantity :: dec
  ft_notional :: dec
  ft_fees :: dec

text \<open>\<open>x % step\<close> for positive \<open>x\<close> must be zero; a quotient of more than 28 digits is impossible.\<close>

definition on_step :: "dec \<Rightarrow> dec \<Rightarrow> unit result" where
  "on_step x step = (let q = \<lfloor>x / step\<rfloor> in
     if 10 ^ 28 \<le> q then Inl (ArithmeticError ''DivisionImpossible'')
     else require (rnd (x - of_int q * step) = 0) (ValueError ''authoritative fill violates venue precision''))"

definition check_new_fill ::
  "paper_state \<Rightarrow> paper_order \<Rightarrow> instrument \<Rightarrow> instant \<Rightarrow> fill \<Rightarrow> fill_totals \<Rightarrow> fill_totals result" where
  "check_new_fill S r ins t f T = (let b = po_order r; fill_key = (fl_filled_at f, fl_fill_id f) in
     rbind (require (identifier_shape (fl_fill_id f) \<and> \<not> has_fill_id (fl_fill_id f) (px_ledger S) \<and>
         fl_fill_id f \<notin> ft_seen T \<and> fl_order_id f = bo_order_id b \<and> fl_instrument_id f = bo_instrument_id b \<and>
         fl_side f = oi_side (po_intent r) \<and> bo_submitted_at b \<le> fl_filled_at f \<and> fl_filled_at f \<le> t \<and>
         (fst (ft_key T) < fl_filled_at f \<or> fst (ft_key T) = fl_filled_at f \<and> snd (ft_key T) < fl_fill_id f))
       (ValueError ''authoritative fill identity or chronology is invalid'')) (\<lambda>_.
     rbind (paper_positive ''authoritative fill quantity'' (fl_quantity f)) (\<lambda>_.
     rbind (paper_positive ''authoritative fill price'' (fl_price f)) (\<lambda>_.
     rbind (paper_nonnegative ''authoritative fill fee'' (fl_fee f)) (\<lambda>_.
     rbind (on_step (fl_quantity f) (ins_quantity_step ins)) (\<lambda>_. rbind (on_step (fl_price f) (ins_price_tick ins)) (\<lambda>_.
     rbind (require (respects_order_prices (po_intent r) (fl_price f))
       (ValueError ''authoritative fill price violates order protection'')) (\<lambda>_.
     let consideration = dadd (dmul (fl_quantity f) (fl_price f)) (fl_fee f) in
     rbind (if oi_side (po_intent r) = BUY
         then if ft_cash T < consideration then Inl (ValueError ''authoritative fill exceeds paper cash'')
           else Inr (T\<lparr>ft_cash := dsub (ft_cash T) consideration\<rparr>)
         else if ft_position T < fl_quantity f then Inl (ValueError ''authoritative fill exceeds paper position'')
           else Inr (T\<lparr>ft_position := dsub (ft_position T) (fl_quantity f)\<rparr>)) (\<lambda>T1.
     Inr (T1\<lparr>ft_seen := insert (fl_fill_id f) (ft_seen T1), ft_quantity := dadd (ft_quantity T1) (fl_quantity f),
       ft_notional := dadd (ft_notional T1) (dmul (fl_quantity f) (fl_price f)), ft_fees := dadd (ft_fees T1) (fl_fee f),
       ft_key := fill_key\<rparr>))))))))))"

fun check_new_fills ::
  "paper_state \<Rightarrow> paper_order \<Rightarrow> instrument \<Rightarrow> instant \<Rightarrow> fill list \<Rightarrow> fill_totals \<Rightarrow> fill_totals result" where
  "check_new_fills S r ins t [] T = Inr T"
| "check_new_fills S r ins t (f # fs) T = rbind (check_new_fill S r ins t f T) (check_new_fills S r ins t fs)"

definition first_totals :: "paper_state \<Rightarrow> paper_order \<Rightarrow> position list \<Rightarrow> fill_totals" where
  "first_totals S r ps = \<lparr>
     ft_key = (case po_last_fill_at r of None \<Rightarrow> bo_submitted_at (po_order r) | Some t \<Rightarrow> t,
       case po_last_fill_id r of None \<Rightarrow> [] | Some i \<Rightarrow> i),
     ft_seen = {}, ft_cash = lg_cash (px_ledger S), ft_position = held_quantity (bo_instrument_id (po_order r)) ps,
     ft_quantity = 0, ft_notional = 0, ft_fees = 0\<rparr>"

text \<open>The authoritative order must be the unknown one with more filled.\<close>

definition authoritative_identity :: "broker_order \<Rightarrow> broker_order \<Rightarrow> string \<Rightarrow> bool" where
  "authoritative_identity a b instrument_id \<longleftrightarrow> instrument_id = bo_instrument_id b \<and>
     bo_client_order_id a = bo_client_order_id b \<and> bo_broker a = bc_broker paper_capabilities \<and>
     bo_instrument_id a = bo_instrument_id b \<and> bo_submitted_at a = bo_submitted_at b \<and>
     bo_requested_quantity a = bo_requested_quantity b \<and> bo_status a \<in> {PARTIALLY_FILLED, FILLED} \<and>
     bo_filled_quantity b < bo_filled_quantity a \<and> bo_average_fill_price a \<noteq> None"

text \<open>The evidence of the fills, with the running sums.\<close>

fun reconciliation_specs ::
  "broker_order \<Rightarrow> broker_order \<Rightarrow> instrument \<Rightarrow> fill list \<Rightarrow> dec \<Rightarrow> dec \<Rightarrow> dec \<Rightarrow> audit_spec list result" where
  "reconciliation_specs a b ins [] quantity notional fees = Inr []"
| "reconciliation_specs a b ins (f # fs) quantity notional fees =
     (let quantity' = dadd quantity (fl_quantity f); notional' = dadd notional (dmul (fl_quantity f) (fl_price f));
          fees' = dadd fees (fl_fee f) in
      rbind (members [(''fill_id'', Inr (JStr (fl_fill_id f))), (''quantity'', paper_decimal (fl_quantity f)),
        (''price'', paper_decimal (fl_price f)), (''fee'', paper_decimal (fl_fee f)),
        (''filled_at'', Inr (JStr (iso_text (fl_filled_at f)))), (''observed_at'', Inr (JStr (iso_text (bo_updated_at a)))),
        (''instrument'', instrument_payload ins), (''source'', Inr (JStr ''AUTHORITATIVE_RECONCILIATION'')),
        (''cumulative_filled_quantity'', paper_decimal quantity'), (''cumulative_filled_notional'', paper_decimal notional'),
        (''cumulative_fees'', paper_decimal fees')]) (\<lambda>payload.
      rbind (reconciliation_specs a b ins fs quantity' notional' fees') (\<lambda>specs.
      Inr (activity_spec ''paper.order.fill'' b (bo_updated_at a) payload (Some (bo_status a)) # specs))))"

definition reconciliation_guards ::
  "broker_order \<Rightarrow> fill list \<Rightarrow> instrument \<Rightarrow> string \<Rightarrow> paper_state \<Rightarrow> paper_order result" where
  "reconciliation_guards a fills ins currency S =
     rbind (require (fills \<noteq> [] \<and> int (length fills) + 1 \<le> max_group_activities)
       (ValueError ''authoritative fill evidence exceeds activity capacity'')) (\<lambda>_.
     case dget (px_orders S) (bo_order_id a) of
       None \<Rightarrow> Inl (ValueError ''authoritative fill requires one UNKNOWN paper order'')
     | Some r \<Rightarrow>
         if bo_status (po_order r) \<noteq> UNKNOWN
         then Inl (ValueError ''authoritative fill requires one UNKNOWN paper order'')
         else
         rbind (require (po_fill_count r + int (length fills) \<le> max_fills_per_order)
           (ValueError ''authoritative fill exceeds the bounded order fill count'')) (\<lambda>_.
         rbind (validate_watermark S (bo_updated_at a)) (\<lambda>_.
         rbind (paper_instrument_id ins) (\<lambda>instrument_id.
         rbind (require (ins_quote_currency ins = currency) (ValueError ''authoritative fill instrument currency is invalid'')) (\<lambda>_.
         rbind (require (authoritative_identity a (po_order r) instrument_id)
           (ValueError ''authoritative fill order identity or status is invalid'')) (\<lambda>_.
         rbind (require (dget (px_instruments S) instrument_id = Some ins)
           (ValueError ''authoritative fill requires exact persisted instrument metadata'')) (\<lambda>_.
         rbind (require (ins_asset_class ins \<in> set (bc_supported_asset_classes paper_capabilities))
           (ValueError ''authoritative fill instrument capability is unsupported'')) (\<lambda>_.
         rbind (original_requested_notional r) (\<lambda>requested.
         rbind (require (ins_minimum_notional ins \<le> requested)
           (ValueError ''authoritative order violates venue minimum notional'')) (\<lambda>_. Inr r))))))))))"

text \<open>The order after the fills, if the totals agree with the authoritative order.\<close>

definition reconciled_record :: "broker_order \<Rightarrow> fill list \<Rightarrow> paper_order \<Rightarrow> fill_totals \<Rightarrow> paper_order result" where
  "reconciled_record a fills r T = (let b = po_order r in
     rbind (require (ft_quantity T = dsub (bo_filled_quantity a) (bo_filled_quantity b))
       (ValueError ''authoritative fill quantity does not match broker delta'')) (\<lambda>_.
     let total_notional = dadd (po_cumulative_filled_notional r) (ft_notional T) in
     rbind (require (bo_average_fill_price a = Some (ddiv total_notional (bo_filled_quantity a)))
       (ValueError ''authoritative fill weighted average is inconsistent'')) (\<lambda>_.
     rbind (require (case bo_requested_quantity b of None \<Rightarrow> True | Some q \<Rightarrow> bo_filled_quantity a \<le> q)
       (ValueError ''authoritative fill would overfill paper order'')) (\<lambda>_.
     let remaining = map_option (\<lambda>left. dsub left (ft_notional T)) (po_remaining_notional r) in
     rbind (require (case remaining of None \<Rightarrow> True | Some left \<Rightarrow> 0 \<le> left)
       (ValueError ''authoritative fill exceeds requested notional'')) (\<lambda>_.
     let complete = (case bo_requested_quantity b of None \<Rightarrow> remaining = Some 0 | Some q \<Rightarrow> bo_filled_quantity a = q) in
     rbind (require (complete = (bo_status a = FILLED))
       (ValueError ''authoritative fill status is inconsistent with remaining size'')) (\<lambda>_.
     Inr (r\<lparr>po_order := a, po_remaining_notional := remaining, po_cumulative_filled_notional := total_notional,
       po_cumulative_fees := dadd (po_cumulative_fees r) (ft_fees T), po_fill_count := po_fill_count r + int (length fills),
       po_last_fill_at := Some (fl_filled_at (last fills)), po_last_fill_id := Some (fl_fill_id (last fills))\<rparr>)))))))"

text \<open>Each fill is booked by the ledger and then logged.\<close>

definition log_fill :: "fill \<Rightarrow> (paper_state, unit) action" where
  "log_fill f = then_do (on_ledger (fill_ledger f)) (\<lambda>_. modify (\<lambda>S. S\<lparr>px_fills := px_fills S @ [f]\<rparr>))"

fun book_authoritative :: "fill list \<Rightarrow> (paper_state, unit) action" where
  "book_authoritative [] = give ()"
| "book_authoritative (f # fs) =
     then_do (log_fill f) (\<lambda>_. book_authoritative fs)"

text \<open>What a reconciliation changes once its evidence is checked, in order; the mark can still raise.\<close>

definition reconciliation_effects ::
  "(string \<Rightarrow> string) \<Rightarrow> instant \<Rightarrow> fill list \<Rightarrow> instrument \<Rightarrow> paper_order \<Rightarrow> paper_order \<Rightarrow> (paper_state, portfolio_snapshot) action" where
  "reconciliation_effects sha t fills ins r r' = (let b = po_order r in
     then_do (book_authoritative fills) (\<lambda>_.
     then_do (modify (\<lambda>S. S\<lparr>px_orders := dset (bo_order_id b) r' (px_orders S)\<rparr>)) (\<lambda>_.
     then_do (modify (sync_order_indexes r')) (\<lambda>_.
     then_do (modify (\<lambda>S. S\<lparr>
         px_fill_ids_digest := foldl (\<lambda>d f. next_fill_ids_digest sha d (fl_fill_id f)) (px_fill_ids_digest S) fills,
         px_fill_sequence := px_fill_sequence S + int (length fills),
         px_market_prices := dset (bo_instrument_id b) (fl_price (last fills)) (px_market_prices S),
         px_instruments := dset (bo_instrument_id b) ins (px_instruments S), px_latest_at := Some t\<rparr>)) (\<lambda>_.
     \<lambda>S. on_ledger (mark_ledger (px_market_prices S) (Aware t)) S)))))"

definition reconciliation_kernel ::
  "(string \<Rightarrow> string) \<Rightarrow> broker_order \<Rightarrow> fill list \<Rightarrow> instrument \<Rightarrow> string \<Rightarrow>
   (paper_state, audit_spec list \<times> instant) action" where
  "reconciliation_kernel sha a fills ins currency =
     then_do (reads (reconciliation_guards a fills ins currency)) (\<lambda>r.
     let b = po_order r; t = bo_updated_at a in
     then_do (reads state_positions) (\<lambda>ps.
     then_do (reads (\<lambda>S. check_new_fills S r ins t fills (first_totals S r ps))) (\<lambda>T.
     then_do (check (reconciled_record a fills r T)) (\<lambda>r'.
     then_do (check (reconciliation_specs a b ins fills (bo_filled_quantity b) (po_cumulative_filled_notional r)
       (po_cumulative_fees r))) (\<lambda>specs.
     then_do (reconciliation_effects sha t fills ins r r') (\<lambda>_.
     give (transition_spec \<lparr>te_prior_status = UNKNOWN, te_new_status = bo_status a,
         te_client_intent_id = bo_client_order_id b, te_broker_order_id = bo_order_id b, te_occurred_at = t\<rparr> # specs, t)))))))"

end
