(* ===== verification/PaperBroker.thy ===== *)
theory PaperBroker
  imports PaperKernels
begin

text \<open>
  The paper broker itself: the bounds and digests of a state, the commit of a staged operation to the
  recorder, the undo journal and the public operations.  The recorder (\<open>AuditLog.record_many\<close> or a
  callable of that shape) is an argument that takes the batch and a world to its outcome and the world
  it leaves, also when it raises.  Every operation returns an exception or its value together with the
  broker and the world it leaves.
\<close>

section \<open>Bounds and digests of a state\<close>

definition decimal_row :: "(string \<times> dec) \<Rightarrow> string \<Rightarrow> json result" where
  "decimal_row row label = rbind (paper_decimal (snd row)) (\<lambda>v. Inr (JObj [(''instrument_id'', JStr (fst row)), (label, v)]))"

definition positions_digest :: "(string \<Rightarrow> string) \<Rightarrow> ledger_position list \<Rightarrow> string result" where
  "positions_digest sha ps = rbind (traverse (\<lambda>p. rbind (members [(''instrument_id'', Inr (JStr (lp_instrument_id p))),
     (''quantity'', paper_decimal (lp_quantity p)), (''average_price'', paper_decimal (lp_average_price p))])
     (\<lambda>kvs. Inr (JObj kvs))) ps) (\<lambda>rows. Inr (sha (dumps (JList rows))))"

definition ledger_checkpoint_payload :: "(string \<Rightarrow> string) \<Rightarrow> paper_state \<Rightarrow> json result" where
  "ledger_checkpoint_payload sha S = (let c = compact_state (px_ledger S) in
     rbind (positions_digest sha (lc_positions c)) (\<lambda>digest.
     rbind (members [(''cash'', paper_decimal (lc_cash c)),
       (''market_prices'', rbind (traverse (\<lambda>row. decimal_row row ''price'') (lc_market_prices c)) (\<lambda>rows. Inr (JList rows))),
       (''gross_realized_pnl'', paper_decimal (lc_gross_realized_pnl c)), (''fees'', paper_decimal (lc_fees c)),
       (''equity'', paper_decimal (lc_equity c)), (''peak_equity'', paper_decimal (lc_peak_equity c)),
       (''drawdown'', paper_decimal (lc_drawdown c)), (''positions_digest'', Inr (JStr digest)),
       (''fill_ids_digest'', Inr (JStr (px_fill_ids_digest S)))]) (\<lambda>kvs. Inr (JObj kvs))))"

definition activity_payload :: "audit_spec \<Rightarrow> (string \<times> json) list" where
  "activity_payload a = (let base = foldl (\<lambda>d (k, v). dset k v d)
       [(''client_intent_id'', JStr (as_client_intent_id a)), (''broker_order_id'', JStr (as_broker_order_id a))] (as_payload a);
     prior = (case as_prior_status a of None \<Rightarrow> base | Some s \<Rightarrow> dset ''prior_status'' (JStr (order_status_value s)) base) in
     case as_new_status a of None \<Rightarrow> prior | Some s \<Rightarrow> dset ''new_status'' (JStr (order_status_value s)) prior)"

definition activity_facts :: "audit_spec list \<Rightarrow> json" where
  "activity_facts specs = JList (map (\<lambda>a. JObj [(''kind'', JStr (as_kind a)),
     (''occurred_at'', JStr (iso_text (as_occurred_at a))), (''payload'', JObj (activity_payload a))]) specs)"

definition cursor_row :: "string \<times> market_cursor \<Rightarrow> json" where
  "cursor_row row = JObj [(''instrument_id'', JStr (fst row)), (''total_count'', JInt (mc_total_count (snd row))),
     (''digest'', JStr (mc_digest (snd row))), (''latest_at'', JStr (iso_text (bar_at (last (mc_window (snd row))))))]"

definition next_state_digest :: "(string \<Rightarrow> string) \<Rightarrow> string \<Rightarrow> json \<Rightarrow> paper_state \<Rightarrow> string result" where
  "next_state_digest sha previous facts S = rbind (ledger_checkpoint_payload sha S) (\<lambda>book.
     Inr (canonical_digest sha (JObj [(''previous_state_digest'', JStr previous), (''activities'', facts),
       (''event_sequence'', JInt (px_event_sequence S)), (''operation_sequence'', JInt (px_operation_sequence S)),
       (''fill_sequence'', JInt (px_fill_sequence S)), (''order_count'', JInt (int (length (px_orders S)))),
       (''instrument_count'', JInt (int (length (px_instruments S)))), (''snapshot_count'', JInt (int (length (px_snapshots S)))),
       (''market_cursors'', JList (map cursor_row (sorted_items (px_cursors S)))),
       (''latest_at'', case px_latest_at S of None \<Rightarrow> JNull | Some t \<Rightarrow> JStr (iso_text t)),
       (''last_event_key'', case px_last_event_key S of None \<Rightarrow> JNull
          | Some (t, u, i) \<Rightarrow> JList [JStr (iso_text t), JStr (iso_text u), JStr i]),
       (''ledger'', book)])))"

definition active_index_ok :: "paper_state \<Rightarrow> bool" where
  "active_index_ok S \<longleftrightarrow> list_all (\<lambda>(i, ids). ids = sort (remdups ids) \<and> list_all (\<lambda>order_id.
     case dget (px_orders S) order_id of None \<Rightarrow> False
     | Some r \<Rightarrow> bo_instrument_id (po_order r) = i \<and> is_market_executable (bo_status (po_order r))) ids) (px_active S)"

definition validate_state_limits :: "paper_state \<Rightarrow> int \<Rightarrow> unit result" where
  "validate_state_limits S activity_count = rbind (state_positions S) (\<lambda>ps.
     let instruments = remdups (dkeys (px_snapshots S) @ dkeys (px_cursors S) @ dkeys (px_instruments S) @
         dkeys (px_market_prices S) @ dkeys (px_active S) @ dkeys (px_unknown S) @ map pos_instrument_id ps) in
     require (px_event_sequence S \<le> max_session_events \<and> int (length (px_orders S)) \<le> max_session_orders \<and>
       int (length (px_fills S)) \<le> max_session_fills \<and> int (length instruments) \<le> max_session_instruments \<and>
       activity_count \<le> max_group_activities \<and> active_index_ok S \<and>
       dict_counts (px_active S) + dict_counts (px_unknown S) \<le> int (length (px_orders S)) \<and>
       list_all (\<lambda>(i, m). length (ms_bars m) \<le> paper_market_window) (px_snapshots S) \<and>
       set (dkeys (px_snapshots S)) = set (dkeys (px_cursors S)) \<and>
       list_all (\<lambda>(i, c). int (length (mc_window c)) \<le> mc_total_count c \<and> length (mc_window c) \<le> paper_market_window \<and>
         is_sha256_text (mc_digest c)) (px_cursors S))
       (ValueError ''paper session exceeds a bounded durable limit''))"

section \<open>The broker\<close>

record paper_audit_event =
  pe_event_id :: string
  pe_spec :: audit_spec

record 'w paper_broker =
  pb_costs :: cost_model
  pb_starting_cash :: dec
  pb_currency :: string
  pb_participation :: dec
  pb_recorder :: "(event_append list \<Rightarrow> 'w \<Rightarrow> unit result \<times> 'w) option"
  pb_session_id :: string
  pb_audit_events :: "paper_audit_event list"
  pb_state :: paper_state

definition initial_state_digest ::
  "(string \<Rightarrow> string) \<Rightarrow> string \<Rightarrow> dec \<Rightarrow> string \<Rightarrow> cost_model \<Rightarrow> dec \<Rightarrow> string result" where
  "initial_state_digest sha session_id starting_cash currency costs participation =
     rbind (members [(''schema_version'', Inr (JInt 3)), (''session_id'', Inr (JStr session_id)),
       (''starting_cash'', paper_decimal starting_cash), (''currency'', Inr (JStr currency)),
       (''cost_model'', cost_payload costs), (''max_volume_participation'', paper_decimal participation),
       (''capabilities'', Inr capabilities_payload)]) (\<lambda>kvs. Inr (canonical_digest sha (JObj kvs)))"

definition make_paper_broker ::
  "(string \<Rightarrow> string) \<Rightarrow> cost_model \<Rightarrow> dec \<Rightarrow> string \<Rightarrow> dec \<Rightarrow> (event_append list \<Rightarrow> 'w \<Rightarrow> unit result \<times> 'w) option \<Rightarrow> string \<Rightarrow>
   'w paper_broker result" where
  "make_paper_broker sha costs starting_cash currency participation recorder session_id =
     rbind (paper_positive ''starting_cash'' starting_cash) (\<lambda>_.
     rbind (paper_positive ''max_volume_participation'' participation) (\<lambda>_.
     rbind (require (participation \<le> 1) (ValueError ''max_volume_participation must be at most 1'')) (\<lambda>_.
     rbind (require (currency_shape currency) (ValueError ''currency must be a safe uppercase identifier'')) (\<lambda>_.
     rbind (require (identifier_shape session_id) (ValueError ''session_id must be a safe stable identifier'')) (\<lambda>_.
     rbind (validate_costs costs) (\<lambda>_.
     rbind (initial_state_digest sha session_id starting_cash currency costs participation) (\<lambda>digest.
     Inr \<lparr>pb_costs = costs, pb_starting_cash = starting_cash, pb_currency = currency, pb_participation = participation,
       pb_recorder = recorder, pb_session_id = session_id, pb_audit_events = [],
       pb_state = \<lparr>px_orders = [], px_client_orders = [], px_active = [], px_unknown = [], px_snapshots = [], px_cursors = [],
         px_fills = [], px_event_sequence = 0, px_operation_sequence = 0, px_fill_sequence = 0, px_state_digest = digest,
         px_fill_ids_digest = empty_digest sha, px_ledger = ledger_init starting_cash currency, px_market_prices = [],
         px_instruments = [], px_latest_at = None, px_last_event_key = None\<rparr>\<rparr>)))))))"

section \<open>The commit\<close>

definition operation_kind :: "audit_spec list \<Rightarrow> string" where
  "operation_kind specs = (let kinds = map as_kind specs in
     if ''paper.order.submitted'' \<in> set kinds then ''SUBMIT''
     else if ''paper.market.observed'' \<in> set kinds \<or> ''paper.snapshot.duplicate'' \<in> set kinds then ''MARKET''
     else if ''paper.order.duplicate'' \<in> set kinds \<or> ''paper.order.duplicate_conflict'' \<in> set kinds then ''IDEMPOTENCY''
     else if list_ex (\<lambda>a. as_kind a = ''paper.order.fill'' \<and>
         dget (as_payload a) ''source'' = Some (JStr ''AUTHORITATIVE_RECONCILIATION'')) specs then ''RECONCILIATION''
     else ''RESOLUTION'')"

definition checkpoint_payload ::
  "(string \<Rightarrow> string) \<Rightarrow> 'w paper_broker \<Rightarrow> paper_state \<Rightarrow> int \<Rightarrow> int \<Rightarrow> string \<Rightarrow> string \<Rightarrow> (string \<times> json) list result" where
  "checkpoint_payload sha B S first_sequence activity_count k previous =
     (let first = (px_operation_sequence S = 1) in members
     [(''schema_version'', Inr (JInt 3)), (''session_id'', Inr (JStr (pb_session_id B))),
      (''event_sequence'', Inr (JInt (px_event_sequence S))), (''operation_sequence'', Inr (JInt (px_operation_sequence S))),
      (''operation_id'', Inr (JStr (pb_session_id B @ '':operation:'' @ padded 20 (px_operation_sequence S)))),
      (''operation_kind'', Inr (JStr k)), (''first_activity_sequence'', Inr (JInt first_sequence)),
      (''activity_count'', Inr (JInt activity_count)), (''previous_state_digest'', Inr (JStr previous)),
      (''state_digest'', Inr (JStr (px_state_digest S))),
      (''configuration'', if first then rbind (members [(''starting_cash'', paper_decimal (pb_starting_cash B)),
         (''currency'', Inr (JStr (pb_currency B))), (''cost_model'', cost_payload (pb_costs B)),
         (''max_volume_participation'', paper_decimal (pb_participation B))]) (\<lambda>kvs. Inr (JObj kvs)) else Inr JNull),
      (''capabilities'', Inr (if first then capabilities_payload else JNull)),
      (''ledger'', ledger_checkpoint_payload sha S)])"

definition event_id_of :: "string \<Rightarrow> int \<Rightarrow> string" where
  "event_id_of session_id n = session_id @ '':event:'' @ padded 20 n"

text \<open>The events of an operation, numbered from \<open>n\<close>.\<close>

fun number_events :: "string \<Rightarrow> int \<Rightarrow> audit_spec list \<Rightarrow> paper_audit_event list" where
  "number_events session_id n [] = []"
| "number_events session_id n (a # rest) = \<lparr>pe_event_id = event_id_of session_id n, pe_spec = a\<rparr> # number_events session_id (n + 1) rest"

definition durable_event :: "string \<Rightarrow> paper_audit_event \<Rightarrow> event_append" where
  "durable_event session_id e = \<lparr>ea_event_id = pe_event_id e, ea_kind = as_kind (pe_spec e), ea_aggregate_id = session_id,
     ea_payload = JObj (activity_payload (pe_spec e)), ea_occurred_at = Aware (as_occurred_at (pe_spec e))\<rparr>"

definition check_payload_size :: "json \<Rightarrow> unit result" where
  "check_payload_size p = rbind (validate_event_payload p) (\<lambda>_.
     require (int (length (dumps p)) \<le> max_event_payload_bytes) (ValueError ''paper durable event payload exceeds bounded size''))"

text \<open>The state of an operation is numbered and chained to the digest before it; its events are prepared.\<close>

definition prepare_commit ::
  "(string \<Rightarrow> string) \<Rightarrow> 'w paper_broker \<Rightarrow> audit_spec list \<Rightarrow> pydt \<Rightarrow> (paper_state, paper_audit_event list) action" where
  "prepare_commit sha B specs at_time =
     then_do (check (paper_aware ''commit timestamp'' at_time)) (\<lambda>t.
     then_do (check (require (specs \<noteq> []) (ValueError ''paper operation requires first-class activity evidence''))) (\<lambda>_.
     then_do (reads Inr) (\<lambda>S.
     let n = int (length specs); first = px_event_sequence S + 1; previous = px_state_digest S in
     then_do (modify (\<lambda>S. S\<lparr>px_event_sequence := px_event_sequence S + n + 1,
       px_operation_sequence := px_operation_sequence S + 1\<rparr>)) (\<lambda>_.
     then_do (reads (\<lambda>S. validate_state_limits S n)) (\<lambda>_.
     then_do (reads (next_state_digest sha previous (activity_facts specs))) (\<lambda>digest.
     then_do (modify (\<lambda>S. S\<lparr>px_state_digest := digest\<rparr>)) (\<lambda>_.
     then_do (reads (\<lambda>S. checkpoint_payload sha B S first n (operation_kind specs) previous)) (\<lambda>payload.
     let checkpoint = market_spec ''paper.state.committed'' (pb_session_id B) t payload;
         events = number_events (pb_session_id B) first (specs @ [checkpoint]) in
     then_do (check (traverse (\<lambda>e. check_payload_size (ea_payload (durable_event (pb_session_id B) e))) events)) (\<lambda>_.
     give events)))))))))"

text \<open>The commit of a broker whose state the kernel has changed.\<close>

definition commit ::
  "(string \<Rightarrow> string) \<Rightarrow> audit_spec list \<Rightarrow> pydt \<Rightarrow> 'w paper_broker \<Rightarrow> 'w \<Rightarrow> unit result \<times> 'w paper_broker \<times> 'w" where
  "commit sha specs at_time B w = (case prepare_commit sha B specs at_time (pb_state B) of
       (Inl e, S) \<Rightarrow> (Inl e, B\<lparr>pb_state := S\<rparr>, w)
     | (Inr events, S) \<Rightarrow>
         (case (case pb_recorder B of None \<Rightarrow> (Inr (), w)
             | Some record_events \<Rightarrow> record_events (map (durable_event (pb_session_id B)) events) w) of
            (Inl e, w') \<Rightarrow> (Inl e, B\<lparr>pb_state := S\<rparr>, w')
          | (Inr _, w') \<Rightarrow> (Inr (), B\<lparr>pb_state := S, pb_audit_events := pb_audit_events B @
              filter (\<lambda>e. as_kind (pe_spec e) \<noteq> ''paper.state.committed'') events\<rparr>, w')))"

section \<open>The undo journal\<close>

record state_journal =
  sj_orders :: "(string \<times> paper_order option) list"
  sj_client_orders :: "(string \<times> string option) list"
  sj_active :: "(string \<times> string list option) list"
  sj_unknown :: "(string \<times> string list option) list"
  sj_snapshots :: "(string \<times> market_snapshot option) list"
  sj_cursors :: "(string \<times> market_cursor option) list"
  sj_instruments :: "(string \<times> instrument option) list"
  sj_market_prices :: "(string \<times> dec option) list"
  sj_fills_length :: nat
  sj_ledger_state :: ledger_compact_state
  sj_before :: paper_state

definition capture_values :: "('k, 'v) dict \<Rightarrow> 'k list \<Rightarrow> ('k \<times> 'v option) list" where
  "capture_values d ks = map (\<lambda>k. (k, dget d k)) ks"

definition restore_values :: "('k \<times> 'v option) list \<Rightarrow> ('k, 'v) dict \<Rightarrow> ('k, 'v) dict" where
  "restore_values vs d = foldl (\<lambda>a (k, v). case v of None \<Rightarrow> ddel k a | Some x \<Rightarrow> dset k x a) d vs"

text \<open>The sequence numbers, digests and watermarks are captured by value: they are read from \<open>sj_before\<close>,
  and nothing else of it is.\<close>

definition capture :: "paper_state \<Rightarrow> string list \<Rightarrow> string list \<Rightarrow> string list \<Rightarrow> state_journal" where
  "capture S order_ids client_ids instrument_ids =
     (let instruments = remdups (instrument_ids @ concat (map (\<lambda>oid. case dget (px_orders S) oid of
           None \<Rightarrow> [] | Some r \<Rightarrow> [bo_instrument_id (po_order r)]) order_ids)) in
      \<lparr>sj_orders = capture_values (px_orders S) order_ids, sj_client_orders = capture_values (px_client_orders S) client_ids,
       sj_active = capture_values (px_active S) instruments, sj_unknown = capture_values (px_unknown S) instruments,
       sj_snapshots = capture_values (px_snapshots S) instruments, sj_cursors = capture_values (px_cursors S) instruments,
       sj_instruments = capture_values (px_instruments S) instruments,
       sj_market_prices = capture_values (px_market_prices S) instruments, sj_fills_length = length (px_fills S),
       sj_ledger_state = compact_state (px_ledger S), sj_before = S\<rparr>)"

definition rollback :: "state_journal \<Rightarrow> paper_state \<Rightarrow> exn option \<times> paper_state" where
  "rollback j S = (case restore_compact_state (sj_ledger_state j) (map fl_fill_id (drop (sj_fills_length j) (px_fills S)))
       (px_ledger S) of
     (Some e, L) \<Rightarrow> (Some e, S\<lparr>px_ledger := L\<rparr>)
   | (None, L) \<Rightarrow> (None, S\<lparr>px_ledger := L, px_fills := take (sj_fills_length j) (px_fills S),
       px_orders := restore_values (sj_orders j) (px_orders S),
       px_client_orders := restore_values (sj_client_orders j) (px_client_orders S),
       px_active := restore_values (sj_active j) (px_active S), px_unknown := restore_values (sj_unknown j) (px_unknown S),
       px_snapshots := restore_values (sj_snapshots j) (px_snapshots S), px_cursors := restore_values (sj_cursors j) (px_cursors S),
       px_instruments := restore_values (sj_instruments j) (px_instruments S),
       px_market_prices := restore_values (sj_market_prices j) (px_market_prices S),
       px_event_sequence := px_event_sequence (sj_before j), px_operation_sequence := px_operation_sequence (sj_before j),
       px_fill_sequence := px_fill_sequence (sj_before j), px_state_digest := px_state_digest (sj_before j),
       px_fill_ids_digest := px_fill_ids_digest (sj_before j), px_latest_at := px_latest_at (sj_before j),
       px_last_event_key := px_last_event_key (sj_before j)\<rparr>))"

text \<open>Undo after an exception; a rollback that raises replaces the exception.\<close>

definition undo :: "state_journal \<Rightarrow> exn \<Rightarrow> 'w paper_broker \<Rightarrow> exn \<times> 'w paper_broker" where
  "undo j e B = (case rollback j (pb_state B) of
       (Some e', S') \<Rightarrow> (e', B\<lparr>pb_state := S'\<rparr>) | (None, S') \<Rightarrow> (e, B\<lparr>pb_state := S'\<rparr>))"

section \<open>Operations\<close>

text \<open>
  A staged operation: the kernel changes the state in place, the commit numbers and records it; whatever
  state an exception of either leaves, the journal is rolled back on it.
\<close>

definition staged_operation ::
  "(string \<Rightarrow> string) \<Rightarrow> state_journal \<Rightarrow> (paper_state, audit_spec list \<times> 'a \<times> pydt) action \<Rightarrow> 'w paper_broker \<Rightarrow> 'w \<Rightarrow>
   'a result \<times> 'w paper_broker \<times> 'w" where
  "staged_operation sha j operation B w = (case operation (pb_state B) of
       (Inl e, S) \<Rightarrow> (case undo j e (B\<lparr>pb_state := S\<rparr>) of (e', B') \<Rightarrow> (Inl e', B', w))
     | (Inr (specs, v, t), S) \<Rightarrow> (case commit sha specs t (B\<lparr>pb_state := S\<rparr>) w of
         (Inl e, B1, w') \<Rightarrow> (case undo j e B1 of (e', B') \<Rightarrow> (Inl e', B', w'))
       | (Inr _, B1, w') \<Rightarrow> (Inr v, B1, w')))"

definition submit ::
  "(string \<Rightarrow> string) \<Rightarrow> order_intent \<Rightarrow> market_snapshot \<Rightarrow> 'w paper_broker \<Rightarrow> 'w \<Rightarrow> broker_order result \<times> 'w paper_broker \<times> 'w" where
  "submit sha i m B w = (let S = pb_state B in case validate_intent_shape i of
       Inl e \<Rightarrow> (Inl e, B, w)
     | Inr _ \<Rightarrow> (case dget (px_client_orders S) (oi_intent_id i) of
         Some order_id \<Rightarrow>
           (case staged_operation sha (capture S [order_id] [oi_intent_id i] [])
             (then_do (idempotency_kernel i) (\<lambda>(specs, r, conflict, t). give (specs, (r, conflict), Aware t))) B w of
              (Inl e, B', w') \<Rightarrow> (Inl e, B', w')
            | (Inr (r, conflict), B', w') \<Rightarrow> (if conflict
                then Inl (DuplicateIntentConflict ''client intent ID already belongs to a different canonical intent'')
                else Inr (po_order r), B', w'))
       | None \<Rightarrow>
           let order_id = paper_order_id sha (pb_session_id B) (oi_intent_id i) in
           staged_operation sha (capture S [order_id] [oi_intent_id i] [oi_instrument_id i])
             (then_do (submit_kernel sha (pb_session_id B) i m) (\<lambda>(specs, b, t). give (specs, b, Aware t))) B w))"

definition resolve ::
  "(string \<Rightarrow> string) \<Rightarrow> string \<Rightarrow> order_status \<Rightarrow> pydt \<Rightarrow> (string \<times> (string \<times> json) list) option \<Rightarrow> 'w paper_broker \<Rightarrow> 'w \<Rightarrow>
   broker_order result \<times> 'w paper_broker \<times> 'w" where
  "resolve sha order_id status at_time activity B w =
     staged_operation sha (capture (pb_state B) [order_id] [] [])
       (then_do (resolution_kernel order_id status at_time activity) (\<lambda>(specs, b, t). give (specs, b, Aware t))) B w"

definition cancel :: "(string \<Rightarrow> string) \<Rightarrow> string \<Rightarrow> pydt \<Rightarrow> 'w paper_broker \<Rightarrow> 'w \<Rightarrow> broker_order result \<times> 'w paper_broker \<times> 'w" where
  "cancel sha order_id t = resolve sha order_id CANCELLED t None"

definition reject ::
  "(string \<Rightarrow> string) \<Rightarrow> string \<Rightarrow> pydt \<Rightarrow> string \<Rightarrow> 'w paper_broker \<Rightarrow> 'w \<Rightarrow> broker_order result \<times> 'w paper_broker \<times> 'w" where
  "reject sha order_id t reason_code B w = (if \<not> reason_shape reason_code
     then (Inl (ValueError ''reason_code must be a safe stable code''), B, w)
     else resolve sha order_id REJECTED t (Some (''paper.order.rejected'', [(''reason_code'', JStr reason_code)])) B w)"

definition expire :: "(string \<Rightarrow> string) \<Rightarrow> string \<Rightarrow> pydt \<Rightarrow> 'w paper_broker \<Rightarrow> 'w \<Rightarrow> broker_order result \<times> 'w paper_broker \<times> 'w" where
  "expire sha order_id t = resolve sha order_id EXPIRED t None"

definition mark_unknown :: "(string \<Rightarrow> string) \<Rightarrow> string \<Rightarrow> pydt \<Rightarrow> 'w paper_broker \<Rightarrow> 'w \<Rightarrow> broker_order result \<times> 'w paper_broker \<times> 'w" where
  "mark_unknown sha order_id t = resolve sha order_id UNKNOWN t None"

definition reconcile_unknown ::
  "(string \<Rightarrow> string) \<Rightarrow> string \<Rightarrow> order_status \<Rightarrow> pydt \<Rightarrow> 'w paper_broker \<Rightarrow> 'w \<Rightarrow> broker_order result \<times> 'w paper_broker \<times> 'w" where
  "reconcile_unknown sha order_id status t B w = (case dget (px_orders (pb_state B)) order_id of
       None \<Rightarrow> (Inl (KeyError ''paper order not found''), B, w)
     | Some r \<Rightarrow> if bo_status (po_order r) \<noteq> UNKNOWN
         then (Inl (ValueError ''only UNKNOWN orders can be reconciled''), B, w)
         else resolve sha order_id status t None B w)"

definition reconcile_unknown_fills ::
  "(string \<Rightarrow> string) \<Rightarrow> broker_order \<Rightarrow> fill list \<Rightarrow> instrument \<Rightarrow> 'w paper_broker \<Rightarrow> 'w \<Rightarrow> broker_order result \<times> 'w paper_broker \<times> 'w" where
  "reconcile_unknown_fills sha a fills ins B w = (case paper_instrument_id ins of
       Inl e \<Rightarrow> (Inl e, B, w)
     | Inr instrument_id \<Rightarrow> staged_operation sha (capture (pb_state B) [bo_order_id a] [] [instrument_id])
         (then_do (reconciliation_kernel sha a fills ins (pb_currency B)) (\<lambda>(specs, t). give (specs, a, Aware t))) B w)"

section \<open>Market batches\<close>

definition relevant_instruments :: "paper_state \<Rightarrow> string set result" where
  "relevant_instruments S = rbind (state_positions S) (\<lambda>ps. Inr (set (dkeys (px_active S)) \<union> set (map pos_instrument_id ps)))"

text \<open>One entry of a batch: its key, its snapshot, its instrument and whether it is a duplicate.\<close>

type_synonym cohort_entry = "(instant \<times> instant \<times> string) \<times> market_snapshot \<times> instrument \<times> bool"

fun validate_cohort ::
  "string \<Rightarrow> paper_state \<Rightarrow> string list \<Rightarrow> (market_snapshot \<times> instrument) list \<Rightarrow> cohort_entry list result" where
  "validate_cohort currency S seen [] = Inr []"
| "validate_cohort currency S seen ((m, ins) # xs) =
     rbind (paper_instrument_id ins) (\<lambda>i.
     rbind (require (i \<notin> set seen) (ValueError ''snapshot batch must contain an instrument at most once'')) (\<lambda>_.
     rbind (require (ins_quote_currency ins = currency) (ValueError ''instrument quote currency must match the paper cash ledger'')) (\<lambda>_.
     rbind (require (ms_instrument_id m = i) (ValueError ''snapshot and instrument identity must match'')) (\<lambda>_.
     rbind (require (case dget (px_instruments S) i of None \<Rightarrow> True | Some j \<Rightarrow> j = ins)
       (ValueError ''instrument metadata changed within the paper session'')) (\<lambda>_.
     let previous = dget (px_snapshots S) i; duplicate = (previous = Some m) in
     rbind (case previous of None \<Rightarrow> Inr ()
         | Some p \<Rightarrow> if duplicate then Inr ()
           else if length (ms_bars p) + 1 < length (ms_bars m) then Inl (ValueError ''snapshot must contain exactly one unseen event'')
           else require (length (ms_bars m) = length (ms_bars p) + 1 \<and> take (length (ms_bars p)) (ms_bars m) = ms_bars p)
             (ValueError ''snapshot revision or backward event is not allowed'')) (\<lambda>_.
     rbind (validate_snapshot m i (int paper_market_window + 1)) (\<lambda>_.
     rbind (validate_watermark S (ms_observed_at m)) (\<lambda>_.
     rbind (require (ins_asset_class ins \<in> set (bc_supported_asset_classes paper_capabilities))
       (ValueError ''instrument asset class is unsupported by paper execution'')) (\<lambda>_.
     rbind (validate_cohort currency S (i # seen) xs) (\<lambda>rest.
     Inr ((event_key m, m, ins, duplicate) # rest)))))))))))"

definition key_less :: "instant \<times> instant \<times> string \<Rightarrow> instant \<times> instant \<times> string \<Rightarrow> bool" where
  "key_less a b \<longleftrightarrow> fst a < fst b \<or> fst a = fst b \<and> (fst (snd a) < fst (snd b) \<or>
     fst (snd a) = fst (snd b) \<and> snd (snd a) < snd (snd b))"

text \<open>A stable insertion by key.\<close>

fun insert_entry :: "cohort_entry \<Rightarrow> cohort_entry list \<Rightarrow> cohort_entry list" where
  "insert_entry x [] = [x]"
| "insert_entry x (y # ys) = (if key_less (fst y) (fst x) then y # insert_entry x ys else x # y # ys)"

definition sort_entries :: "cohort_entry list \<Rightarrow> cohort_entry list" where
  "sort_entries xs = foldr insert_entry xs []"

fun keys_increase :: "(instant \<times> instant \<times> string) list \<Rightarrow> bool" where
  "keys_increase (a # b # ks) = (key_less a b \<and> keys_increase (b # ks))"
| "keys_increase _ = True"

definition order_cohort :: "paper_state \<Rightarrow> cohort_entry list \<Rightarrow> cohort_entry list result" where
  "order_cohort S entries = rbind (relevant_instruments S) (\<lambda>relevant.
     rbind (require (set (map (\<lambda>(k, m, ins, d). ms_instrument_id m) entries) = relevant)
       (ValueError ''snapshot batch must include the exact relevant cohort'')) (\<lambda>_.
     rbind (require (card (set (map (\<lambda>(k, m, ins, d). ms_observed_at m) entries)) = 1)
       (ValueError ''snapshot cohort must share one observed_at'')) (\<lambda>_.
     let sorted = sort_entries entries; new_keys = map fst (filter (\<lambda>(k, m, ins, d). \<not> d) sorted) in
     rbind (require (case (new_keys, px_last_event_key S) of (k # _, Some l) \<Rightarrow> key_less l k | _ \<Rightarrow> True)
       (ValueError ''global chronology regression is not allowed'')) (\<lambda>_.
     rbind (require (keys_increase new_keys) (ValueError ''global chronology keys must be strictly increasing'')) (\<lambda>_.
     Inr sorted)))))"

definition process_snapshots ::
  "(string \<Rightarrow> string) \<Rightarrow> (market_snapshot \<times> instrument) list \<Rightarrow> 'w paper_broker \<Rightarrow> 'w \<Rightarrow> fill list result \<times> 'w paper_broker \<times> 'w" where
  "process_snapshots sha events B w = (let S = pb_state B in
     case rbind (relevant_instruments S) (\<lambda>_. rbind (validate_cohort (pb_currency B) S [] events) (order_cohort S)) of
       Inl e \<Rightarrow> (Inl e, B, w)
     | Inr cohort \<Rightarrow>
         let instruments = sort (map (\<lambda>(k, m, ins, d). ms_instrument_id m) cohort);
             t = ms_observed_at (fst (snd (hd cohort))) in
         staged_operation sha (capture S (concat (map (index_get (px_active S)) instruments)) [] instruments)
           (then_do (market_kernel sha (pb_costs B) (pb_participation B) (pb_session_id B)
             (map (\<lambda>(k, m, ins, d). \<lparr>mi_snapshot = m, mi_instrument = Some ins, mi_duplicate = d\<rparr>) cohort))
             (\<lambda>(specs, fills). give (specs, fills, Aware t))) B w)"

definition on_snapshots ::
  "(string \<Rightarrow> string) \<Rightarrow> (market_snapshot \<times> instrument) list \<Rightarrow> 'w paper_broker \<Rightarrow> 'w \<Rightarrow> fill list result \<times> 'w paper_broker \<times> 'w" where
  "on_snapshots sha events B w = (let S = pb_state B in
     case rbind (require (events \<noteq> []) (ValueError ''snapshot batch must be a nonempty tuple'')) (\<lambda>_.
       traverse (\<lambda>(m, ins). rbind (paper_instrument_id ins) (\<lambda>i.
         rbind (require (ms_instrument_id m = i) (ValueError ''snapshot and instrument identity must match'')) (\<lambda>_.
         rbind (normalize_full_prefix sha (dget (px_snapshots S) i) (dget (px_cursors S) i) m i) (\<lambda>n. Inr (n, ins))))) events) of
       Inl e \<Rightarrow> (Inl e, B, w)
     | Inr normalized \<Rightarrow> process_snapshots sha normalized B w)"

definition on_rolling_snapshots ::
  "(string \<Rightarrow> string) \<Rightarrow> (rolling_window \<times> instrument) list \<Rightarrow> 'w paper_broker \<Rightarrow> 'w \<Rightarrow> fill list result \<times> 'w paper_broker \<times> 'w" where
  "on_rolling_snapshots sha events B w = (let S = pb_state B in
     case rbind (require (events \<noteq> []) (ValueError ''rolling snapshot batch must be a nonempty tuple'')) (\<lambda>_.
       traverse (\<lambda>(v, ins). rbind (paper_instrument_id ins) (\<lambda>i.
         rbind (require (rw_instrument_id v = i) (ValueError ''rolling input and instrument identity must match'')) (\<lambda>_.
         rbind (snapshot_from_window sha (dget (px_cursors S) i) (dget (px_snapshots S) i) (dget (px_instruments S) i) v ins i)
           (\<lambda>n. Inr (n, ins))))) events) of
       Inl e \<Rightarrow> (Inl e, B, w)
     | Inr normalized \<Rightarrow> process_snapshots sha normalized B w)"

definition single_cohort :: "string \<Rightarrow> paper_state \<Rightarrow> unit result" where
  "single_cohort name S = rbind (relevant_instruments S) (\<lambda>relevant. require (card relevant = 1)
     (ValueError (''market cohort requires one atomic '' @ name @ '' batch'')))"

definition on_snapshot ::
  "(string \<Rightarrow> string) \<Rightarrow> market_snapshot \<Rightarrow> instrument \<Rightarrow> 'w paper_broker \<Rightarrow> 'w \<Rightarrow> fill list result \<times> 'w paper_broker \<times> 'w" where
  "on_snapshot sha m ins B w = (case rbind (validate_watermark (pb_state B) (ms_observed_at m))
       (\<lambda>_. single_cohort ''on_snapshots'' (pb_state B)) of
       Inl e \<Rightarrow> (Inl e, B, w) | Inr _ \<Rightarrow> on_snapshots sha [(m, ins)] B w)"

definition on_rolling_snapshot ::
  "(string \<Rightarrow> string) \<Rightarrow> rolling_window \<Rightarrow> instrument \<Rightarrow> 'w paper_broker \<Rightarrow> 'w \<Rightarrow> fill list result \<times> 'w paper_broker \<times> 'w" where
  "on_rolling_snapshot sha v ins B w = (case single_cohort ''on_rolling_snapshots'' (pb_state B) of
       Inl e \<Rightarrow> (Inl e, B, w) | Inr _ \<Rightarrow> on_rolling_snapshots sha [(v, ins)] B w)"

section \<open>Queries\<close>

definition get_order :: "string \<Rightarrow> 'w paper_broker \<Rightarrow> broker_order result" where
  "get_order order_id B = (case dget (px_orders (pb_state B)) order_id of
       None \<Rightarrow> Inl (KeyError ''paper order not found'') | Some r \<Rightarrow> Inr (po_order r))"

definition get_order_by_client_id :: "string \<Rightarrow> 'w paper_broker \<Rightarrow> broker_order result" where
  "get_order_by_client_id client_id B = (case dget (px_client_orders (pb_state B)) client_id of
       None \<Rightarrow> Inl (KeyError ''paper client intent not found'')
     | Some order_id \<Rightarrow> (case dget (px_orders (pb_state B)) order_id of
         None \<Rightarrow> Inl (KeyError ''paper client intent not found'') | Some r \<Rightarrow> Inr (po_order r)))"

definition list_orders :: "'w paper_broker \<Rightarrow> broker_order list" where
  "list_orders B = map (po_order \<circ> snd) (sorted_items (px_orders (pb_state B)))"

definition paper_open_orders :: "'w paper_broker \<Rightarrow> broker_order list" where
  "paper_open_orders B = filter (\<lambda>b. bo_status b \<notin> set closed_statuses) (list_orders B)"

definition paper_positions :: "'w paper_broker \<Rightarrow> position list result" where
  "paper_positions B = state_positions (pb_state B)"

definition paper_portfolio_snapshot :: "'w paper_broker \<Rightarrow> portfolio_snapshot result" where
  "paper_portfolio_snapshot B = (case px_latest_at (pb_state B) of
       None \<Rightarrow> Inl (ValueError ''paper portfolio has no availability watermark'')
     | Some t \<Rightarrow> ledger_snapshot (Aware t) (px_ledger (pb_state B)))"

record session_head =
  sh_session_id :: string
  sh_event_count :: int
  sh_operation_count :: int
  sh_head_digest :: string

definition check_session_head :: "session_head \<Rightarrow> session_head result" where
  "check_session_head h = (if \<not> identifier_shape (sh_session_id h) \<or> sh_event_count h < 0 \<or> sh_operation_count h < 0 \<or>
       \<not> is_sha256_text (sh_head_digest h)
     then Inl (ValueError ''session head must contain canonical bounded values'') else Inr h)"

definition session_head_of :: "'w paper_broker \<Rightarrow> session_head result" where
  "session_head_of B = check_session_head \<lparr>sh_session_id = pb_session_id B,
     sh_event_count = px_event_sequence (pb_state B), sh_operation_count = px_operation_sequence (pb_state B),
     sh_head_digest = px_state_digest (pb_state B)\<rparr>"

end
