(* ===== verification/PaperJournal.thy ===== *)
theory PaperJournal
  imports PaperBroker
begin

text \<open>
  The undo journal of the paper broker: a state that differs only at the captured keys, by fills at the
  end and by operations the ledger accepted is put back, up to the order of dicts; and the rules that
  keep an action within the captured keys on every outcome, exceptions included.
\<close>

section \<open>Same sessions\<close>

definition same_dict :: "('k, 'v) dict \<Rightarrow> ('k, 'v) dict \<Rightarrow> bool" where
  "same_dict d e \<longleftrightarrow> (\<forall>k. dget d k = dget e k)"

definition same_state :: "paper_state \<Rightarrow> paper_state \<Rightarrow> bool" where
  "same_state S T \<longleftrightarrow> same_dict (px_orders S) (px_orders T) \<and> same_dict (px_client_orders S) (px_client_orders T) \<and>
     same_dict (px_active S) (px_active T) \<and> same_dict (px_unknown S) (px_unknown T) \<and>
     same_dict (px_snapshots S) (px_snapshots T) \<and> same_dict (px_cursors S) (px_cursors T) \<and>
     same_dict (px_instruments S) (px_instruments T) \<and> same_dict (px_market_prices S) (px_market_prices T) \<and>
     px_fills S = px_fills T \<and> canonical_ledger (px_ledger S) = canonical_ledger (px_ledger T) \<and>
     px_event_sequence S = px_event_sequence T \<and> px_operation_sequence S = px_operation_sequence T \<and>
     px_fill_sequence S = px_fill_sequence T \<and> px_state_digest S = px_state_digest T \<and>
     px_fill_ids_digest S = px_fill_ids_digest T \<and> px_latest_at S = px_latest_at T \<and>
     px_last_event_key S = px_last_event_key T"

lemma same_dict_refl [simp]: "same_dict d d"
  by (simp add: same_dict_def)

lemma same_state_refl [simp]: "same_state S S"
  by (simp add: same_state_def)

section \<open>Frames\<close>

definition dict_frame :: "'k set \<Rightarrow> ('k, 'v) dict \<Rightarrow> ('k, 'v) dict \<Rightarrow> bool" where
  "dict_frame K d e \<longleftrightarrow> (\<forall>k. k \<notin> K \<longrightarrow> dget d k = dget e k)"

lemma dict_frame_simps [simp]: "dict_frame K d d" "k \<in> K \<Longrightarrow> dict_frame K d (dset k v d)" "k \<in> K \<Longrightarrow> dict_frame K d (ddel k d)"
  by (auto simp: dict_frame_def)

lemma dict_frame_trans: "dict_frame K d e \<Longrightarrow> dict_frame K e f \<Longrightarrow> dict_frame K d f"
  by (simp add: dict_frame_def)

lemma dict_frame_dset: "dict_frame K d e \<Longrightarrow> k \<in> K \<Longrightarrow> dict_frame K d (dset k v e)"
  by (auto simp: dict_frame_def)

definition frame :: "string set \<Rightarrow> string set \<Rightarrow> string set \<Rightarrow> paper_state \<Rightarrow> paper_state \<Rightarrow> bool" where
  "frame K C I S T \<longleftrightarrow> dict_frame K (px_orders S) (px_orders T) \<and> dict_frame C (px_client_orders S) (px_client_orders T) \<and>
     dict_frame I (px_active S) (px_active T) \<and> dict_frame I (px_unknown S) (px_unknown T) \<and>
     dict_frame I (px_snapshots S) (px_snapshots T) \<and> dict_frame I (px_cursors S) (px_cursors T) \<and>
     dict_frame I (px_instruments S) (px_instruments T) \<and> dict_frame I (px_market_prices S) (px_market_prices T) \<and>
     (\<exists>ops fs. px_fills T = px_fills S @ fs \<and> fold_result ledger_step ops (px_ledger S) = Inr (px_ledger T) \<and>
        concat (map op_fill_ids ops) = map fl_fill_id fs)"

lemma frameI:
  assumes "dict_frame K (px_orders S) (px_orders T)" "dict_frame C (px_client_orders S) (px_client_orders T)"
    "dict_frame I (px_active S) (px_active T)" "dict_frame I (px_unknown S) (px_unknown T)"
    "dict_frame I (px_snapshots S) (px_snapshots T)" "dict_frame I (px_cursors S) (px_cursors T)"
    "dict_frame I (px_instruments S) (px_instruments T)" "dict_frame I (px_market_prices S) (px_market_prices T)"
    "px_fills T = px_fills S @ fs" "fold_result ledger_step ops (px_ledger S) = Inr (px_ledger T)"
    "concat (map op_fill_ids ops) = map fl_fill_id fs"
  shows "frame K C I S T"
  using assms unfolding frame_def by blast

lemma frame_same_book:
  assumes "dict_frame K (px_orders S) (px_orders T)" "dict_frame C (px_client_orders S) (px_client_orders T)"
    "dict_frame I (px_active S) (px_active T)" "dict_frame I (px_unknown S) (px_unknown T)"
    "dict_frame I (px_snapshots S) (px_snapshots T)" "dict_frame I (px_cursors S) (px_cursors T)"
    "dict_frame I (px_instruments S) (px_instruments T)" "dict_frame I (px_market_prices S) (px_market_prices T)"
    "px_fills T = px_fills S" "px_ledger T = px_ledger S"
  shows "frame K C I S T"
  by (rule frameI [where fs = "[]" and ops = "[]"]) (use assms in auto)

lemma frame_refl [simp]: "frame K C I S S"
  by (rule frame_same_book) auto

lemma frame_trans:
  assumes "frame K C I S T" "frame K C I T U"
  shows "frame K C I S U"
proof -
  obtain ops1 fs1 where b1: "px_fills T = px_fills S @ fs1" "fold_result ledger_step ops1 (px_ledger S) = Inr (px_ledger T)"
      "concat (map op_fill_ids ops1) = map fl_fill_id fs1"
    using assms(1) unfolding frame_def by blast
  obtain ops2 fs2 where b2: "px_fills U = px_fills T @ fs2" "fold_result ledger_step ops2 (px_ledger T) = Inr (px_ledger U)"
      "concat (map op_fill_ids ops2) = map fl_fill_id fs2"
    using assms(2) unfolding frame_def by blast
  have "px_fills U = px_fills S @ (fs1 @ fs2)" "fold_result ledger_step (ops1 @ ops2) (px_ledger S) = Inr (px_ledger U)"
      "concat (map op_fill_ids (ops1 @ ops2)) = map fl_fill_id (fs1 @ fs2)"
    using b1 b2 by (simp_all add: fold_result_append)
  then show ?thesis
    using assms unfolding frame_def by (meson dict_frame_trans)
qed

lemma frame_mono: "frame K C I S T \<Longrightarrow> K \<subseteq> K' \<Longrightarrow> C \<subseteq> C' \<Longrightarrow> I \<subseteq> I' \<Longrightarrow> frame K' C' I' S T"
  unfolding frame_def dict_frame_def by (meson subsetD)

section \<open>The journal puts a framed state back\<close>

lemma dget_restore_values:
  "dget (restore_values (capture_values d ks) e) k = (if k \<in> set ks then dget d k else dget e k)"
proof (induction ks arbitrary: e)
  case (Cons j ks)
  show ?case
    using Cons.IH [of "case dget d j of None \<Rightarrow> ddel j e | Some x \<Rightarrow> dset j x e"]
    by (auto simp: restore_values_def capture_values_def split: option.splits)
qed (simp add: restore_values_def capture_values_def)

lemma restore_values_same: "dict_frame (set ks) d e \<Longrightarrow> same_dict d (restore_values (capture_values d ks) e)"
  by (auto simp: same_dict_def dict_frame_def dget_restore_values)

lemma restore_compact_dicts:
  assumes "dict_ok (lg_positions L)" "dict_ok (lg_market_prices L)" "fold_result ledger_step ops L = Inr L'"
  shows "restore_compact_state (compact_state L) (concat (map op_fill_ids ops)) L' = (None, canonical_ledger L)"
proof -
  let ?ids = "concat (map op_fill_ids ops)"
  from lg.run_ids [OF assms(3)] have ids: "lg_fill_ids L' = lg_fill_ids L \<union> set ?ids" "distinct ?ids"
      "set ?ids \<inter> lg_fill_ids L = {}"
    by simp_all
  then have "remove_fills ?ids (lg_fill_ids L') = (None, lg_fill_ids L)"
    using remove_fills_all [of ?ids "lg_fill_ids L'"] by (auto simp: Diff_triv Un_Diff)
  then show ?thesis
    using run_identity [OF assms(3)] assms(1,2)
    by (simp add: restore_compact_state_def compact_state_def canonical_ledger_def
        import_export_positions import_prices_sorted)
qed

definition ledger_dicts_ok :: "ledger \<Rightarrow> bool" where
  "ledger_dicts_ok L \<longleftrightarrow> dict_ok (lg_positions L) \<and> dict_ok (lg_market_prices L)"

lemma canonical_ledger_idem: "ledger_dicts_ok L \<Longrightarrow> canonical_ledger (canonical_ledger L) = canonical_ledger L"
  by (simp add: canonical_ledger_def ledger_dicts_ok_def)

definition captured_instruments :: "paper_state \<Rightarrow> string list \<Rightarrow> string list \<Rightarrow> string set" where
  "captured_instruments S order_ids instrument_ids = set instrument_ids \<union>
     {bo_instrument_id (po_order r) |oid r. oid \<in> set order_ids \<and> dget (px_orders S) oid = Some r}"

lemma captured_instruments_set:
  "set (remdups (instrument_ids @ concat (map (\<lambda>oid. case dget (px_orders S) oid of
      None \<Rightarrow> [] | Some r \<Rightarrow> [bo_instrument_id (po_order r)]) order_ids))) = captured_instruments S order_ids instrument_ids"
proof -
  have "set (case dget (px_orders S) oid of None \<Rightarrow> [] | Some r \<Rightarrow> [bo_instrument_id (po_order r)]) =
      {bo_instrument_id (po_order r) |r. dget (px_orders S) oid = Some r}" for oid
    by (auto split: option.splits)
  then show ?thesis
    by (auto simp: captured_instruments_def)
qed

lemma rollback_restores:
  assumes "frame (set order_ids) (set client_ids) (captured_instruments S order_ids instrument_ids) S T"
    and "ledger_dicts_ok (px_ledger S)"
  shows "\<exists>S'. rollback (capture S order_ids client_ids instrument_ids) T = (None, S') \<and> same_state S S' \<and>
    px_ledger S' = canonical_ledger (px_ledger S)"
proof -
  obtain ops fs where b: "px_fills T = px_fills S @ fs" "fold_result ledger_step ops (px_ledger S) = Inr (px_ledger T)"
      "concat (map op_fill_ids ops) = map fl_fill_id fs"
    using assms(1) unfolding frame_def by blast
  have r: "restore_compact_state (compact_state (px_ledger S)) (map fl_fill_id fs) (px_ledger T) = (None, canonical_ledger (px_ledger S))"
    using restore_compact_dicts [OF _ _ b(2)] assms(2) b(3) by (simp add: ledger_dicts_ok_def)
  define I where "I = remdups (instrument_ids @ concat (map (\<lambda>oid. case dget (px_orders S) oid of
      None \<Rightarrow> [] | Some r \<Rightarrow> [bo_instrument_id (po_order r)]) order_ids))"
  have I: "set I = captured_instruments S order_ids instrument_ids"
    unfolding I_def by (rule captured_instruments_set)
  note f = assms(1) [folded I, unfolded frame_def]
  show ?thesis
    using r f canonical_ledger_idem [OF assms(2)]
    by (simp add: rollback_def capture_def Let_def I_def [symmetric] b(1) same_state_def restore_values_same)
qed

section \<open>Every outcome stays within its keys\<close>

text \<open>The number of counted fills keeps its distance to the log.\<close>

definition counted :: "paper_state \<Rightarrow> paper_state \<Rightarrow> bool" where
  "counted S T \<longleftrightarrow> px_fill_sequence T - int (length (px_fills T)) = px_fill_sequence S - int (length (px_fills S))"

text \<open>What a journal over the orders \<open>K\<close> relies on: a well-formed ledger, and that the executable orders of
  the instruments \<open>A\<close> are among them.\<close>

definition covered :: "string set \<Rightarrow> string set \<Rightarrow> paper_state \<Rightarrow> bool" where
  "covered A K S \<longleftrightarrow> positions_ok (px_ledger S) \<and> (\<forall>i\<in>A. set (index_get (px_active S) i) \<subseteq> K)"

definition tracked :: "string set \<Rightarrow> string set \<Rightarrow> string set \<Rightarrow> string set \<Rightarrow> paper_state \<Rightarrow> paper_state \<Rightarrow> bool" where
  "tracked A K C I S T \<longleftrightarrow> (covered A K S \<longrightarrow> covered A K T \<and> frame K C I S T)"

lemma tracked_preorder [simp]: "reflp (tracked A K C I)" "transp (tracked A K C I)"
proof -
  show "reflp (tracked A K C I)"
    by (simp add: reflp_def tracked_def)
  show "transp (tracked A K C I)"
    unfolding transp_def tracked_def by (meson frame_trans)
qed

lemma tracked_modify:
  assumes "\<And>S. dict_frame K (px_orders S) (px_orders (f S))" "\<And>S. dict_frame C (px_client_orders S) (px_client_orders (f S))"
    "\<And>S. dict_frame I (px_active S) (px_active (f S))" "\<And>S. dict_frame I (px_unknown S) (px_unknown (f S))"
    "\<And>S. dict_frame I (px_snapshots S) (px_snapshots (f S))" "\<And>S. dict_frame I (px_cursors S) (px_cursors (f S))"
    "\<And>S. dict_frame I (px_instruments S) (px_instruments (f S))" "\<And>S. dict_frame I (px_market_prices S) (px_market_prices (f S))"
    "\<And>S. px_fills (f S) = px_fills S" "\<And>S. px_ledger (f S) = px_ledger S"
    "\<And>S i. i \<in> A \<Longrightarrow> set (index_get (px_active (f S)) i) \<subseteq> set (index_get (px_active S) i) \<union> K"
  shows "along (tracked A K C I) (modify f)"
proof (rule along_modify)
  fix S
  have "frame K C I S (f S)"
    by (rule frame_same_book) (use assms in auto)
  moreover have "covered A K (f S)" if "covered A K S"
    using that assms(10,11) unfolding covered_def by (metis Un_least order_refl order_trans)
  ultimately show "tracked A K C I S (f S)"
    by (simp add: tracked_def)
qed

lemma on_ledger_eq: "on_ledger m S = (v, S') \<longleftrightarrow> (\<exists>L. m (px_ledger S) = (v, L) \<and> S' = S\<lparr>px_ledger := L\<rparr>)"
  by (auto simp: on_ledger_def split: prod.splits)

text \<open>The ledger and the log move together: where the ledger raises it has booked nothing.\<close>

lemma tracked_booking:
  fixes g :: "paper_state \<Rightarrow> paper_state"
  assumes g: "\<And>S. \<exists>n d. g S = S\<lparr>px_fills := px_fills S @ [f], px_fill_sequence := n, px_fill_ids_digest := d\<rparr>"
  shows "along (tracked A K C I) (then_do (on_ledger (fill_ledger f)) (\<lambda>_. modify g))"
  unfolding along_def
proof
  fix S :: paper_state
  obtain v L where m: "fill_ledger f (px_ledger S) = (v, L)"
    by (cases "fill_ledger f (px_ledger S)")
  show "tracked A K C I S (snd (then_do (on_ledger (fill_ledger f)) (\<lambda>_. modify g) S))"
  proof (cases v)
    case (Inl e)
    then show ?thesis
      using m fill_ledger_raises [of "px_ledger S" f e L] by (simp add: then_do_def on_ledger_def tracked_def covered_def)
  next
    case (Inr u)
    then have L: "ledger_step (Fill f) (px_ledger S) = Inr L"
      using m fill_ledger_Inr by simp
    obtain n d where T: "g (S\<lparr>px_ledger := L\<rparr>) =
        S\<lparr>px_ledger := L, px_fills := px_fills S @ [f], px_fill_sequence := n, px_fill_ids_digest := d\<rparr>" (is "_ = ?T")
      using g [of "S\<lparr>px_ledger := L\<rparr>"] by auto
    have "frame K C I S ?T"
      using L by (intro frameI [where fs = "[f]" and ops = "[Fill f]"]) auto
    moreover have "covered A K ?T" if "covered A K S"
      using that ledger_step_positions [OF _ L] by (simp add: covered_def)
    ultimately show ?thesis
      using m Inr T by (simp add: then_do_def on_ledger_def modify_def tracked_def)
  qed
qed

lemma tracked_mark: "along (tracked A K C I) (\<lambda>S. on_ledger (mark_ledger (prices S) t) S)"
  unfolding along_def
proof
  fix S
  obtain v L where m: "mark_ledger (prices S) t (px_ledger S) = (v, L)"
    by (cases "mark_ledger (prices S) t (px_ledger S)")
  show "tracked A K C I S (snd (on_ledger (mark_ledger (prices S) t) S))"
  proof (cases v)
    case (Inl e)
    then show ?thesis
      using m mark_ledger_raises [of "px_ledger S" "prices S" t e L] by (simp add: on_ledger_def tracked_def covered_def)
  next
    case (Inr s)
    then have L: "ledger_step (Mark (prices S) t) (px_ledger S) = Inr L"
      using m mark_ledger_Inr by simp
    have "frame K C I S (S\<lparr>px_ledger := L\<rparr>)"
      using L by (intro frameI [where fs = "[]" and ops = "[Mark (prices S) t]"]) auto
    moreover have "covered A K (S\<lparr>px_ledger := L\<rparr>)" if "covered A K S"
      using that ledger_step_positions [OF _ L] by (simp add: covered_def)
    ultimately show ?thesis
      using m by (simp add: on_ledger_def tracked_def)
  qed
qed

lemmas tracked_intros = along_intros along_then [OF tracked_preorder(2)] along_still [OF tracked_preorder(1)]

end
