(* ===== verification/PaperOutcomes.thy ===== *)
theory PaperOutcomes
  imports PaperJournal
begin

text \<open>
  What the kernels and the commit of the paper broker do to a session: what each changes when it returns,
  and that wherever it raises it has stayed within the keys its operation captures, with the ledger and
  the log of fills in step.
\<close>

section \<open>One order\<close>

lemma stage_transition_Inr:
  "stage_transition b s t = Inr (b', e) \<longleftrightarrow> s \<in> set (allowed (bo_status b)) \<and> bo_client_order_id b \<noteq> [] \<and>
     bo_order_id b \<noteq> [] \<and> bo_updated_at b \<le> t \<and> b' = b\<lparr>bo_status := s, bo_updated_at := t\<rparr> \<and> e = transition_event b s t"
  by (auto simp: stage_transition_def rbind_eq_Inr transition_Inr_iff record_event_def)

text \<open>Booking a fill keeps the log, the ledger and the count in step.\<close>

lemma book_paper_fill_tracked: "along (tracked A K C I) (book_paper_fill sha f)"
  unfolding book_paper_fill_def
proof (rule tracked_booking)
  show "\<exists>n d. S\<lparr>px_fill_sequence := px_fill_sequence S + 1, px_fills := px_fills S @ [f],
      px_fill_ids_digest := next_fill_ids_digest sha (px_fill_ids_digest S) (fl_fill_id f)\<rparr> =
    S\<lparr>px_fills := px_fills S @ [f], px_fill_sequence := n, px_fill_ids_digest := d\<rparr>" for S
    by (rule exI [of _ "px_fill_sequence S + 1"], rule exI [of _ "next_fill_ids_digest sha (px_fill_ids_digest S) (fl_fill_id f)"]) simp
qed

lemma book_paper_fill_Inr: "book_paper_fill sha f S = (Inr u, S') \<longleftrightarrow> (\<exists>L. apply_fill f (px_ledger S) = Inr L \<and>
    S' = S\<lparr>px_ledger := L, px_fill_sequence := px_fill_sequence S + 1, px_fills := px_fills S @ [f],
      px_fill_ids_digest := next_fill_ids_digest sha (px_fill_ids_digest S) (fl_fill_id f)\<rparr>)"
  by (auto simp: book_paper_fill_def action_simps on_ledger_eq fill_ledger_Inr)

lemma book_on_order_tracked: "along (tracked A K C I) (book_fill_on_order sha r t ins liquidity specs f)"
  unfolding book_fill_on_order_def Let_def by (intro tracked_intros book_paper_fill_tracked tracked_preorder)

lemma try_fill_tracked: "along (tracked A K C I) (try_fill sha costs session_id r t ins liquidity specs price)"
  unfolding try_fill_def by (intro tracked_intros book_on_order_tracked tracked_preorder)

lemma process_order_tracked: "along (tracked A K C I) (process_order sha costs session_id m b ins liquidity r)"
  unfolding process_order_def Let_def by (intro tracked_intros try_fill_tracked tracked_preorder)

text \<open>Processing an order leaves it as it is, notes its trigger, expires it, or books one fill.\<close>

definition unfilled :: "market_snapshot \<Rightarrow> paper_order \<Rightarrow> paper_order \<Rightarrow> bool" where
  "unfilled m r r' \<longleftrightarrow> r' = r \<or> r' = r\<lparr>po_stop_triggered := True\<rparr> \<or>
     (\<exists>o1 event. r' = r\<lparr>po_order := o1\<rparr> \<and> stage_transition (po_order r) EXPIRED (ms_observed_at m) = Inr (o1, event))"

text \<open>What booking a fill does to the order and to the state.\<close>

definition filled_record :: "paper_order \<Rightarrow> instant \<Rightarrow> fill \<Rightarrow> paper_order \<Rightarrow> bool" where
  "filled_record r t f r' \<longleftrightarrow>
     (let new_filled = dadd (bo_filled_quantity (po_order r)) (fl_quantity f);
          remaining = map_option (\<lambda>left. dsub left (dmul (fl_quantity f) (fl_price f))) (po_remaining_notional r) in
      po_fill_count r < max_fills_per_order \<and>
      (\<forall>q. bo_requested_quantity (po_order r) = Some q \<longrightarrow> new_filled \<le> q) \<and> (\<forall>l. remaining = Some l \<longrightarrow> 0 \<le> l) \<and>
      (\<exists>weighted. po_order r' = (po_order r)\<lparr>bo_status := (if bo_requested_quantity (po_order r) = Some new_filled \<or> remaining = Some 0
          then FILLED else PARTIALLY_FILLED), bo_filled_quantity := new_filled,
          bo_average_fill_price := Some weighted, bo_updated_at := t\<rparr>) \<and>
      PARTIALLY_FILLED \<in> set (allowed (bo_status (po_order r))) \<and> bo_updated_at (po_order r) \<le> t \<and>
      po_intent r' = po_intent r \<and> po_remaining_notional r' = remaining \<and> po_fill_count r' = po_fill_count r + 1 \<and>
      po_last_fill_id r' = Some (fl_fill_id f))"

lemma allowed_fills: "FILLED \<in> set (allowed s) \<longleftrightarrow> PARTIALLY_FILLED \<in> set (allowed s)"
  by (cases s) simp_all

lemma book_on_order_Inr:
  assumes "book_fill_on_order sha r t ins liquidity sp f S = (Inr (r', fo, left, specs), S')"
  shows "filled_record r t f r' \<and> fo = Some f \<and> left = dsub liquidity (fl_quantity f) \<and> book_paper_fill sha f S = (Inr (), S')"
proof -
  define new_filled where "new_filled = dadd (bo_filled_quantity (po_order r)) (fl_quantity f)"
  define remaining where "remaining = map_option (\<lambda>left. dsub left (dmul (fl_quantity f) (fl_price f))) (po_remaining_notional r)"
  define target where "target = (if bo_requested_quantity (po_order r) = Some new_filled \<or> remaining = Some 0
    then FILLED else PARTIALLY_FILLED)"
  have g: "po_fill_count r < max_fills_per_order" "\<forall>q. bo_requested_quantity (po_order r) = Some q \<longrightarrow> new_filled \<le> q"
      "\<forall>l. remaining = Some l \<longrightarrow> 0 \<le> l"
    using assms unfolding book_fill_on_order_def Let_def new_filled_def [symmetric] remaining_def [symmetric]
    by (auto simp: not_le not_less raises_eq split: if_split_asm)
  obtain o1 event weighted where s: "stage_transition (po_order r) target t = Inr (o1, event)"
      "r' = r\<lparr>po_order := o1\<lparr>bo_filled_quantity := new_filled, bo_average_fill_price := Some weighted, bo_updated_at := t\<rparr>,
          po_remaining_notional := remaining,
          po_cumulative_filled_notional := dadd (po_cumulative_filled_notional r) (dmul (fl_quantity f) (fl_price f)),
          po_cumulative_fees := dadd (po_cumulative_fees r) (fl_fee f), po_fill_count := po_fill_count r + 1,
          po_last_fill_at := Some (fl_filled_at f), po_last_fill_id := Some (fl_fill_id f)\<rparr>"
      "fo = Some f" "left = dsub liquidity (fl_quantity f)" "book_paper_fill sha f S = (Inr (), S')"
    using assms unfolding book_fill_on_order_def Let_def new_filled_def [symmetric] remaining_def [symmetric]
      target_def [symmetric] by (auto simp: action_simps raises_eq split: if_split_asm prod.split_asm)
  have "PARTIALLY_FILLED \<in> set (allowed (bo_status (po_order r)))"
    using s(1) allowed_fills unfolding stage_transition_Inr target_def by (auto split: if_split_asm)
  then show ?thesis
    using g s unfolding filled_record_def Let_def new_filled_def [symmetric] remaining_def [symmetric] target_def [symmetric]
    by (auto simp: stage_transition_Inr intro: exI [of _ weighted])
qed

lemma try_fill_cases:
  assumes "try_fill sha costs session_id r t ins liquidity sp price S = (Inr (r', fo, left, specs), S')"
  shows "fo = None \<and> left = liquidity \<and> S' = S \<and> r' = r \<or>
    (\<exists>f. fo = Some f \<and> candidate_fill costs (fill_id_of session_id S) r t ins liquidity price = Inr (Some f) \<and>
      fill_admissible S r ins price f = Inr True \<and>
      book_fill_on_order sha r t ins liquidity sp f S = (Inr (r', fo, left, specs), S'))"
proof -
  obtain candidate where c: "candidate_fill costs (fill_id_of session_id S) r t ins liquidity price = Inr candidate"
      "(case candidate of None \<Rightarrow> give (r, None, liquidity, sp)
       | Some f \<Rightarrow> then_do (reads (\<lambda>S. fill_admissible S r ins price f)) (\<lambda>admissible.
           if \<not> admissible then give (r, None, liquidity, sp) else book_fill_on_order sha r t ins liquidity sp f)) S
       = (Inr (r', fo, left, specs), S')"
    using assms unfolding try_fill_def then_do_eq_Inr reads_eq by blast
  show ?thesis
  proof (cases candidate)
    case None
    then show ?thesis
      using c(2) by (simp add: give_eq)
  next
    case (Some f)
    then obtain admissible where a: "fill_admissible S r ins price f = Inr admissible"
        "(if \<not> admissible then give (r, None, liquidity, sp) else book_fill_on_order sha r t ins liquidity sp f) S
         = (Inr (r', fo, left, specs), S')"
      using c(2) by (auto simp: then_do_eq_Inr reads_eq)
    show ?thesis
    proof (cases admissible)
      case True
      with a have k: "book_fill_on_order sha r t ins liquidity sp f S = (Inr (r', fo, left, specs), S')"
        by simp
      with book_on_order_Inr [OF k] show ?thesis
        using c(1) a(1) Some True by simp
    qed (use a in \<open>simp add: give_eq\<close>)
  qed
qed

lemma process_order_cases:
  assumes "process_order sha costs session_id m b ins liquidity r S = (Inr (r', fo, left, specs), S')"
  shows "fo = None \<and> left = liquidity \<and> S' = S \<and> unfilled m r r' \<or>
    (\<exists>f r1 price sp triggered. fo = Some f \<and> is_market_executable (bo_status (po_order r)) \<and>
      po_submitted_source_at r < bar_at b \<and> ms_observed_at m < oi_expires_at (po_intent r) \<and>
      can_fill costs (Aware (bo_submitted_at (po_order r))) (Aware (ms_observed_at m)) = Inr True \<and>
      (r1 = r \<or> r1 = r\<lparr>po_stop_triggered := True\<rparr>) \<and> reference_price r b = Inr (Some price, triggered, True) \<and>
      candidate_fill costs (fill_id_of session_id S) r1 (ms_observed_at m) ins liquidity price = Inr (Some f) \<and>
      fill_admissible S r1 ins price f = Inr True \<and>
      book_fill_on_order sha r1 (ms_observed_at m) ins liquidity sp f S = (Inr (r', fo, left, specs), S'))"
proof (cases "is_market_executable (bo_status (po_order r)) \<and> po_submitted_source_at r < bar_at b \<and>
    ms_observed_at m < oi_expires_at (po_intent r)")
  case False
  then show ?thesis
    using assms unfolding process_order_def Let_def unfilled_def
    by (auto simp: is_market_executable_def action_simps not_less not_le split: if_split_asm)
next
  case True
  obtain ok where p: "can_fill costs (Aware (bo_submitted_at (po_order r))) (Aware (ms_observed_at m)) = Inr ok"
      "ok \<Longrightarrow> \<exists>reference triggered may_fill r1 sp. reference_price r b = Inr (reference, triggered, may_fill) \<and>
        note_trigger r (ms_observed_at m) triggered = Inr (r1, sp) \<and> (case reference of
            None \<Rightarrow> give (r1, None, liquidity, sp)
          | Some price \<Rightarrow> if \<not> may_fill then give (r1, None, liquidity, sp)
              else try_fill sha costs session_id r1 (ms_observed_at m) ins liquidity sp price) S = (Inr (r', fo, left, specs), S')"
      "\<not> ok \<Longrightarrow> (r', fo, left, S') = (r, None, liquidity, S)"
    using assms True unfolding process_order_def Let_def
    by (auto simp: is_market_executable_def then_do_eq_Inr check_eq give_eq split: if_split_asm prod.split_asm)
  show ?thesis
  proof (cases ok)
    case ok: True
    then obtain reference triggered may_fill r1 sp where q: "reference_price r b = Inr (reference, triggered, may_fill)"
        "note_trigger r (ms_observed_at m) triggered = Inr (r1, sp)"
        "(case reference of None \<Rightarrow> give (r1, None, liquidity, sp)
          | Some price \<Rightarrow> if \<not> may_fill then give (r1, None, liquidity, sp)
              else try_fill sha costs session_id r1 (ms_observed_at m) ins liquidity sp price) S = (Inr (r', fo, left, specs), S')"
      using p(2) by blast
    have r1: "r1 = r \<or> r1 = r\<lparr>po_stop_triggered := True\<rparr>"
      using q(2) by (auto simp: note_trigger_def rbind_eq_Inr split: if_split_asm)
    show ?thesis
    proof (cases "reference = None \<or> \<not> may_fill")
      case True
      then show ?thesis
        using q(3) r1 by (auto simp: unfilled_def give_eq split: option.split_asm)
    next
      case False
      then obtain price where "reference = Some price" may_fill
        by (cases reference) auto
      then show ?thesis
        using try_fill_cases [of sha costs session_id r1 "ms_observed_at m" ins liquidity sp price S r' fo left specs S']
          q True p(1) ok r1 by (auto simp: unfilled_def)
    qed
  qed (use p(3) in \<open>simp add: unfilled_def\<close>)
qed

lemma process_order_state:
  assumes "process_order sha costs session_id m b ins liquidity r S = (Inr (r', fo, left, specs), S')"
  shows "case fo of None \<Rightarrow> S' = S | Some f \<Rightarrow> book_paper_fill sha f S = (Inr (), S')"
proof -
  consider "fo = None" "S' = S" | f r1 sp where "book_fill_on_order sha r1 (ms_observed_at m) ins liquidity sp f S =
      (Inr (r', fo, left, specs), S')"
    using process_order_cases [OF assms] by blast
  then show ?thesis
    using book_on_order_Inr by cases (simp, fastforce)
qed

section \<open>Submissions, repetitions and resolutions\<close>

lemma advance_through_Inr:
  "advance_through ss t b = Inr (b', specs) \<Longrightarrow>
     b' = b\<lparr>bo_status := (if ss = [] then bo_status b else last ss), bo_updated_at := (if ss = [] then bo_updated_at b else t)\<rparr>"
proof (induction ss arbitrary: b specs)
  case (Cons s ss)
  then obtain trail where "advance_through ss t (b\<lparr>bo_status := s, bo_updated_at := t\<rparr>) = Inr (b', trail)"
    by (auto simp: rbind_eq_Inr stage_transition_Inr)
  from Cons.IH [OF this] show ?case
    by simp
qed simp

lemma set_index_frame [simp]: "i \<in> I \<Longrightarrow> dict_frame I d (set_index_membership i oid included d)"
  by (simp add: set_index_membership_def replace_order_index_def Let_def)

lemma sync_order_indexes_fields [simp]:
  "px_orders (sync_order_indexes r S) = px_orders S" "px_client_orders (sync_order_indexes r S) = px_client_orders S"
  "px_snapshots (sync_order_indexes r S) = px_snapshots S" "px_cursors (sync_order_indexes r S) = px_cursors S"
  "px_instruments (sync_order_indexes r S) = px_instruments S"
  "px_market_prices (sync_order_indexes r S) = px_market_prices S" "px_fills (sync_order_indexes r S) = px_fills S"
  "px_ledger (sync_order_indexes r S) = px_ledger S" "px_fill_sequence (sync_order_indexes r S) = px_fill_sequence S"
  "px_latest_at (sync_order_indexes r S) = px_latest_at S"
  "px_event_sequence (sync_order_indexes r S) = px_event_sequence S"
  "px_operation_sequence (sync_order_indexes r S) = px_operation_sequence S"
  "px_fill_ids_digest (sync_order_indexes r S) = px_fill_ids_digest S"
  "px_active (sync_order_indexes r S) = set_index_membership (bo_instrument_id (po_order r)) (bo_order_id (po_order r))
     (is_market_executable (bo_status (po_order r))) (px_active S)"
  "px_unknown (sync_order_indexes r S) = set_index_membership (bo_instrument_id (po_order r)) (bo_order_id (po_order r))
     (bo_status (po_order r) = UNKNOWN) (px_unknown S)"
  by (simp_all add: sync_order_indexes_def Let_def)

text \<open>The record and state a submission stages.\<close>

definition fresh_record :: "order_intent \<Rightarrow> market_snapshot \<Rightarrow> string \<Rightarrow> paper_order" where
  "fresh_record i m order_id = \<lparr>po_intent = i, po_order = (fresh_order order_id i (ms_observed_at m))\<lparr>bo_status := ACKNOWLEDGED\<rparr>,
     po_submitted_source_at = ms_source_at m, po_submission_reference_price = bar_close (last (ms_bars m)),
     po_remaining_notional = oi_notional i, po_cumulative_filled_notional = 0, po_cumulative_fees = 0,
     po_stop_triggered = False, po_fill_count = 0, po_last_fill_at = None, po_last_fill_id = None\<rparr>"

lemma submit_kernel_Inr:
  assumes "submit_kernel sha session_id i m S = (Inr (specs, b, t), S')"
  defines "oid \<equiv> paper_order_id sha session_id (oi_intent_id i)"
  shows "submit_guards S i m = Inr () \<and> b = po_order (fresh_record i m oid) \<and> t = ms_observed_at m \<and> specs \<noteq> [] \<and>
    (\<exists>cursor. S' = (sync_order_indexes (fresh_record i m oid) (S\<lparr>px_orders := dset oid (fresh_record i m oid) (px_orders S)\<rparr>))
      \<lparr>px_client_orders := dset (oi_intent_id i) oid (px_client_orders S),
       px_snapshots := dset (oi_instrument_id i) (bounded_snapshot m) (px_snapshots S),
       px_cursors := dset (oi_instrument_id i) cursor (px_cursors S),
       px_latest_at := Some (max_latest (px_latest_at S) (ms_observed_at m))\<rparr>)"
proof -
  obtain cursor evidence j trail where a: "submit_guards S i m = Inr ()"
      "submission_market sha S (oi_instrument_id i) m (ms_observed_at m) = Inr (cursor, evidence)"
      "paper_intent_payload i = Inr j"
      "advance_through [RISK_APPROVED, CONFIRMED, SUBMITTING, ACKNOWLEDGED] (ms_observed_at m)
         (fresh_order oid i (ms_observed_at m)) = Inr (b, trail)" "t = ms_observed_at m"
    using assms(1) unfolding submit_kernel_def Let_def oid_def [symmetric]
    by (auto simp: action_simps split: prod.split_asm)
  have b: "b = po_order (fresh_record i m oid)"
    using advance_through_Inr [OF a(4)] by (simp add: fresh_record_def fresh_order_def)
  show ?thesis
    using assms(1) a b unfolding submit_kernel_def Let_def oid_def [symmetric]
    by (auto simp: action_simps fresh_record_def split: prod.split_asm)
qed

text \<open>It raises only before it has changed anything, as does a resolution.\<close>

lemma submit_kernel_Inl: "submit_kernel sha session_id i m S = (Inl e, S') \<Longrightarrow> S' = S"
  unfolding submit_kernel_def Let_def by (auto simp: outcome_simps split: prod.split_asm)

lemma covered_index: "covered {} K S \<longleftrightarrow> positions_ok (px_ledger S)"
  by (simp add: covered_def)

lemma submit_kernel_tracked:
  assumes "submit_kernel sha session_id i m S = (v, S')"
  shows "tracked {} {paper_order_id sha session_id (oi_intent_id i)} {oi_intent_id i} {oi_instrument_id i} S S'"
proof (cases v)
  case (Inl e)
  then have "S' = S"
    using submit_kernel_Inl assms by blast
  then show ?thesis
    by (simp add: tracked_def)
next
  case (Inr x)
  then obtain specs b t where k: "submit_kernel sha session_id i m S = (Inr (specs, b, t), S')"
    using assms by (cases x) auto
  have "bo_instrument_id (po_order (fresh_record i m oid)) = oi_instrument_id i" for oid
    by (simp add: fresh_record_def fresh_order_def)
  then show ?thesis
    using submit_kernel_Inr [OF k] by (auto intro!: frame_same_book simp: tracked_def covered_index)
qed

lemma submit_kernel_counted: "submit_kernel sha session_id i m S = (Inr (specs, b, t), S') \<Longrightarrow> counted S S'"
  by (drule submit_kernel_Inr) (auto simp: counted_def)

lemma resolution_kernel_Inr:
  assumes "resolution_kernel order_id status at_time activity S = (Inr (specs, b, t), S')"
  shows "\<exists>r event. dget (px_orders S) order_id = Some r \<and> at_time = Aware t \<and> validate_watermark S t = Inr () \<and>
    stage_transition (po_order r) status t = Inr (b, event) \<and> specs \<noteq> [] \<and>
    S' = (sync_order_indexes (r\<lparr>po_order := b\<rparr>) (S\<lparr>px_orders := dset order_id (r\<lparr>po_order := b\<rparr>) (px_orders S)\<rparr>))
      \<lparr>px_latest_at := Some t\<rparr>"
  using assms unfolding resolution_kernel_def Let_def
  by (auto simp: action_simps paper_aware_def aware_utc_Inr split: option.split_asm prod.split_asm)

lemma resolution_kernel_Inl: "resolution_kernel order_id status at_time activity S = (Inl e, S') \<Longrightarrow> S' = S"
  unfolding resolution_kernel_def Let_def by (auto simp: outcome_simps split: prod.split_asm)

lemma resolution_kernel_tracked:
  assumes "resolution_kernel order_id status at_time activity S = (v, S')"
  shows "tracked {} {order_id} C {bo_instrument_id (po_order r) |r. dget (px_orders S) order_id = Some r} S S'"
proof (cases v)
  case (Inl e)
  then have "S' = S"
    using resolution_kernel_Inl assms by blast
  then show ?thesis
    by (simp add: tracked_def)
next
  case (Inr x)
  then obtain specs b t where k: "resolution_kernel order_id status at_time activity S = (Inr (specs, b, t), S')"
    using assms by (cases x) auto
  show ?thesis
    using resolution_kernel_Inr [OF k] by (auto intro!: frame_same_book simp: tracked_def covered_index stage_transition_Inr)
qed

lemma resolution_kernel_counted: "resolution_kernel order_id status at_time activity S = (Inr (specs, b, t), S') \<Longrightarrow> counted S S'"
  by (drule resolution_kernel_Inr) (auto simp: counted_def)

lemma idempotency_kernel_outcome:
  assumes "idempotency_kernel i S = (v, S')"
  shows "S' = S" and "v = Inr (specs, r, conflict, t) \<Longrightarrow> (conflict \<longleftrightarrow> po_intent r \<noteq> i) \<and>
     (\<exists>k. dget (px_client_orders S) (oi_intent_id i) = Some k \<and> dget (px_orders S) k = Some r)"
  using assms unfolding idempotency_kernel_def Let_def
  by (auto simp: outcome_simps existing_order_def split: option.split_asm)

section \<open>A market cohort\<close>

lemma tracked_orders: "k \<in> K \<Longrightarrow> along (tracked A K C I) (modify (\<lambda>S. S\<lparr>px_orders := dset k r (px_orders S)\<rparr>))"
  by (rule tracked_modify) auto

lemma serve_orders_tracked:
  "set ids \<subseteq> K \<Longrightarrow> along (tracked A K C I) (serve_orders sha costs session_id m b ins ids liquidity)"
proof (induction ids arbitrary: liquidity)
  case (Cons oid ids)
  then show ?case
    by (simp, intro tracked_intros tracked_orders process_order_tracked tracked_preorder) auto
qed (simp add: along_still)

lemma serve_orders_survivors:
  "serve_orders sha costs session_id m b ins ids liquidity S = (Inr (survivors, specs, fills), S') \<Longrightarrow>
     set survivors \<subseteq> set ids"
proof (induction ids arbitrary: liquidity S survivors specs fills)
  case (Cons oid ids)
  then show ?case
    by (fastforce simp: action_simps split: prod.split_asm if_split_asm)
qed (simp add: give_eq)

lemma replace_index_frame [simp]: "i \<in> I \<Longrightarrow> dict_frame I d (replace_order_index i ids d)"
  by (simp add: replace_order_index_def)

lemma index_get_simps [simp]:
  "index_get (dset i ids d) j = (if j = i then ids else index_get d j)"
  "index_get (ddel i d) j = (if j = i then [] else index_get d j)"
  by (simp_all add: index_get_def)

lemma index_get_replace [simp]: "index_get (replace_order_index i ids d) j = (if j = i then ids else index_get d j)"
  by (auto simp: replace_order_index_def)

lemma serve_market_Inr:
  assumes "serve_market sha costs session_id m b ins liquidity c' S = (Inr (specs, fills), S')"
  defines "i \<equiv> ms_instrument_id m"
  shows "\<exists>survivors S1. serve_orders sha costs session_id m b ins (index_get (px_active S) i) liquidity S =
      (Inr (survivors, specs, fills), S1) \<and>
    S' = S1\<lparr>px_active := replace_order_index i survivors (px_active S1),
      px_snapshots := dset i (bounded_snapshot m) (px_snapshots S1), px_cursors := dset i c' (px_cursors S1),
      px_latest_at := Some (max_latest (px_latest_at S1) (ms_observed_at m)), px_last_event_key := Some (event_key m)\<rparr>"
  using assms(1) unfolding serve_market_def Let_def i_def [symmetric]
  by (auto simp: action_simps split: prod.split_asm)

lemma serve_market_tracked:
  assumes "ms_instrument_id m \<in> I"
  shows "along (tracked I K C I) (serve_market sha costs session_id m b ins liquidity c')"
  unfolding along_def
proof
  fix S
  let ?i = "ms_instrument_id m"
  obtain v S1 where s: "serve_orders sha costs session_id m b ins (index_get (px_active S) ?i) liquidity S = (v, S1)"
    by (cases "serve_orders sha costs session_id m b ins (index_get (px_active S) ?i) liquidity S")
  have one: "covered I K S1 \<and> frame K C I S S1" if "covered I K S"
  proof -
    have "set (index_get (px_active S) ?i) \<subseteq> K"
      using that assms by (simp add: covered_def)
    from alongD [OF serve_orders_tracked [OF this] s] that show ?thesis
      by (simp add: tracked_def)
  qed
  show "tracked I K C I S (snd (serve_market sha costs session_id m b ins liquidity c' S))"
  proof (cases v)
    case (Inl e)
    then show ?thesis
      using s one by (simp add: serve_market_def Let_def then_do_def reads_def tracked_def)
  next
    case (Inr x)
    obtain survivors specs fills where x: "x = (survivors, specs, fills)"
      by (cases x) auto
    define T where "T = S1\<lparr>px_active := replace_order_index ?i survivors (px_active S1),
      px_snapshots := dset ?i (bounded_snapshot m) (px_snapshots S1), px_cursors := dset ?i c' (px_cursors S1),
      px_latest_at := Some (max_latest (px_latest_at S1) (ms_observed_at m)), px_last_event_key := Some (event_key m)\<rparr>"
    have t: "snd (serve_market sha costs session_id m b ins liquidity c' S) = T"
      using s by (simp add: serve_market_def Let_def then_do_def reads_def modify_def give_def Inr x T_def)
    have "covered I K T \<and> frame K C I S T" if "covered I K S"
    proof -
      have "set survivors \<subseteq> set (index_get (px_active S) ?i)"
        using s serve_orders_survivors unfolding Inr x by blast
      then have "set survivors \<subseteq> K"
        using that assms by (auto simp: covered_def)
      then have "covered I K T"
        using one [OF that] by (auto simp: covered_def T_def)
      moreover have "frame K C I S1 T"
        using assms by (intro frame_same_book) (auto simp: T_def)
      ultimately show ?thesis
        using one [OF that] frame_trans by blast
    qed
    then show ?thesis
      by (simp add: t tracked_def)
  qed
qed

lemma observe_market_tracked:
  assumes "ms_instrument_id m \<in> I"
  shows "along (tracked I K C I) (observe_market sha costs participation session_id m ins)"
proof -
  have u: "along (tracked I K C I) (modify (\<lambda>S. S\<lparr>px_market_prices := dset (ms_instrument_id m) p (px_market_prices S)\<rparr>))"
      "along (tracked I K C I) (modify (\<lambda>S. S\<lparr>px_instruments := dset (ms_instrument_id m) ins (px_instruments S)\<rparr>))" for p
    using assms by (intro tracked_modify; simp)+
  show ?thesis
    unfolding observe_market_def Let_def
    by (intro tracked_intros u serve_market_tracked assms tracked_preorder)
qed

lemma observe_input_tracked:
  assumes "ms_instrument_id (mi_snapshot x) \<in> I"
  shows "along (tracked I K C I) (observe_input sha costs participation session_id x)"
  unfolding observe_input_def by (intro tracked_intros observe_market_tracked assms tracked_preorder)

lemma observe_cohort_tracked:
  "ms_instrument_id ` mi_snapshot ` set xs \<subseteq> I \<Longrightarrow>
     along (tracked I K C I) (observe_cohort sha costs participation session_id xs)"
proof (induction xs)
  case (Cons x xs)
  then show ?case
    by (simp, intro tracked_intros observe_input_tracked tracked_preorder) auto
qed (simp add: along_still)

lemma mark_session_eq:
  "mark_session S = (if px_latest_at S = None \<or> px_market_prices S = [] then (Inr (), S)
     else then_do (\<lambda>S. on_ledger (mark_ledger (px_market_prices S) (Aware (the (px_latest_at S)))) S) (\<lambda>_. give ()) S)"
  by (simp add: mark_session_def then_do_def split: option.split)

lemma mark_session_tracked: "along (tracked A K C I) mark_session"
  unfolding along_def
proof
  fix S :: paper_state
  obtain v L where m: "mark_ledger (px_market_prices S) (Aware (the (px_latest_at S))) (px_ledger S) = (v, L)"
    by (cases "mark_ledger (px_market_prices S) (Aware (the (px_latest_at S))) (px_ledger S)")
  have "snd (mark_session S) = S \<or> snd (mark_session S) = S\<lparr>px_ledger := L\<rparr>"
    using m by (cases v) (simp_all add: mark_session_eq then_do_def on_ledger_def give_def)
  moreover have "tracked A K C I S (S\<lparr>px_ledger := L\<rparr>)"
    using tracked_mark [of A K C I px_market_prices "Aware (the (px_latest_at S))", unfolded along_def, THEN spec, of S] m
    by (simp add: on_ledger_def)
  ultimately show "tracked A K C I S (snd (mark_session S))"
    by (auto simp: tracked_def)
qed

lemma mark_session_Inr:
  assumes "mark_session S = (Inr u, S')"
  shows "S' = S \<or> (\<exists>t snap L. mark (px_market_prices S) (Aware t) (px_ledger S) = Inr (snap, L) \<and> S' = S\<lparr>px_ledger := L\<rparr>)"
  using assms unfolding mark_session_def
  by (auto simp: action_simps on_ledger_eq mark_ledger_Inr split: option.split_asm if_split_asm)

lemma market_kernel_tracked:
  "ms_instrument_id ` mi_snapshot ` set xs \<subseteq> I \<Longrightarrow>
     along (tracked I K C I) (market_kernel sha costs participation session_id xs)"
  unfolding market_kernel_def by (intro tracked_intros observe_cohort_tracked mark_session_tracked tracked_preorder)

text \<open>Successful cohorts.\<close>

lemma observe_market_Inr:
  assumes "observe_market sha costs participation session_id m ins S = (Inr (specs, fills), S')"
  defines "i \<equiv> ms_instrument_id m"
  shows "\<exists>b c' liquidity survivors sp S2.
    serve_orders sha costs session_id m b ins (index_get (px_active S) i) liquidity
      (S\<lparr>px_market_prices := dset i (bar_close b) (px_market_prices S), px_instruments := dset i ins (px_instruments S)\<rparr>)
      = (Inr (survivors, sp, fills), S2) \<and> specs \<noteq> [] \<and>
    S' = S2\<lparr>px_active := replace_order_index i survivors (px_active S2),
      px_snapshots := dset i (bounded_snapshot m) (px_snapshots S2), px_cursors := dset i c' (px_cursors S2),
      px_latest_at := Some (max_latest (px_latest_at S2) (ms_observed_at m)), px_last_event_key := Some (event_key m)\<rparr>"
proof -
  obtain b c' liquidity sp where s: "serve_market sha costs session_id m b ins liquidity c'
      (S\<lparr>px_market_prices := dset i (bar_close b) (px_market_prices S), px_instruments := dset i ins (px_instruments S)\<rparr>)
      = (Inr (sp, fills), S')" "specs \<noteq> []"
    using assms(1) unfolding observe_market_def Let_def i_def [symmetric]
    by (auto simp: action_simps split: prod.split_asm)
  show ?thesis
    using serve_market_Inr [OF s(1)] s(2) unfolding i_def [symmetric] by fastforce
qed

lemma market_kernel_Inr:
  assumes "market_kernel sha costs participation session_id xs S = (Inr (specs, fills), S')"
  shows "\<exists>S1. observe_cohort sha costs participation session_id xs S = (Inr (specs, fills), S1) \<and>
    (S' = S1 \<or> (\<exists>t snap L. mark (px_market_prices S1) (Aware t) (px_ledger S1) = Inr (snap, L) \<and> S' = S1\<lparr>px_ledger := L\<rparr>))"
  using assms mark_session_Inr unfolding market_kernel_def
  by (fastforce simp: action_simps split: if_split_asm prod.split_asm)

text \<open>In a cohort the log and the count move together, whatever its outcome.\<close>

lemma counted_preorder [simp]: "reflp counted" "transp counted"
  by (auto simp: reflp_def transp_def counted_def)

lemmas counted_intros = along_intros along_then [OF counted_preorder(2)] along_still [OF counted_preorder(1)]

lemma counted_modify: "(\<And>S. px_fills (f S) = px_fills S \<and> px_fill_sequence (f S) = px_fill_sequence S) \<Longrightarrow> along counted (modify f)"
  by (rule along_modify) (simp add: counted_def)

lemma counted_ledger: "along counted (\<lambda>S. on_ledger (m S) S)"
  by (auto simp: along_def counted_def on_ledger_def split: prod.split)

lemma book_paper_fill_counted: "along counted (book_paper_fill sha f)"
  by (auto simp: along_def book_paper_fill_def then_do_def on_ledger_def modify_def counted_def split: prod.split sum.split)

lemma process_order_counted: "along counted (process_order sha costs session_id m b ins liquidity r)"
  unfolding process_order_def try_fill_def book_fill_on_order_def Let_def
  by (intro counted_intros book_paper_fill_counted counted_preorder)

lemma serve_orders_counted: "along counted (serve_orders sha costs session_id m b ins ids liquidity)"
proof (induction ids arbitrary: liquidity)
  case (Cons oid ids)
  then show ?case
    by (simp, intro counted_intros counted_modify process_order_counted counted_preorder) auto
qed (simp add: along_still)

lemma observe_market_counted: "along counted (observe_market sha costs participation session_id m ins)"
  unfolding observe_market_def serve_market_def Let_def
  by (intro counted_intros counted_modify serve_orders_counted counted_preorder; simp)

lemma observe_cohort_counted: "along counted (observe_cohort sha costs participation session_id xs)"
proof (induction xs)
  case (Cons x xs)
  have "along counted (observe_input sha costs participation session_id x)"
    unfolding observe_input_def by (intro counted_intros observe_market_counted counted_preorder)
  with Cons show ?case
    by (simp, intro counted_intros counted_preorder) auto
qed (simp add: along_still)

lemma market_kernel_counted: "along counted (market_kernel sha costs participation session_id xs)"
proof -
  have "along counted mark_session"
    by (auto simp: along_def counted_def mark_session_def then_do_def on_ledger_def give_def
        split: option.split prod.split sum.split)
  then show ?thesis
    unfolding market_kernel_def by (intro counted_intros observe_cohort_counted counted_preorder)
qed

section \<open>Reconciliation\<close>

lemma reconciliation_guards_Inr:
  "reconciliation_guards a fills ins currency S = Inr r \<Longrightarrow> fills \<noteq> [] \<and> dget (px_orders S) (bo_order_id a) = Some r \<and>
     bo_status (po_order r) = UNKNOWN \<and> validate_watermark S (bo_updated_at a) = Inr () \<and>
     (\<exists>i. paper_instrument_id ins = Inr i \<and> authoritative_identity a (po_order r) i)"
  unfolding reconciliation_guards_def by (auto simp: result_simps split: option.split_asm if_split_asm)

lemma reconciled_record_Inr:
  "reconciled_record a fills r T = Inr r' \<Longrightarrow> po_order r' = a \<and> po_intent r' = po_intent r \<and>
     (\<forall>q. bo_requested_quantity (po_order r) = Some q \<longrightarrow> bo_filled_quantity a \<le> q) \<and>
     (\<forall>l. po_remaining_notional r' = Some l \<longrightarrow> 0 \<le> l) \<and>
     (po_remaining_notional r' = None) = (po_remaining_notional r = None) \<and>
     (bo_status a = FILLED \<longrightarrow> bo_requested_quantity (po_order r) = Some (bo_filled_quantity a) \<or> po_remaining_notional r' = Some 0)"
  unfolding reconciled_record_def Let_def by (auto simp: result_simps split: option.split_asm)

text \<open>The state a reconciliation leaves.\<close>

definition reconciled_state :: "(string \<Rightarrow> string) \<Rightarrow> paper_order \<Rightarrow> paper_order \<Rightarrow> fill list \<Rightarrow> instrument \<Rightarrow> instant \<Rightarrow> ledger \<Rightarrow>
    paper_state \<Rightarrow> paper_state" where
  "reconciled_state sha r r' fills ins t L S =
     (sync_order_indexes r' (S\<lparr>px_fills := px_fills S @ fills, px_orders := dset (bo_order_id (po_order r)) r' (px_orders S)\<rparr>))
      \<lparr>px_fill_ids_digest := foldl (\<lambda>d f. next_fill_ids_digest sha d (fl_fill_id f)) (px_fill_ids_digest S) fills,
       px_fill_sequence := px_fill_sequence S + int (length fills),
       px_market_prices := dset (bo_instrument_id (po_order r)) (fl_price (last fills)) (px_market_prices S),
       px_instruments := dset (bo_instrument_id (po_order r)) ins (px_instruments S),
       px_latest_at := Some t, px_ledger := L\<rparr>"

lemma log_fill_tracked: "along (tracked A K C I) (log_fill f)"
  unfolding log_fill_def
proof (rule tracked_booking)
  show "\<exists>n d. S\<lparr>px_fills := px_fills S @ [f]\<rparr> = S\<lparr>px_fills := px_fills S @ [f], px_fill_sequence := n, px_fill_ids_digest := d\<rparr>"
    for S :: paper_state
    by (rule exI [of _ "px_fill_sequence S"], rule exI [of _ "px_fill_ids_digest S"]) simp
qed

lemma log_fill_Inr: "log_fill f S = (Inr u, S') \<longleftrightarrow> (\<exists>L. apply_fill f (px_ledger S) = Inr L \<and>
    S' = S\<lparr>px_ledger := L, px_fills := px_fills S @ [f]\<rparr>)"
  by (auto simp: log_fill_def action_simps on_ledger_eq fill_ledger_Inr)

lemma book_authoritative_tracked: "along (tracked A K C I) (book_authoritative fills)"
proof (induction fills)
  case (Cons f fs)
  then show ?case
    by (simp, intro tracked_intros log_fill_tracked tracked_preorder)
qed (simp add: along_still)

lemma book_authoritative_Inr:
  "book_authoritative fills S = (Inr u, S') \<Longrightarrow> \<exists>L. fold_result apply_fill fills (px_ledger S) = Inr L \<and>
     S' = S\<lparr>px_ledger := L, px_fills := px_fills S @ fills\<rparr>"
proof (induction fills arbitrary: S)
  case (Cons f fs)
  then obtain L S1 where "apply_fill f (px_ledger S) = Inr L" "S1 = S\<lparr>px_ledger := L, px_fills := px_fills S @ [f]\<rparr>"
      "book_authoritative fs S1 = (Inr u, S')"
    by (auto simp: action_simps log_fill_Inr)
  with Cons.IH [OF this(3)] show ?case
    by auto
qed (simp add: give_eq)

lemma reconciliation_effects_tracked:
  assumes "bo_order_id (po_order r) \<in> K" "bo_instrument_id (po_order r) \<in> I" "bo_instrument_id (po_order r') \<in> I"
  shows "along (tracked {} K C I) (reconciliation_effects sha t fills ins r r')"
proof -
  let ?b = "po_order r"
  have u: "along (tracked {} K C I) (modify (\<lambda>S. S\<lparr>px_orders := dset (bo_order_id ?b) r' (px_orders S)\<rparr>))"
      "along (tracked {} K C I) (modify (sync_order_indexes r'))"
      "along (tracked {} K C I) (modify (\<lambda>S. S\<lparr>
         px_fill_ids_digest := foldl (\<lambda>d f. next_fill_ids_digest sha d (fl_fill_id f)) (px_fill_ids_digest S) fills,
         px_fill_sequence := px_fill_sequence S + int (length fills),
         px_market_prices := dset (bo_instrument_id ?b) (fl_price (last fills)) (px_market_prices S),
         px_instruments := dset (bo_instrument_id ?b) ins (px_instruments S), px_latest_at := Some t\<rparr>))"
    using assms by (intro tracked_modify; simp)+
  show ?thesis
    unfolding reconciliation_effects_def Let_def
    by (intro along_then [OF tracked_preorder(2)] book_authoritative_tracked u tracked_mark)
qed

lemma reconciliation_effects_Inr:
  assumes "reconciliation_effects sha t fills ins r r' S = (Inr snap, S')"
  shows "\<exists>L L'. fold_result apply_fill fills (px_ledger S) = Inr L \<and>
    mark (dset (bo_instrument_id (po_order r)) (fl_price (last fills)) (px_market_prices S)) (Aware t) L = Inr (snap, L') \<and>
    S' = reconciled_state sha r r' fills ins t L' S"
proof -
  obtain S1 where b: "book_authoritative fills S = (Inr (), S1)"
    and m: "on_ledger (mark_ledger (dset (bo_instrument_id (po_order r)) (fl_price (last fills)) (px_market_prices S1)) (Aware t))
      ((sync_order_indexes r' (S1\<lparr>px_orders := dset (bo_order_id (po_order r)) r' (px_orders S1)\<rparr>))
        \<lparr>px_fill_ids_digest := foldl (\<lambda>d f. next_fill_ids_digest sha d (fl_fill_id f)) (px_fill_ids_digest S1) fills,
         px_fill_sequence := px_fill_sequence S1 + int (length fills),
         px_market_prices := dset (bo_instrument_id (po_order r)) (fl_price (last fills)) (px_market_prices S1),
         px_instruments := dset (bo_instrument_id (po_order r)) ins (px_instruments S1), px_latest_at := Some t\<rparr>) = (Inr snap, S')"
    using assms unfolding reconciliation_effects_def Let_def by (auto simp: action_simps)
  obtain L where L: "fold_result apply_fill fills (px_ledger S) = Inr L" "S1 = S\<lparr>px_ledger := L, px_fills := px_fills S @ fills\<rparr>"
    using book_authoritative_Inr [OF b] by blast
  show ?thesis
    using m L(1) unfolding L(2)
    by (auto simp: on_ledger_eq mark_ledger_Inr reconciled_state_def sync_order_indexes_def Let_def)
qed

lemma reconciliation_kernel_cases:
  assumes "reconciliation_kernel sha a fills ins currency S = (v, S')"
  shows "(\<exists>e. v = Inl e \<and> S' = S) \<or>
    (\<exists>r ps T r' u. reconciliation_guards a fills ins currency S = Inr r \<and>
      check_new_fills S r ins (bo_updated_at a) fills (first_totals S r ps) = Inr T \<and> reconciled_record a fills r T = Inr r' \<and>
      reconciliation_effects sha (bo_updated_at a) fills ins r r' S = (u, S') \<and>
      (\<forall>specs t. v = Inr (specs, t) \<longrightarrow> t = bo_updated_at a \<and> (\<exists>snap. u = Inr snap)))"
  using assms unfolding reconciliation_kernel_def Let_def by (auto simp: outcome_simps) blast+

lemma run_fills: "fold_result apply_fill fs L = fold_result ledger_step (map Fill fs) L"
  by (induction fs arbitrary: L) (simp_all cong: rbind_cong)

lemma reconciliation_kernel_tracked:
  assumes "reconciliation_kernel sha a fills ins currency S = (v, S')"
    and "\<And>k r. dget (px_orders S) k = Some r \<Longrightarrow> bo_order_id (po_order r) = k"
  shows "tracked {} {bo_order_id a} C {bo_instrument_id (po_order r) |r. dget (px_orders S) (bo_order_id a) = Some r} S S'"
proof -
  consider "S' = S" | r T r' u where "reconciliation_guards a fills ins currency S = Inr r" "reconciled_record a fills r T = Inr r'"
      "reconciliation_effects sha (bo_updated_at a) fills ins r r' S = (u, S')"
    using reconciliation_kernel_cases [OF assms(1)] by (elim disjE exE conjE) metis+
  then show ?thesis
  proof cases
    case 2
    have g: "dget (px_orders S) (bo_order_id a) = Some r" "bo_instrument_id a = bo_instrument_id (po_order r)" "po_order r' = a"
      using reconciliation_guards_Inr [OF 2(1)] reconciled_record_Inr [OF 2(2)] by (auto simp: authoritative_identity_def)
    show ?thesis
      by (rule alongD [OF reconciliation_effects_tracked 2(3)]) (use g assms(2) [OF g(1)] in auto)
  qed (simp add: tracked_def)
qed

lemma reconciliation_kernel_Inr:
  assumes "reconciliation_kernel sha a fills ins currency S = (Inr (specs, t), S')"
  shows "\<exists>r ps T r' L. reconciliation_guards a fills ins currency S = Inr r \<and> t = bo_updated_at a \<and>
    check_new_fills S r ins t fills (first_totals S r ps) = Inr T \<and> reconciled_record a fills r T = Inr r' \<and>
    S' = reconciled_state sha r r' fills ins t L S"
proof -
  obtain r ps T r' snap where k: "reconciliation_guards a fills ins currency S = Inr r" "t = bo_updated_at a"
      "check_new_fills S r ins t fills (first_totals S r ps) = Inr T" "reconciled_record a fills r T = Inr r'"
      "reconciliation_effects sha t fills ins r r' S = (Inr snap, S')"
    using reconciliation_kernel_cases [OF assms] by auto
  then show ?thesis
    using reconciliation_effects_Inr [OF k(5)] by blast
qed

section \<open>The commit\<close>

text \<open>The commit renumbers the state and touches nothing the journal undoes by key.\<close>

definition renumbered :: "paper_state \<Rightarrow> paper_state \<Rightarrow> bool" where
  "renumbered S T \<longleftrightarrow> (\<exists>a b d. T = S\<lparr>px_event_sequence := a, px_operation_sequence := b, px_state_digest := d\<rparr>)"

lemma renumbered_preorder: "reflp renumbered" "transp renumbered"
proof -
  have "S = S\<lparr>px_event_sequence := px_event_sequence S, px_operation_sequence := px_operation_sequence S,
      px_state_digest := px_state_digest S\<rparr>" for S :: paper_state
    by simp
  then show "reflp renumbered"
    unfolding reflp_def renumbered_def by blast
  show "transp renumbered"
    by (force simp: transp_def renumbered_def)
qed

lemma renumbered_modify:
  "along renumbered (modify (\<lambda>S. S\<lparr>px_event_sequence := f S, px_operation_sequence := g S\<rparr>))"
  "along renumbered (modify (\<lambda>S. S\<lparr>px_state_digest := d\<rparr>))"
proof -
  have "S\<lparr>px_event_sequence := f S, px_operation_sequence := g S\<rparr> =
      S\<lparr>px_event_sequence := f S, px_operation_sequence := g S, px_state_digest := px_state_digest S\<rparr>"
      "S\<lparr>px_state_digest := d\<rparr> = S\<lparr>px_event_sequence := px_event_sequence S,
        px_operation_sequence := px_operation_sequence S, px_state_digest := d\<rparr>" for S :: paper_state
    by simp_all
  then show "along renumbered (modify (\<lambda>S. S\<lparr>px_event_sequence := f S, px_operation_sequence := g S\<rparr>))"
      "along renumbered (modify (\<lambda>S. S\<lparr>px_state_digest := d\<rparr>))"
    unfolding renumbered_def by (intro along_modify; metis)+
qed

lemma prepare_commit_renumbers: "along renumbered (prepare_commit sha B specs t)"
  unfolding prepare_commit_def Let_def
  by (intro along_intros along_then [OF renumbered_preorder(2)] along_still [OF renumbered_preorder(1)] renumbered_modify
      renumbered_preorder)

lemma renumbered_frame: "renumbered S T \<Longrightarrow> frame K C I S T"
  by (auto simp: renumbered_def intro!: frame_same_book)

text \<open>Whatever a commit returns, it leaves the events alone unless it succeeds, and its world is the
  recorder's.\<close>

lemma commit_cases:
  assumes "commit sha specs t B w = (v, B', w')"
  shows "renumbered (pb_state B) (pb_state B')" "pb_session_id B' = pb_session_id B" "pb_recorder B' = pb_recorder B"
    "v = Inl e \<Longrightarrow> B' = B\<lparr>pb_state := pb_state B'\<rparr>"
    "v = Inl e \<Longrightarrow> w' = w \<or> (\<exists>record_events batch. pb_recorder B = Some record_events \<and> record_events batch w = (Inl e, w'))"
proof -
  obtain x S where p: "prepare_commit sha B specs t (pb_state B) = (x, S)"
    by (cases "prepare_commit sha B specs t (pb_state B)")
  note r = alongD [OF prepare_commit_renumbers p]
  show "renumbered (pb_state B) (pb_state B')" "pb_session_id B' = pb_session_id B" "pb_recorder B' = pb_recorder B"
      "v = Inl e \<Longrightarrow> B' = B\<lparr>pb_state := pb_state B'\<rparr>"
      "v = Inl e \<Longrightarrow> w' = w \<or> (\<exists>record_events batch. pb_recorder B = Some record_events \<and> record_events batch w = (Inl e, w'))"
    using assms p r unfolding commit_def by (auto split: sum.split_asm prod.split_asm option.split_asm)
qed

end
