(* ===== verification/PaperFacts.thy ===== *)
theory PaperFacts
  imports PaperOutcomes
begin

text \<open>
  What a fill of the paper broker is: admitted by the order, the clock, the book and the instrument, and
  booked exactly once.
\<close>

lemma candidate_fill_Inr:
  assumes "candidate_fill costs fill_id r t ins liquidity price = Inr (Some f)"
  shows "\<exists>q. model_fill costs fill_id (bo_order_id (po_order r)) ins (oi_side (po_intent r)) q price
      (Aware (bo_submitted_at (po_order r))) (Aware t) = Inr f"
proof -
  obtain remaining q c where m: "model_fill costs fill_id (bo_order_id (po_order r)) ins (oi_side (po_intent r)) q price
      (Aware (bo_submitted_at (po_order r))) (Aware t) = Inr c"
    and rest: "(case po_remaining_notional r of
         None \<Rightarrow> Inr (Some c)
       | Some left \<Rightarrow>
           rbind (allocate_quantity (ins_quantity_step ins) (ddiv left (fl_price c)) liquidity) (\<lambda>affordable.
           if affordable \<le> 0 then Inr None
           else if affordable < fl_quantity c then rbind (model_fill costs fill_id (bo_order_id (po_order r)) ins
             (oi_side (po_intent r)) affordable price (Aware (bo_submitted_at (po_order r))) (Aware t)) (\<lambda>c. Inr (Some c))
           else Inr (Some c))) = Inr (Some f)"
    using assms unfolding candidate_fill_def Let_def by (auto simp: rbind_eq_Inr split: if_split_asm)
  show ?thesis
    using m rest by (auto simp: rbind_eq_Inr split: option.split_asm if_split_asm)
qed

lemma fill_admissible_True:
  assumes "fill_admissible S r ins price f = Inr True"
  shows "respects_order_prices (po_intent r) (fl_price f) \<and>
    (\<forall>l. po_remaining_notional r = Some l \<longrightarrow> dmul (fl_quantity f) (fl_price f) \<le> l) \<and>
    (case oi_side (po_intent r) of
       BUY \<Rightarrow> dadd (dmul (fl_quantity f) (fl_price f)) (fl_fee f) \<le> lg_cash (px_ledger S)
     | SELL \<Rightarrow> (\<exists>ps. state_positions S = Inr ps \<and> fl_quantity f \<le> held_quantity (bo_instrument_id (po_order r)) ps))"
  using assms unfolding fill_admissible_def Let_def
  by (cases "oi_side (po_intent r)") (auto simp: rbind_eq_Inr not_less not_le split: if_split_asm option.split_asm)

lemma filled_recordD:
  assumes "filled_record r t f r'"
  shows "bo_filled_quantity (po_order r') = dadd (bo_filled_quantity (po_order r)) (fl_quantity f)"
    and "bo_requested_quantity (po_order r) = Some q \<Longrightarrow> bo_filled_quantity (po_order r') \<le> q"
    and "bo_status (po_order r') = FILLED \<longleftrightarrow> bo_requested_quantity (po_order r) = Some (bo_filled_quantity (po_order r')) \<or>
       po_remaining_notional r' = Some 0"
    and "bo_status (po_order r') = FILLED \<or> bo_status (po_order r') = PARTIALLY_FILLED"
    and "po_remaining_notional r' = Some l \<Longrightarrow> 0 \<le> l"
    and "bo_order_id (po_order r') = bo_order_id (po_order r)" "bo_instrument_id (po_order r') = bo_instrument_id (po_order r)"
      "bo_client_order_id (po_order r') = bo_client_order_id (po_order r)"
      "bo_requested_quantity (po_order r') = bo_requested_quantity (po_order r)" "po_intent r' = po_intent r"
    and "po_fill_count r' \<le> max_fills_per_order"
proof -
  define new_filled where "new_filled = dadd (bo_filled_quantity (po_order r)) (fl_quantity f)"
  define remaining where "remaining = map_option (\<lambda>left. dsub left (dmul (fl_quantity f) (fl_price f))) (po_remaining_notional r)"
  obtain weighted where o: "po_order r' = (po_order r)\<lparr>bo_status := (if bo_requested_quantity (po_order r) = Some new_filled \<or> remaining = Some 0
          then FILLED else PARTIALLY_FILLED), bo_filled_quantity := new_filled,
          bo_average_fill_price := Some weighted, bo_updated_at := t\<rparr>"
    and r: "po_remaining_notional r' = remaining" "po_intent r' = po_intent r" "po_fill_count r' = po_fill_count r + 1"
      "po_fill_count r < max_fills_per_order" "\<forall>l. remaining = Some l \<longrightarrow> 0 \<le> l"
      "\<forall>q. bo_requested_quantity (po_order r) = Some q \<longrightarrow> new_filled \<le> q"
    using assms unfolding filled_record_def Let_def new_filled_def [symmetric] remaining_def [symmetric] by blast
  show "bo_filled_quantity (po_order r') = dadd (bo_filled_quantity (po_order r)) (fl_quantity f)"
    by (simp add: o new_filled_def)
  show "bo_filled_quantity (po_order r') \<le> q" if "bo_requested_quantity (po_order r) = Some q"
    using r(6) [THEN spec, THEN mp, OF that] by (simp add: o)
  show "bo_status (po_order r') = FILLED \<longleftrightarrow> bo_requested_quantity (po_order r) = Some (bo_filled_quantity (po_order r')) \<or>
       po_remaining_notional r' = Some 0"
    by (simp add: o r(1))
  show "bo_status (po_order r') = FILLED \<or> bo_status (po_order r') = PARTIALLY_FILLED"
    by (simp add: o)
  show "0 \<le> l" if "po_remaining_notional r' = Some l"
    using r(5) [THEN spec, THEN mp, of l] that by (simp add: r(1))
  show "bo_order_id (po_order r') = bo_order_id (po_order r)" "bo_instrument_id (po_order r') = bo_instrument_id (po_order r)"
      "bo_client_order_id (po_order r') = bo_client_order_id (po_order r)"
      "bo_requested_quantity (po_order r') = bo_requested_quantity (po_order r)" "po_intent r' = po_intent r"
    by (simp_all add: o r(2))
  show "po_fill_count r' \<le> max_fills_per_order"
    using r(3,4) by linarith
qed

text \<open>A buy the guards let through leaves cash nonnegative.\<close>

lemma bought_cash:
  assumes "apply_fill f L = Inr L'" "fl_side f = BUY" "dadd (dmul (fl_quantity f) (fl_price f)) (fl_fee f) \<le> lg_cash L"
  shows "0 \<le> lg_cash L'"
  using apply_fill_InrD [OF assms(1)] assms(2,3) by (auto simp: booked_def apply_buy_def Let_def)

text \<open>C3: A fill of the paper broker belongs to an executable order, comes from a bar after the order's
  submission, before its expiry and after the latency of the cost model; its price keeps the limit and lies
  strictly between the protective prices; it never takes more than the remaining notional, the cash (a buy)
  or the holding (a sell), never fills more than was requested, closes the order exactly when nothing is
  left, and is booked once in the log and in the ledger.\<close>

theorem paper_fill_within_order:
  assumes "process_order sha costs session_id m b ins liquidity r S = (Inr (r', Some f, left, specs), S')"
  shows "bo_status (po_order r) \<notin> set closed_statuses \<and> bo_status (po_order r) \<noteq> UNKNOWN \<and>
    po_submitted_source_at r < bar_at b \<and> ms_observed_at m < oi_expires_at (po_intent r) \<and>
    bo_submitted_at (po_order r) + cm_latency costs \<le> ms_observed_at m \<and>
    fl_order_id f = bo_order_id (po_order r) \<and> fl_side f = oi_side (po_intent r) \<and> fl_filled_at f = ms_observed_at m \<and>
    0 < fl_quantity f \<and> respects_order_prices (po_intent r) (fl_price f) \<and>
    (\<forall>l. po_remaining_notional r = Some l \<longrightarrow> dmul (fl_quantity f) (fl_price f) \<le> l) \<and>
    (case fl_side f of
       BUY \<Rightarrow> 0 \<le> lg_cash (px_ledger S')
     | SELL \<Rightarrow> (\<exists>ps. state_positions S = Inr ps \<and> fl_quantity f \<le> held_quantity (bo_instrument_id (po_order r)) ps)) \<and>
    bo_filled_quantity (po_order r') = dadd (bo_filled_quantity (po_order r)) (fl_quantity f) \<and>
    (\<forall>q. bo_requested_quantity (po_order r) = Some q \<longrightarrow> bo_filled_quantity (po_order r') \<le> q) \<and>
    (bo_status (po_order r') = FILLED \<longleftrightarrow> bo_requested_quantity (po_order r) = Some (bo_filled_quantity (po_order r')) \<or>
       po_remaining_notional r' = Some 0) \<and>
    px_fills S' = px_fills S @ [f] \<and> apply_fill f (px_ledger S) = Inr (px_ledger S') \<and> left = dsub liquidity (fl_quantity f)"
proof -
  obtain r1 price sp where p: "is_market_executable (bo_status (po_order r))" "po_submitted_source_at r < bar_at b"
      "ms_observed_at m < oi_expires_at (po_intent r)" "r1 = r \<or> r1 = r\<lparr>po_stop_triggered := True\<rparr>"
      "candidate_fill costs (fill_id_of session_id S) r1 (ms_observed_at m) ins liquidity price = Inr (Some f)"
      "fill_admissible S r1 ins price f = Inr True"
      "book_fill_on_order sha r1 (ms_observed_at m) ins liquidity sp f S = (Inr (r', Some f, left, specs), S')"
    using process_order_cases [OF assms] by blast
  have same: "po_order r1 = po_order r" "po_intent r1 = po_intent r" "po_remaining_notional r1 = po_remaining_notional r"
    using p(4) by auto
  obtain q where m: "model_fill costs (fill_id_of session_id S) (bo_order_id (po_order r)) ins (oi_side (po_intent r)) q price
      (Aware (bo_submitted_at (po_order r))) (Aware (ms_observed_at m)) = Inr f"
    using candidate_fill_Inr [OF p(5)] same by auto
  note f = model_fill_InrD [OF m]
  note g = fill_admissible_True [OF p(6)] and bk = book_on_order_Inr [OF p(7), unfolded book_paper_fill_Inr]
  have cash: "case fl_side f of BUY \<Rightarrow> 0 \<le> lg_cash (px_ledger S')
     | SELL \<Rightarrow> (\<exists>ps. state_positions S = Inr ps \<and> fl_quantity f \<le> held_quantity (bo_instrument_id (po_order r)) ps)"
  proof (cases "fl_side f")
    case BUY
    then show ?thesis
      using g f bk bought_cash [OF _ BUY, of "px_ledger S"] same by auto
  next
    case SELL
    then show ?thesis
      using g f same by auto
  qed
  have booked: "filled_record r1 (ms_observed_at m) f r'"
    using bk by blast
  have order: "bo_filled_quantity (po_order r') = dadd (bo_filled_quantity (po_order r)) (fl_quantity f)"
      "\<forall>q. bo_requested_quantity (po_order r) = Some q \<longrightarrow> bo_filled_quantity (po_order r') \<le> q"
      "bo_status (po_order r') = FILLED \<longleftrightarrow> bo_requested_quantity (po_order r) = Some (bo_filled_quantity (po_order r')) \<or>
       po_remaining_notional r' = Some 0"
    using filled_recordD(1-3) [OF booked] unfolding same by blast+
  have fields: "bo_submitted_at (po_order r) + cm_latency costs \<le> ms_observed_at m" "fl_order_id f = bo_order_id (po_order r)"
      "fl_side f = oi_side (po_intent r)" "fl_filled_at f = ms_observed_at m" "0 < fl_quantity f"
    using f by auto
  have limits: "respects_order_prices (po_intent r) (fl_price f)"
      "\<forall>l. po_remaining_notional r = Some l \<longrightarrow> dmul (fl_quantity f) (fl_price f) \<le> l"
    using g same by simp_all
  have books: "px_fills S' = px_fills S @ [f]" "apply_fill f (px_ledger S) = Inr (px_ledger S')" "left = dsub liquidity (fl_quantity f)"
    using bk by auto
  show ?thesis
    by (intro conjI) (use p(1) [unfolded is_market_executable_def] p(2,3) fields limits cash order books in blast)+
qed

text \<open>A session to apply the properties to: a digest of constant value suffices for one order.\<close>

definition paper_sha :: "string \<Rightarrow> string" where "paper_sha s = replicate 64 CHR ''a''"

definition paper_share :: instrument where
  "paper_share = \<lparr>ins_symbol = ''AAPL'', ins_venue = ''alpaca'', ins_asset_class = EQUITY, ins_quote_currency = ''USD'',
     ins_timezone = ''America/New_York'', ins_price_tick = 1, ins_quantity_step = 1, ins_minimum_notional = 1,
     ins_session_calendar = None\<rparr>"

definition paper_bar :: "int \<Rightarrow> dec \<Rightarrow> bar" where
  "paper_bar t p = \<lparr>bar_at = t, bar_open = p, bar_high = p + 1, bar_low = p - 1, bar_close = p, bar_volume = 10\<rparr>"

definition paper_snap :: "bar list \<Rightarrow> market_snapshot" where
  "paper_snap bs = \<lparr>ms_instrument_id = ''AAPL@alpaca'', ms_observed_at = bar_at (last bs), ms_source_at = bar_at (last bs),
     ms_bars = bs, ms_provider = ''fixture'', ms_max_age_seconds = 60\<rparr>"

definition paper_buy :: order_intent where
  "paper_buy = \<lparr>oi_intent_id = ''intent-1'', oi_instrument_id = ''AAPL@alpaca'', oi_side = BUY, oi_quantity = Some 2,
     oi_notional = None, oi_order_type = MARKET, oi_limit_price = None, oi_stop_loss = Some 90, oi_take_profit = Some 120,
     oi_time_in_force = ''day'', oi_product = ''cash'', oi_session = ''regular'', oi_snapshot_hash = replicate 64 CHR ''a'',
     oi_created_at = 0, oi_expires_at = 1000, oi_trigger_price = None\<rparr>"

definition paper_start :: paper_state where
  "paper_start = \<lparr>px_orders = [], px_client_orders = [], px_active = [], px_unknown = [], px_snapshots = [], px_cursors = [],
     px_fills = [], px_event_sequence = 0, px_operation_sequence = 0, px_fill_sequence = 0, px_state_digest = paper_sha [],
     px_fill_ids_digest = empty_digest paper_sha, px_ledger = ledger_init 1000 ''USD'', px_market_prices = [],
     px_instruments = [], px_latest_at = None, px_last_event_key = None\<rparr>"

definition paper_bought :: "processed result \<times> paper_state" where
  "paper_bought = process_order paper_sha default_costs ''s'' (paper_snap [paper_bar 2 101]) (paper_bar 2 101) paper_share 10
     (fresh_record paper_buy (paper_snap [paper_bar 1 100]) ''paper-1'') paper_start"

theorem paper_fill_within_order_witness:
  "\<exists>r' f left specs S'. paper_bought = (Inr (r', Some f, left, specs), S') \<and> bo_status (po_order r') = FILLED \<and>
     fl_quantity f = 2 \<and> left = 8 \<and> 0 \<le> lg_cash (px_ledger S')"
proof -
  have "case paper_bought of
     (Inr (r', Some f, left, specs), S') \<Rightarrow> fl_quantity f = 2 \<and> bo_status (po_order r') = FILLED \<and> fl_side f = BUY \<and> left = 8
   | _ \<Rightarrow> False"
    by code_simp
  then obtain r' f left specs S' where r: "paper_bought = (Inr (r', Some f, left, specs), S')" "fl_quantity f = 2"
      "bo_status (po_order r') = FILLED" "fl_side f = BUY" "left = 8"
    by (auto split: sum.split_asm option.split_asm prod.split_asm)
  have "0 \<le> lg_cash (px_ledger S')"
    using paper_fill_within_order [OF r(1) [unfolded paper_bought_def]] r(4) by simp
  then show ?thesis
    using r by blast
qed

end
