(* ===== verification/PaperSession.thy ===== *)
theory PaperSession
  imports PaperFacts
begin

text \<open>
  Sessions of the paper broker: the public operations as one step, the invariant of the state they keep
  (orders, indexes, fills and ledger agree), and that an operation that raises, in a kernel that has begun
  to write, in the commit or in the recorder, leaves the session as it was.
\<close>

section \<open>Operations as steps\<close>

datatype paper_op =
    PSubmit order_intent market_snapshot
  | PCancel string pydt
  | PReject string pydt string
  | PExpire string pydt
  | PMarkUnknown string pydt
  | PReconcile string order_status pydt
  | PReconcileFills broker_order "fill list" instrument
  | PSnapshot market_snapshot instrument
  | PSnapshots "(market_snapshot \<times> instrument) list"
  | PRolling rolling_window instrument
  | PRollings "(rolling_window \<times> instrument) list"

definition outcome_of :: "'a result \<times> 'w paper_broker \<times> 'w \<Rightarrow> exn option \<times> 'w paper_broker \<times> 'w" where
  "outcome_of x = (case x of (Inl e, B, w) \<Rightarrow> (Some e, B, w) | (Inr _, B, w) \<Rightarrow> (None, B, w))"

fun paper_step ::
  "(string \<Rightarrow> string) \<Rightarrow> paper_op \<Rightarrow> 'w paper_broker \<Rightarrow> 'w \<Rightarrow> exn option \<times> 'w paper_broker \<times> 'w" where
  "paper_step sha (PSubmit i m) B w = outcome_of (submit sha i m B w)"
| "paper_step sha (PCancel k t) B w = outcome_of (cancel sha k t B w)"
| "paper_step sha (PReject k t code) B w = outcome_of (reject sha k t code B w)"
| "paper_step sha (PExpire k t) B w = outcome_of (expire sha k t B w)"
| "paper_step sha (PMarkUnknown k t) B w = outcome_of (mark_unknown sha k t B w)"
| "paper_step sha (PReconcile k s t) B w = outcome_of (reconcile_unknown sha k s t B w)"
| "paper_step sha (PReconcileFills a fills ins) B w = outcome_of (reconcile_unknown_fills sha a fills ins B w)"
| "paper_step sha (PSnapshot m ins) B w = outcome_of (on_snapshot sha m ins B w)"
| "paper_step sha (PSnapshots events) B w = outcome_of (on_snapshots sha events B w)"
| "paper_step sha (PRolling v ins) B w = outcome_of (on_rolling_snapshot sha v ins B w)"
| "paper_step sha (PRollings events) B w = outcome_of (on_rolling_snapshots sha events B w)"

section \<open>The book\<close>

definition book_ok :: "paper_state \<Rightarrow> bool" where
  "book_ok S \<longleftrightarrow> px_fill_sequence S = int (length (px_fills S)) \<and> distinct (map fl_fill_id (px_fills S)) \<and>
     lg_fill_ids (px_ledger S) = set (map fl_fill_id (px_fills S)) \<and> positions_ok (px_ledger S)"

lemma frame_book:
  assumes "frame K C I S T" "counted S T" "book_ok S"
  shows "book_ok T"
proof -
  obtain ops fs where b: "px_fills T = px_fills S @ fs" "fold_result ledger_step ops (px_ledger S) = Inr (px_ledger T)"
      "concat (map op_fill_ids ops) = map fl_fill_id fs"
    using assms(1) unfolding frame_def by blast
  have "positions_ok (px_ledger T)"
    using fold_result_inv [where P = positions_ok, OF _ _ b(2)] ledger_step_positions assms(3) by (auto simp: book_ok_def)
  then show ?thesis
    using lg.run_ids [OF b(2)] b(1) assms(2,3) unfolding b(3) by (auto simp: book_ok_def counted_def)
qed

lemma tracked_book: "tracked A K C I S T \<Longrightarrow> covered A K S \<Longrightarrow> counted S T \<Longrightarrow> book_ok S \<Longrightarrow> book_ok T"
  unfolding tracked_def using frame_book by blast

lemma book_covered: "book_ok S \<Longrightarrow> covered {} K S"
  by (simp add: covered_def book_ok_def)

lemma positions_ok_canonical [simp]: "positions_ok L \<Longrightarrow> positions_ok (canonical_ledger L)"
  by (auto simp: positions_ok_def canonical_ledger_def)

section \<open>Order indexes\<close>

definition index_ok :: "(order_status \<Rightarrow> bool) \<Rightarrow> (string, paper_order) dict \<Rightarrow> (string, string list) dict \<Rightarrow> bool" where
  "index_ok P orders index \<longleftrightarrow> (\<forall>i. sorted (index_get index i) \<and> distinct (index_get index i) \<and>
     set (index_get index i) =
       {k. \<exists>r. dget orders k = Some r \<and> bo_instrument_id (po_order r) = i \<and> P (bo_status (po_order r))})"

lemma index_get_membership:
  "index_get (set_index_membership i k included d) j = (if j \<noteq> i then index_get d j
     else if included then if k \<in> set (index_get d i) then index_get d i else sort (index_get d i @ [k])
     else filter (\<lambda>c. c \<noteq> k) (index_get d i))"
proof -
  have "filter (\<lambda>c. c \<noteq> k) xs = xs" if "k \<notin> set xs" for xs
    using that by (auto simp: filter_id_conv)
  then show ?thesis
    by (auto simp: set_index_membership_def Let_def)
qed

lemma sync_index:
  assumes "index_ok P orders index"
    and "\<And>r. dget orders k = Some r \<Longrightarrow> bo_instrument_id (po_order r) = bo_instrument_id (po_order r')"
  shows "index_ok P (dset k r' orders) (set_index_membership (bo_instrument_id (po_order r')) k (P (bo_status (po_order r'))) index)"
proof -
  let ?i = "bo_instrument_id (po_order r')"
  have old: "sorted (index_get index j)" "distinct (index_get index j)"
      "x \<in> set (index_get index j) \<longleftrightarrow> (\<exists>r. dget orders x = Some r \<and> bo_instrument_id (po_order r) = j \<and> P (bo_status (po_order r)))"
    for j x
    using assms(1) unfolding index_ok_def by blast+
  have "sorted (index_get (set_index_membership ?i k (P (bo_status (po_order r'))) index) j)"
      "distinct (index_get (set_index_membership ?i k (P (bo_status (po_order r'))) index) j)" for j
    using old(1,2) [of j] old(1,2) [of ?i] by (auto simp: index_get_membership sorted_wrt_filter)
  moreover have "x \<in> set (index_get (set_index_membership ?i k (P (bo_status (po_order r'))) index) j) \<longleftrightarrow>
      (\<exists>r. dget (dset k r' orders) x = Some r \<and> bo_instrument_id (po_order r) = j \<and> P (bo_status (po_order r)))" for j x
    using old(3) [of x j] old(3) [of x ?i] assms(2) by (auto simp: index_get_membership)
  ultimately show ?thesis
    unfolding index_ok_def by blast
qed

text \<open>A change that leaves instruments and the indexed property alone needs no new index.\<close>

lemma index_kept:
  assumes "index_ok P orders index"
    and "\<And>i k. (\<exists>r. dget orders k = Some r \<and> bo_instrument_id (po_order r) = i \<and> P (bo_status (po_order r))) \<longleftrightarrow>
      (\<exists>r. dget orders' k = Some r \<and> bo_instrument_id (po_order r) = i \<and> P (bo_status (po_order r)))"
  shows "index_ok P orders' index"
  using assms unfolding index_ok_def by simp


section \<open>The invariant\<close>

definition record_sound :: "paper_order \<Rightarrow> bool" where
  "record_sound r \<longleftrightarrow> bo_client_order_id (po_order r) = oi_intent_id (po_intent r) \<and>
     bo_instrument_id (po_order r) = oi_instrument_id (po_intent r) \<and> 0 \<le> bo_filled_quantity (po_order r) \<and>
     (\<forall>q. bo_requested_quantity (po_order r) = Some q \<longrightarrow> bo_filled_quantity (po_order r) \<le> q) \<and>
     (\<forall>l. po_remaining_notional r = Some l \<longrightarrow> 0 \<le> l) \<and>
     (bo_status (po_order r) = FILLED \<longrightarrow>
        bo_requested_quantity (po_order r) = Some (bo_filled_quantity (po_order r)) \<or> po_remaining_notional r = Some 0)"

definition session_ok :: "paper_state \<Rightarrow> bool" where
  "session_ok S \<longleftrightarrow>
     (\<forall>k r. dget (px_orders S) k = Some r \<longrightarrow> bo_order_id (po_order r) = k \<and> record_sound r) \<and>
     (\<forall>c k. dget (px_client_orders S) c = Some k \<longleftrightarrow> (\<exists>r. dget (px_orders S) k = Some r \<and> oi_intent_id (po_intent r) = c)) \<and>
     index_ok is_market_executable (px_orders S) (px_active S) \<and> index_ok (\<lambda>s. s = UNKNOWN) (px_orders S) (px_unknown S) \<and>
     book_ok S"

lemma session_okI:
  assumes "\<And>k r. dget (px_orders S) k = Some r \<Longrightarrow> bo_order_id (po_order r) = k \<and> record_sound r"
    and "\<And>c k. dget (px_client_orders S) c = Some k \<longleftrightarrow> (\<exists>r. dget (px_orders S) k = Some r \<and> oi_intent_id (po_intent r) = c)"
    and "index_ok is_market_executable (px_orders S) (px_active S)" "index_ok (\<lambda>s. s = UNKNOWN) (px_orders S) (px_unknown S)"
    and "book_ok S"
  shows "session_ok S"
  using assms unfolding session_ok_def by blast

lemma session_okD:
  assumes "session_ok S"
  shows "dget (px_orders S) k = Some r \<Longrightarrow> bo_order_id (po_order r) = k \<and> record_sound r"
    and "dget (px_client_orders S) c = Some k \<longleftrightarrow> (\<exists>r. dget (px_orders S) k = Some r \<and> oi_intent_id (po_intent r) = c)"
    and "index_ok is_market_executable (px_orders S) (px_active S)" "index_ok (\<lambda>s. s = UNKNOWN) (px_orders S) (px_unknown S)"
    and "book_ok S"
  using assms unfolding session_ok_def by blast+

lemma index_ok_same: "same_dict D D' \<Longrightarrow> same_dict X X' \<Longrightarrow> index_ok P D X \<Longrightarrow> index_ok P D' X'"
  by (simp add: same_dict_def index_ok_def index_get_def)

lemma session_ok_same:
  assumes "same_state S T" "session_ok S" "positions_ok (px_ledger T)"
  shows "session_ok T"
proof (rule session_okI)
  note ok = session_okD [OF assms(2)]
  have same: "dget (px_orders S) k = dget (px_orders T) k" "dget (px_client_orders S) c = dget (px_client_orders T) c" for k c
    using assms(1) unfolding same_state_def same_dict_def by blast+
  show "bo_order_id (po_order r) = k \<and> record_sound r" if "dget (px_orders T) k = Some r" for k r
    using ok(1) that same by simp
  show "dget (px_client_orders T) c = Some k \<longleftrightarrow> (\<exists>r. dget (px_orders T) k = Some r \<and> oi_intent_id (po_intent r) = c)" for c k
    using ok(2) [of c k] same by simp
  show "index_ok is_market_executable (px_orders T) (px_active T)" "index_ok (\<lambda>s. s = UNKNOWN) (px_orders T) (px_unknown T)"
    using assms(1) ok(3,4) unfolding same_state_def by (meson index_ok_same)+
  have fills: "px_fills S = px_fills T" "px_fill_sequence S = px_fill_sequence T"
      and "canonical_ledger (px_ledger S) = canonical_ledger (px_ledger T)"
    using assms(1) unfolding same_state_def by blast+
  then have "lg_fill_ids (px_ledger S) = lg_fill_ids (px_ledger T)"
    by (auto simp: canonical_ledger_def dest: arg_cong [where f = lg_fill_ids])
  with fills show "book_ok T"
    using ok(5) assms(3) by (simp add: book_ok_def)
qed

text \<open>One order is stored under its own number and both indexes follow.\<close>

lemma synced_orders:
  assumes "session_ok S" and T: "px_orders T = dset k r' (px_orders S)" "px_client_orders T = px_client_orders S"
    "px_active T = set_index_membership (bo_instrument_id (po_order r')) k (is_market_executable (bo_status (po_order r'))) (px_active S)"
    "px_unknown T = set_index_membership (bo_instrument_id (po_order r')) k (bo_status (po_order r') = UNKNOWN) (px_unknown S)"
    and r: "dget (px_orders S) k = Some r" "bo_order_id (po_order r') = k" "po_intent r' = po_intent r"
    and "record_sound r'" "book_ok T"
  shows "session_ok T"
proof (rule session_okI)
  note ok = session_okD [OF assms(1)]
  have i: "bo_instrument_id (po_order q) = bo_instrument_id (po_order r')" if "dget (px_orders S) k = Some q" for q
    using that r ok(1) [OF r(1)] \<open>record_sound r'\<close> by (simp add: record_sound_def)
  show "index_ok is_market_executable (px_orders T) (px_active T)"
    unfolding T by (rule sync_index [OF ok(3) i])
  show "index_ok (\<lambda>s. s = UNKNOWN) (px_orders T) (px_unknown T)"
    unfolding T by (rule sync_index [OF ok(4) i])
  show "bo_order_id (po_order q) = j \<and> record_sound q" if "dget (px_orders T) j = Some q" for j q
    using that ok(1) r(2) assms(9) by (auto simp: T split: if_split_asm)
  show "dget (px_client_orders T) c = Some j \<longleftrightarrow> (\<exists>q. dget (px_orders T) j = Some q \<and> oi_intent_id (po_intent q) = c)" for c j
    using ok(2) [of c j] r by (auto simp: T)
qed (rule \<open>book_ok T\<close>)

section \<open>The kernels keep the invariant\<close>

lemma resolution_kernel_ok:
  assumes "resolution_kernel k s at_time activity S = (Inr (specs, b, t), T)" "session_ok S" "s \<noteq> FILLED"
  shows "session_ok T"
proof -
  obtain r event where r: "dget (px_orders S) k = Some r" "stage_transition (po_order r) s t = Inr (b, event)"
    and T: "T = (sync_order_indexes (r\<lparr>po_order := b\<rparr>) (S\<lparr>px_orders := dset k (r\<lparr>po_order := b\<rparr>) (px_orders S)\<rparr>))
      \<lparr>px_latest_at := Some t\<rparr>"
    using resolution_kernel_Inr [OF assms(1)] by blast
  have b: "b = (po_order r)\<lparr>bo_status := s, bo_updated_at := t\<rparr>"
    using r(2) by (simp add: stage_transition_Inr)
  have k: "bo_order_id (po_order r) = k" "record_sound r"
    using session_okD(1) [OF assms(2) r(1)] by simp_all
  have "record_sound (r\<lparr>po_order := b\<rparr>)"
    using k(2) assms(3) by (simp add: record_sound_def b)
  moreover have "book_ok T"
    using tracked_book [OF resolution_kernel_tracked [OF assms(1)] book_covered resolution_kernel_counted [OF assms(1)]]
      session_okD(5) [OF assms(2)] by blast
  ultimately show ?thesis
    using k(1) by (intro synced_orders [OF assms(2) _ _ _ _ r(1), where r' = "r\<lparr>po_order := b\<rparr>"]) (simp_all add: T b)
qed

lemma reconciliation_kernel_ok:
  assumes "reconciliation_kernel sha a fills ins currency S = (Inr (specs, t), T)" "session_ok S"
  shows "session_ok T"
proof -
  obtain r X r' L where k: "reconciliation_guards a fills ins currency S = Inr r"
      "reconciled_record a fills r X = Inr r'" "T = reconciled_state sha r r' fills ins t L S"
    using reconciliation_kernel_Inr [OF assms(1)] by blast
  have g: "dget (px_orders S) (bo_order_id a) = Some r" "bo_order_id a = bo_order_id (po_order r)"
      "bo_client_order_id a = bo_client_order_id (po_order r)" "bo_instrument_id a = bo_instrument_id (po_order r)"
      "bo_requested_quantity a = bo_requested_quantity (po_order r)" "bo_filled_quantity (po_order r) < bo_filled_quantity a"
    using reconciliation_guards_Inr [OF k(1)] session_okD(1) [OF assms(2)] by (auto simp: authoritative_identity_def not_le)
  have rs: "record_sound r"
    using session_okD(1) [OF assms(2) g(1)] by simp
  have r': "po_order r' = a" "po_intent r' = po_intent r"
    using reconciled_record_Inr [OF k(2)] by blast+
  have "record_sound r'"
    using reconciled_record_Inr [OF k(2)] g rs unfolding record_sound_def r' by fastforce
  moreover have "book_ok T"
  proof (rule tracked_book [OF reconciliation_kernel_tracked [OF assms(1)]])
    show "bo_order_id (po_order q) = j" if "dget (px_orders S) j = Some q" for j q
      using session_okD(1) [OF assms(2) that] by simp
  qed (use session_okD(5) [OF assms(2)] book_covered in \<open>auto simp: k(3) reconciled_state_def counted_def\<close>)
  ultimately show ?thesis
    using g r' by (intro synced_orders [OF assms(2) _ _ _ _ g(1), where r' = r']) (simp_all add: k(3) reconciled_state_def)
qed


text \<open>A new submission; its number must be new, which the digest behind it is relied on for.\<close>

lemma intent_size_positive:
  assumes "validate_intent_shape i = Inr ()"
  shows "oi_quantity i = Some q \<Longrightarrow> 0 < q" and "oi_notional i = Some n \<Longrightarrow> 0 < n"
  using assms unfolding validate_intent_shape_def optional_positive_def paper_positive_def
  by (auto simp: rbind_eq_Inr split: if_split_asm)

lemma submit_kernel_ok:
  assumes "submit_kernel sha session_id i m S = (Inr (specs, b, t), T)" "session_ok S"
    and fresh: "dget (px_orders S) (paper_order_id sha session_id (oi_intent_id i)) = None"
  shows "session_ok T"
proof (rule session_okI)
  let ?k = "paper_order_id sha session_id (oi_intent_id i)"
  let ?r = "fresh_record i m ?k"
  note ok = session_okD [OF assms(2)]
  obtain cursor where g: "submit_guards S i m = Inr ()"
    and T: "T = (sync_order_indexes ?r (S\<lparr>px_orders := dset ?k ?r (px_orders S)\<rparr>))
      \<lparr>px_client_orders := dset (oi_intent_id i) ?k (px_client_orders S),
       px_snapshots := dset (oi_instrument_id i) (bounded_snapshot m) (px_snapshots S),
       px_cursors := dset (oi_instrument_id i) cursor (px_cursors S),
       px_latest_at := Some (max_latest (px_latest_at S) (ms_observed_at m))\<rparr>"
    using submit_kernel_Inr [OF assms(1)] by blast
  have client: "dget (px_client_orders S) (oi_intent_id i) = None" and shape: "validate_intent_shape i = Inr ()"
    using g by (auto simp: submit_guards_def result_simps)
  have r: "po_order ?r = \<lparr>bo_order_id = ?k, bo_client_order_id = oi_intent_id i, bo_broker = bc_broker paper_capabilities,
      bo_instrument_id = oi_instrument_id i, bo_status = ACKNOWLEDGED, bo_requested_quantity = oi_quantity i,
      bo_requested_notional = None, bo_filled_quantity = 0, bo_average_fill_price = None,
      bo_submitted_at = ms_observed_at m, bo_updated_at = ms_observed_at m\<rparr>"
      "po_intent ?r = i" "po_remaining_notional ?r = oi_notional i"
    by (simp_all add: fresh_record_def fresh_order_def)
  have sound: "record_sound ?r"
    using intent_size_positive [OF shape] by (auto simp: record_sound_def r intro: less_imp_le)
  have orders: "px_orders T = dset ?k ?r (px_orders S)"
    by (simp add: T)
  show "bo_order_id (po_order q) = j \<and> record_sound q" if "dget (px_orders T) j = Some q" for j q
    using that ok(1) sound by (auto simp: orders r(1) split: if_split_asm)
  show "dget (px_client_orders T) c = Some j \<longleftrightarrow> (\<exists>q. dget (px_orders T) j = Some q \<and> oi_intent_id (po_intent q) = c)" for c j
    using ok(2) [of c j] ok(2) [of c ?k] ok(2) [of "oi_intent_id i" j] client fresh by (auto simp: T r(2))
  have none: "bo_instrument_id (po_order q) = bo_instrument_id (po_order ?r)" if "dget (px_orders S) ?k = Some q" for q
    using that fresh by simp
  show "index_ok is_market_executable (px_orders T) (px_active T)"
    using sync_index [OF ok(3) none] by (simp add: T r(1))
  show "index_ok (\<lambda>s. s = UNKNOWN) (px_orders T) (px_unknown T)"
    using sync_index [OF ok(4) none] by (simp add: T r(1))
  show "book_ok T"
    by (rule tracked_book [OF submit_kernel_tracked [OF assms(1)] book_covered [OF ok(5)] submit_kernel_counted [OF assms(1)] ok(5)])
qed

text \<open>What serving an order may change.\<close>

definition served :: "paper_order \<Rightarrow> paper_order \<Rightarrow> bool" where
  "served r r' \<longleftrightarrow> bo_order_id (po_order r') = bo_order_id (po_order r) \<and>
     bo_instrument_id (po_order r') = bo_instrument_id (po_order r) \<and> po_intent r' = po_intent r \<and>
     (record_sound r \<longrightarrow> record_sound r') \<and> (bo_status (po_order r) = UNKNOWN \<longleftrightarrow> bo_status (po_order r') = UNKNOWN)"

lemma served_refl [simp]: "served r r"
  by (simp add: served_def)

lemma filled_record_served:
  assumes "filled_record r t f r'" "0 < fl_quantity f" "bo_status (po_order r) \<noteq> UNKNOWN"
  shows "served r r'"
proof -
  note d = filled_recordD [OF assms(1)]
  have "record_sound r'" if "record_sound r"
  proof -
    have "0 \<le> bo_filled_quantity (po_order r')"
      using that assms(2) by (simp add: d(1) record_sound_def)
    then show ?thesis
      using that d(2,3,5) unfolding record_sound_def d(7-10) by blast
  qed
  moreover have "bo_status (po_order r') \<noteq> UNKNOWN"
    using d(4) by auto
  ultimately show ?thesis
    using assms(3) unfolding served_def d(6,7,10) by blast
qed

lemma served_triggered: "served (r\<lparr>po_stop_triggered := True\<rparr>) r' \<Longrightarrow> served r r'"
proof -
  have same: "po_order (r\<lparr>po_stop_triggered := True\<rparr>) = po_order r" "po_intent (r\<lparr>po_stop_triggered := True\<rparr>) = po_intent r"
      "po_remaining_notional (r\<lparr>po_stop_triggered := True\<rparr>) = po_remaining_notional r"
    by simp_all
  have "record_sound (r\<lparr>po_stop_triggered := True\<rparr>) = record_sound r"
    unfolding record_sound_def same by (rule refl)
  then show "served (r\<lparr>po_stop_triggered := True\<rparr>) r' \<Longrightarrow> served r r'"
    unfolding served_def same by metis
qed

lemma process_order_served:
  assumes "process_order sha costs session_id m b ins liquidity r S = (Inr (r', fo, left, specs), S')"
  shows "served r r'"
proof (cases "is_market_executable (bo_status (po_order r))")
  case False
  then show ?thesis
    using assms by (auto simp: process_order_def Let_def is_market_executable_def give_eq)
next
  case True
  then have u: "bo_status (po_order r) \<noteq> UNKNOWN"
    by (simp add: is_market_executable_def)
  consider "unfilled m r r'" | f r1 sp price where "r1 = r \<or> r1 = r\<lparr>po_stop_triggered := True\<rparr>"
      "candidate_fill costs (fill_id_of session_id S) r1 (ms_observed_at m) ins liquidity price = Inr (Some f)"
      "book_fill_on_order sha r1 (ms_observed_at m) ins liquidity sp f S = (Inr (r', fo, left, specs), S')"
    using process_order_cases [OF assms] by blast
  then show ?thesis
  proof cases
    case 1
    then show ?thesis
      using u by (auto simp: unfilled_def served_def record_sound_def stage_transition_Inr)
  next
    case 2
    have "0 < fl_quantity f"
      using candidate_fill_Inr [OF 2(2)] model_fill_InrD by blast
    moreover have "filled_record r1 (ms_observed_at m) f r'"
      using book_on_order_Inr [OF 2(3)] by blast
    moreover have "bo_status (po_order r1) \<noteq> UNKNOWN"
      using 2(1) u by auto
    ultimately have "served r1 r'"
      using filled_record_served by blast
    then show ?thesis
      using 2(1) served_triggered by auto
  qed
qed

lemma process_order_dicts:
  assumes "process_order sha costs session_id m b ins liquidity r S = (Inr (r', fo, left, specs), S')"
  shows "px_orders S' = px_orders S" "px_client_orders S' = px_client_orders S" "px_active S' = px_active S"
    "px_unknown S' = px_unknown S"
  using process_order_state [OF assms] by (auto simp: book_paper_fill_Inr split: option.split_asm)

text \<open>Serving the orders of an index: each is served, the others stay, the survivors are the executable ones.\<close>

lemma serve_orders_Inr:
  "serve_orders sha costs session_id m b ins ids liquidity S = (Inr (survivors, specs, fills), S') \<Longrightarrow> distinct ids \<Longrightarrow>
   px_client_orders S' = px_client_orders S \<and> px_active S' = px_active S \<and> px_unknown S' = px_unknown S \<and>
   (\<forall>k. k \<notin> set ids \<longrightarrow> dget (px_orders S') k = dget (px_orders S) k) \<and>
   (\<forall>k \<in> set ids. \<exists>r r'. dget (px_orders S) k = Some r \<and> dget (px_orders S') k = Some r' \<and> served r r') \<and>
   survivors = filter (\<lambda>k. case dget (px_orders S') k of None \<Rightarrow> False | Some r \<Rightarrow> is_market_executable (bo_status (po_order r))) ids"
proof (induction ids arbitrary: liquidity S survivors specs fills)
  case (Cons oid ids)
  obtain r r' fo left sp S1 sv sp2 fl where c: "dget (px_orders S) oid = Some r"
      "process_order sha costs session_id m b ins liquidity r S = (Inr (r', fo, left, sp), S1)"
      "serve_orders sha costs session_id m b ins ids left (S1\<lparr>px_orders := dset oid r' (px_orders S1)\<rparr>) = (Inr (sv, sp2, fl), S')"
      "survivors = (if is_market_executable (bo_status (po_order r')) then oid # sv else sv)"
    using Cons.prems(1) by (auto simp: action_simps split: option.split_asm prod.split_asm)
  note d = process_order_dicts [OF c(2)]
  have ids: "distinct ids" "oid \<notin> set ids"
    using Cons.prems(2) by simp_all
  define S2 where "S2 = S1\<lparr>px_orders := dset oid r' (px_orders S1)\<rparr>"
  have S2: "px_client_orders S2 = px_client_orders S" "px_active S2 = px_active S" "px_unknown S2 = px_unknown S"
      "\<And>k. dget (px_orders S2) k = (if k = oid then Some r' else dget (px_orders S) k)"
    by (simp_all add: S2_def d)
  note raw = Cons.IH [OF c(3) [folded S2_def] ids(1)]
  have ih: "px_client_orders S' = px_client_orders S" "px_active S' = px_active S" "px_unknown S' = px_unknown S"
      "sv = filter (\<lambda>k. case dget (px_orders S') k of None \<Rightarrow> False | Some r \<Rightarrow> is_market_executable (bo_status (po_order r))) ids"
    using raw unfolding S2 by blast+
  have others: "dget (px_orders S') k = (if k = oid then Some r' else dget (px_orders S) k)" if "k \<notin> set ids" for k
    using raw that unfolding S2(4) [symmetric] by blast
  have inner: "\<exists>q q'. dget (px_orders S) k = Some q \<and> dget (px_orders S') k = Some q' \<and> served q q'" if "k \<in> set ids" for k
  proof -
    have "dget (px_orders S2) k = dget (px_orders S) k"
      using that ids(2) by (auto simp: S2(4))
    then show ?thesis
      using raw that by metis
  qed
  have "dget (px_orders S') oid = Some r'"
    using others [OF ids(2)] by simp
  moreover have "\<exists>r r'. dget (px_orders S) k = Some r \<and> dget (px_orders S') k = Some r' \<and> served r r'" if "k \<in> set (oid # ids)" for k
    using that inner calculation c(1) process_order_served [OF c(2)] by auto
  moreover have "dget (px_orders S') k = dget (px_orders S) k" if "k \<notin> set (oid # ids)" for k
    using others that by simp
  ultimately show ?case
    using ih c(4) by simp
qed (simp add: give_eq)

lemma observe_market_ok:
  assumes "observe_market sha costs participation session_id m ins S = (Inr (specs, fills), T)" "session_ok S"
  shows "session_ok T"
proof (rule session_okI)
  let ?i = "ms_instrument_id m" and ?ids = "index_get (px_active S) (ms_instrument_id m)"
  note ok = session_okD [OF assms(2)]
  obtain b c' liquidity S2 survivors sp where o: "serve_orders sha costs session_id m b ins ?ids liquidity
      (S\<lparr>px_market_prices := dset ?i (bar_close b) (px_market_prices S), px_instruments := dset ?i ins (px_instruments S)\<rparr>)
      = (Inr (survivors, sp, fills), S2)"
    and T: "T = S2\<lparr>px_active := replace_order_index ?i survivors (px_active S2),
      px_snapshots := dset ?i (bounded_snapshot m) (px_snapshots S2), px_cursors := dset ?i c' (px_cursors S2),
      px_latest_at := Some (max_latest (px_latest_at S2) (ms_observed_at m)), px_last_event_key := Some (event_key m)\<rparr>"
    using observe_market_Inr [OF assms(1)] by blast
  have active: "sorted (index_get (px_active S) j)" "distinct (index_get (px_active S) j)"
      "k \<in> set (index_get (px_active S) j) \<longleftrightarrow>
        (\<exists>r. dget (px_orders S) k = Some r \<and> bo_instrument_id (po_order r) = j \<and> is_market_executable (bo_status (po_order r)))" for j k
    using ok(3) unfolding index_ok_def by blast+
  note s = serve_orders_Inr [OF o active(2)]
  have dicts: "px_client_orders S2 = px_client_orders S" "px_active S2 = px_active S" "px_unknown S2 = px_unknown S"
      "survivors = filter (\<lambda>k. case dget (px_orders S2) k of None \<Rightarrow> False | Some r \<Rightarrow> is_market_executable (bo_status (po_order r))) ?ids"
    using s by simp_all
  have rel: "dget (px_orders S2) k = dget (px_orders S) k \<and> k \<notin> set ?ids \<or>
      k \<in> set ?ids \<and> (\<exists>r r'. dget (px_orders S) k = Some r \<and> dget (px_orders S2) k = Some r' \<and> served r r')" for k
    using s by (cases "k \<in> set ?ids") auto
  have orders: "px_orders T = px_orders S2"
    by (simp add: T)
  show "bo_order_id (po_order r) = k \<and> record_sound r" if "dget (px_orders T) k = Some r" for k r
    using that rel [of k] ok(1) [of k] by (auto simp: orders served_def)
  have same: "(\<exists>r. dget (px_orders S2) k = Some r \<and> Q (bo_instrument_id (po_order r)) (po_intent r) (bo_status (po_order r) = UNKNOWN)) \<longleftrightarrow>
      (\<exists>r. dget (px_orders S) k = Some r \<and> Q (bo_instrument_id (po_order r)) (po_intent r) (bo_status (po_order r) = UNKNOWN))" for k Q
    using rel [of k] by (elim disjE exE conjE) (simp_all add: served_def)
  show "dget (px_client_orders T) c = Some k \<longleftrightarrow> (\<exists>r. dget (px_orders T) k = Some r \<and> oi_intent_id (po_intent r) = c)" for c k
    using ok(2) [of c k] same [of k "\<lambda>i n u. oi_intent_id n = c"] by (simp add: T dicts)
  show "index_ok (\<lambda>s. s = UNKNOWN) (px_orders T) (px_unknown T)"
    using index_kept [OF ok(4), of "px_orders S2"] same [of _ "\<lambda>j n u. j = i \<and> u" for i] by (simp add: T dicts)
  have "k \<in> set (index_get (px_active T) j) \<longleftrightarrow> (\<exists>r. dget (px_orders T) k = Some r \<and> bo_instrument_id (po_order r) = j \<and>
      is_market_executable (bo_status (po_order r)))" for j k
    using rel [of k] active(3) [of k j] active(3) [of k ?i] by (auto simp: T dicts served_def split: option.splits)
  moreover have "sorted (index_get (px_active T) j)" "distinct (index_get (px_active T) j)" for j
    using active(1,2) [of j] active(1,2) [of ?i] by (auto simp: T dicts sorted_wrt_filter)
  ultimately show "index_ok is_market_executable (px_orders T) (px_active T)"
    unfolding index_ok_def by blast
  have "covered {?i} (set ?ids) S"
    using ok(5) by (simp add: covered_def book_ok_def)
  then show "book_ok T"
    using tracked_book [OF alongD [OF observe_market_tracked assms(1)] _ alongD [OF observe_market_counted assms(1)] ok(5)] by blast
qed

lemma observe_input_ok:
  assumes "observe_input sha costs participation session_id x S = (Inr (specs, fills), T)" "session_ok S"
  shows "session_ok T"
  using assms by (auto simp: observe_input_def action_simps split: if_split_asm option.split_asm intro: observe_market_ok)

lemma observe_cohort_ok:
  "observe_cohort sha costs participation session_id xs S = (Inr (specs, fills), T) \<Longrightarrow> session_ok S \<Longrightarrow> session_ok T"
proof (induction xs arbitrary: S specs fills)
  case (Cons x xs)
  then obtain S1 sp fl sp2 fl2 where "observe_input sha costs participation session_id x S = (Inr (sp, fl), S1)"
      "observe_cohort sha costs participation session_id xs S1 = (Inr (sp2, fl2), T)"
    by (auto simp: action_simps split: prod.split_asm)
  then show ?case
    using Cons.IH observe_input_ok Cons.prems(2) by blast
qed (simp add: give_eq)

lemma market_kernel_ok:
  assumes "market_kernel sha costs participation session_id xs S = (Inr (specs, fills), T)" "session_ok S"
  shows "session_ok T"
proof -
  obtain S1 where c: "observe_cohort sha costs participation session_id xs S = (Inr (specs, fills), S1)"
    and T: "T = S1 \<or> (\<exists>t snap L. mark (px_market_prices S1) (Aware t) (px_ledger S1) = Inr (snap, L) \<and> T = S1\<lparr>px_ledger := L\<rparr>)"
    using market_kernel_Inr [OF assms(1)] by blast
  note ok1 = observe_cohort_ok [OF c assms(2)]
  from T show ?thesis
  proof (elim disjE exE conjE)
    fix t snap L assume m: "mark (px_market_prices S1) (Aware t) (px_ledger S1) = Inr (snap, L)" "T = S1\<lparr>px_ledger := L\<rparr>"
    have "frame {} {} {} S1 T"
      using m by (intro frameI [where fs = "[]" and ops = "[Mark (px_market_prices S1) (Aware t)]"]) auto
    moreover have "counted S1 T"
      by (simp add: m(2) counted_def)
    ultimately have "book_ok T"
      using frame_book session_okD(5) [OF ok1] by blast
    then show ?thesis
      using ok1 by (simp add: session_ok_def m(2))
  qed (simp add: ok1)
qed


section \<open>Operations keep the session, and undo what they do not finish\<close>

lemma session_ok_numbered [simp]:
  "session_ok (T\<lparr>px_event_sequence := a, px_operation_sequence := b, px_state_digest := d\<rparr>) = session_ok T"
  by (simp add: session_ok_def book_ok_def)

lemma session_ok_renumbered: "renumbered S T \<Longrightarrow> session_ok T = session_ok S"
  by (auto simp: renumbered_def)

abbreviation conflict_exn :: exn where
  "conflict_exn \<equiv> DuplicateIntentConflict ''client intent ID already belongs to a different canonical intent''"

text \<open>The session stays well formed; if the operation raises, nothing it did is left in the session, and
  the world is as it was or as the recorder left it when it raised that very exception.\<close>

definition world_of_raise :: "'w paper_broker \<Rightarrow> 'w \<Rightarrow> exn \<Rightarrow> 'w \<Rightarrow> bool" where
  "world_of_raise B w e w' \<longleftrightarrow> w' = w \<or>
     (\<exists>record_events batch. pb_recorder B = Some record_events \<and> record_events batch w = (Inl e, w'))"

definition kept :: "'w paper_broker \<Rightarrow> 'w \<Rightarrow> 'a result \<times> 'w paper_broker \<times> 'w \<Rightarrow> bool" where
  "kept B w x \<longleftrightarrow> (case x of (v, B', w') \<Rightarrow> session_ok (pb_state B') \<and> pb_session_id B' = pb_session_id B \<and>
     (\<forall>e. v = Inl e \<longrightarrow> e \<noteq> conflict_exn \<longrightarrow>
        world_of_raise B w e w' \<and> pb_audit_events B' = pb_audit_events B \<and> same_state (pb_state B) (pb_state B')))"

lemma kept_refused: "session_ok (pb_state B) \<Longrightarrow> kept B w (Inl e, B, w)"
  by (simp add: kept_def world_of_raise_def)

lemma undo_restores:
  assumes "session_ok (pb_state B)"
    and "frame (set os) (set cs) (captured_instruments (pb_state B) os is) (pb_state B) (pb_state B1)"
  shows "\<exists>S'. undo (capture (pb_state B) os cs is) e B1 = (e, B1\<lparr>pb_state := S'\<rparr>) \<and> same_state (pb_state B) S' \<and> session_ok S'"
proof -
  have p: "positions_ok (px_ledger (pb_state B))"
    using session_okD(5) [OF assms(1)] by (simp add: book_ok_def)
  then have "ledger_dicts_ok (px_ledger (pb_state B))"
    by (simp add: positions_ok_def ledger_dicts_ok_def)
  from rollback_restores [OF assms(2) this] obtain S' where
    "rollback (capture (pb_state B) os cs is) (pb_state B1) = (None, S')" "same_state (pb_state B) S'"
    "px_ledger S' = canonical_ledger (px_ledger (pb_state B))"
    by blast
  moreover have "session_ok S'"
    using session_ok_same [OF calculation(2) assms(1)] calculation(3) p by simp
  ultimately show ?thesis
    by (auto simp: undo_def)
qed

text \<open>An operation whose every outcome stays within the captured keys, whatever it had done before it
  raised, is kept: by the kernel, by the commit or by the recorder.\<close>

lemma staged_kept:
  assumes "session_ok (pb_state B)" "covered A (set os) (pb_state B)"
    and tracked: "\<And>v T. operation (pb_state B) = (v, T) \<Longrightarrow>
      tracked A (set os) (set cs) (captured_instruments (pb_state B) os is) (pb_state B) T"
    and ok: "\<And>specs x t T. operation (pb_state B) = (Inr (specs, x, t), T) \<Longrightarrow> session_ok T"
  shows "kept B w (staged_operation sha (capture (pb_state B) os cs is) operation B w)"
proof -
  obtain v T where o: "operation (pb_state B) = (v, T)"
    by (cases "operation (pb_state B)")
  note f = tracked [OF o, unfolded tracked_def, THEN mp, OF assms(2), THEN conjunct2]
  show ?thesis
  proof (cases v)
    case (Inl e)
    obtain S' where "undo (capture (pb_state B) os cs is) e (B\<lparr>pb_state := T\<rparr>) = (e, B\<lparr>pb_state := T, pb_state := S'\<rparr>)"
        "same_state (pb_state B) S'" "session_ok S'"
      using undo_restores [OF assms(1), of os cs "is" "B\<lparr>pb_state := T\<rparr>" e] f by auto
    then show ?thesis
      using o Inl by (simp add: staged_operation_def kept_def world_of_raise_def)
  next
    case (Inr y)
    obtain specs x t where y: "y = (specs, x, t)"
      by (cases y) auto
    obtain u B1 w' where c: "commit sha specs t (B\<lparr>pb_state := T\<rparr>) w = (u, B1, w')"
      by (cases "commit sha specs t (B\<lparr>pb_state := T\<rparr>) w") auto
    note k = commit_cases [OF c]
    show ?thesis
    proof (cases u)
      case (Inl e)
      have "frame (set os) (set cs) (captured_instruments (pb_state B) os is) (pb_state B) (pb_state B1)"
        using frame_trans [OF f renumbered_frame] k(1) by simp
      from undo_restores [OF assms(1) this, of e] obtain S' where
        S': "undo (capture (pb_state B) os cs is) e B1 = (e, B1\<lparr>pb_state := S'\<rparr>)" "same_state (pb_state B) S'" "session_ok S'"
        by blast
      have "pb_audit_events B1 = pb_audit_events B"
        using arg_cong [OF k(4) [OF Inl], of pb_audit_events] by simp
      moreover have "world_of_raise B w e w'"
        using k(5) [OF Inl] by (auto simp: world_of_raise_def)
      ultimately show ?thesis
        using o Inr y c Inl S' k(2) by (simp add: staged_operation_def kept_def)
    next
      case (Inr z)
      have "session_ok (pb_state B1)"
        using session_ok_renumbered [OF k(1)] ok [OF o [unfolded \<open>v = Inr y\<close> y]] by simp
      then show ?thesis
        using o \<open>v = Inr y\<close> y c Inr k(2) by (simp add: staged_operation_def kept_def)
    qed
  qed
qed

lemma session_covered: "session_ok S \<Longrightarrow> covered {} K S"
  using book_covered session_okD(5) by blast

lemma tracked_mono: "tracked {} K C I S T \<Longrightarrow> I \<subseteq> I' \<Longrightarrow> tracked {} K C I' S T"
  unfolding tracked_def covered_def using frame_mono [of K C I S T K C I'] by blast

lemma captured_simps:
  "captured_instruments S [k] [i] = insert i {bo_instrument_id (po_order r) |r. dget (px_orders S) k = Some r}"
  "captured_instruments S [k] [] = {bo_instrument_id (po_order r) |r. dget (px_orders S) k = Some r}"
  by (auto simp: captured_instruments_def)

lemma resolve_tracked:
  assumes "then_do (resolution_kernel k s t activity) (\<lambda>(specs, b, t). give (specs, b, Aware t)) S = (v, T)"
  shows "tracked {} {k} {} (captured_instruments S [k] []) S T"
proof -
  obtain u where "resolution_kernel k s t activity S = (u, T)"
    using assms by (auto simp: outcome_simps split: prod.split_asm)
  from resolution_kernel_tracked [OF this] show ?thesis
    by (simp add: captured_simps)
qed

lemma resolve_kept:
  assumes "session_ok (pb_state B)" "s \<noteq> FILLED"
  shows "kept B w (resolve sha k s t activity B w)"
  unfolding resolve_def
proof (rule staged_kept [OF assms(1) session_covered [OF assms(1)]])
  fix v T assume "then_do (resolution_kernel k s t activity) (\<lambda>(specs, b, t). give (specs, b, Aware t)) (pb_state B) = (v, T)"
  from resolve_tracked [OF this]
  show "tracked {} (set [k]) (set []) (captured_instruments (pb_state B) [k] []) (pb_state B) T"
    by simp
next
  fix specs x u T
  assume "then_do (resolution_kernel k s t activity) (\<lambda>(specs, b, t). give (specs, b, Aware t)) (pb_state B) = (Inr (specs, x, u), T)"
  then obtain b v where "resolution_kernel k s t activity (pb_state B) = (Inr (specs, b, v), T)"
    by (auto simp: action_simps split: prod.split_asm)
  then show "session_ok T"
    using resolution_kernel_ok assms by blast
qed

lemma reconcile_unknown_kept:
  assumes "session_ok (pb_state B)"
  shows "kept B w (reconcile_unknown sha k s t B w)"
proof (cases "s = FILLED")
  case True
  show ?thesis
  proof (cases "dget (px_orders (pb_state B)) k")
    case (Some r)
    show ?thesis
    proof (cases "bo_status (po_order r) = UNKNOWN")
      case unknown: True
      have none: "resolution_kernel k FILLED t None (pb_state B) \<noteq> (Inr (specs, b, v), T)" for specs b v T
        using resolution_kernel_Inr [of k FILLED t None "pb_state B" specs b v T] Some unknown by (auto simp: stage_transition_Inr)
      have "kept B w (resolve sha k FILLED t None B w)"
        unfolding resolve_def
      proof (rule staged_kept [OF assms session_covered [OF assms]])
        fix v T assume "then_do (resolution_kernel k FILLED t None) (\<lambda>(specs, b, t). give (specs, b, Aware t)) (pb_state B) = (v, T)"
        from resolve_tracked [OF this]
        show "tracked {} (set [k]) (set []) (captured_instruments (pb_state B) [k] []) (pb_state B) T"
          by simp
      qed (use none in \<open>auto simp: action_simps split: prod.split_asm\<close>)
      then show ?thesis
        by (simp add: reconcile_unknown_def Some unknown True)
    qed (simp add: reconcile_unknown_def Some kept_refused assms)
  qed (simp add: reconcile_unknown_def kept_refused assms)
next
  case False
  then show ?thesis
    using resolve_kept [OF assms] by (simp add: reconcile_unknown_def kept_refused assms split: option.split)
qed

lemma reconcile_fills_kept:
  assumes "session_ok (pb_state B)"
  shows "kept B w (reconcile_unknown_fills sha a fills ins B w)"
proof (cases "paper_instrument_id ins")
  case (Inr i)
  have "kept B w (staged_operation sha (capture (pb_state B) [bo_order_id a] [] [i])
      (then_do (reconciliation_kernel sha a fills ins (pb_currency B)) (\<lambda>(specs, t). give (specs, a, Aware t))) B w)"
  proof (rule staged_kept [OF assms session_covered [OF assms]])
    fix v T assume "then_do (reconciliation_kernel sha a fills ins (pb_currency B)) (\<lambda>(specs, t). give (specs, a, Aware t)) (pb_state B) = (v, T)"
    then obtain u where r: "reconciliation_kernel sha a fills ins (pb_currency B) (pb_state B) = (u, T)"
      by (auto simp: outcome_simps split: prod.split_asm)
    have "tracked {} {bo_order_id a} {} {bo_instrument_id (po_order r) |r. dget (px_orders (pb_state B)) (bo_order_id a) = Some r} (pb_state B) T"
      by (rule reconciliation_kernel_tracked [OF r]) (use session_okD(1) [OF assms] in blast)
    then show "tracked {} (set [bo_order_id a]) (set []) (captured_instruments (pb_state B) [bo_order_id a] [i]) (pb_state B) T"
      by (auto simp: captured_simps elim: tracked_mono)
  next
    fix specs x u T
    assume "then_do (reconciliation_kernel sha a fills ins (pb_currency B)) (\<lambda>(specs, t). give (specs, a, Aware t)) (pb_state B) =
      (Inr (specs, x, u), T)"
    then obtain t where "reconciliation_kernel sha a fills ins (pb_currency B) (pb_state B) = (Inr (specs, t), T)"
      by (auto simp: action_simps split: prod.split_asm)
    then show "session_ok T"
      using reconciliation_kernel_ok assms by blast
  qed
  then show ?thesis
    by (simp add: reconcile_unknown_fills_def Inr)
qed (simp add: reconcile_unknown_fills_def kept_refused assms)

lemma repetition_outcome:
  assumes "then_do (idempotency_kernel i) (\<lambda>(specs, r, conflict, t). give (specs, (r, conflict), Aware t)) S = (v, T)"
  shows "T = S" and "v = Inr (specs, (r, conflict), u) \<Longrightarrow> (conflict \<longleftrightarrow> po_intent r \<noteq> i) \<and>
     (\<exists>k. dget (px_client_orders S) (oi_intent_id i) = Some k \<and> dget (px_orders S) k = Some r)"
proof -
  obtain y where k: "idempotency_kernel i S = (y, T)"
      "v = Inr (specs, (r, conflict), u) \<Longrightarrow> \<exists>t. y = Inr (specs, r, conflict, t)"
    using assms by (auto simp: outcome_simps split: prod.split_asm)
  show "T = S"
    by (rule idempotency_kernel_outcome(1) [OF k(1)])
  show "v = Inr (specs, (r, conflict), u) \<Longrightarrow> (conflict \<longleftrightarrow> po_intent r \<noteq> i) \<and>
     (\<exists>k. dget (px_client_orders S) (oi_intent_id i) = Some k \<and> dget (px_orders S) k = Some r)"
    using idempotency_kernel_outcome(2) [OF k(1)] k(2) by blast
qed

lemma repetition_kept:
  assumes "session_ok (pb_state B)"
  shows "kept B w (staged_operation sha (capture (pb_state B) [k] [c] [])
    (then_do (idempotency_kernel i) (\<lambda>(specs, r, conflict, t). give (specs, (r, conflict), Aware t))) B w)"
  by (rule staged_kept [OF assms session_covered [OF assms]])
    (auto dest!: repetition_outcome(1) simp: tracked_def assms)

text \<open>The number of a new order must not be taken.\<close>

definition fresh_number :: "(string \<Rightarrow> string) \<Rightarrow> paper_op \<Rightarrow> 'w paper_broker \<Rightarrow> bool" where
  "fresh_number sha op B \<longleftrightarrow> (case op of PSubmit i m \<Rightarrow> dget (px_client_orders (pb_state B)) (oi_intent_id i) = None \<longrightarrow>
     dget (px_orders (pb_state B)) (paper_order_id sha (pb_session_id B) (oi_intent_id i)) = None | _ \<Rightarrow> True)"

lemma submit_kept:
  assumes "session_ok (pb_state B)" "fresh_number sha (PSubmit i m) B"
  shows "kept B w (submit sha i m B w)"
proof (cases "validate_intent_shape i")
  case (Inr _)
  show ?thesis
  proof (cases "dget (px_client_orders (pb_state B)) (oi_intent_id i)")
    case None
    let ?k = "paper_order_id sha (pb_session_id B) (oi_intent_id i)"
    have "kept B w (staged_operation sha (capture (pb_state B) [?k] [oi_intent_id i] [oi_instrument_id i])
        (then_do (submit_kernel sha (pb_session_id B) i m) (\<lambda>(specs, b, t). give (specs, b, Aware t))) B w)"
    proof (rule staged_kept [OF assms(1) session_covered [OF assms(1)]])
      fix v T assume "then_do (submit_kernel sha (pb_session_id B) i m) (\<lambda>(specs, b, t). give (specs, b, Aware t)) (pb_state B) = (v, T)"
      then obtain u where "submit_kernel sha (pb_session_id B) i m (pb_state B) = (u, T)"
        by (auto simp: outcome_simps split: prod.split_asm)
      from submit_kernel_tracked [OF this] show "tracked {} (set [?k]) (set [oi_intent_id i])
          (captured_instruments (pb_state B) [?k] [oi_instrument_id i]) (pb_state B) T"
        by (auto simp: captured_simps elim: tracked_mono)
    next
      fix specs x u T
      assume "then_do (submit_kernel sha (pb_session_id B) i m) (\<lambda>(specs, b, t). give (specs, b, Aware t)) (pb_state B) =
        (Inr (specs, x, u), T)"
      then obtain b t where r: "submit_kernel sha (pb_session_id B) i m (pb_state B) = (Inr (specs, b, t), T)"
        by (auto simp: action_simps split: prod.split_asm)
      show "session_ok T"
        using submit_kernel_ok [OF r assms(1)] assms(2) None by (simp add: fresh_number_def)
    qed
    then show ?thesis
      using Inr None by (simp add: submit_def Let_def)
  next
    case (Some k)
    define out where "out = staged_operation sha (capture (pb_state B) [k] [oi_intent_id i] [])
      (then_do (idempotency_kernel i) (\<lambda>(specs, r, conflict, t). give (specs, (r, conflict), Aware t))) B w"
    have kept: "kept B w out"
      unfolding out_def by (rule repetition_kept [OF assms(1)])
    have "submit sha i m B w = (case out of (Inl e, B', w') \<Rightarrow> (Inl e, B', w')
        | (Inr (r, conflict), B', w') \<Rightarrow> (if conflict then Inl conflict_exn else Inr (po_order r), B', w'))"
      using Inr Some by (simp add: submit_def Let_def out_def)
    then show ?thesis
      using kept by (cases out; cases "fst out") (auto simp: kept_def split: if_split_asm)
  qed
qed (simp add: submit_def kept_refused assms)


section \<open>Market batches\<close>

lemma process_snapshots_kept:
  assumes "session_ok (pb_state B)"
  shows "kept B w (process_snapshots sha events B w)"
proof (cases "rbind (relevant_instruments (pb_state B)) (\<lambda>_. rbind (validate_cohort (pb_currency B) (pb_state B) [] events) (order_cohort (pb_state B)))")
  case (Inr cohort)
  let ?ins = "sort (map (\<lambda>(k, m, ins, d). ms_instrument_id m) cohort)"
  let ?os = "concat (map (index_get (px_active (pb_state B))) ?ins)"
  let ?xs = "map (\<lambda>(k, m, ins, d). \<lparr>mi_snapshot = m, mi_instrument = Some ins, mi_duplicate = d\<rparr>) cohort"
  let ?I = "captured_instruments (pb_state B) ?os ?ins"
  have "bo_instrument_id (po_order r) \<in> set ?ins" if "oid \<in> set ?os" "dget (px_orders (pb_state B)) oid = Some r" for oid r
  proof -
    note listed = that
    obtain j where j: "j \<in> set ?ins" "oid \<in> set (index_get (px_active (pb_state B)) j)"
      using listed(1) unfolding set_concat set_map by blast
    then show ?thesis
      using session_okD(3) [OF assms] listed(2) unfolding index_ok_def by auto
  qed
  then have I: "?I = set ?ins"
    unfolding captured_instruments_def by blast
  have xs: "ms_instrument_id ` mi_snapshot ` set ?xs \<subseteq> ?I"
    unfolding I by (auto simp: case_prod_beta intro: rev_image_eqI)
  have cover: "covered ?I (set ?os) (pb_state B)"
    unfolding I using session_okD(5) [OF assms] by (auto simp: covered_def book_ok_def)
  have "kept B w (staged_operation sha (capture (pb_state B) ?os [] ?ins)
      (then_do (market_kernel sha (pb_costs B) (pb_participation B) (pb_session_id B) ?xs)
        (\<lambda>(specs, fills). give (specs, fills, Aware (ms_observed_at (fst (snd (hd cohort))))))) B w)"
  proof (rule staged_kept [OF assms cover])
    fix v T assume "then_do (market_kernel sha (pb_costs B) (pb_participation B) (pb_session_id B) ?xs)
        (\<lambda>(specs, fills). give (specs, fills, Aware (ms_observed_at (fst (snd (hd cohort)))))) (pb_state B) = (v, T)"
    then obtain u where "market_kernel sha (pb_costs B) (pb_participation B) (pb_session_id B) ?xs (pb_state B) = (u, T)"
      by (auto simp: outcome_simps split: prod.split_asm)
    from alongD [OF market_kernel_tracked [OF xs] this] show "tracked ?I (set ?os) (set []) ?I (pb_state B) T" .
  next
    fix specs x u T
    assume "then_do (market_kernel sha (pb_costs B) (pb_participation B) (pb_session_id B) ?xs)
        (\<lambda>(specs, fills). give (specs, fills, Aware (ms_observed_at (fst (snd (hd cohort)))))) (pb_state B) = (Inr (specs, x, u), T)"
    then obtain fills where "market_kernel sha (pb_costs B) (pb_participation B) (pb_session_id B) ?xs (pb_state B) = (Inr (specs, fills), T)"
      by (auto simp: action_simps split: prod.split_asm)
    then show "session_ok T"
      using market_kernel_ok assms by blast
  qed
  then show ?thesis
    by (simp add: process_snapshots_def Let_def Inr)
qed (simp add: process_snapshots_def kept_refused assms)

lemma on_snapshots_kept:
  assumes "session_ok (pb_state B)"
  shows "kept B w (on_snapshots sha events B w)" and "kept B w (on_rolling_snapshots sha windows B w)"
    and "kept B w (on_snapshot sha m ins B w)" and "kept B w (on_rolling_snapshot sha v ins B w)"
  using process_snapshots_kept [OF assms]
  by (simp_all add: on_snapshots_def on_rolling_snapshots_def on_snapshot_def on_rolling_snapshot_def Let_def
      kept_refused assms split: sum.split)

section \<open>Every step\<close>

lemma kept_outcome:
  assumes "kept B w x" "outcome_of x = (v, B', w')"
  shows "session_ok (pb_state B') \<and> pb_session_id B' = pb_session_id B \<and> (\<forall>e. v = Some e \<longrightarrow> e \<noteq> conflict_exn \<longrightarrow>
    world_of_raise B w e w' \<and> pb_audit_events B' = pb_audit_events B \<and> same_state (pb_state B) (pb_state B'))"
  using assms by (cases x; cases "fst x") (auto simp: kept_def outcome_of_def)

lemma paper_step_kept:
  assumes "session_ok (pb_state B)" "fresh_number sha op B" "paper_step sha op B w = (v, B', w')"
  shows "session_ok (pb_state B') \<and> pb_session_id B' = pb_session_id B \<and> (\<forall>e. v = Some e \<longrightarrow> e \<noteq> conflict_exn \<longrightarrow>
    world_of_raise B w e w' \<and> pb_audit_events B' = pb_audit_events B \<and> same_state (pb_state B) (pb_state B'))"
proof -
  have resolved: "kept B w (resolve sha k s t activity B w)" if "s \<in> {CANCELLED, REJECTED, EXPIRED, UNKNOWN}" for k s t activity
    by (rule resolve_kept [OF assms(1)]) (use that in auto)
  note market = on_snapshots_kept [OF assms(1)]
  show ?thesis
  proof (cases op)
    case (PSubmit i m)
    show ?thesis
      by (rule kept_outcome [OF submit_kept [OF assms(1,2) [unfolded PSubmit]] assms(3) [unfolded PSubmit paper_step.simps]])
  next
    case (PCancel k t)
    show ?thesis
      by (rule kept_outcome [OF _ assms(3) [unfolded PCancel paper_step.simps]]) (simp add: cancel_def resolved)
  next
    case (PReject k t code)
    show ?thesis
      by (rule kept_outcome [OF _ assms(3) [unfolded PReject paper_step.simps]])
        (simp add: reject_def resolved kept_refused [OF assms(1)])
  next
    case (PExpire k t)
    show ?thesis
      by (rule kept_outcome [OF _ assms(3) [unfolded PExpire paper_step.simps]]) (simp add: expire_def resolved)
  next
    case (PMarkUnknown k t)
    show ?thesis
      by (rule kept_outcome [OF _ assms(3) [unfolded PMarkUnknown paper_step.simps]]) (simp add: mark_unknown_def resolved)
  next
    case (PReconcile k s t)
    show ?thesis
      by (rule kept_outcome [OF reconcile_unknown_kept [OF assms(1)] assms(3) [unfolded PReconcile paper_step.simps]])
  next
    case (PReconcileFills a fills ins)
    show ?thesis
      by (rule kept_outcome [OF reconcile_fills_kept [OF assms(1)] assms(3) [unfolded PReconcileFills paper_step.simps]])
  next
    case (PSnapshot m ins)
    show ?thesis
      by (rule kept_outcome [OF market(3) assms(3) [unfolded PSnapshot paper_step.simps]])
  next
    case (PSnapshots events)
    show ?thesis
      by (rule kept_outcome [OF market(1) assms(3) [unfolded PSnapshots paper_step.simps]])
  next
    case (PRolling v ins)
    show ?thesis
      by (rule kept_outcome [OF market(4) assms(3) [unfolded PRolling paper_step.simps]])
  next
    case (PRollings windows)
    show ?thesis
      by (rule kept_outcome [OF market(2) assms(3) [unfolded PRollings paper_step.simps]])
  qed
qed


section \<open>Properties\<close>

text \<open>Sessions: a new broker, then any operations; no new order gets a number that is taken.\<close>

inductive paper_session :: "(string \<Rightarrow> string) \<Rightarrow> 'w paper_broker \<Rightarrow> bool" for sha :: "string \<Rightarrow> string" where
  opened: "make_paper_broker sha costs cash currency participation recorder session_id = Inr B \<Longrightarrow> paper_session sha B"
| stepped: "paper_session sha B \<Longrightarrow> fresh_number sha op B \<Longrightarrow> paper_step sha op B w = (v, B', w') \<Longrightarrow> paper_session sha B'"

lemma opened_ok: "make_paper_broker sha costs cash currency participation recorder session_id = Inr B \<Longrightarrow> session_ok (pb_state B)"
  by (auto simp: make_paper_broker_def rbind_eq_Inr session_ok_def book_ok_def index_ok_def index_get_def ledger_init_def
      positions_ok_def)

lemma session_ok_session: "paper_session sha B \<Longrightarrow> session_ok (pb_state B)"
  by (induction rule: paper_session.induct) (auto intro: opened_ok dest: paper_step_kept)

text \<open>C5: In every session of the paper broker, after any operations and whatever they raised: an order is stored
  under its own number and never filled beyond its size, and one that is FILLED has nothing left; every intent has
  exactly one order; the executable and the unknown orders of each instrument are exactly those of its two indexes,
  in order; every fill has an identifier of its own and the ledger has booked exactly the fills of the log.\<close>

theorem paper_session_sound:
  assumes "paper_session sha B"
  shows "session_ok (pb_state B)"
  by (rule session_ok_session) (rule assms)

text \<open>C6: An operation of the paper broker that raises leaves no trace in the session, wherever the exception
  arose: in a kernel that had already changed orders, fills, prices or the ledger, in the numbering of the
  commit or in the recorder.  The audit events are as before, and so is the session, up to the order of
  its dicts.  The world is as before too, unless the recorder itself raised the exception: then it is what
  the recorder left.  The one exception raised after a commit, a conflicting repetition of an intent, is
  left out.\<close>

theorem failed_operation_leaves_no_trace:
  assumes "session_ok (pb_state B)" "fresh_number sha op B" "paper_step sha op B w = (Some e, B', w')" "e \<noteq> conflict_exn"
  shows "pb_audit_events B' = pb_audit_events B \<and> same_state (pb_state B) (pb_state B') \<and>
    (w' = w \<or> (\<exists>record_events batch. pb_recorder B = Some record_events \<and> record_events batch w = (Inl e, w')))"
  using paper_step_kept [OF assms(1-3)] assms(4) unfolding world_of_raise_def by blast

text \<open>C40: Submitting an intent again returns the order it already has, only if the intent is the same in every
  field, and changes nothing of the session, neither an order nor an index, a fill, a price or the account,
  but the two sequence numbers and the digest of the audit trail.\<close>

theorem resubmission_is_idempotent:
  assumes "submit sha i m B w = (Inr b, B', w')"
    and "dget (px_client_orders (pb_state B)) (oi_intent_id i) = Some k"
  shows "(\<exists>r. dget (px_orders (pb_state B)) k = Some r \<and> po_intent r = i \<and> b = po_order r) \<and>
    (\<exists>n j d. pb_state B' = (pb_state B)\<lparr>px_event_sequence := n, px_operation_sequence := j, px_state_digest := d\<rparr>)"
proof -
  obtain r where s: "staged_operation sha (capture (pb_state B) [k] [oi_intent_id i] [])
      (then_do (idempotency_kernel i) (\<lambda>(specs, r, conflict, t). give (specs, (r, conflict), Aware t))) B w
      = (Inr (r, False), B', w')" "b = po_order r"
    using assms by (auto simp: submit_def Let_def split: sum.split_asm prod.split_asm if_split_asm)
  then obtain T specs t where t: "then_do (idempotency_kernel i) (\<lambda>(specs, r, conflict, t). give (specs, (r, conflict), Aware t))
      (pb_state B) = (Inr (specs, (r, False), t), T)" "commit sha specs t (B\<lparr>pb_state := T\<rparr>) w = (Inr (), B', w')"
    by (auto simp: staged_operation_def split: sum.split_asm prod.split_asm)
  have "renumbered (pb_state B) (pb_state B')"
    using commit_cases(1) [OF t(2)] repetition_outcome(1) [OF t(1)] by simp
  then show ?thesis
    using repetition_outcome(2) [OF t(1) refl] s(2) assms(2) by (auto simp: renumbered_def)
qed

section \<open>A session\<close>

definition paper_demo :: "unit paper_broker result" where
  "paper_demo = make_paper_broker paper_sha default_costs 1000 ''USD'' 1 None ''s''"

definition paper_one :: market_snapshot where "paper_one = paper_snap [paper_bar 1 100]"

definition paper_submitted :: "exn option \<times> unit paper_broker \<times> unit" where
  "paper_submitted = paper_step paper_sha (PSubmit paper_buy paper_one) (projr paper_demo) ()"

lemma paper_demo_runs: "is_ok paper_demo"
  by code_simp

lemma paper_submitted_runs: "fst paper_submitted = None"
  by code_simp

theorem paper_session_sound_witness:
  "fst paper_submitted = None \<and> session_ok (pb_state (fst (snd paper_submitted)))"
proof -
  obtain B where B: "paper_demo = Inr B"
    using paper_demo_runs by (auto simp: is_ok_iff)
  then have "paper_session paper_sha B"
    unfolding paper_demo_def by (rule paper_session.opened)
  moreover have "fresh_number paper_sha (PSubmit paper_buy paper_one) B"
    using B by (auto simp: paper_demo_def make_paper_broker_def rbind_eq_Inr fresh_number_def)
  moreover have "paper_step paper_sha (PSubmit paper_buy paper_one) B () =
      (fst paper_submitted, fst (snd paper_submitted), snd (snd paper_submitted))"
    by (simp only: paper_submitted_def B sum.sel prod.collapse)
  ultimately have "paper_session paper_sha (fst (snd paper_submitted))"
    by (rule paper_session.stepped)
  then show ?thesis
    using paper_session_sound paper_submitted_runs by blast
qed

text \<open>The same session, written out, with a recorder that refuses everything or with none.\<close>

definition paper_cursor :: market_cursor where
  "paper_cursor = \<lparr>mc_total_count = 1, mc_digest = paper_sha [], mc_window = [paper_bar 1 100], mc_last_delta_digest = None\<rparr>"

definition paper_ready :: "(event_append list \<Rightarrow> unit \<Rightarrow> unit result \<times> unit) option \<Rightarrow> unit paper_broker" where
  "paper_ready recorder = \<lparr>pb_costs = default_costs, pb_starting_cash = 1000, pb_currency = ''USD'', pb_participation = 1,
     pb_recorder = recorder, pb_session_id = ''s'', pb_audit_events = [],
     pb_state = paper_start\<lparr>px_orders := [(''o1'', fresh_record paper_buy paper_one ''o1'')],
       px_client_orders := [(''intent-1'', ''o1'')], px_active := [(''AAPL@alpaca'', [''o1''])],
       px_snapshots := [(''AAPL@alpaca'', paper_one)], px_cursors := [(''AAPL@alpaca'', paper_cursor)],
       px_event_sequence := 7, px_operation_sequence := 1, px_latest_at := Some 1\<rparr>\<rparr>"

definition refuse :: "(event_append list \<Rightarrow> unit \<Rightarrow> unit result \<times> unit) option" where
  "refuse = Some (\<lambda>_ w. (Inl (RuntimeError ''disk full''), w))"

lemma paper_ready_ok: "session_ok (pb_state (paper_ready recorder))"
  by (auto simp: paper_ready_def session_ok_def book_ok_def index_ok_def index_get_def paper_start_def ledger_init_def
      positions_ok_def record_sound_def fresh_record_def fresh_order_def paper_buy_def is_market_executable_def closed_statuses_def)

text \<open>A kernel can stop half-way: changed metadata is noticed only after the price of the bar is stored.\<close>

lemma paper_stops_halfway:
  "case observe_market paper_sha default_costs 1 ''s'' (paper_snap [paper_bar 1 100, paper_bar 2 101])
      (paper_share\<lparr>ins_quantity_step := 2\<rparr>)
      ((pb_state (paper_ready None))\<lparr>px_instruments := [(''AAPL@alpaca'', paper_share)]\<rparr>) of
     (v, S) \<Rightarrow> \<not> is_ok v \<and> px_market_prices S = [(''AAPL@alpaca'', 101)]"
  by code_simp

lemma paper_refused: "fst (paper_step paper_sha (PCancel ''o1'' (Aware 5)) (paper_ready refuse) ()) = Some (RuntimeError ''disk full'')"
  by code_simp

theorem failed_operation_leaves_no_trace_witness:
  "\<exists>B'. paper_step paper_sha (PCancel ''o1'' (Aware 5)) (paper_ready refuse) () = (Some (RuntimeError ''disk full''), B', ()) \<and>
     same_state (pb_state (paper_ready refuse)) (pb_state B')"
proof -
  obtain B' where B': "paper_step paper_sha (PCancel ''o1'' (Aware 5)) (paper_ready refuse) () =
      (Some (RuntimeError ''disk full''), B', ())"
    using paper_refused by (cases "paper_step paper_sha (PCancel ''o1'' (Aware 5)) (paper_ready refuse) ()") auto
  show ?thesis
    using failed_operation_leaves_no_trace [OF paper_ready_ok _ B'] B' by (simp add: fresh_number_def)
qed

lemma paper_repeated: "is_ok (fst (submit paper_sha paper_buy paper_one (paper_ready None) ()))"
  by code_simp

theorem resubmission_is_idempotent_witness:
  "\<exists>b B'. submit paper_sha paper_buy paper_one (paper_ready None) () = (Inr b, B', ()) \<and> bo_order_id b = ''o1'' \<and>
     px_orders (pb_state B') = px_orders (pb_state (paper_ready None)) \<and>
     px_unknown (pb_state B') = px_unknown (pb_state (paper_ready None))"
proof -
  obtain b B' where s: "submit paper_sha paper_buy paper_one (paper_ready None) () = (Inr b, B', ())"
    using paper_repeated by (cases "submit paper_sha paper_buy paper_one (paper_ready None) ()") (auto simp: is_ok_iff)
  have "dget (px_client_orders (pb_state (paper_ready None))) (oi_intent_id paper_buy) = Some ''o1''"
    by (simp add: paper_ready_def paper_buy_def)
  from resubmission_is_idempotent [OF s this] s show ?thesis
    by (auto simp: paper_ready_def fresh_record_def fresh_order_def)
qed

end
