(* ===== verification/Spec2Isabelle.thy ===== *)
theory Spec2Isabelle
  imports OrderMachine LedgerRecovery Risk FillModel EventStore Security LiveRuns LiveRisk MetricsFacts SchedulerFacts
    Ensemble PaperSession
begin

text \<open>
  A verification development for OmniMarket Sentinel (\<open>src/src/market_sentinel\<close>), a trading system that
  turns market data into signals, signals into risk-checked order intents, and intents into orders of a
  backtest, of a deterministic paper broker or, behind a long chain of gates, of a live broker.

  \<^bold>\<open>How the program's parts interact, and where they are.\<close>  Sources are relative to
  \<open>src/src/market_sentinel\<close>.

  \<^item> \<open>Prelude\<close>: exceptions as values (\<open>exn\<close>, \<open>'a result\<close>), dicts in insertion order, shared rules.
    \<open>Decimals\<close>: \<open>decimal.Decimal\<close> under the default context, 28 digits rounded half to even.
    \<open>Timestamps\<close>, \<open>ExactText\<close>, \<open>Canonical\<close>, \<open>Json\<close>: the texts that identities hash (ISO timestamps,
    \<open>execution/canonical.py\<close>, \<open>_canonical_decimal_text\<close> of \<open>execution/paper.py\<close>, \<open>json.dumps\<close>), and
    that these texts determine what they encode.
  \<^item> \<open>Domain\<close>: \<open>domain/models.py\<close>, \<open>domain/enums.py\<close>, \<open>domain/clock.py\<close>, \<open>data/freshness.py\<close>, the fixed
    limits of \<open>config.py\<close>.  \<open>OrderMachine\<close>: \<open>execution/state_machine.py\<close> as functions and as a step
    relation with its audit trail.
  \<^item> \<open>Ledger\<close>, \<open>LedgerRecovery\<close>, \<open>LedgerSteps\<close>: \<open>portfolio/ledger.py\<close>; the ledger is the book of the paper
    broker, of the backtest and of reconciliation.  \<open>LedgerSteps\<close> has fills and marks write by write, for
    the clients that go on after an exception.  The locale \<open>once_account\<close> is what a client of the ledger relies on.
  \<^item> \<open>Strategies\<close>, \<open>Ensemble\<close>: \<open>strategies/\<close>, from bars to signals and from signals to one signal.
    \<open>Risk\<close>: \<open>risk/policy.py\<close> and \<open>risk/engine.py\<close>, from a signal to a sized, assessed intent.
  \<^item> \<open>FillModel\<close>: cost model, adverse fills and liquidity allocation of \<open>backtest/engine.py\<close>, shared with the
    paper broker.  \<open>Backtest\<close>, \<open>BacktestFacts\<close>: the simulation.  \<open>Metrics\<close>, \<open>MetricsFacts\<close>:
    \<open>backtest/metrics.py\<close> and \<open>backtest/promotion.py\<close>, which measure a run and decide on promotion.
  \<^item> \<open>EventStore\<close>: \<open>storage/events.py\<close>, \<open>storage/db.py\<close> and \<open>operations/audit.py\<close>, the append-only log under
    everything durable.  Its locale states what the safety roles, the scheduler and the paper journal rely
    on.  \<open>Security\<close>: the label detector of \<open>security.py\<close> that redacts what is stored.
  \<^item> \<open>Actions\<close>, \<open>Safety\<close>, \<open>SafetyRules\<close>, \<open>SafetyAuthority\<close>, \<open>SafetyMachine\<close>, \<open>SafetyLive\<close>:
    \<open>execution/safety.py\<close>, signed safety events over the log: kill switch, submission interlock,
    confirmations, reports, fenced claims.
  \<^item> \<open>Approval\<close>, \<open>Confirmations\<close>: \<open>execution/approval.py\<close>.  \<open>Reconcile\<close>, \<open>ReconcileFacts\<close>:
    \<open>execution/reconcile.py\<close>.  \<open>Capabilities\<close>, \<open>Live\<close>, \<open>LiveFacts\<close>, \<open>LiveRuns\<close>, \<open>LiveRisk\<close>:
    \<open>execution/base.py\<close>, \<open>brokers/preflight.py\<close>, \<open>execution/live.py\<close>, and the composition of reconciliation,
    approval and live submission.
  \<^item> \<open>Paper\<close>, \<open>PaperOrders\<close>, \<open>PaperKernels\<close>, \<open>PaperBroker\<close>, \<open>PaperJournal\<close>, \<open>PaperOutcomes\<close>,
    \<open>PaperFacts\<close>, \<open>PaperSession\<close>:
    \<open>execution/paper.py\<close>.  \<open>paper_state\<close> is \<open>_PaperState\<close>; a public operation captures the keys it may
    change (\<open>capture\<close>), runs a kernel (\<open>submit_kernel\<close>, \<open>idempotency_kernel\<close>, \<open>market_kernel\<close>,
    \<open>resolution_kernel\<close>, \<open>reconciliation_kernel\<close>), which changes the state in place, write by write, commits
    it with its events to the recorder (\<open>commit\<close>), and, wherever an exception arises, undoes what has been
    written by then (\<open>rollback\<close>).  The recorder is a parameter that returns its own state also when it raises.
  \<^item> \<open>Scheduler\<close>, \<open>SchedulerFacts\<close>: \<open>operations/scheduler.py\<close>, jobs that race for durable claims.

  \<^bold>\<open>Conventions.\<close>  A record of the code is a \<open>record\<close> with the validators of its constructor as functions;
  an enum is a \<open>datatype\<close>; a datetime stored in a record is an integer of microseconds in UTC and one
  that arrives as an argument may be naive (\<open>pydt\<close>).  A raise is \<open>Inl\<close> of the exception; operations that
  have written before they raise return the state as well.  Python integers are \<open>int\<close>.  SHA-256, HMAC, random
  identifiers, readings of the clock, calendars and time zones, strategies, broker answers and recorders
  are parameters; where a property needs more of them than their type, such as that two texts of one run
  have different digests, it is a hypothesis and the witness instantiates it.

  \<^bold>\<open>What the lemmas show.\<close>  The property of each claim stands before its theorem.  In groups:

  \<^item> orders: a fill is only reached through every gate, each transition leaves exactly one audit event;
  \<^item> book-keeping: fills and marks keep the ledger well formed, the accounting identity holds where no value
    needs rounding, rollback and recovery restore the ledger, exports can be read back;
  \<^item> signals and risk: what strategies and the ensemble emit, approval is equivalent to the conjunction of
    all limits, sized intents pass the assessment;
  \<^item> execution models: fills are adverse, liquidity is handed out once, a simulation never looks ahead and
    agrees with its ledger, a fill of the paper broker is admitted by order, clock and book,
    a session of the paper broker keeps orders, indexes, fills and ledger in agreement, and an operation that
    raises, wherever in it, leaves no trace;
  \<^item> the log: accepted payloads, atomic fenced appends, read-back, redaction;
  \<^item> safety and live trading: claims only in a safe state under races, one open submission, kill switch,
    confirmations spent once, one submission after every gate, ambiguity stops trading, and that an approved
    order with healthy services does go through, at whatever readings of the clock within the windows;
  \<^item> scheduling: at most one execution per due instant, no overlap, claimed runs are inert.

  \<^bold>\<open>Bounds and fuel.\<close>  Two functions count down: the label detector, whose rounds are the decoding rounds the
  code itself bounds, so that running out is the code's own refusal, and \<open>frac_digits\<close>, whose bound
  (\<open>max_decimal_places\<close>) is the number of decimal places the encoders accept.  All other recursion is
  structural or has a measure.  Decimals have no exponent limits: the context's \<open>Emax\<close> of 999999 lies beyond
  every bound the encoders accept; a computation on values that no encoder has seen can raise
  \<open>decimal.Overflow\<close> in the code and has a result here.

  \<^bold>\<open>Not modelled.\<close>  In \<open>execution/paper.py\<close> the rehydration of a durable session, which parses and
  replays its events through the kernels and compares digests.  Locks and threads: an operation is one
  step, and the interleavings that matter (safety claims, the scheduler) are explicit.  Free-text redaction by
  regular expressions in \<open>security.py\<close> and reading the environment in \<open>config.py\<close>.  The adapters of
  \<open>brokers/\<close> and \<open>research/tauric.py\<close>, clients of packages and processes outside the repository; the
  provider protocol and row parsing of \<open>data/\<close>; \<open>operations/dashboard.py\<close>,
  \<open>operations/fixture_pipeline.py\<close>, \<open>cli.py\<close> and the scripts, which wire, print and serve what the
  modelled parts compute.
\<close>

end
